(* ===== verification/Prelude.thy ===== *)
theory Prelude
  imports Main "HOL-Library.Word" "HOL-Library.Multiset"
begin

text \<open>
  Shared vocabulary of the development: the machine-integer types of the Rust sources, the
  fact collections the component theories fill, and the generic lemmas on lists, options,
  maps and words that several components use.

  \<^item> \<open>u8\<close>, \<open>u16\<close>, \<open>u32\<close>, \<open>u64\<close> are Rust's fixed-width integers; \<open>usize\<close> counters are
    natural numbers, with \<open>usize_MAX\<close> (a 64-bit target) written out where the source
    saturates or names the bound.
  \<^item> \<open>bytes\<close> is a byte slice or a \<open>Vec<u8>\<close>.
  \<^item> \<open>count_if\<close> is the length of a filtered iterator (\<open>iter().filter(p).count()\<close>).
  \<^item> \<open>find_pos\<close> is \<open>iter().position(p)\<close>.
\<close>

named_theorems invar_simps \<open>definitions of the component invariants\<close>
named_theorems wire_simps \<open>readers applied to what the writers wrote\<close>
named_theorems step_simps \<open>characteristic equations of state-changing operations\<close>

type_synonym u8 = "8 word"
type_synonym u16 = "16 word"
type_synonym u32 = "32 word"
type_synonym u64 = "64 word"
type_synonym bytes = "u8 list"

text \<open>\<open>std::net::Ipv4Addr\<close> by its four octets.\<close>

datatype ipv4 = Ipv4 u8 u8 u8 u8

definition usize_MAX :: nat where
  "usize_MAX = 2 ^ 64 - 1"

subsection \<open>Counting and searching in lists\<close>

definition count_if :: "('a \<Rightarrow> bool) \<Rightarrow> 'a list \<Rightarrow> nat" where
  "count_if p xs = length (filter p xs)"

lemma count_if_Nil [simp]: "count_if p [] = 0"
  by (simp add: count_if_def)

lemma count_if_Cons [simp]: "count_if p (x # xs) = (if p x then 1 else 0) + count_if p xs"
  by (simp add: count_if_def)

lemma count_if_append [simp]: "count_if p (xs @ ys) = count_if p xs + count_if p ys"
  by (simp add: count_if_def)

lemma count_if_le_length: "count_if p xs \<le> length xs"
  by (simp add: count_if_def)

lemma count_if_mono: "(\<And>x. x \<in> set xs \<Longrightarrow> p x \<Longrightarrow> q x) \<Longrightarrow> count_if p xs \<le> count_if q xs"
  by (induction xs) auto

lemma count_if_cong: "(\<And>x. x \<in> set xs \<Longrightarrow> p x = q x) \<Longrightarrow> count_if p xs = count_if q xs"
  by (induction xs) auto

lemma count_if_eq_0_iff: "count_if p xs = 0 \<longleftrightarrow> (\<forall>x \<in> set xs. \<not> p x)"
  by (induction xs) auto

lemma count_if_mset: "count_if p xs = size (filter_mset p (mset xs))"
  by (induction xs) auto

lemma count_if_perm: "mset xs = mset ys \<Longrightarrow> count_if p xs = count_if p ys"
  by (simp add: count_if_mset)

lemma count_if_filter_le: "count_if p (filter q xs) \<le> count_if p xs"
  by (induction xs) auto

fun find_pos :: "('a \<Rightarrow> bool) \<Rightarrow> 'a list \<Rightarrow> nat option" where
  "find_pos p [] = None"
| "find_pos p (x # xs) = (if p x then Some 0 else map_option Suc (find_pos p xs))"

lemma find_pos_None: "find_pos p xs = None \<longleftrightarrow> (\<forall>x \<in> set xs. \<not> p x)"
  by (induction xs) auto

lemma find_pos_SomeD:
  "find_pos p xs = Some i \<Longrightarrow> i < length xs \<and> p (xs ! i) \<and> (\<forall>j < i. \<not> p (xs ! j))"
proof (induction xs arbitrary: i)
  case (Cons x xs)
  then show ?case
    by (auto simp: nth_Cons split: if_splits nat.splits)
qed simp

text \<open>Splitting a list at the position found: the shape every remove-by-position proof uses.\<close>

lemma find_pos_split:
  assumes "find_pos p xs = Some i"
  obtains ys x zs where "xs = ys @ x # zs" "length ys = i" "p x" "\<forall>y \<in> set ys. \<not> p y"
proof -
  from find_pos_SomeD [OF assms] have i: "i < length xs" "p (xs ! i)" "\<forall>j < i. \<not> p (xs ! j)"
    by auto
  show thesis
  proof (rule that)
    show "xs = take i xs @ xs ! i # drop (Suc i) xs"
      using i(1) by (rule id_take_nth_drop)
    show "length (take i xs) = i" using i(1) by simp
    show "p (xs ! i)" by (fact i(2))
    show "\<forall>y \<in> set (take i xs). \<not> p y"
      using i(1,3) by (auto simp: in_set_conv_nth)
  qed
qed

definition remove_at :: "nat \<Rightarrow> 'a list \<Rightarrow> 'a list" where
  "remove_at i xs = take i xs @ drop (Suc i) xs"

lemma remove_at_split [simp]: "length ys = i \<Longrightarrow> remove_at i (ys @ x # zs) = ys @ zs"
  by (simp add: remove_at_def)

lemma nth_split [simp]: "length ys = i \<Longrightarrow> (ys @ x # zs) ! i = x"
  by (simp add: nth_append)

lemma find_append: "find p (xs @ ys) = (case find p xs of None \<Rightarrow> find p ys | Some x \<Rightarrow> Some x)"
  by (induction xs) auto

lemma find_None_conv: "find p xs = None \<longleftrightarrow> (\<forall>x \<in> set xs. \<not> p x)"
  by (induction xs) auto

lemma find_SomeD: "find p xs = Some x \<Longrightarrow> x \<in> set xs \<and> p x"
  by (induction xs) (auto split: if_splits)

text \<open>A list with distinct keys: looking an element up by its key finds exactly that element.\<close>

lemma find_distinct_key:
  "distinct (map k xs) \<Longrightarrow> x \<in> set xs \<Longrightarrow> find (\<lambda>y. k y = k x) xs = Some x"
  by (induction xs) (auto intro: rev_image_eqI)

subsection \<open>Counter maps\<close>

text \<open>
  \<open>HashMap<K, usize>\<close> used as a multiset of keys: \<open>entry(k).or_insert(0) += 1\<close> and the
  decrement that removes the entry when it reaches zero. Their common meaning is the count
  \<open>map_count\<close> (\<open>get(k).copied().unwrap_or(0)\<close>).
\<close>

definition map_count :: "('k \<rightharpoonup> nat) \<Rightarrow> 'k \<Rightarrow> nat" where
  "map_count m k = (case m k of None \<Rightarrow> 0 | Some n \<Rightarrow> n)"

definition count_inc :: "'k \<Rightarrow> ('k \<rightharpoonup> nat) \<Rightarrow> ('k \<rightharpoonup> nat)" where
  "count_inc k m = m(k \<mapsto> map_count m k + 1)"

definition count_dec :: "'k \<Rightarrow> ('k \<rightharpoonup> nat) \<Rightarrow> ('k \<rightharpoonup> nat)" where
  "count_dec k m =
     (case m k of
        None \<Rightarrow> m
      | Some n \<Rightarrow> if n > 1 then m(k \<mapsto> n - 1) else m(k := None))"

lemma map_count_empty [simp]: "map_count Map.empty k = 0"
  by (simp add: map_count_def)

lemma map_count_inc [simp]:
  "map_count (count_inc k m) k' = map_count m k' + (if k' = k then 1 else 0)"
  by (simp add: count_inc_def map_count_def)

lemma map_count_dec [simp]:
  "map_count (count_dec k m) k' = map_count m k' - (if k' = k then 1 else 0)"
  by (auto simp: count_dec_def map_count_def split: option.splits)

subsection \<open>Results\<close>

text \<open>The error monad's bind: Rust's \<open>?\<close> operator on \<open>Result\<close>.\<close>

definition bind_res :: "'e + 'a \<Rightarrow> ('a \<Rightarrow> 'e + 'b) \<Rightarrow> 'e + 'b" where
  "bind_res r f = (case r of Inl e \<Rightarrow> Inl e | Inr x \<Rightarrow> f x)"

lemma bind_res_simps [simp]:
  "bind_res (Inl e) f = Inl e"
  "bind_res (Inr x) f = f x"
  by (simp_all add: bind_res_def)

lemma bind_res_eq_Inr: "bind_res r f = Inr y \<longleftrightarrow> (\<exists>x. r = Inr x \<and> f x = Inr y)"
  by (cases r) auto

lemma bind_res_cong [fundef_cong]:
  "r = r' \<Longrightarrow> (\<And>x. r' = Inr x \<Longrightarrow> f x = f' x) \<Longrightarrow> bind_res r f = bind_res r' f'"
  by (cases r') auto

end
