(* ===== verification/Node_Id.thy ===== *)
theory Node_Id
  imports Prelude
begin

unbundle bit_operations_syntax

text \<open>
  The 128-bit Kad identifier of \<open>crates/overlord-kad-proto/src/node_id.rs\<close>: the byte array,
  the little-endian 32-bit chunks of eMule's \<open>CUInt128\<close>, the XOR distance, the bit test that
  steers the routing tree, and the total order used to sort by distance. The specification
  side is \<open>nid_nat\<close>, the 128-bit number a node identifier denotes: chunk order, XOR distance
  and bit test are shown to be the order, the XOR and the bits of that number.
\<close>

subsection \<open>Fixed arrays of sixteen bytes\<close>

typedef u8x16 = "{bs :: bytes. length bs = 16}"
  morphisms list16 Arr16
  by (rule exI [of _ "replicate 16 0"]) simp

lemma length_list16 [simp]: "length (list16 a) = 16"
  using list16 [of a] by simp

lemma list16_Arr16 [simp]: "length bs = 16 \<Longrightarrow> list16 (Arr16 bs) = bs"
  by (simp add: Arr16_inverse)

lemma Arr16_list16 [simp]: "Arr16 (list16 a) = a"
  by (rule list16_inverse)

lemma u8x16_eqI: "list16 a = list16 b \<Longrightarrow> a = b"
  by (simp add: list16_inject)

lemma Arr16_inject_len [simp]:
  "length bs = 16 \<Longrightarrow> length cs = 16 \<Longrightarrow> Arr16 bs = Arr16 cs \<longleftrightarrow> bs = cs"
  by (simp add: Arr16_inject)

instantiation u8x16 :: equal
begin

definition equal_u8x16_def: "HOL.equal a b \<longleftrightarrow> list16 a = list16 b"

instance
  by standard (simp add: equal_u8x16_def list16_inject)

end

lemma u8x16_eq_nth: "a = b \<longleftrightarrow> (\<forall>k < 16. list16 a ! k = list16 b ! k)"
  by (auto simp: list_eq_iff_nth_eq simp flip: list16_inject)

subsection \<open>Data and operations\<close>

datatype node_id = NodeId u8x16

fun nid_array :: "node_id \<Rightarrow> u8x16" where
  "nid_array (NodeId a) = a"

definition nid_bytes :: "node_id \<Rightarrow> bytes" where
  "nid_bytes x = list16 (nid_array x)"

definition nid_ZERO :: node_id where
  "nid_ZERO = NodeId (Arr16 (replicate 16 0))"

definition from_bytes :: "u8x16 \<Rightarrow> node_id" where
  "from_bytes b = NodeId b"

text \<open>The copy loop over the four chunks, each of them reversed.\<close>

definition swap_chunks :: "bytes \<Rightarrow> bytes" where
  "swap_chunks bs =
     concat (map (\<lambda>chunk_idx. let start = chunk_idx * 4 in
       [bs ! (start + 3), bs ! (start + 2), bs ! (start + 1), bs ! start]) [0..<4])"

definition from_be_bytes :: "u8x16 \<Rightarrow> node_id" where
  "from_be_bytes b = NodeId (Arr16 (swap_chunks (list16 b)))"

definition to_be_bytes :: "node_id \<Rightarrow> u8x16" where
  "to_be_bytes x = Arr16 (swap_chunks (nid_bytes x))"

definition u32_from_le_bytes :: "u8 \<Rightarrow> u8 \<Rightarrow> u8 \<Rightarrow> u8 \<Rightarrow> u32" where
  "u32_from_le_bytes a b c d =
     ucast a OR push_bit 8 (ucast b) OR push_bit 16 (ucast c) OR push_bit 24 (ucast d)"

definition chunk_u32 :: "node_id \<Rightarrow> nat \<Rightarrow> u32" where
  "chunk_u32 x index =
     (let start = index * 4; bs = nid_bytes x in
      u32_from_le_bytes (bs ! start) (bs ! (start + 1)) (bs ! (start + 2)) (bs ! (start + 3)))"

definition distance :: "node_id \<Rightarrow> node_id \<Rightarrow> node_id" where
  "distance x y =
     NodeId (Arr16 (map (\<lambda>index. nid_bytes x ! index XOR nid_bytes y ! index) [0..<16]))"

definition leading_zeros :: "u32 \<Rightarrow> nat" where
  "leading_zeros w = (case find (\<lambda>k. bit w (31 - k)) [0..<32] of None \<Rightarrow> 32 | Some k \<Rightarrow> k)"

fun distance_exp_loop :: "node_id \<Rightarrow> nat list \<Rightarrow> nat option" where
  "distance_exp_loop x [] = None"
| "distance_exp_loop x (chunk_idx # is) =
     (let chunk = chunk_u32 x chunk_idx in
      if chunk \<noteq> 0 then Some (chunk_idx * 32 + leading_zeros chunk)
      else distance_exp_loop x is)"

definition distance_exp :: "node_id \<Rightarrow> node_id \<Rightarrow> nat option" where
  "distance_exp x y = distance_exp_loop (distance x y) [0..<4]"

definition nid_bit :: "node_id \<Rightarrow> nat \<Rightarrow> bool" where
  "nid_bit x pos =
     (let chunk_idx = pos div 32 in
      if chunk_idx \<ge> 4 then False
      else let bit_idx = 31 - pos mod 32 in
        drop_bit bit_idx (chunk_u32 x chunk_idx) AND 1 = 1)"

datatype ordering = Less | Equal | Greater

definition compare :: "'a::linorder \<Rightarrow> 'a \<Rightarrow> ordering" where
  "compare x y = (if x < y then Less else if x = y then Equal else Greater)"

fun cmp_loop :: "node_id \<Rightarrow> node_id \<Rightarrow> nat list \<Rightarrow> ordering" where
  "cmp_loop x y [] = Equal"
| "cmp_loop x y (chunk_idx # is) =
     (let ord = compare (chunk_u32 x chunk_idx) (chunk_u32 y chunk_idx) in
      if ord \<noteq> Equal then ord else cmp_loop x y is)"

definition nid_cmp :: "node_id \<Rightarrow> node_id \<Rightarrow> ordering" where
  "nid_cmp x y = cmp_loop x y [0..<4]"


subsection \<open>Byte and bit level facts\<close>

lemma length_nid_bytes [simp]: "length (nid_bytes x) = 16"
  by (simp add: nid_bytes_def)

lemma nid_bytes_NodeId [simp]: "nid_bytes (NodeId a) = list16 a"
  by (simp add: nid_bytes_def)

lemma nid_eq_iff: "x = y \<longleftrightarrow> nid_bytes x = nid_bytes y"
  by (cases x; cases y) (simp add: list16_inject)

lemma upt_4: "[0..<4] = [0, 1, 2, 3::nat]"
  by (simp add: upt_rec)

lemma upt_16: "[0..<16] = [0, 1, 2, 3, 4, 5, 6, 7, 8, 9, 10, 11, 12, 13, 14, 15::nat]"
  by (simp add: upt_rec)

lemma less_4_cases: "(\<forall>i < 4. P i) \<longleftrightarrow> P 0 \<and> P 1 \<and> P 2 \<and> P (3::nat)"
proof -
  have "i < 4 \<longleftrightarrow> i = 0 \<or> i = 1 \<or> i = 2 \<or> i = 3" for i :: nat by linarith
  then show ?thesis by metis
qed

lemma list_16_nth:
  "length bs = 16 \<Longrightarrow> bs = [bs ! 0, bs ! 1, bs ! 2, bs ! 3, bs ! 4, bs ! 5, bs ! 6, bs ! 7,
     bs ! 8, bs ! 9, bs ! 10, bs ! 11, bs ! 12, bs ! 13, bs ! 14, bs ! 15]"
proof -
  assume "length bs = 16"
  then have "map (\<lambda>i. bs ! i) [0..<16] = bs" by (metis map_nth)
  then show ?thesis by (simp only: upt_16 list.map)
qed

lemma swap_chunks_eq:
  "swap_chunks bs = [bs ! 3, bs ! 2, bs ! 1, bs ! 0, bs ! 7, bs ! 6, bs ! 5, bs ! 4,
     bs ! 11, bs ! 10, bs ! 9, bs ! 8, bs ! 15, bs ! 14, bs ! 13, bs ! 12]"
  by (simp add: swap_chunks_def upt_4 Let_def flip: numeral_2_eq_2)

lemma length_swap_chunks [simp]: "length (swap_chunks bs) = 16"
  by (simp add: swap_chunks_eq)

lemma swap_chunks_swap_chunks: "length bs = 16 \<Longrightarrow> swap_chunks (swap_chunks bs) = bs"
  by (subst (2) list_16_nth) (simp_all add: swap_chunks_eq flip: numeral_2_eq_2)

lemma from_be_bytes_to_be_bytes: "from_be_bytes (to_be_bytes x) = x"
  by (cases x) (simp add: from_be_bytes_def to_be_bytes_def swap_chunks_swap_chunks)

lemma to_be_bytes_from_be_bytes: "to_be_bytes (from_be_bytes b) = b"
  by (simp add: from_be_bytes_def to_be_bytes_def swap_chunks_swap_chunks)

lemma nid_bytes_distance:
  "nid_bytes (distance x y) = map (\<lambda>i. nid_bytes x ! i XOR nid_bytes y ! i) [0..<16]"
  by (simp add: distance_def)

lemma nth_nid_bytes_distance [simp]:
  "i < 16 \<Longrightarrow> nid_bytes (distance x y) ! i = nid_bytes x ! i XOR nid_bytes y ! i"
  by (simp add: nid_bytes_distance)

lemma bit_u32_from_le_bytes:
  "bit (u32_from_le_bytes a b c d) k \<longleftrightarrow>
     (if k < 8 then bit a k else if k < 16 then bit b (k - 8)
      else if k < 24 then bit c (k - 16) else k < 32 \<and> bit d (k - 24))"
  by (auto simp: u32_from_le_bytes_def bit_simps dest: bit_imp_le_length)

lemma u32_from_le_bytes_xor:
  "u32_from_le_bytes (a XOR a') (b XOR b') (c XOR c') (d XOR d') =
     u32_from_le_bytes a b c d XOR u32_from_le_bytes a' b' c' d'"
  by (rule bit_word_eqI) (simp add: bit_u32_from_le_bytes bit_simps)

lemma chunk_u32_distance:
  "i < 4 \<Longrightarrow> chunk_u32 (distance x y) i = chunk_u32 x i XOR chunk_u32 y i"
  by (simp add: chunk_u32_def Let_def u32_from_le_bytes_xor)

lemma u32_from_le_bytes_inject:
  "u32_from_le_bytes a b c d = u32_from_le_bytes a' b' c' d' \<longleftrightarrow>
     a = a' \<and> b = b' \<and> c = c' \<and> d = d'"
proof
  assume eq: "u32_from_le_bytes a b c d = u32_from_le_bytes a' b' c' d'"
  have bits: "bit (u32_from_le_bytes a b c d) k = bit (u32_from_le_bytes a' b' c' d') k" for k
    by (simp add: eq)
  have "a = a'"
  proof (rule bit_word_eqI)
    fix n assume "n < LENGTH(8)"
    then show "bit a n = bit a' n"
      using bits [of n] by (simp add: bit_u32_from_le_bytes)
  qed
  moreover have "b = b'"
  proof (rule bit_word_eqI)
    fix n assume "n < LENGTH(8)"
    then show "bit b n = bit b' n"
      using bits [of "n + 8"] by (simp add: bit_u32_from_le_bytes)
  qed
  moreover have "c = c'"
  proof (rule bit_word_eqI)
    fix n assume "n < LENGTH(8)"
    then show "bit c n = bit c' n"
      using bits [of "n + 16"] by (simp add: bit_u32_from_le_bytes)
  qed
  moreover have "d = d'"
  proof (rule bit_word_eqI)
    fix n assume "n < LENGTH(8)"
    then show "bit d n = bit d' n"
      using bits [of "n + 24"] by (simp add: bit_u32_from_le_bytes)
  qed
  ultimately show "a = a' \<and> b = b' \<and> c = c' \<and> d = d'" by simp
qed simp

lemma nid_eq_chunks: "x = y \<longleftrightarrow> (\<forall>i < 4. chunk_u32 x i = chunk_u32 y i)"
proof
  assume "\<forall>i < 4. chunk_u32 x i = chunk_u32 y i"
  then have "chunk_u32 x 0 = chunk_u32 y 0" "chunk_u32 x 1 = chunk_u32 y 1"
    "chunk_u32 x 2 = chunk_u32 y 2" "chunk_u32 x 3 = chunk_u32 y 3"
    by simp_all
  then have "nid_bytes x = nid_bytes y"
    by (subst list_16_nth [of "nid_bytes x"], simp, subst list_16_nth [of "nid_bytes y"], simp)
      (simp add: chunk_u32_def Let_def u32_from_le_bytes_inject flip: numeral_2_eq_2)
  then show "x = y" by (simp add: nid_eq_iff)
qed simp

lemma nid_bit_iff: "nid_bit x pos \<longleftrightarrow> pos < 128 \<and> bit (chunk_u32 x (pos div 32)) (31 - pos mod 32)"
proof -
  have "drop_bit k w AND 1 = 1 \<longleftrightarrow> bit w k" for k and w :: u32
    by (simp add: bit_iff_odd_drop_bit and_one_eq odd_iff_mod_2_eq_one)
  then show ?thesis
    by (auto simp: nid_bit_def Let_def)
qed

lemma nid_bit_distance: "nid_bit (distance x y) pos \<longleftrightarrow> nid_bit x pos \<noteq> nid_bit y pos"
  by (cases "pos < 128") (simp_all add: nid_bit_iff chunk_u32_distance bit_simps)

subsection \<open>The number a node identifier denotes\<close>

definition nid_nat :: "node_id \<Rightarrow> nat" where
  "nid_nat x = ((unat (chunk_u32 x 0) * 2 ^ 32 + unat (chunk_u32 x 1)) * 2 ^ 32
     + unat (chunk_u32 x 2)) * 2 ^ 32 + unat (chunk_u32 x 3)"

lemma unat_u32_less [simp]: "unat (w :: u32) < 4294967296"
  using unsigned_less [of w] by simp

lemma compare_digit:
  fixes a b c d B :: nat
  assumes "c < B" "d < B"
  shows "compare (a * B + c) (b * B + d) = (if compare a b = Equal then compare c d else compare a b)"
proof -
  have less: "x * B + p < y * B + q" if "x < y" "p < B" for x y p q
  proof -
    have "x * B + p < Suc x * B" using that by simp
    also have "\<dots> \<le> y * B" using that by (intro mult_le_mono1) simp
    finally show ?thesis by simp
  qed
  show ?thesis
    using less [of a b c d] less [of b a d c] assms
    by (cases a b rule: linorder_cases) (auto simp: compare_def)
qed

lemma compare_unat [simp]: "compare (unat v) (unat w) = compare v (w :: 'a::len word)"
  by (simp add: compare_def word_less_nat_alt word_unat_eq_iff)

lemma nid_cmp_nat: "nid_cmp x y = compare (nid_nat x) (nid_nat y)"
proof -
  have "unat (w :: u32) < 2 ^ 32" for w by simp
  then show ?thesis
    by (simp only: nid_nat_def compare_digit compare_unat)
      (simp add: nid_cmp_def upt_4 Let_def)
qed

lemma nid_nat_inject [simp]: "nid_nat x = nid_nat y \<longleftrightarrow> x = y"
proof
  assume "nid_nat x = nid_nat y"
  then have "nid_cmp x y = Equal" by (simp add: nid_cmp_nat compare_def)
  then have "\<forall>i \<in> {0, 1, 2, 3}. chunk_u32 x i = chunk_u32 y i"
    by (auto simp: nid_cmp_def upt_4 Let_def compare_def split: if_splits)
  then show "x = y" unfolding nid_eq_chunks less_4_cases by simp
qed simp

instantiation node_id :: linorder
begin

definition less_eq_node_id_def: "x \<le> y \<longleftrightarrow> nid_cmp x y \<noteq> Greater"

definition less_node_id_def: "x < y \<longleftrightarrow> nid_cmp x y = Less"

instance
  by standard (auto simp: less_eq_node_id_def less_node_id_def nid_cmp_nat compare_def split: if_splits)

end

lemma nid_le_nat: "x \<le> y \<longleftrightarrow> nid_nat x \<le> nid_nat y"
  by (auto simp: less_eq_node_id_def nid_cmp_nat compare_def)

lemma nid_less_nat: "x < y \<longleftrightarrow> nid_nat x < nid_nat y"
  by (auto simp: less_node_id_def nid_cmp_nat compare_def)

lemma bit_digit:
  fixes x y :: nat
  assumes "x < 2 ^ n"
  shows "bit (y * 2 ^ n + x) k \<longleftrightarrow> (if k < n then bit x k else bit y (k - n))"
proof (cases "k < n")
  case True
  then have "(y * 2 ^ n + x) mod 2 ^ Suc k = x mod 2 ^ Suc k"
    by (metis Suc_leI le_imp_power_dvd dvd_mult mod_add_left_eq add_0 dvd_imp_mod_0)
  then have "take_bit (Suc k) (y * 2 ^ n + x) = take_bit (Suc k) x"
    by (simp only: take_bit_eq_mod)
  then show ?thesis
    using True by (metis bit_take_bit_iff lessI)
next
  case False
  then obtain m where k: "k = n + m" by (metis add.commute le_add_diff_inverse2 not_less)
  have "(y * 2 ^ n + x) div 2 ^ n = y" using assms by simp
  then show ?thesis
    by (simp add: k bit_iff_odd power_add div_mult2_eq)
qed

lemma pos_chunk:
  assumes "(r :: nat) < 32" "q < 4"
  shows "(127 - (32 * q + r)) div 32 = 3 - q" "31 - (127 - (32 * q + r)) mod 32 = r"
proof -
  have "127 - (32 * q + r) = (31 - r) + 32 * (3 - q)" using assms by simp
  then show "(127 - (32 * q + r)) div 32 = 3 - q" "31 - (127 - (32 * q + r)) mod 32 = r"
    using assms by (simp_all only: div_mult_self2 mod_mult_self2) simp_all
qed

lemma bit_nid_nat: "bit (nid_nat x) k \<longleftrightarrow> k < 128 \<and> nid_bit x (127 - k)"
proof -
  have [simp]: "unat (w :: u32) < 2 ^ 32" for w by simp
  have [simp]: "a - b < c" if "a < c" for a b c :: nat using that by simp
  have un: "bit (unat (w :: u32)) n = bit w n" for w n
    by (simp add: bit_unsigned_iff)
  have big: "\<not> bit (w :: u32) n" if "32 \<le> n" for w n
    using that by (auto dest: bit_imp_le_length)
  have bits: "bit (nid_nat x) k =
      (if k < 32 then bit (chunk_u32 x 3) k
       else if k - 32 < 32 then bit (chunk_u32 x 2) (k - 32)
       else if k - 32 - 32 < 32 then bit (chunk_u32 x 1) (k - 32 - 32)
       else bit (chunk_u32 x 0) (k - 32 - 32 - 32))" for k
    by (simp only: nid_nat_def bit_digit [OF \<open>\<And>w. unat (w :: u32) < 2 ^ 32\<close>] un)
  show ?thesis
  proof (cases "k < 128")
    case True
    define q r where "q = k div 32" and "r = k mod 32"
    then have qr: "k = 32 * q + r" "r < 32" "q < 4" using True by auto
    from qr(3) consider "q = 0" | "q = 1" | "q = 2" | "q = 3" by linarith
    then show ?thesis
      using qr(2) pos_chunk [OF qr(2,3)]
      by cases (simp_all add: bits qr(1) nid_bit_iff)
  next
    case False
    then show ?thesis by (simp add: bits big)
  qed
qed

lemma nid_nat_distance: "nid_nat (distance x y) = nid_nat x XOR nid_nat y"
  by (rule bit_eqI) (auto simp: bit_nid_nat bit_simps nid_bit_distance)

lemma nid_eq_bits: "x = y \<longleftrightarrow> (\<forall>pos < 128. nid_bit x pos = nid_bit y pos)"
proof
  assume "\<forall>pos < 128. nid_bit x pos = nid_bit y pos"
  then have "nid_nat x = nid_nat y" by (intro bit_eqI) (auto simp: bit_nid_nat)
  then show "x = y" by simp
qed simp

subsection \<open>The XOR metric\<close>

lemma xor_le_add: "x XOR y \<le> x + (y :: nat)"
proof (induction x arbitrary: y rule: less_induct)
  case (less x)
  show ?case
  proof (cases "x = 0")
    case False
    then have IH: "x div 2 XOR y div 2 \<le> x div 2 + y div 2" by (intro less) simp
    have "x XOR y = of_bool (odd x \<noteq> odd y) + 2 * (x div 2 XOR y div 2)"
      by (rule xor_nat_rec)
    moreover have "of_bool (odd x \<noteq> odd y) \<le> x mod 2 + y mod 2"
      by (auto simp: odd_iff_mod_2_eq_one even_iff_mod_2_eq_zero)
    moreover have "x = 2 * (x div 2) + x mod 2" "y = 2 * (y div 2) + y mod 2"
      by simp_all
    ultimately show ?thesis
      using IH by linarith
  qed simp
qed


lemma xor_triangle: "(x XOR z) \<le> (x XOR y) + (y XOR (z :: nat))"
proof -
  have "x XOR z = (x XOR y) XOR (y XOR z)"
    by (rule bit_eqI) (auto simp: bit_simps)
  then show ?thesis using xor_le_add by metis
qed

lemma distance_commute: "distance x y = distance y x"
  by (simp add: distance_def xor.commute)

lemma distance_self_iff: "distance x y = nid_ZERO \<longleftrightarrow> x = y"
proof -
  have "nid_nat nid_ZERO = 0"
    by (simp add: nid_nat_def chunk_u32_def nid_ZERO_def u32_from_le_bytes_def Let_def)
  then have "distance x y = nid_ZERO \<longleftrightarrow> nid_nat x XOR nid_nat y = 0"
    by (metis nid_nat_distance nid_nat_inject)
  also have "\<dots> \<longleftrightarrow> x = y"
    by (metis nid_nat_inject bit_eqI bit_0_eq bit_xor_iff bot_apply bot_bool_def xor_self_eq)
  finally show ?thesis .
qed

lemma distance_right_cancel [simp]: "distance x t = distance y t \<longleftrightarrow> x = y"
proof
  assume "distance x t = distance y t"
  then have "nid_bit x p = nid_bit y p" for p
    by (metis nid_bit_distance)
  then show "x = y" by (simp add: nid_eq_bits)
qed simp

text \<open>\<open>distance_exp\<close> is the length of the common bit prefix.\<close>

lemma find_upt_Some:
  "find p [0..<n] = Some k \<longleftrightarrow> k < n \<and> p k \<and> (\<forall>j < k. \<not> p j)"
  by (auto simp: find_Some_iff)

lemma leading_zeros_nonzero:
  assumes "w \<noteq> 0"
  shows "leading_zeros w < 32 \<and> bit w (31 - leading_zeros w) \<and>
    (\<forall>j < leading_zeros w. \<not> bit w (31 - j))"
proof -
  from assms obtain k where k: "bit w k" by (metis bit_eqI bit_0_eq bot_apply bot_bool_def)
  then have "k < 32" by (auto dest: bit_imp_le_length)
  then have "31 - k \<in> set [0..<32]" "bit w (31 - (31 - k))" using k by auto
  then have "find (\<lambda>k. bit w (31 - k)) [0..<32] \<noteq> None"
    by (auto simp: find_None_iff)
  then obtain n where n: "find (\<lambda>k. bit w (31 - k)) [0..<32] = Some n" by auto
  then have "n < 32 \<and> bit w (31 - n) \<and> (\<forall>j < n. \<not> bit w (31 - j))"
    by (rule iffD1 [OF find_upt_Some])
  moreover have "leading_zeros w = n" by (simp only: leading_zeros_def n option.case)
  ultimately show ?thesis by simp
qed

lemma first_nonzero_chunk:
  assumes "i < 4" "chunk_u32 z i \<noteq> 0" "\<forall>j < i. chunk_u32 z j = 0"
    and p: "p = i * 32 + leading_zeros (chunk_u32 z i)"
  shows "p < 128 \<and> nid_bit z p \<and> (\<forall>j < p. \<not> nid_bit z j)"
proof -
  note lz = leading_zeros_nonzero [OF assms(2)]
  have q: "p div 32 = i" "p mod 32 = leading_zeros (chunk_u32 z i)"
    using lz by (simp_all add: p)
  have "\<not> nid_bit z j" if "j < p" for j
  proof (cases "j div 32 = i")
    case True
    with \<open>j < p\<close> have "j mod 32 < leading_zeros (chunk_u32 z i)"
      unfolding p by (metis add_less_cancel_left div_mult_mod_eq)
    with True lz show ?thesis by (simp add: nid_bit_iff)
  next
    case False
    have "j div 32 \<le> p div 32" using \<open>j < p\<close> by (intro div_le_mono) simp
    with False q assms(3) show ?thesis by (simp add: nid_bit_iff)
  qed
  moreover have "p < 128" using lz assms(1) p by linarith
  ultimately show ?thesis using lz by (simp add: nid_bit_iff q)
qed

lemma distance_exp_loop_4:
  "distance_exp_loop z [0..<4] =
     (if chunk_u32 z 0 \<noteq> 0 then Some (0 * 32 + leading_zeros (chunk_u32 z 0))
      else if chunk_u32 z 1 \<noteq> 0 then Some (1 * 32 + leading_zeros (chunk_u32 z 1))
      else if chunk_u32 z 2 \<noteq> 0 then Some (2 * 32 + leading_zeros (chunk_u32 z 2))
      else if chunk_u32 z 3 \<noteq> 0 then Some (3 * 32 + leading_zeros (chunk_u32 z 3))
      else None)"
  by (simp add: upt_4 Let_def)

lemma distance_exp_loop_Some:
  assumes "distance_exp_loop z [0..<4] = Some p"
  shows "p < 128 \<and> nid_bit z p \<and> (\<forall>j < p. \<not> nid_bit z j)"
proof -
  let ?c = "chunk_u32 z"
  consider "?c 0 \<noteq> 0" | "?c 0 = 0" "?c 1 \<noteq> 0" | "?c 0 = 0" "?c 1 = 0" "?c 2 \<noteq> 0"
    | "?c 0 = 0" "?c 1 = 0" "?c 2 = 0" "?c 3 \<noteq> 0"
    using assms unfolding distance_exp_loop_4 by (metis option.distinct(1))
  then show ?thesis
  proof cases
    case 1
    with assms show ?thesis unfolding distance_exp_loop_4
      by (intro first_nonzero_chunk [of 0]) auto
  next
    case 2
    with assms show ?thesis unfolding distance_exp_loop_4
      by (intro first_nonzero_chunk [of 1]) auto
  next
    case 3
    have "\<forall>j < 2. ?c j = 0" using 3 by (auto simp: less_2_cases_iff)
    with 3 assms show ?thesis unfolding distance_exp_loop_4
      by (intro first_nonzero_chunk [of 2]) auto
  next
    case 4
    have "j < 3 \<Longrightarrow> j = 0 \<or> j = 1 \<or> j = 2" for j :: nat by linarith
    then have "\<forall>j < 3. ?c j = 0" using 4 by metis
    with 4 assms show ?thesis unfolding distance_exp_loop_4
      by (intro first_nonzero_chunk [of 3]) auto
  qed
qed

lemma distance_exp_loop_None:
  assumes "distance_exp_loop z [0..<4] = None"
  shows "\<not> nid_bit z p"
proof -
  from assms have "\<forall>i < 4. chunk_u32 z i = 0"
    unfolding distance_exp_loop_4 less_4_cases by (auto split: if_splits)
  then show ?thesis by (auto simp: nid_bit_iff)
qed

lemma distance_exp_None: "distance_exp x y = None \<longleftrightarrow> x = y"
proof
  assume "distance_exp x y = None"
  then have "\<not> nid_bit (distance x y) p" for p
    by (simp add: distance_exp_def distance_exp_loop_None)
  then show "x = y" by (simp add: nid_bit_distance nid_eq_bits)
next
  assume "x = y"
  then have "\<not> nid_bit (distance x y) p" for p by (simp add: nid_bit_distance)
  then show "distance_exp x y = None"
    by (metis distance_exp_def distance_exp_loop_Some option.exhaust)
qed

lemma distance_exp_Some:
  "distance_exp x y = Some p \<longleftrightarrow>
     p < 128 \<and> nid_bit x p \<noteq> nid_bit y p \<and> (\<forall>j < p. nid_bit x j = nid_bit y j)"
proof
  assume "distance_exp x y = Some p"
  then show "p < 128 \<and> nid_bit x p \<noteq> nid_bit y p \<and> (\<forall>j < p. nid_bit x j = nid_bit y j)"
    using distance_exp_loop_Some [of "distance x y"] by (simp add: distance_exp_def nid_bit_distance)
next
  assume r: "p < 128 \<and> nid_bit x p \<noteq> nid_bit y p \<and> (\<forall>j < p. nid_bit x j = nid_bit y j)"
  then have "x \<noteq> y" by auto
  then obtain q where q: "distance_exp x y = Some q"
    by (metis distance_exp_None option.exhaust)
  then have "nid_bit x q \<noteq> nid_bit y q \<and> (\<forall>j < q. nid_bit x j = nid_bit y j)"
    using distance_exp_loop_Some [of "distance x y"] by (simp add: distance_exp_def nid_bit_distance)
  with r have "p = q" by (metis linorder_neqE_nat)
  with q show "distance_exp x y = Some p" by simp
qed

end
