(* ===== verification/Utf8.thy ===== *)
theory Utf8
  imports Prelude
begin

text \<open>
  Rust's \<open>String\<close> as the codecs use it: a byte sequence that is well-formed UTF-8
  (\<open>utf8_valid\<close>), the checking conversion \<open>std::str::from_utf8\<close> and the replacing conversion
  \<open>String::from_utf8_lossy\<close>. A character is a lead byte followed by continuation bytes whose
  ranges the lead byte fixes (the table of well-formed sequences of the Unicode standard); an
  ill-formed sequence is replaced up to the first byte that cannot continue it.
\<close>

type_synonym rstring = bytes

definition utf8_cont :: "u8 \<Rightarrow> bool" where
  "utf8_cont b \<longleftrightarrow> 0x80 \<le> b \<and> b \<le> 0xBF"

text \<open>The checks a lead byte imposes on the bytes that follow it; \<open>None\<close>: not a lead byte.\<close>

definition utf8_lead :: "u8 \<Rightarrow> (u8 \<Rightarrow> bool) list option" where
  "utf8_lead b =
     (if b < 0x80 then Some []
      else if 0xC2 \<le> b \<and> b \<le> 0xDF then Some [utf8_cont]
      else if b = 0xE0 then Some [\<lambda>c. 0xA0 \<le> c \<and> c \<le> 0xBF, utf8_cont]
      else if b = 0xED then Some [\<lambda>c. 0x80 \<le> c \<and> c \<le> 0x9F, utf8_cont]
      else if 0xE1 \<le> b \<and> b \<le> 0xEF then Some [utf8_cont, utf8_cont]
      else if b = 0xF0 then Some [\<lambda>c. 0x90 \<le> c \<and> c \<le> 0xBF, utf8_cont, utf8_cont]
      else if 0xF1 \<le> b \<and> b \<le> 0xF3 then Some [utf8_cont, utf8_cont, utf8_cont]
      else if b = 0xF4 then Some [\<lambda>c. 0x80 \<le> c \<and> c \<le> 0x8F, utf8_cont, utf8_cont]
      else None)"

text \<open>Whether the following bytes pass the checks, and how many of them do.\<close>

fun utf8_tail :: "(u8 \<Rightarrow> bool) list \<Rightarrow> bytes \<Rightarrow> bool \<times> nat" where
  "utf8_tail [] bs = (True, 0)"
| "utf8_tail (p # ps) [] = (False, 0)"
| "utf8_tail (p # ps) (b # bs) =
     (if p b then (let (ok, n) = utf8_tail ps bs in (ok, Suc n)) else (False, 0))"

definition utf8_char :: "u8 \<Rightarrow> bytes \<Rightarrow> bool \<times> nat" where
  "utf8_char b bs = (case utf8_lead b of None \<Rightarrow> (False, 0) | Some ps \<Rightarrow> utf8_tail ps bs)"

fun utf8_valid :: "bytes \<Rightarrow> bool" where
  "utf8_valid [] \<longleftrightarrow> True"
| "utf8_valid (b # bs) \<longleftrightarrow> fst (utf8_char b bs) \<and> utf8_valid (drop (snd (utf8_char b bs)) bs)"

definition from_utf8 :: "bytes \<Rightarrow> rstring option" where
  "from_utf8 bs = (if utf8_valid bs then Some bs else None)"

text \<open>U+FFFD, the replacement character.\<close>

definition utf8_REPLACEMENT :: rstring where
  "utf8_REPLACEMENT = [0xEF, 0xBF, 0xBD]"

fun from_utf8_lossy :: "bytes \<Rightarrow> rstring" where
  "from_utf8_lossy [] = []"
| "from_utf8_lossy (b # bs) =
     (let (ok, n) = utf8_char b bs in
      (if ok then b # take n bs else utf8_REPLACEMENT) @ from_utf8_lossy (drop n bs))"

subsection \<open>Lemmas\<close>

lemma utf8_tail_append:
  "utf8_tail ps bs = (True, n) \<Longrightarrow> utf8_tail ps (take n bs @ cs) = (True, n)"
  by (induction ps bs arbitrary: n rule: utf8_tail.induct)
    (auto split: if_splits prod.splits)

lemma utf8_tail_le: "snd (utf8_tail ps bs) \<le> length bs"
  by (induction ps bs rule: utf8_tail.induct) (auto split: prod.splits)

lemma utf8_char_append:
  "utf8_char b bs = (True, n) \<Longrightarrow> utf8_char b (take n bs @ cs) = (True, n)"
  by (auto simp: utf8_char_def utf8_tail_append split: option.splits)

lemma utf8_char_le: "snd (utf8_char b bs) \<le> length bs"
  by (simp add: utf8_char_def utf8_tail_le split: option.split)

lemma utf8_valid_char:
  assumes "utf8_char b bs = (True, n)"
  shows "utf8_valid (b # take n bs @ cs) \<longleftrightarrow> utf8_valid cs"
proof -
  have "length (take n bs) = n"
    using assms utf8_char_le [of b bs] by simp
  then show ?thesis
    using utf8_char_append [OF assms, of cs] by simp
qed

lemma utf8_valid_REPLACEMENT [simp]: "utf8_valid (utf8_REPLACEMENT @ cs) \<longleftrightarrow> utf8_valid cs"
  by (simp add: utf8_REPLACEMENT_def utf8_char_def utf8_lead_def utf8_cont_def)

lemma length_utf8_REPLACEMENT [simp]: "length utf8_REPLACEMENT = 3"
  by (simp add: utf8_REPLACEMENT_def)

lemma from_utf8_lossy_valid: "utf8_valid (from_utf8_lossy bs)"
proof (induction bs rule: from_utf8_lossy.induct)
  case (2 b bs)
  obtain ok n where c: "utf8_char b bs = (ok, n)"
    by fastforce
  show ?case
    using 2 [OF c [symmetric] refl] c
    by (cases ok) (simp_all add: utf8_valid_char del: utf8_valid.simps(2))
qed simp

lemma from_utf8_lossy_id: "utf8_valid bs \<Longrightarrow> from_utf8_lossy bs = bs"
  by (induction bs rule: from_utf8_lossy.induct) (auto split: prod.splits)

lemma from_utf8_lossy_length: "length (from_utf8_lossy bs) \<le> 3 * length bs"
proof (induction bs rule: from_utf8_lossy.induct)
  case (2 b bs)
  obtain ok n where c: "utf8_char b bs = (ok, n)"
    by fastforce
  show ?case
    using 2 [OF c [symmetric] refl] c utf8_char_le [of b bs] by (cases ok) auto
qed simp

lemma from_utf8_lossy_invalid:
  "from_utf8_lossy (replicate n 0xFF) = concat (replicate n utf8_REPLACEMENT)"
  by (induction n) (simp_all add: utf8_char_def utf8_lead_def)

lemma utf8_valid_append: "utf8_valid bs \<Longrightarrow> utf8_valid (bs @ cs) \<longleftrightarrow> utf8_valid cs"
proof (induction bs rule: from_utf8_lossy.induct)
  case (2 b bs)
  obtain ok n where c: "utf8_char b bs = (ok, n)"
    by fastforce
  with 2 have v: "ok" "utf8_valid (drop n bs)"
    by auto
  have "utf8_valid (b # take n bs @ (drop n bs @ cs)) \<longleftrightarrow> utf8_valid (drop n bs @ cs)"
    using c v(1) by (intro utf8_valid_char) simp
  moreover have "b # take n bs @ (drop n bs @ cs) = (b # bs) @ cs"
    by (metis append.assoc append_Cons append_take_drop_id)
  ultimately show ?case
    using "2.IH" [OF c [symmetric] refl v(2)] by simp
qed simp

lemma utf8_valid_ascii: "(\<forall>b \<in> set bs. b < 0x80) \<Longrightarrow> utf8_valid bs"
  by (induction bs) (auto simp: utf8_char_def utf8_lead_def)

end
