(* ===== verification/Wire.thy ===== *)
theory Wire
  imports Node_Id Utf8
begin

text \<open>
  The byte-stream layer under the Kad packet codecs. The integer readers and writers of the
  \<open>binrw\<close> crate, the \<open>encoding_rs\<close> decoder and the \<open>flate2\<close> inflater are code outside the
  repository: they are the fields of the record \<open>ext\<close>, an argument of every codec, and what
  the codecs rely on is stated by \<open>binrw_ok\<close> (fixed width, reading back what was written,
  an I/O error on a short stream) and \<open>encoding_ok\<close> (the decoder returns a well-formed string).
  A stream is the list of the bytes still to be read; a reader returns an error or a value with
  the rest of the stream. A writer returns the bytes it appends; \<open>None\<close> stands for the panic of
  an \<open>expect\<close>, writing to a vector itself cannot fail.
\<close>

subsection \<open>Errors\<close>

text \<open>
  \<open>ProtoError\<close> of \<open>error.rs\<close>. A \<open>binrw::Error\<close> is kept up to its root cause: the stream
  position and the backtrace frames are dropped.
\<close>

datatype proto_error =
    ProtoIo
  | InvalidNodeId
  | UnknownTagType u8
  | UnknownOpcode u8
  | InvalidProtocol u8
  | BinRw binrw_error
  | InvalidUtf8
  | BufferTooShort
  | InvalidPacketSize u8 nat nat
  | DecompressError
and binrw_error = BinIo | BinCustom proto_error

subsection \<open>Readers and writers\<close>

type_synonym 'a reader = "bytes \<Rightarrow> binrw_error + ('a \<times> bytes)"

definition rret :: "'a \<Rightarrow> 'a reader" where
  "rret x s = Inr (x, s)"

definition rbind :: "'a reader \<Rightarrow> ('a \<Rightarrow> 'b reader) \<Rightarrow> 'b reader" where
  "rbind rd f s = bind_res (rd s) (\<lambda>(x, r). f x r)"

definition rfail :: "binrw_error \<Rightarrow> 'a reader" where
  "rfail e s = Inl e"

text \<open>\<open>Read::read_exact\<close> into a buffer of \<open>n\<close> bytes, over a cursor on a slice.\<close>

definition read_exact :: "nat \<Rightarrow> bytes reader" where
  "read_exact n s = (if length s < n then Inl BinIo else Inr (take n s, drop n s))"

text \<open>\<open>Read::read_to_end\<close>, which cannot fail on a cursor on a slice.\<close>

definition read_to_end :: "bytes reader" where
  "read_to_end s = Inr (s, [])"

primrec read_n :: "nat \<Rightarrow> 'a reader \<Rightarrow> 'a list reader" where
  "read_n 0 rd = rret []"
| "read_n (Suc n) rd = rbind rd (\<lambda>x. rbind (read_n n rd) (\<lambda>xs. rret (x # xs)))"

primrec wconcat :: "bytes option list \<Rightarrow> bytes option" where
  "wconcat [] = Some []"
| "wconcat (w # ws) = (case w of None \<Rightarrow> None | Some s \<Rightarrow> map_option (append s) (wconcat ws))"

definition write_n :: "('a \<Rightarrow> bytes option) \<Rightarrow> 'a list \<Rightarrow> bytes option" where
  "write_n wr xs = wconcat (map wr xs)"

lemma rret_apply [simp]: "rret x s = Inr (x, s)"
  by (simp add: rret_def)

lemma rfail_apply [simp]: "rfail e s = Inl e"
  by (simp add: rfail_def)

lemma rbind_Inr [simp]: "rd s = Inr (x, r) \<Longrightarrow> rbind rd f s = f x r"
  by (simp add: rbind_def)

lemma rbind_Inl [simp]: "rd s = Inl e \<Longrightarrow> rbind rd f s = Inl e"
  by (simp add: rbind_def)

lemma rbind_eq_Inr:
  "rbind rd f s = Inr y \<longleftrightarrow> (\<exists>x r. rd s = Inr (x, r) \<and> f x r = Inr y)"
  by (auto simp: rbind_def bind_res_eq_Inr)

lemma rbind_eq_Inl:
  "rbind rd f s = Inl e \<longleftrightarrow> rd s = Inl e \<or> (\<exists>x r. rd s = Inr (x, r) \<and> f x r = Inl e)"
  by (cases "rd s") (auto simp: rbind_def)

lemma read_exact_append [simp]: "length t = n \<Longrightarrow> read_exact n (t @ r) = Inr (t, r)"
  by (simp add: read_exact_def)

lemma read_exact_eq_Inr: "read_exact n s = Inr (t, r) \<longleftrightarrow> s = t @ r \<and> length t = n"
  by (auto simp: read_exact_def)

lemma read_exact_eq_Inl: "read_exact n s = Inl e \<longleftrightarrow> e = BinIo \<and> length s < n"
  by (auto simp: read_exact_def)

lemma wconcat_None: "wconcat ws = None \<longleftrightarrow> (\<exists>w \<in> set ws. w = None)"
  by (induction ws) (auto split: option.splits)

lemma wconcat_simps [simp]:
  "wconcat (Some s # ws) = map_option (append s) (wconcat ws)" "wconcat (None # ws) = None"
  by simp_all

declare wconcat.simps(2) [simp del]

lemma write_n_None: "write_n wr xs = None \<longleftrightarrow> (\<exists>x \<in> set xs. wr x = None)"
  unfolding write_n_def by (force simp: wconcat_None)

subsection \<open>Little-endian words\<close>

text \<open>\<open>to_le_bytes\<close> and \<open>from_le_bytes\<close> of the integer types.\<close>

definition le_bytes :: "nat \<Rightarrow> 'a::len word \<Rightarrow> bytes" where
  "le_bytes n w = map (\<lambda>k. ucast (drop_bit (8 * k) w)) [0..<n]"

primrec le_word :: "bytes \<Rightarrow> 'a::len word" where
  "le_word [] = 0"
| "le_word (b # bs) = ucast b OR push_bit 8 (le_word bs)"

lemma length_le_bytes [simp]: "length (le_bytes n w) = n"
  by (simp add: le_bytes_def)

lemma bit_le_word:
  "bit (le_word bs :: 'a::len word) k \<longleftrightarrow>
     k < LENGTH('a) \<and> k div 8 < length bs \<and> bit (bs ! (k div 8)) (k mod 8)"
proof (induction bs arbitrary: k)
  case (Cons b bs)
  show ?case
  proof (cases "k < 8")
    case True
    then show ?thesis
      by (auto simp: bit_or_iff bit_push_bit_iff bit_ucast_iff)
  next
    case False
    then have k: "k div 8 = Suc ((k - 8) div 8)" "(k - 8) mod 8 = k mod 8"
      by (simp_all add: le_div_geq le_mod_geq)
    have "\<not> bit b k"
      using False bit_imp_le_length [of b k] by auto
    then show ?thesis
      using False k by (auto simp: bit_or_iff bit_push_bit_iff bit_ucast_iff Cons.IH)
  qed
qed simp

lemma le_word_le_bytes:
  assumes "LENGTH('a::len) = 8 * n"
  shows "le_word (le_bytes n w) = (w :: 'a word)"
proof (rule bit_word_eqI)
  fix k
  assume k: "k < LENGTH('a)"
  then have "k div 8 < n" "k mod 8 < 8" "8 * (k div 8) + k mod 8 = k"
    using assms by auto
  then show "bit (le_word (le_bytes n w) :: 'a word) k = bit w k"
    using k by (simp add: bit_le_word) (simp add: le_bytes_def bit_ucast_iff bit_drop_bit_eq)
qed

lemma le_bytes_le_word:
  assumes "LENGTH('a::len) = 8 * n" and "length bs = n"
  shows "le_bytes n (le_word bs :: 'a word) = bs"
proof (rule nth_equalityI)
  fix k
  assume "k < length (le_bytes n (le_word bs :: 'a word))"
  then have k: "k < n"
    by simp
  show "le_bytes n (le_word bs :: 'a word) ! k = bs ! k"
  proof (rule bit_word_eqI)
    fix j
    assume j: "j < LENGTH(8)"
    then have "(8 * k + j) div 8 = k" "(8 * k + j) mod 8 = j" "8 * k + j < LENGTH('a)"
      using k assms by simp_all
    then show "bit (le_bytes n (le_word bs :: 'a word) ! k) j = bit (bs ! k) j"
      using j k assms(2) by (simp add: le_bytes_def bit_ucast_iff bit_drop_bit_eq bit_le_word)
  qed
qed (simp add: assms)

subsection \<open>The external readers and writers\<close>

record ext =
  br_u8 :: "u8 reader"
  br_u16 :: "u16 reader"
  br_u32 :: "u32 reader"
  br_u64 :: "u64 reader"
  br_f32 :: "u32 reader"
  bw_u8 :: "u8 \<Rightarrow> bytes"
  bw_u16 :: "u16 \<Rightarrow> bytes"
  bw_u32 :: "u32 \<Rightarrow> bytes"
  bw_u64 :: "u64 \<Rightarrow> bytes"
  bw_f32 :: "u32 \<Rightarrow> bytes"
  windows_1252 :: "bytes \<Rightarrow> rstring"
  zlib_inflate :: "bytes \<Rightarrow> bytes option"

text \<open>
  A primitive of width \<open>w\<close>: every value is written in \<open>w\<close> bytes and read back, every \<open>w\<close>
  bytes are the image of a value, and a shorter stream is an I/O error. A 32-bit float is its
  IEEE bit pattern.
\<close>

definition prim_ok :: "nat \<Rightarrow> 'a reader \<Rightarrow> ('a \<Rightarrow> bytes) \<Rightarrow> bool" where
  "prim_ok w rd wr \<longleftrightarrow>
     (\<forall>x. length (wr x) = w) \<and>
     (\<forall>x r. rd (wr x @ r) = Inr (x, r)) \<and>
     (\<forall>s. length s < w \<longrightarrow> rd s = Inl BinIo) \<and>
     (\<forall>s. w \<le> length s \<longrightarrow> (\<exists>x. s = wr x @ drop w s))"

definition binrw_ok :: "ext \<Rightarrow> bool" where
  "binrw_ok B \<longleftrightarrow>
     (\<forall>x. bw_u8 B x = [x]) \<and>
     prim_ok 1 (br_u8 B) (bw_u8 B) \<and>
     prim_ok 2 (br_u16 B) (bw_u16 B) \<and>
     prim_ok 4 (br_u32 B) (bw_u32 B) \<and>
     prim_ok 8 (br_u64 B) (bw_u64 B) \<and>
     prim_ok 4 (br_f32 B) (bw_f32 B)"

definition encoding_ok :: "ext \<Rightarrow> bool" where
  "encoding_ok B \<longleftrightarrow> (\<forall>s. utf8_valid (windows_1252 B s))"

lemma prim_okD:
  assumes "prim_ok w rd wr"
  shows "length (wr x) = w" and "rd (wr x @ r) = Inr (x, r)" and "rd (wr x) = Inr (x, [])"
    and "length s < w \<Longrightarrow> rd s = Inl BinIo"
    and "rd s = Inr (x, r) \<longleftrightarrow> s = wr x @ r"
    and "rd s = Inl e \<longleftrightarrow> e = BinIo \<and> length s < w"
proof -
  show 1: "length (wr x) = w" and 2: "rd (wr x @ r) = Inr (x, r)" for x r
    using assms by (simp_all add: prim_ok_def)
  from 2 [of x "[]"] show "rd (wr x) = Inr (x, [])"
    by simp
  show 3: "length s < w \<Longrightarrow> rd s = Inl BinIo" for s
    using assms by (simp add: prim_ok_def)
  have 4: "\<exists>y. s = wr y @ drop w s" if "\<not> length s < w"
    using assms that by (simp add: prim_ok_def)
  show "rd s = Inr (x, r) \<longleftrightarrow> s = wr x @ r"
    using 2 3 4 by (metis Inl_Inr_False old.sum.inject(2) prod.inject)
  show "rd s = Inl e \<longleftrightarrow> e = BinIo \<and> length s < w"
    using 2 3 4 by (metis Inl_Inr_False old.sum.inject(1))
qed

lemma binrw_okD:
  assumes "binrw_ok B"
  shows "prim_ok 1 (br_u8 B) (bw_u8 B)" and "prim_ok 2 (br_u16 B) (bw_u16 B)"
    and "prim_ok 4 (br_u32 B) (bw_u32 B)" and "prim_ok 8 (br_u64 B) (bw_u64 B)"
    and "prim_ok 4 (br_f32 B) (bw_f32 B)" and "bw_u8 B x = [x]"
  using assms by (simp_all add: binrw_ok_def)

text \<open>The facts of the primitives, as rewrite rules under \<open>binrw_ok B\<close>.\<close>

lemmas prim_simps [wire_simps] =
  binrw_okD(6)
  prim_okD(1,2,3) [OF binrw_okD(1)] prim_okD(1,2,3) [OF binrw_okD(2)]
  prim_okD(1,2,3) [OF binrw_okD(3)] prim_okD(1,2,3) [OF binrw_okD(4)]
  prim_okD(1,2,3) [OF binrw_okD(5)]

lemmas prim_eqs =
  prim_okD(5,6) [OF binrw_okD(1)] prim_okD(5,6) [OF binrw_okD(2)]
  prim_okD(5,6) [OF binrw_okD(3)] prim_okD(5,6) [OF binrw_okD(4)]
  prim_okD(5,6) [OF binrw_okD(5)]

lemma br_u8_Cons [wire_simps]: "binrw_ok B \<Longrightarrow> br_u8 B (x # r) = Inr (x, r)"
  using prim_okD(2) [OF binrw_okD(1), of B x r] binrw_okD(6) [of B x] by simp

text \<open>The instance that the integer types of the standard library give.\<close>

definition le_read :: "nat \<Rightarrow> 'a::len word reader" where
  "le_read w s = (if length s < w then Inl BinIo else Inr (le_word (take w s), drop w s))"

definition le_ext :: "(bytes \<Rightarrow> rstring) \<Rightarrow> (bytes \<Rightarrow> bytes option) \<Rightarrow> ext" where
  "le_ext W Z = \<lparr> br_u8 = le_read 1, br_u16 = le_read 2, br_u32 = le_read 4, br_u64 = le_read 8,
     br_f32 = le_read 4, bw_u8 = le_bytes 1, bw_u16 = le_bytes 2, bw_u32 = le_bytes 4,
     bw_u64 = le_bytes 8, bw_f32 = le_bytes 4, windows_1252 = W, zlib_inflate = Z \<rparr>"

lemma le_prim_ok:
  assumes "LENGTH('a::len) = 8 * w"
  shows "prim_ok w (le_read w) (le_bytes w :: 'a word \<Rightarrow> bytes)"
proof -
  have "\<exists>x. s = le_bytes w (x :: 'a word) @ drop w s" if "w \<le> length s" for s
    using le_bytes_le_word [OF assms, of "take w s"] that append_take_drop_id [of w s]
    by (metis length_take min.absorb2)
  then show ?thesis
    by (auto simp: prim_ok_def le_read_def le_word_le_bytes [OF assms])
qed

lemma le_ext_ok [simp]: "binrw_ok (le_ext W Z)"
proof -
  have "le_bytes 1 x = [x]" for x :: u8
    by (simp add: le_bytes_def)
  then show ?thesis
    unfolding binrw_ok_def le_ext_def by (auto intro: le_prim_ok)
qed

lemma le_ext_encoding [simp]: "encoding_ok (le_ext W Z) \<longleftrightarrow> (\<forall>s. utf8_valid (W s))"
  by (simp add: encoding_ok_def le_ext_def)

subsection \<open>Lengths and counted lists\<close>

text \<open>\<open>u8::try_from(len).expect(...)\<close> and its wider versions.\<close>

definition try_u8 :: "nat \<Rightarrow> u8 option" where
  "try_u8 n = (if n < 2 ^ 8 then Some (of_nat n) else None)"

definition try_u16 :: "nat \<Rightarrow> u16 option" where
  "try_u16 n = (if n < 2 ^ 16 then Some (of_nat n) else None)"

definition try_u32 :: "nat \<Rightarrow> u32 option" where
  "try_u32 n = (if n < 2 ^ 32 then Some (of_nat n) else None)"

text \<open>
  \<open>#[br(count = count)] Vec<T>\<close> behind a \<open>u8\<close> or \<open>u16\<close> count, as \<open>binrw\<close> derives it: the
  count, then that many elements one after the other.
\<close>

definition read_vec8 :: "ext \<Rightarrow> 'a reader \<Rightarrow> 'a list reader" where
  "read_vec8 B rd = rbind (br_u8 B) (\<lambda>count. read_n (unat count) rd)"

definition read_vec16 :: "ext \<Rightarrow> 'a reader \<Rightarrow> 'a list reader" where
  "read_vec16 B rd = rbind (br_u16 B) (\<lambda>count. read_n (unat count) rd)"

definition write_vec8 :: "ext \<Rightarrow> ('a \<Rightarrow> bytes option) \<Rightarrow> 'a list \<Rightarrow> bytes option" where
  "write_vec8 B wr xs = wconcat [map_option (bw_u8 B) (try_u8 (length xs)), write_n wr xs]"

definition write_vec16 :: "ext \<Rightarrow> ('a \<Rightarrow> bytes option) \<Rightarrow> 'a list \<Rightarrow> bytes option" where
  "write_vec16 B wr xs = wconcat [map_option (bw_u16 B) (try_u16 (length xs)), write_n wr xs]"

lemma unat_try [simp]:
  "n < 256 \<Longrightarrow> unat (of_nat n :: u8) = n" "n < 65536 \<Longrightarrow> unat (of_nat n :: u16) = n"
  "n < 4294967296 \<Longrightarrow> unat (of_nat n :: u32) = n"
  by (simp_all add: unsigned_of_nat take_bit_nat_eq_self)

subsection \<open>Codecs\<close>

text \<open>
  The contract between a writer and its reader: what is written for an acceptable value is
  read back, up to the normalisation \<open>norm\<close> of the wire format, whatever follows it.
\<close>

locale codec =
  fixes rd :: "'a reader" and wr :: "'a \<Rightarrow> bytes option"
    and ok :: "'a \<Rightarrow> bool" and norm :: "'a \<Rightarrow> 'a"
  assumes round_trip: "ok x \<Longrightarrow> \<exists>s. wr x = Some s \<and> (\<forall>r. rd (s @ r) = Inr (norm x, r))"
begin

lemma list_round_trip:
  "\<forall>x \<in> set xs. ok x \<Longrightarrow>
     \<exists>s. write_n wr xs = Some s \<and> (\<forall>r. read_n (length xs) rd (s @ r) = Inr (map norm xs, r))"
proof (induction xs)
  case (Cons x xs)
  obtain s where s: "wr x = Some s" "\<And>r. rd (s @ r) = Inr (norm x, r)"
    using round_trip [of x] Cons.prems by auto
  obtain t where t: "write_n wr xs = Some t"
      "\<And>r. read_n (length xs) rd (t @ r) = Inr (map norm xs, r)"
    using Cons by auto
  show ?case
    using s t by (intro exI [of _ "s @ t"]) (simp add: write_n_def)
qed (simp add: write_n_def)

lemma vec8_codec:
  "codec (read_vec8 B rd) (write_vec8 B wr)
     (\<lambda>xs. binrw_ok B \<and> length xs < 256 \<and> (\<forall>x \<in> set xs. ok x)) (map norm)"
proof
  fix xs
  assume *: "binrw_ok B \<and> length xs < 256 \<and> (\<forall>x \<in> set xs. ok x)"
  then obtain s where s: "write_n wr xs = Some s"
      "\<And>r. read_n (length xs) rd (s @ r) = Inr (map norm xs, r)"
    using list_round_trip by blast
  show "\<exists>s. write_vec8 B wr xs = Some s \<and> (\<forall>r. read_vec8 B rd (s @ r) = Inr (map norm xs, r))"
    using * s by (simp add: write_vec8_def read_vec8_def try_u8_def wire_simps)
qed

lemma vec16_codec:
  "codec (read_vec16 B rd) (write_vec16 B wr)
     (\<lambda>xs. binrw_ok B \<and> length xs < 65536 \<and> (\<forall>x \<in> set xs. ok x)) (map norm)"
proof
  fix xs
  assume *: "binrw_ok B \<and> length xs < 65536 \<and> (\<forall>x \<in> set xs. ok x)"
  then obtain s where s: "write_n wr xs = Some s"
      "\<And>r. read_n (length xs) rd (s @ r) = Inr (map norm xs, r)"
    using list_round_trip by blast
  show "\<exists>s. write_vec16 B wr xs = Some s \<and> (\<forall>r. read_vec16 B rd (s @ r) = Inr (map norm xs, r))"
    using * s by (simp add: write_vec16_def read_vec16_def try_u16_def wire_simps)
qed

end

text \<open>A reader that only returns values satisfying an invariant.\<close>

locale sound_reader =
  fixes rd :: "'a reader" and inv :: "'a \<Rightarrow> bool"
  assumes sound: "rd s = Inr (x, r) \<Longrightarrow> inv x"
begin

lemma list_sound: "read_n n rd s = Inr (xs, r) \<Longrightarrow> length xs = n \<and> (\<forall>x \<in> set xs. inv x)"
  by (induction n arbitrary: s xs r) (auto simp: rbind_eq_Inr dest: sound)

lemma vec8_sound:
  "sound_reader (read_vec8 B rd) (\<lambda>xs. length xs < 256 \<and> (\<forall>x \<in> set xs. inv x))"
proof
  fix s xs r
  assume "read_vec8 B rd s = Inr (xs, r)"
  then obtain count t where "read_n (unat (count :: u8)) rd t = Inr (xs, r)"
    by (auto simp: read_vec8_def rbind_eq_Inr)
  then show "length xs < 256 \<and> (\<forall>x \<in> set xs. inv x)"
    using list_sound unsigned_less [of count] by fastforce
qed

lemma vec16_sound:
  "sound_reader (read_vec16 B rd) (\<lambda>xs. length xs < 65536 \<and> (\<forall>x \<in> set xs. inv x))"
proof
  fix s xs r
  assume "read_vec16 B rd s = Inr (xs, r)"
  then obtain count t where "read_n (unat (count :: u16)) rd t = Inr (xs, r)"
    by (auto simp: read_vec16_def rbind_eq_Inr)
  then show "length xs < 65536 \<and> (\<forall>x \<in> set xs. inv x)"
    using list_sound unsigned_less [of count] by fastforce
qed

end

subsection \<open>Identifiers on the wire\<close>

datatype ed2k_hash = Ed2kHash u8x16

definition ed2k_ZERO :: ed2k_hash where
  "ed2k_ZERO = Ed2kHash (Arr16 (replicate 16 0))"

fun ed2k_array :: "ed2k_hash \<Rightarrow> u8x16" where
  "ed2k_array (Ed2kHash a) = a"

definition read_u8x16 :: "ext \<Rightarrow> u8x16 reader" where
  "read_u8x16 B = rbind (read_n 16 (br_u8 B)) (\<lambda>bs. rret (Arr16 bs))"

definition write_u8x16 :: "ext \<Rightarrow> u8x16 \<Rightarrow> bytes" where
  "write_u8x16 B a = concat (map (bw_u8 B) (list16 a))"

definition read_node_id :: "ext \<Rightarrow> node_id reader" where
  "read_node_id B = rbind (read_u8x16 B) (\<lambda>a. rret (NodeId a))"

definition write_node_id :: "ext \<Rightarrow> node_id \<Rightarrow> bytes" where
  "write_node_id B x = write_u8x16 B (nid_array x)"

definition read_ed2k_hash :: "ext \<Rightarrow> ed2k_hash reader" where
  "read_ed2k_hash B = rbind (read_u8x16 B) (\<lambda>a. rret (Ed2kHash a))"

definition write_ed2k_hash :: "ext \<Rightarrow> ed2k_hash \<Rightarrow> bytes" where
  "write_ed2k_hash B h = write_u8x16 B (ed2k_array h)"

lemma read_n_u8: "binrw_ok B \<Longrightarrow> length bs = n \<Longrightarrow> read_n n (br_u8 B) (bs @ r) = Inr (bs, r)"
proof (induction n arbitrary: bs)
  case (Suc n)
  then show ?case
    by (cases bs) (simp_all add: wire_simps)
qed simp

lemma write_u8x16: "binrw_ok B \<Longrightarrow> write_u8x16 B a = list16 a"
proof -
  assume "binrw_ok B"
  then have "bw_u8 B = (\<lambda>x. [x])"
    by (intro ext) (simp add: wire_simps)
  then show ?thesis
    by (simp add: write_u8x16_def)
qed

lemma read_u8x16 [wire_simps]:
  "binrw_ok B \<Longrightarrow> read_u8x16 B (write_u8x16 B a @ r) = Inr (a, r)"
  by (simp add: read_u8x16_def write_u8x16 read_n_u8)

lemma length_write_u8x16 [wire_simps]: "binrw_ok B \<Longrightarrow> length (write_u8x16 B a) = 16"
  by (simp add: write_u8x16)

lemma read_node_id [wire_simps]:
  "binrw_ok B \<Longrightarrow> read_node_id B (write_node_id B x @ r) = Inr (x, r)"
  by (cases x) (simp add: read_node_id_def write_node_id_def wire_simps)

lemma length_write_node_id [wire_simps]: "binrw_ok B \<Longrightarrow> length (write_node_id B x) = 16"
  by (simp add: write_node_id_def wire_simps)

lemma read_ed2k_hash [wire_simps]:
  "binrw_ok B \<Longrightarrow> read_ed2k_hash B (write_ed2k_hash B h @ r) = Inr (h, r)"
  by (cases h) (simp add: read_ed2k_hash_def write_ed2k_hash_def wire_simps)

lemma length_write_ed2k_hash [wire_simps]: "binrw_ok B \<Longrightarrow> length (write_ed2k_hash B h) = 16"
  by (simp add: write_ed2k_hash_def wire_simps)

end
