(* ===== verification/Hex_Text.thy ===== *)
theory Hex_Text
  imports Wire
begin

text \<open>
  The textual form of identifiers: \<open>Display\<close> and \<open>FromStr\<close> of \<open>NodeId\<close> (\<open>node_id.rs\<close>) and of
  \<open>Ed2kHash\<close> (\<open>hash.rs\<close>), with the parts of the standard library they use: hexadecimal and
  decimal formatting, \<open>from_str_radix\<close> and slicing of a string by byte positions, which panics
  (\<open>None\<close>) off a character boundary.
\<close>

subsection \<open>Formatting of numbers\<close>

definition hex_digit :: "nat \<Rightarrow> u8" where
  "hex_digit n = of_nat (if n < 10 then 48 + n else 87 + n)"

text \<open>Zero-padded lower-case hexadecimal, \<open>{:08x}\<close> and \<open>{:02x}\<close>.\<close>

primrec to_hex :: "nat \<Rightarrow> nat \<Rightarrow> rstring" where
  "to_hex 0 n = []"
| "to_hex (Suc k) n = to_hex k (n div 16) @ [hex_digit (n mod 16)]"

text \<open>Decimal formatting of unsigned integers.\<close>

fun show_nat :: "nat \<Rightarrow> rstring" where
  "show_nat n = (if n < 10 then [hex_digit n] else show_nat (n div 10) @ [hex_digit (n mod 10)])"

declare show_nat.simps [simp del]

subsection \<open>Parsing of numbers\<close>

text \<open>\<open>char::to_digit(16)\<close> on an ASCII byte.\<close>

definition to_digit16 :: "u8 \<Rightarrow> nat option" where
  "to_digit16 c =
     (let n = unat c in
      if 48 \<le> n \<and> n \<le> 57 then Some (n - 48)
      else if 97 \<le> n \<and> n \<le> 102 then Some (n - 87)
      else if 65 \<le> n \<and> n \<le> 70 then Some (n - 55)
      else None)"

fun radix16_loop :: "nat \<Rightarrow> nat \<Rightarrow> bytes \<Rightarrow> nat option" where
  "radix16_loop M acc [] = Some acc"
| "radix16_loop M acc (c # cs) =
     (case to_digit16 c of
        None \<Rightarrow> None
      | Some d \<Rightarrow> if acc * 16 + d > M then None else radix16_loop M (acc * 16 + d) cs)"

text \<open>
  \<open>from_str_radix(s, 16)\<close> of an unsigned type with maximum \<open>M\<close>: no empty input, one leading
  plus sign in front of at least one digit is skipped.
\<close>

definition from_str_radix16 :: "nat \<Rightarrow> bytes \<Rightarrow> nat option" where
  "from_str_radix16 M s =
     (case s of
        [] \<Rightarrow> None
      | c # cs \<Rightarrow>
          if (c = 43 \<or> c = 45) \<and> cs = [] then None
          else if c = 43 then radix16_loop M 0 cs
          else radix16_loop M 0 s)"

text \<open>The slice \<open>&s[a..b]\<close> with \<open>a \<le> b \<le> s.len()\<close>.\<close>

definition is_char_boundary :: "rstring \<Rightarrow> nat \<Rightarrow> bool" where
  "is_char_boundary s i \<longleftrightarrow> i = 0 \<or> i = length s \<or> (i < length s \<and> \<not> utf8_cont (s ! i))"

definition str_slice :: "rstring \<Rightarrow> nat \<Rightarrow> nat \<Rightarrow> rstring option" where
  "str_slice s a b =
     (if is_char_boundary s a \<and> is_char_boundary s b then Some (take (b - a) (drop a s)) else None)"

subsection \<open>Identifiers\<close>

definition nid_display :: "node_id \<Rightarrow> rstring" where
  "nid_display x = concat (map (\<lambda>chunk_idx. to_hex 8 (unat (chunk_u32 x chunk_idx))) [0..<4])"

fun nid_from_str_loop :: "rstring \<Rightarrow> nat list \<Rightarrow> bytes \<Rightarrow> (proto_error + bytes) option" where
  "nid_from_str_loop s [] bs = Some (Inr bs)"
| "nid_from_str_loop s (chunk_idx # is) bs =
     (let start = chunk_idx * 8 in
      case str_slice s start (start + 8) of
        None \<Rightarrow> None
      | Some t \<Rightarrow>
          (case from_str_radix16 (2 ^ 32 - 1) t of
             None \<Rightarrow> Some (Inl InvalidNodeId)
           | Some chunk \<Rightarrow> nid_from_str_loop s is (bs @ rev (le_bytes 4 (of_nat chunk :: u32)))))"

definition nid_from_str :: "rstring \<Rightarrow> (proto_error + node_id) option" where
  "nid_from_str s =
     (if length s \<noteq> 32 then Some (Inl InvalidNodeId)
      else map_option (map_sum id (\<lambda>bs. from_be_bytes (Arr16 bs))) (nid_from_str_loop s [0..<4] []))"

definition ed2k_display :: "ed2k_hash \<Rightarrow> rstring" where
  "ed2k_display h = concat (map (\<lambda>b. to_hex 2 (unat b)) (list16 (ed2k_array h)))"

fun ed2k_from_str_loop :: "rstring \<Rightarrow> nat list \<Rightarrow> bytes \<Rightarrow> (proto_error + bytes) option" where
  "ed2k_from_str_loop s [] bs = Some (Inr bs)"
| "ed2k_from_str_loop s (i # is) bs =
     (case str_slice s (i * 2) (i * 2 + 2) of
        None \<Rightarrow> None
      | Some t \<Rightarrow>
          (case from_str_radix16 (2 ^ 8 - 1) t of
             None \<Rightarrow> Some (Inl InvalidNodeId)
           | Some b \<Rightarrow> ed2k_from_str_loop s is (bs @ [of_nat b])))"

definition ed2k_from_str :: "rstring \<Rightarrow> (proto_error + ed2k_hash) option" where
  "ed2k_from_str s =
     (if length s \<noteq> 32 then Some (Inl InvalidNodeId)
      else map_option (map_sum id (\<lambda>bs. Ed2kHash (Arr16 bs))) (ed2k_from_str_loop s [0..<16] []))"

subsection \<open>Lemmas on digits\<close>

lemma length_to_hex [simp]: "length (to_hex k n) = k"
  by (induction k arbitrary: n) simp_all

lemma less_16_cases:
  "(n :: nat) < 16 \<Longrightarrow> n \<in> {0, 1, 2, 3, 4, 5, 6, 7, 8, 9, 10, 11, 12, 13, 14, 15}"
  unfolding insert_iff empty_iff by presburger

lemma to_digit16_hex_digit [simp]: "n < 16 \<Longrightarrow> to_digit16 (hex_digit n) = Some n"
  by (drule less_16_cases) (auto simp: to_digit16_def hex_digit_def)

lemma hex_digit_range: "n < 16 \<Longrightarrow> 48 \<le> hex_digit n \<and> hex_digit n < 103"
  by (drule less_16_cases) (auto simp: hex_digit_def)

lemma set_to_hex: "c \<in> set (to_hex k n) \<Longrightarrow> 48 \<le> c \<and> c < 103"
  using hex_digit_range by (induction k arbitrary: n) auto

lemma radix16_loop_to_hex:
  "n < 16 ^ k \<Longrightarrow> acc * 16 ^ k + n \<le> M \<Longrightarrow>
     radix16_loop M acc (to_hex k n @ cs) = radix16_loop M (acc * 16 ^ k + n) cs"
proof (induction k arbitrary: n cs)
  case (Suc k)
  have n: "n div 16 < 16 ^ k" "16 * (n div 16) + n mod 16 = n"
    using Suc.prems(1) by (auto simp: div_less_iff_less_mult mult.commute)
  then have le: "acc * 16 ^ k + n div 16 \<le> M" and
    eq: "(acc * 16 ^ k + n div 16) * 16 + n mod 16 = acc * 16 ^ Suc k + n"
    using Suc.prems(2) by (auto simp: algebra_simps)
  show ?case
    using Suc.IH [OF n(1) le, of "hex_digit (n mod 16) # cs"] eq Suc.prems(2)
    by (simp add: ac_simps)
qed simp

lemma from_str_radix16_to_hex:
  assumes "n < 16 ^ Suc k" "n \<le> M"
  shows "from_str_radix16 M (to_hex (Suc k) n) = Some n"
proof -
  obtain c cs where c: "to_hex (Suc k) n = c # cs"
    by (metis length_Suc_conv length_to_hex)
  then have "48 \<le> c"
    using set_to_hex [of c "Suc k" n] by simp
  then have "c \<noteq> 43" "c \<noteq> 45"
    by auto
  then show ?thesis
    using radix16_loop_to_hex [of n "Suc k" 0 M "[]"] assms c
    by (simp add: from_str_radix16_def del: to_hex.simps)
qed

lemma show_nat_digits: "c \<in> set (show_nat n) \<Longrightarrow> 48 \<le> c \<and> c < 58"
proof (induction n rule: show_nat.induct)
  case (1 n)
  have "48 \<le> hex_digit k \<and> hex_digit k < 58" if "k < 10" for k
    using that less_16_cases [of k] by (auto simp: hex_digit_def)
  then show ?case
    using 1 by (subst (asm) show_nat.simps) (auto split: if_splits)
qed

text \<open>Decimal formatting is injective: it has a left inverse.\<close>

definition read_decimal :: "rstring \<Rightarrow> nat" where
  "read_decimal s = foldl (\<lambda>n c. n * 10 + (unat c - 48)) 0 s"

lemma read_decimal_show_nat: "read_decimal (show_nat n) = n"
proof (induction n rule: show_nat.induct)
  case (1 n)
  have "unat (hex_digit k) - 48 = k" if "k < 10" for k
    using that less_16_cases [of k] by (auto simp: hex_digit_def)
  then show ?case
    using 1 by (subst show_nat.simps) (simp add: read_decimal_def)
qed

lemma show_nat_inject [simp]: "show_nat m = show_nat n \<longleftrightarrow> m = n"
  by (metis read_decimal_show_nat)

subsection \<open>Round trips\<close>

lemma u32_from_le_bytes_le_word: "u32_from_le_bytes a b c d = le_word [a, b, c, d]"
  by (rule bit_word_eqI)
    (auto simp: u32_from_le_bytes_def bit_or_iff bit_push_bit_iff bit_ucast_iff)

lemma be_bytes_chunk:
  "rev (le_bytes 4 (chunk_u32 x i)) =
    [nid_bytes x ! (4 * i + 3), nid_bytes x ! (4 * i + 2), nid_bytes x ! (4 * i + 1), nid_bytes x ! (4 * i)]"
proof -
  have "le_bytes 4 (le_word [a, b, c, d] :: u32) = [a, b, c, d]" for a b c d
    by (rule le_bytes_le_word) simp_all
  then show ?thesis
    by (simp add: chunk_u32_def u32_from_le_bytes_le_word Let_def mult.commute
        del: le_word.simps)
qed

text \<open>Slices of a list that is a concatenation of blocks of equal length.\<close>

lemma take_drop_concat:
  assumes "\<forall>x \<in> set xs. length x = n" "i < length xs"
  shows "take n (drop (i * n) (concat xs)) = xs ! i"
  using assms
proof (induction xs arbitrary: i)
  case (Cons x xs)
  then show ?case
    by (cases i) (simp_all add: add.commute)
qed simp

lemma ascii_boundary: "\<forall>c \<in> set s. c < 0x80 \<Longrightarrow> i \<le> length s \<Longrightarrow> is_char_boundary s i"
  by (auto simp: is_char_boundary_def utf8_cont_def not_le)

lemma concat_hex_ascii: "\<forall>t \<in> set ts. \<exists>k n. t = to_hex k n \<Longrightarrow> \<forall>c \<in> set (concat ts). c < 0x80"
proof -
  have "c < 0x80" if "c < 103" for c :: u8
    using that by (rule order.strict_trans) simp
  then show "\<forall>c \<in> set (concat ts). c < 0x80" if "\<forall>t \<in> set ts. \<exists>k n. t = to_hex k n"
    using that set_to_hex by fastforce
qed

lemma nid_display_slice:
  assumes "i < 4"
  shows "str_slice (nid_display x) (i * 8) (i * 8 + 8) = Some (to_hex 8 (unat (chunk_u32 x i)))"
proof -
  let ?ts = "map (\<lambda>chunk_idx. to_hex 8 (unat (chunk_u32 x chunk_idx))) [0..<4]"
  have len: "length (nid_display x) = 32"
    by (simp add: nid_display_def upt_4 del: to_hex.simps)
  have "\<forall>c \<in> set (nid_display x). c < 0x80"
    unfolding nid_display_def by (rule concat_hex_ascii) auto
  then have "is_char_boundary (nid_display x) (i * 8)" "is_char_boundary (nid_display x) (i * 8 + 8)"
    using assms len by (simp_all add: ascii_boundary)
  moreover have "take 8 (drop (i * 8) (nid_display x)) = ?ts ! i"
    unfolding nid_display_def using assms by (intro take_drop_concat) auto
  ultimately show ?thesis
    using assms by (simp add: str_slice_def del: to_hex.simps)
qed

lemma nid_radix16:
  fixes w :: u32
  shows "from_str_radix16 4294967295 (to_hex 8 (unat w)) = Some (unat w)"
proof -
  have "unat w < 4294967296"
    using unsigned_less [of w] by simp
  then have "unat w \<le> 4294967295" "unat w < 16 ^ Suc 7"
    by linarith simp
  then show ?thesis
    using from_str_radix16_to_hex [of "unat w" 7 4294967295] by (simp del: to_hex.simps)
qed

lemma nid_from_str_display: "nid_from_str (nid_display x) = Some (Inr x)"
proof -
  have "length (nid_display x) = 32"
    by (simp add: nid_display_def upt_4 del: to_hex.simps)
  moreover have "nid_from_str_loop (nid_display x) [0..<4] [] =
      Some (Inr (concat (map (\<lambda>i. rev (le_bytes 4 (chunk_u32 x i))) [0..<4])))"
    using nid_display_slice [of 0 x] nid_display_slice [of 1 x] nid_display_slice [of 2 x]
      nid_display_slice [of 3 x]
    by (simp add: upt_4 nid_radix16 del: to_hex.simps)
  moreover have "concat (map (\<lambda>i. rev (le_bytes 4 (chunk_u32 x i))) [0..<4]) = list16 (to_be_bytes x)"
    by (simp add: upt_4 be_bytes_chunk to_be_bytes_def swap_chunks_def)
  ultimately show ?thesis
    by (simp add: nid_from_str_def from_be_bytes_to_be_bytes)
qed

lemma nid_display_inject [simp]: "nid_display x = nid_display y \<longleftrightarrow> x = y"
  by (metis Inr_inject nid_from_str_display option.inject)

lemma length_nid_display [simp]: "length (nid_display x) = 32"
  by (simp add: nid_display_def upt_4 del: to_hex.simps)

text \<open>
  Parsing the displayed form of a node identifier gives the identifier back.
\<close>

theorem nid_text_round_trip: "nid_from_str (nid_display x) = Some (Inr x)"
  by (rule nid_from_str_display)

lemma ed2k_display_slice:
  assumes "i < 16"
  shows "str_slice (ed2k_display h) (i * 2) (i * 2 + 2) =
    Some (to_hex 2 (unat (list16 (ed2k_array h) ! i)))"
proof -
  let ?ts = "map (\<lambda>b. to_hex 2 (unat b)) (list16 (ed2k_array h))"
  have len: "length (ed2k_display h) = 32"
    by (simp add: ed2k_display_def length_concat comp_def sum_list_triv del: to_hex.simps)
  have "\<forall>c \<in> set (ed2k_display h). c < 0x80"
    unfolding ed2k_display_def by (rule concat_hex_ascii) auto
  then have "is_char_boundary (ed2k_display h) (i * 2)" "is_char_boundary (ed2k_display h) (i * 2 + 2)"
    using assms len by (simp_all add: ascii_boundary)
  moreover have "take 2 (drop (i * 2) (ed2k_display h)) = ?ts ! i"
    unfolding ed2k_display_def using assms by (intro take_drop_concat) auto
  ultimately show ?thesis
    using assms by (simp add: str_slice_def del: to_hex.simps)
qed

lemma ed2k_radix16:
  fixes b :: u8
  shows "from_str_radix16 255 (to_hex 2 (unat b)) = Some (unat b)"
proof -
  have "unat b < 256" "(16 :: nat) ^ Suc 1 = 256"
    using unsigned_less [of b] by simp_all
  then have "unat b \<le> 255" "unat b < 16 ^ Suc 1"
    by linarith+
  then show ?thesis
    using from_str_radix16_to_hex [of "unat b" 1 255]
    by (simp del: to_hex.simps add: numeral_2_eq_2)
qed

lemma ed2k_from_str_loop_display:
  "set is \<subseteq> {..<16} \<Longrightarrow>
     ed2k_from_str_loop (ed2k_display h) is bs =
     Some (Inr (bs @ map (\<lambda>i. list16 (ed2k_array h) ! i) is))"
  using ed2k_display_slice [of _ h]
  by (induction "is" arbitrary: bs) (simp_all add: ed2k_radix16 del: to_hex.simps)

lemma length_ed2k_display [simp]: "length (ed2k_display h) = 32"
  by (simp add: ed2k_display_def length_concat comp_def sum_list_triv del: to_hex.simps)

lemma ed2k_from_str_display: "ed2k_from_str (ed2k_display h) = Some (Inr h)"
proof -
  have "map ((!) (list16 (ed2k_array h))) [0..<16] = list16 (ed2k_array h)"
    using map_nth [of "list16 (ed2k_array h)"] by simp
  then show ?thesis
    using ed2k_from_str_loop_display [of "[0..<16]" h "[]"]
    by (cases h) (simp add: ed2k_from_str_def atLeast0LessThan)
qed

lemma ed2k_display_inject [simp]: "ed2k_display g = ed2k_display h \<longleftrightarrow> g = h"
  by (metis Inr_inject ed2k_from_str_display option.inject)

text \<open>
  Parsing the displayed form of a file hash gives the hash back.
\<close>

theorem ed2k_text_round_trip: "ed2k_from_str (ed2k_display h) = Some (Inr h)"
  by (rule ed2k_from_str_display)

lemma radix16_loop_zeros: "radix16_loop M 0 (replicate n 48) = Some 0"
  by (induction n) (simp_all add: to_digit16_def)

lemma from_str_radix16_zeros:
  "0 < n \<Longrightarrow> from_str_radix16 M (replicate n 48) = Some 0"
  "0 < n \<Longrightarrow> from_str_radix16 M (43 # replicate n 48) = Some 0"
  using radix16_loop_zeros [of M n] by (cases n; simp add: from_str_radix16_def)+

text \<open>
  The parser of node identifiers is not total on text: there is a well-formed string of 32
  bytes on which it panics instead of returning an error (a two-byte character across the first
  chunk boundary), and it accepts a string with a plus sign that is no displayed identifier.
\<close>

theorem nid_from_str_gaps:
  "\<exists>s t x. utf8_valid s \<and> length s = 32 \<and> nid_from_str s = None \<and>
     nid_from_str t = Some (Inr x) \<and> t \<noteq> nid_display x"
proof -
  let ?s = "replicate 7 (97 :: u8) @ [0xC3, 0xA9] @ replicate 23 97"
  let ?t = "43 # replicate 31 (48 :: u8)"
  have "utf8_valid (replicate n (97 :: u8))" for n
    by (rule utf8_valid_ascii) simp
  moreover have "utf8_valid ([0xC3, 0xA9] @ replicate 23 97)"
    using calculation [of 23] by (simp add: utf8_char_def utf8_lead_def utf8_cont_def)
  ultimately have "utf8_valid ?s"
    using utf8_valid_append by blast
  moreover have "nid_from_str ?s = None"
    by (simp add: nid_from_str_def upt_4 str_slice_def is_char_boundary_def utf8_cont_def nth_append)
  moreover have "\<exists>x. nid_from_str ?t = Some (Inr x)"
    by (simp add: nid_from_str_def upt_4 str_slice_def is_char_boundary_def utf8_cont_def
        from_str_radix16_zeros)
  moreover have "?t \<noteq> nid_display x" for x
  proof -
    have "43 \<notin> set (nid_display x)"
      unfolding nid_display_def by (auto dest!: set_to_hex simp del: to_hex.simps)
    then show ?thesis
      by (metis list.set_intros(1))
  qed
  ultimately show ?thesis
    by (intro exI [of _ ?s] exI [of _ ?t]) auto
qed

end
