(* ===== verification/Rust_Std.thy ===== *)
theory Rust_Std
  imports Hex_Text "HOL-Library.AList" "HOL-Library.Product_Lexorder" "HOL-Library.List_Lexorder"
begin

text \<open>
  Pieces of the Rust standard library that several components of the agent use: saturating
  arithmetic, comparators and stable sorting, hash maps and instants.

  \<^item> A \<open>HashMap\<close> is an association list with distinct keys; its list order stands for the
    unspecified iteration order of the map, and results that must not depend on it are proved to
    be invariant under permutation.
  \<^item> A \<open>DateTime<Utc>\<close> is an integer number of nanoseconds, and a \<open>TimeDelta\<close> a difference of
    two of them; the range limits of the \<open>chrono\<close> crate are not part of the model.
\<close>

subsection \<open>Saturating arithmetic\<close>

definition sat_add :: "'a::len word \<Rightarrow> 'a word \<Rightarrow> 'a word" where
  "sat_add a b = (if unat a + unat b < 2 ^ LENGTH('a) then a + b else - 1)"

definition sat_mul :: "'a::len word \<Rightarrow> 'a word \<Rightarrow> 'a word" where
  "sat_mul a b = (if unat a * unat b < 2 ^ LENGTH('a) then a * b else - 1)"

definition sat_sub :: "'a::len word \<Rightarrow> 'a word \<Rightarrow> 'a word" where
  "sat_sub a b = (if b \<le> a then a - b else 0)"

lemma unat_minus_one: "unat (- 1 :: 'a::len word) = 2 ^ LENGTH('a) - 1"
  by (simp add: unsigned_minus_1_eq_mask mask_eq_exp_minus_1)

lemma unat_sat_add: "unat (sat_add a b :: 'a::len word) = min (unat a + unat b) (2 ^ LENGTH('a) - 1)"
  by (auto simp: sat_add_def unat_minus_one unat_add_lem [symmetric] not_less)

lemma unat_sat_mul: "unat (sat_mul a b :: 'a::len word) = min (unat a * unat b) (2 ^ LENGTH('a) - 1)"
  by (auto simp: sat_mul_def unat_minus_one unat_mult_lem [symmetric] not_less)

lemma unat_sat_sub: "unat (sat_sub a b :: 'a::len word) = unat a - unat b"
  by (auto simp: sat_sub_def unat_sub word_le_nat_alt)

subsection \<open>Comparators and sorting\<close>

definition then_with :: "ordering \<Rightarrow> ordering \<Rightarrow> ordering" where
  "then_with a b = (if a = Equal then b else a)"

lemma compare_prod: "compare (a, b) (c, d) = then_with (compare a c) (compare b d)"
  by (auto simp: compare_def then_with_def)

lemma compare_rev: "compare (b :: int) a = compare (- a) (- b)"
  by (auto simp: compare_def)

lemma compare_not: "compare b a = compare (\<not> a) (\<not> b)"
  by (auto simp: compare_def)

lemma compare_word: "compare (a :: 'a::len word) b = compare (unat a) (unat b)"
  by (auto simp: compare_def word_less_nat_alt word_unat_eq_iff)

text \<open>\<open>sort_by\<close>: a stable sort, here by insertion.\<close>

primrec insert_by :: "('a \<Rightarrow> 'a \<Rightarrow> ordering) \<Rightarrow> 'a \<Rightarrow> 'a list \<Rightarrow> 'a list" where
  "insert_by cmp x [] = [x]"
| "insert_by cmp x (y # ys) = (if cmp x y = Greater then y # insert_by cmp x ys else x # y # ys)"

definition sort_by :: "('a \<Rightarrow> 'a \<Rightarrow> ordering) \<Rightarrow> 'a list \<Rightarrow> 'a list" where
  "sort_by cmp xs = foldr (insert_by cmp) xs []"

lemma insert_by_key: "insert_by (\<lambda>x y. compare (key x) (key y)) = insort_key key"
proof (intro ext)
  fix x ys show "insert_by (\<lambda>x y. compare (key x) (key y)) x ys = insort_key key x ys"
    by (induction ys) (auto simp: compare_def)
qed

lemma sort_by_key: "sort_by (\<lambda>x y. compare (key x) (key y)) xs = sort_key key xs"
  by (simp add: sort_by_def sort_key_def insert_by_key)

lemma sort_key_hd:
  assumes "xs \<noteq> []"
  shows "hd (sort_key key xs) \<in> set xs \<and> (\<forall>x \<in> set xs. key (hd (sort_key key xs)) \<le> key x)"
proof -
  obtain y ys where s: "sort_key key xs = y # ys"
    using assms by (cases "sort_key key xs") (auto simp: sort_key_simps dest: arg_cong [of _ _ length])
  have "set (y # ys) = set xs" "sorted (map key (y # ys))"
    using s by (metis set_sort, metis sorted_sort_key)
  then show ?thesis
    using s by auto
qed

lemma sort_key_perm:
  assumes "mset xs = mset ys" "inj_on key (set xs)"
  shows "sort_key key xs = sort_key key ys"
proof (rule properties_for_sort_key)
  show "mset (sort_key key ys) = mset xs"
    using assms(1) by simp
  show "sorted (map key (sort_key key ys))"
    by simp
  fix k assume k: "k \<in> set (sort_key key ys)"
  have same: "filter (\<lambda>x. key k = key x) zs = filter (\<lambda>x. x = k) zs" if "set zs = set xs" for zs
    using that k assms by (intro filter_cong) (auto dest: inj_onD mset_eq_setD)
  have "filter (\<lambda>x. x = k) zs = replicate (count (mset zs) k) k" for zs
    by (induction zs) auto
  then show "filter (\<lambda>x. key k = key x) (sort_key key ys) = filter (\<lambda>x. key k = key x) xs"
    using assms(1) by (simp add: same mset_eq_setD [OF assms(1)])
qed

subsection \<open>Durations\<close>

definition NANOS :: int where "NANOS = 1000000000"

subsection \<open>Addresses\<close>

text \<open>An \<open>IpAddr\<close>; an \<open>Ipv6Addr\<close> is the list of its eight segments.\<close>

datatype ip_addr = V4 ipv4 | V6 "u16 list"

definition ipv4_to_string :: "ipv4 \<Rightarrow> rstring" where
  "ipv4_to_string ip =
     (case ip of Ipv4 a b c d \<Rightarrow>
        show_nat (unat a) @ 46 # show_nat (unat b) @ 46 # show_nat (unat c) @ 46 # show_nat (unat d))"

text \<open>Hexadecimal without padding, \<open>{:x}\<close>.\<close>

fun show_hex :: "nat \<Rightarrow> rstring" where
  "show_hex n = (if n < 16 then [hex_digit n] else show_hex (n div 16) @ [hex_digit (n mod 16)])"

declare show_hex.simps [simp del]

fun show_segments :: "u16 list \<Rightarrow> rstring" where
  "show_segments [] = []"
| "show_segments [s] = show_hex (unat s)"
| "show_segments (s # ss) = show_hex (unat s) @ 58 # show_segments ss"

text \<open>
  The first longest run of zero segments, as start and length: the fold over the segments that
  \<open>Display\<close> performs, with the current run.
\<close>

fun longest_zeros :: "nat \<Rightarrow> u16 list \<Rightarrow> nat \<times> nat \<Rightarrow> nat \<times> nat \<Rightarrow> nat \<times> nat" where
  "longest_zeros i [] current longest = longest"
| "longest_zeros i (s # ss) current longest =
     (if s = 0 then
        (let current = (if snd current = 0 then i else fst current, Suc (snd current)) in
         longest_zeros (Suc i) ss current (if snd current > snd longest then current else longest))
      else longest_zeros (Suc i) ss (0, 0) longest)"

text \<open>\<open>Display\<close> of an IPv6 address: IPv4-mapped addresses keep their dotted form.\<close>

definition ipv6_to_string :: "u16 list \<Rightarrow> rstring" where
  "ipv6_to_string ss =
     (if take 5 ss = [0, 0, 0, 0, 0] \<and> ss ! 5 = 0xFFFF then
        [58, 58, 102, 102, 102, 102, 58] @
        ipv4_to_string (Ipv4 (ucast (drop_bit 8 (ss ! 6))) (ucast (ss ! 6))
          (ucast (drop_bit 8 (ss ! 7))) (ucast (ss ! 7)))
      else
        (let (start, n) = longest_zeros 0 ss (0, 0) (0, 0) in
         if n > 1 then show_segments (take start ss) @ [58, 58] @ show_segments (drop (start + n) ss)
         else show_segments ss))"

definition ip_to_string :: "ip_addr \<Rightarrow> rstring" where
  "ip_to_string ip = (case ip of V4 a \<Rightarrow> ipv4_to_string a | V6 ss \<Rightarrow> ipv6_to_string ss)"

end
