(* ===== verification/Tag.thy ===== *)
theory Tag
  imports Wire
begin

text \<open>
  Kad tags, \<open>crates/overlord-kad-proto/src/tag.rs\<close>: the typed values, the two string decoding
  modes, \<open>Tag::read_with_mode\<close> and the tag writer. A writer returns \<open>None\<close> where the code panics
  on a length that does not fit its prefix (\<open>tag_fits\<close> is exactly the absence of that). A
  tag read back differs from the written one only by \<open>tag_norm\<close>: the compact integer class is
  replaced by the width chosen on the wire and a one-byte long name becomes a short name.
\<close>

datatype tag_name = Short u8 | Long rstring

datatype tag_value =
    Hash ed2k_hash
  | String rstring
  | UInt u64
  | U64 u64
  | U32 u32
  | U16 u16
  | U8 u8
  | Float u32
  | Bool bool
  | Blob bytes
  | SmallBlob bytes

record tag =
  tg_name :: tag_name
  tg_value :: tag_value

datatype string_decode_mode = LossyUtf8 | SearchResult

definition decode_legacy_search_result_string :: "ext \<Rightarrow> bytes \<Rightarrow> rstring" where
  "decode_legacy_search_result_string B bs = windows_1252 B bs"

definition decode_string_bytes :: "ext \<Rightarrow> bytes \<Rightarrow> string_decode_mode \<Rightarrow> rstring" where
  "decode_string_bytes B bs mode =
     (case mode of
        LossyUtf8 \<Rightarrow> from_utf8_lossy bs
      | SearchResult \<Rightarrow>
          (case from_utf8 bs of Some s \<Rightarrow> s | None \<Rightarrow> decode_legacy_search_result_string B bs))"

subsection \<open>Constructors\<close>

definition tn_FILENAME :: u8 where "tn_FILENAME = 0x01"
definition tn_FILESIZE :: u8 where "tn_FILESIZE = 0x02"
definition tn_FILETYPE :: u8 where "tn_FILETYPE = 0x03"
definition tn_SOURCES :: u8 where "tn_SOURCES = 0x15"
definition tn_KADAICHHASHPUB :: u8 where "tn_KADAICHHASHPUB = 0x36"

definition new_short :: "u8 \<Rightarrow> tag_value \<Rightarrow> tag" where
  "new_short name_byte v = \<lparr> tg_name = Short name_byte, tg_value = v \<rparr>"

definition new_long :: "rstring \<Rightarrow> tag_value \<Rightarrow> tag" where
  "new_long name v = \<lparr> tg_name = Long name, tg_value = v \<rparr>"

definition tag_filename :: "rstring \<Rightarrow> tag" where
  "tag_filename name = new_short tn_FILENAME (String name)"

definition tag_filesize :: "u64 \<Rightarrow> tag" where
  "tag_filesize sz = new_short tn_FILESIZE (UInt sz)"

definition tag_filetype :: "rstring \<Rightarrow> tag" where
  "tag_filetype t = new_short tn_FILETYPE (String t)"

definition tag_sources :: "u32 \<Rightarrow> tag" where
  "tag_sources n = new_short tn_SOURCES (UInt (ucast n))"

definition kad_aich_hash_pub :: "bytes \<Rightarrow> tag" where
  "kad_aich_hash_pub h = new_short tn_KADAICHHASHPUB (SmallBlob h)"

subsection \<open>Writing\<close>

definition value_type_byte :: "tag_value \<Rightarrow> u8" where
  "value_type_byte v =
     (case v of
        Hash _ \<Rightarrow> 0x01
      | String _ \<Rightarrow> 0x02
      | UInt n \<Rightarrow>
          if n \<le> 0xFF then 0x09 else if n \<le> 0xFFFF then 0x08
          else if n \<le> 0xFFFFFFFF then 0x03 else 0x0B
      | U32 _ \<Rightarrow> 0x03
      | Float _ \<Rightarrow> 0x04
      | Bool _ \<Rightarrow> 0x05
      | Blob _ \<Rightarrow> 0x07
      | SmallBlob _ \<Rightarrow> 0x0A
      | U16 _ \<Rightarrow> 0x08
      | U8 _ \<Rightarrow> 0x09
      | U64 _ \<Rightarrow> 0x0B)"

definition write_tag_name :: "ext \<Rightarrow> tag_name \<Rightarrow> bytes option" where
  "write_tag_name B name =
     (case name of
        Short b \<Rightarrow> wconcat [Some (bw_u16 B 1), Some (bw_u8 B b)]
      | Long s \<Rightarrow> wconcat [map_option (bw_u16 B) (try_u16 (length s)), Some s])"

definition write_tag_value :: "ext \<Rightarrow> tag_value \<Rightarrow> bytes option" where
  "write_tag_value B v =
     (case v of
        Hash h \<Rightarrow> Some (write_ed2k_hash B h)
      | String s \<Rightarrow> wconcat [map_option (bw_u16 B) (try_u16 (length s)), Some s]
      | UInt n \<Rightarrow>
          Some (if n \<le> 0xFF then bw_u8 B (ucast n) else if n \<le> 0xFFFF then bw_u16 B (ucast n)
            else if n \<le> 0xFFFFFFFF then bw_u32 B (ucast n) else bw_u64 B n)
      | U32 n \<Rightarrow> Some (bw_u32 B n)
      | Float x \<Rightarrow> Some (bw_f32 B x)
      | Bool b \<Rightarrow> Some (bw_u8 B (if b then 1 else 0))
      | Blob d \<Rightarrow> wconcat [map_option (bw_u32 B) (try_u32 (length d)), Some d]
      | SmallBlob d \<Rightarrow> wconcat [map_option (bw_u8 B) (try_u8 (length d)), Some d]
      | U16 n \<Rightarrow> Some (bw_u16 B n)
      | U8 n \<Rightarrow> Some (bw_u8 B n)
      | U64 n \<Rightarrow> Some (bw_u64 B n))"

definition write_tag :: "ext \<Rightarrow> tag \<Rightarrow> bytes option" where
  "write_tag B t =
     wconcat [Some (bw_u8 B (value_type_byte (tg_value t))), write_tag_name B (tg_name t),
       write_tag_value B (tg_value t)]"

subsection \<open>Reading\<close>

definition read_tag_name :: "ext \<Rightarrow> string_decode_mode \<Rightarrow> bool \<Rightarrow> tag_name reader" where
  "read_tag_name B mode short_name =
     (if short_name then rbind (br_u8 B) (\<lambda>name_byte. rret (Short name_byte))
      else rbind (br_u16 B) (\<lambda>name_len.
        rbind (read_exact (unat name_len)) (\<lambda>name_bytes.
        rret (if length name_bytes = 1 then Short (name_bytes ! 0)
              else Long (decode_string_bytes B name_bytes mode)))))"

definition read_tag_value :: "ext \<Rightarrow> string_decode_mode \<Rightarrow> u8 \<Rightarrow> tag_value reader" where
  "read_tag_value B mode tag_type =
     (if tag_type = 0x01 then rbind (read_ed2k_hash B) (\<lambda>h. rret (Hash h))
      else if tag_type = 0x02 then
        rbind (br_u16 B) (\<lambda>str_len. rbind (read_exact (unat str_len)) (\<lambda>str_bytes.
          rret (String (decode_string_bytes B str_bytes mode))))
      else if tag_type = 0x03 then rbind (br_u32 B) (\<lambda>v. rret (U32 v))
      else if tag_type = 0x04 then rbind (br_f32 B) (\<lambda>v. rret (Float v))
      else if tag_type = 0x05 then rbind (br_u8 B) (\<lambda>v. rret (Bool (v \<noteq> 0)))
      else if tag_type = 0x06 then
        rbind (br_u16 B) (\<lambda>arr_len. rbind (read_exact ((unat arr_len + 7) div 8)) (\<lambda>d.
          rret (Blob d)))
      else if tag_type = 0x07 then
        rbind (br_u32 B) (\<lambda>blob_len. rbind (read_exact (unat blob_len)) (\<lambda>d. rret (Blob d)))
      else if tag_type = 0x08 then rbind (br_u16 B) (\<lambda>v. rret (U16 v))
      else if tag_type = 0x09 then rbind (br_u8 B) (\<lambda>v. rret (U8 v))
      else if tag_type = 0x0A then
        rbind (br_u8 B) (\<lambda>bsob_len. rbind (read_exact (unat bsob_len)) (\<lambda>d. rret (SmallBlob d)))
      else if tag_type = 0x0B then rbind (br_u64 B) (\<lambda>v. rret (U64 v))
      else rfail (BinCustom (UnknownTagType tag_type)))"

definition read_with_mode :: "ext \<Rightarrow> string_decode_mode \<Rightarrow> tag reader" where
  "read_with_mode B mode =
     rbind (br_u8 B) (\<lambda>type_byte.
       let short_name = (type_byte AND 0x80 \<noteq> 0); tag_type = type_byte AND 0x7F in
       rbind (read_tag_name B mode short_name) (\<lambda>name.
       rbind (read_tag_value B mode tag_type) (\<lambda>v.
       rret \<lparr> tg_name = name, tg_value = v \<rparr>)))"

definition read_tag :: "ext \<Rightarrow> tag reader" where
  "read_tag B = read_with_mode B LossyUtf8"

subsection \<open>Validity and normal form\<close>

text \<open>Every \<open>String\<close> of the tag is well-formed, which Rust's type guarantees.\<close>

fun name_valid :: "tag_name \<Rightarrow> bool" where
  "name_valid (Short b) \<longleftrightarrow> True"
| "name_valid (Long s) \<longleftrightarrow> utf8_valid s"

fun value_valid :: "tag_value \<Rightarrow> bool" where
  "value_valid (String s) \<longleftrightarrow> utf8_valid s"
| "value_valid v \<longleftrightarrow> True"

definition tag_valid :: "tag \<Rightarrow> bool" where
  "tag_valid t \<longleftrightarrow> name_valid (tg_name t) \<and> value_valid (tg_value t)"

text \<open>Every length fits its prefix.\<close>

fun name_fits :: "tag_name \<Rightarrow> bool" where
  "name_fits (Short b) \<longleftrightarrow> True"
| "name_fits (Long s) \<longleftrightarrow> length s < 2 ^ 16"

fun value_fits :: "tag_value \<Rightarrow> bool" where
  "value_fits (String s) \<longleftrightarrow> length s < 2 ^ 16"
| "value_fits (Blob d) \<longleftrightarrow> length d < 2 ^ 32"
| "value_fits (SmallBlob d) \<longleftrightarrow> length d < 2 ^ 8"
| "value_fits v \<longleftrightarrow> True"

definition tag_fits :: "tag \<Rightarrow> bool" where
  "tag_fits t \<longleftrightarrow> name_fits (tg_name t) \<and> value_fits (tg_value t)"

fun name_norm :: "tag_name \<Rightarrow> tag_name" where
  "name_norm (Short b) = Short b"
| "name_norm (Long s) = (if length s = 1 then Short (s ! 0) else Long s)"

fun value_norm :: "tag_value \<Rightarrow> tag_value" where
  "value_norm (UInt n) =
     (if n \<le> 0xFF then U8 (ucast n) else if n \<le> 0xFFFF then U16 (ucast n)
      else if n \<le> 0xFFFFFFFF then U32 (ucast n) else U64 n)"
| "value_norm v = v"

definition tag_norm :: "tag \<Rightarrow> tag" where
  "tag_norm t = \<lparr> tg_name = name_norm (tg_name t), tg_value = value_norm (tg_value t) \<rparr>"

text \<open>The number an integer tag denotes, whatever its storage class.\<close>

fun value_number :: "tag_value \<Rightarrow> nat option" where
  "value_number (UInt n) = Some (unat n)"
| "value_number (U64 n) = Some (unat n)"
| "value_number (U32 n) = Some (unat n)"
| "value_number (U16 n) = Some (unat n)"
| "value_number (U8 n) = Some (unat n)"
| "value_number _ = None"

subsection \<open>Lemmas\<close>

lemma decode_string_bytes_id [wire_simps]:
  "utf8_valid s \<Longrightarrow> decode_string_bytes B s mode = s"
  by (cases mode) (simp_all add: decode_string_bytes_def from_utf8_def from_utf8_lossy_id)

lemma decode_string_bytes_valid:
  "encoding_ok B \<Longrightarrow> utf8_valid (decode_string_bytes B s mode)"
  by (simp add: decode_string_bytes_def from_utf8_lossy_valid from_utf8_def encoding_ok_def
      decode_legacy_search_result_string_def split: string_decode_mode.split)

lemma tag_name_round_trip:
  assumes "binrw_ok B" "name_valid name" "name_fits name"
  shows "\<exists>s. write_tag_name B name = Some s \<and>
    (\<forall>r. read_tag_name B mode False (s @ r) = Inr (name_norm name, r))"
proof (cases name)
  case (Short b)
  have "read_exact 1 (b # r) = Inr ([b], r)" for r
    using read_exact_append [of "[b]" 1 r] by simp
  with Short assms(1) show ?thesis
    by (simp add: write_tag_name_def read_tag_name_def wire_simps)
next
  case (Long s)
  with assms show ?thesis
    by (simp add: write_tag_name_def read_tag_name_def wire_simps try_u16_def)
qed

lemma tag_value_round_trip:
  assumes "binrw_ok B" "value_valid v" "value_fits v"
  shows "\<exists>s. write_tag_value B v = Some s \<and>
    (\<forall>r. read_tag_value B mode (value_type_byte v) (s @ r) = Inr (value_norm v, r))"
  using assms
  by (cases v) (simp_all add: write_tag_value_def read_tag_value_def value_type_byte_def
      wire_simps try_u8_def try_u16_def try_u32_def)

lemma value_type_byte_masks [simp]:
  "value_type_byte v AND 0x80 = 0" "value_type_byte v AND 0x7F = value_type_byte v"
  by (cases v; simp add: value_type_byte_def)+

lemma tag_round_trip:
  assumes "binrw_ok B" "tag_valid t" "tag_fits t"
  shows "\<exists>s. write_tag B t = Some s \<and> (\<forall>r. read_with_mode B mode (s @ r) = Inr (tag_norm t, r))"
proof -
  obtain n where n: "write_tag_name B (tg_name t) = Some n"
      "\<And>r. read_tag_name B mode False (n @ r) = Inr (name_norm (tg_name t), r)"
    using tag_name_round_trip assms unfolding tag_valid_def tag_fits_def by blast
  obtain v where v: "write_tag_value B (tg_value t) = Some v"
      "\<And>r. read_tag_value B mode (value_type_byte (tg_value t)) (v @ r) =
        Inr (value_norm (tg_value t), r)"
    using tag_value_round_trip assms unfolding tag_valid_def tag_fits_def by blast
  show ?thesis
    using assms(1) n v
    by (simp add: write_tag_def read_with_mode_def wire_simps tag_norm_def Let_def)
qed

interpretation tags: codec "read_with_mode B mode" "write_tag B"
    "\<lambda>t. binrw_ok B \<and> tag_valid t \<and> tag_fits t" tag_norm for B mode
  by standard (simp add: tag_round_trip)

lemma write_tag_None: "write_tag B t = None \<longleftrightarrow> \<not> tag_fits t"
  by (cases "tg_name t"; cases "tg_value t")
    (simp_all add: write_tag_def tag_fits_def write_tag_name_def write_tag_value_def
      wconcat_None try_u8_def try_u16_def try_u32_def)

lemma read_tag_name_valid:
  "encoding_ok B \<Longrightarrow> read_tag_name B mode short_name s = Inr (name, r) \<Longrightarrow> name_valid name"
  by (auto simp: read_tag_name_def rbind_eq_Inr decode_string_bytes_valid split: if_splits)

lemma read_tag_value_valid:
  "encoding_ok B \<Longrightarrow> read_tag_value B mode t s = Inr (v, r) \<Longrightarrow> value_valid v"
  by (auto simp: read_tag_value_def rbind_eq_Inr decode_string_bytes_valid split: if_splits)

interpretation valid_tags: sound_reader "read_with_mode B mode"
    "\<lambda>t. encoding_ok B \<longrightarrow> tag_valid t" for B mode
  by standard (auto simp: read_with_mode_def rbind_eq_Inr tag_valid_def Let_def
      dest: read_tag_name_valid read_tag_value_valid)

lemma unat_narrow:
  fixes n :: u64
  shows "n \<le> 0xFF \<Longrightarrow> unat (ucast n :: u8) = unat n"
    and "n \<le> 0xFFFF \<Longrightarrow> unat (ucast n :: u16) = unat n"
    and "n \<le> 0xFFFFFFFF \<Longrightarrow> unat (ucast n :: u32) = unat n"
  by (simp_all add: word_le_nat_alt unsigned_ucast_eq take_bit_nat_eq_self)

lemma value_norm_number: "value_number (value_norm v) = value_number v"
  by (cases v) (simp_all add: unat_narrow)

lemma tag_norm_idem [simp]: "tag_norm (tag_norm t) = tag_norm t"
proof -
  have "name_norm (name_norm n) = name_norm n" for n
    by (cases n) simp_all
  moreover have "value_norm (value_norm v) = value_norm v" for v
    by (cases v) simp_all
  ultimately show ?thesis
    by (simp add: tag_norm_def)
qed

end
