(* ===== verification/Kad_Packet.thy ===== *)
theory Kad_Packet
  imports Tag
begin

text \<open>
  The Kad2 packets of \<open>crates/overlord-kad-proto/src\<close>: the structures of \<open>packet/types.rs\<close> as
  records with the readers and writers that \<open>binrw\<close> derives from the field order, the hand-written
  codecs of \<open>packet/codec.rs\<close>, and \<open>KadPacket::decode\<close>, \<open>encode\<close> and \<open>opcode\<close> of \<open>packet.rs\<close>.
  The lemmas show that decoding inverts encoding up to the wire normal form, when exactly
  encoding panics, which body lengths the fixed layouts accept, and that every decoded string is
  well formed.
\<close>

subsection \<open>Constants\<close>

definition OP_KADEMLIAHEADER :: u8 where "OP_KADEMLIAHEADER = 0xE4"
definition OP_KADEMLIAPACKEDPROT :: u8 where "OP_KADEMLIAPACKEDPROT = 0xE5"

definition op_BOOTSTRAP_REQ :: u8 where "op_BOOTSTRAP_REQ = 0x01"
definition op_BOOTSTRAP_RES :: u8 where "op_BOOTSTRAP_RES = 0x09"
definition op_HELLO_REQ :: u8 where "op_HELLO_REQ = 0x11"
definition op_HELLO_RES :: u8 where "op_HELLO_RES = 0x19"
definition op_HELLO_RES_ACK :: u8 where "op_HELLO_RES_ACK = 0x22"
definition op_REQ :: u8 where "op_REQ = 0x21"
definition op_RES :: u8 where "op_RES = 0x29"
definition op_SEARCH_KEY_REQ :: u8 where "op_SEARCH_KEY_REQ = 0x33"
definition op_SEARCH_SOURCE_REQ :: u8 where "op_SEARCH_SOURCE_REQ = 0x34"
definition op_SEARCH_NOTES_REQ :: u8 where "op_SEARCH_NOTES_REQ = 0x35"
definition op_SEARCH_RES :: u8 where "op_SEARCH_RES = 0x3B"
definition op_PUBLISH_KEY_REQ :: u8 where "op_PUBLISH_KEY_REQ = 0x43"
definition op_PUBLISH_SOURCE_REQ :: u8 where "op_PUBLISH_SOURCE_REQ = 0x44"
definition op_PUBLISH_NOTES_REQ :: u8 where "op_PUBLISH_NOTES_REQ = 0x45"
definition op_PUBLISH_RES :: u8 where "op_PUBLISH_RES = 0x4B"
definition op_PUBLISH_RES_ACK :: u8 where "op_PUBLISH_RES_ACK = 0x4C"
definition op_FIREWALLED_REQ :: u8 where "op_FIREWALLED_REQ = 0x50"
definition op_FIREWALLED2_REQ :: u8 where "op_FIREWALLED2_REQ = 0x53"
definition op_FIREWALLED_RES :: u8 where "op_FIREWALLED_RES = 0x58"
definition op_FIREWALLED_ACK_RES :: u8 where "op_FIREWALLED_ACK_RES = 0x59"
definition op_FIREWALLUDP :: u8 where "op_FIREWALLUDP = 0x62"
definition op_FINDBUDDY_REQ :: u8 where "op_FINDBUDDY_REQ = 0x51"
definition op_CALLBACK_REQ :: u8 where "op_CALLBACK_REQ = 0x52"
definition op_FINDBUDDY_RES :: u8 where "op_FINDBUDDY_RES = 0x5A"
definition op_PING :: u8 where "op_PING = 0x60"
definition op_PONG :: u8 where "op_PONG = 0x61"

lemmas opcode_defs =
  OP_KADEMLIAHEADER_def OP_KADEMLIAPACKEDPROT_def
  op_BOOTSTRAP_REQ_def op_BOOTSTRAP_RES_def op_HELLO_REQ_def op_HELLO_RES_def
  op_HELLO_RES_ACK_def op_REQ_def op_RES_def op_SEARCH_KEY_REQ_def op_SEARCH_SOURCE_REQ_def
  op_SEARCH_NOTES_REQ_def op_SEARCH_RES_def op_PUBLISH_KEY_REQ_def op_PUBLISH_SOURCE_REQ_def
  op_PUBLISH_NOTES_REQ_def op_PUBLISH_RES_def op_PUBLISH_RES_ACK_def op_FIREWALLED_REQ_def
  op_FIREWALLED2_REQ_def op_FIREWALLED_RES_def op_FIREWALLED_ACK_RES_def op_FIREWALLUDP_def
  op_FINDBUDDY_REQ_def op_CALLBACK_REQ_def op_FINDBUDDY_RES_def op_PING_def op_PONG_def

subsection \<open>Packet structures\<close>

record contact_entry =
  ce_node_id :: node_id
  ce_ip :: u32
  ce_udp_port :: u16
  ce_tcp_port :: u16
  ce_version :: u8

record bootstrap_res =
  bsr_sender_id :: node_id
  bsr_sender_tcp_port :: u16
  bsr_sender_version :: u8
  bsr_contacts :: "contact_entry list"

record hello_req =
  hq_node_id :: node_id
  hq_tcp_port :: u16
  hq_version :: u8
  hq_tags :: "tag list"

record hello_res =
  hs_node_id :: node_id
  hs_tcp_port :: u16
  hs_version :: u8
  hs_tags :: "tag list"

record hello_res_ack =
  ha_node_id :: node_id
  ha_tags :: "tag list"

record kad_req =
  rq_count :: u8
  rq_target :: node_id
  rq_recipient_id :: node_id

record kad_res =
  rs_target :: node_id
  rs_contacts :: "contact_entry list"

record search_key_req =
  sk_target :: node_id
  sk_start_position :: u16
  sk_restrictive_payload :: bytes

record search_source_req =
  ss_target :: node_id
  ss_start_position :: u16
  ss_size :: u64

record search_notes_req =
  sn_target :: node_id
  sn_size :: u64

record search_result_entry =
  se_entry_id :: ed2k_hash
  se_tags :: "tag list"

record search_res =
  sr_sender_id :: node_id
  sr_target :: node_id
  sr_results :: "search_result_entry list"

record publish_entry =
  pe_hash :: ed2k_hash
  pe_tags :: "tag list"

record publish_key_req =
  pk_target :: node_id
  pk_entries :: "publish_entry list"

record publish_source_req =
  ps_target :: node_id
  ps_publisher_id :: node_id
  ps_tags :: "tag list"

record publish_notes_req =
  pn_target :: node_id
  pn_publisher_id :: node_id
  pn_tags :: "tag list"

record publish_res =
  pr_target :: node_id
  pr_load :: u8
  pr_options :: "u8 option"

record firewalled_req =
  fw_tcp_port :: u16

record firewalled2_req =
  fw2_tcp_port :: u16
  fw2_user_hash :: ed2k_hash
  fw2_connect_options :: u8

record firewalled_res =
  fr_ip :: u32

record firewall_udp =
  fu_error_code :: u8
  fu_udp_port :: u16

record find_buddy_req =
  fb_buddy_id :: node_id
  fb_client_hash :: ed2k_hash
  fb_tcp_port :: u16

record find_buddy_res =
  fs_buddy_id :: node_id
  fs_client_hash :: ed2k_hash
  fs_tcp_port :: u16
  fs_connect_options :: "u8 option"

record callback_req =
  cb_buddy_id :: node_id
  cb_file_hash :: ed2k_hash
  cb_tcp_port :: u16

record pong =
  po_udp_port :: u16

text \<open>\<open>Ipv4Addr::from(self.ip.to_be_bytes())\<close>: the most significant byte first.\<close>

definition ce_ip_addr :: "contact_entry \<Rightarrow> u8 \<times> u8 \<times> u8 \<times> u8" where
  "ce_ip_addr c =
     (ucast (drop_bit 24 (ce_ip c)), ucast (drop_bit 16 (ce_ip c)),
      ucast (drop_bit 8 (ce_ip c)), ucast (ce_ip c))"

subsection \<open>Derived readers and writers\<close>

definition read_contact_entry :: "ext \<Rightarrow> contact_entry reader" where
  "read_contact_entry B =
     rbind (read_node_id B) (\<lambda>node_id.
     rbind (br_u32 B) (\<lambda>ip.
     rbind (br_u16 B) (\<lambda>udp_port.
     rbind (br_u16 B) (\<lambda>tcp_port.
     rbind (br_u8 B) (\<lambda>version.
     rret \<lparr> ce_node_id = node_id, ce_ip = ip, ce_udp_port = udp_port,
       ce_tcp_port = tcp_port, ce_version = version \<rparr>)))))"

definition write_contact_entry :: "ext \<Rightarrow> contact_entry \<Rightarrow> bytes option" where
  "write_contact_entry B p =
     wconcat [Some (write_node_id B (ce_node_id p)),
       Some (bw_u32 B (ce_ip p)),
       Some (bw_u16 B (ce_udp_port p)),
       Some (bw_u16 B (ce_tcp_port p)),
       Some (bw_u8 B (ce_version p))]"

definition read_bootstrap_res :: "ext \<Rightarrow> bootstrap_res reader" where
  "read_bootstrap_res B =
     rbind (read_node_id B) (\<lambda>sender_id.
     rbind (br_u16 B) (\<lambda>sender_tcp_port.
     rbind (br_u8 B) (\<lambda>sender_version.
     rbind (read_vec16 B (read_contact_entry B)) (\<lambda>cs.
     rret \<lparr> bsr_sender_id = sender_id, bsr_sender_tcp_port = sender_tcp_port,
       bsr_sender_version = sender_version, bsr_contacts = cs \<rparr>))))"

definition write_bootstrap_res :: "ext \<Rightarrow> bootstrap_res \<Rightarrow> bytes option" where
  "write_bootstrap_res B p =
     wconcat [Some (write_node_id B (bsr_sender_id p)),
       Some (bw_u16 B (bsr_sender_tcp_port p)),
       Some (bw_u8 B (bsr_sender_version p)),
       write_vec16 B (write_contact_entry B) (bsr_contacts p)]"

definition read_hello_req :: "ext \<Rightarrow> hello_req reader" where
  "read_hello_req B =
     rbind (read_node_id B) (\<lambda>node_id.
     rbind (br_u16 B) (\<lambda>tcp_port.
     rbind (br_u8 B) (\<lambda>version.
     rbind (read_vec8 B (read_tag B)) (\<lambda>ts.
     rret \<lparr> hq_node_id = node_id, hq_tcp_port = tcp_port, hq_version = version,
       hq_tags = ts \<rparr>))))"

definition write_hello_req :: "ext \<Rightarrow> hello_req \<Rightarrow> bytes option" where
  "write_hello_req B p =
     wconcat [Some (write_node_id B (hq_node_id p)),
       Some (bw_u16 B (hq_tcp_port p)),
       Some (bw_u8 B (hq_version p)),
       write_vec8 B (write_tag B) (hq_tags p)]"

definition read_hello_res :: "ext \<Rightarrow> hello_res reader" where
  "read_hello_res B =
     rbind (read_node_id B) (\<lambda>node_id.
     rbind (br_u16 B) (\<lambda>tcp_port.
     rbind (br_u8 B) (\<lambda>version.
     rbind (read_vec8 B (read_tag B)) (\<lambda>ts.
     rret \<lparr> hs_node_id = node_id, hs_tcp_port = tcp_port, hs_version = version,
       hs_tags = ts \<rparr>))))"

definition write_hello_res :: "ext \<Rightarrow> hello_res \<Rightarrow> bytes option" where
  "write_hello_res B p =
     wconcat [Some (write_node_id B (hs_node_id p)),
       Some (bw_u16 B (hs_tcp_port p)),
       Some (bw_u8 B (hs_version p)),
       write_vec8 B (write_tag B) (hs_tags p)]"

definition read_hello_res_ack :: "ext \<Rightarrow> hello_res_ack reader" where
  "read_hello_res_ack B =
     rbind (read_node_id B) (\<lambda>node_id.
     rbind (read_vec8 B (read_tag B)) (\<lambda>ts.
     rret \<lparr> ha_node_id = node_id, ha_tags = ts \<rparr>))"

definition write_hello_res_ack :: "ext \<Rightarrow> hello_res_ack \<Rightarrow> bytes option" where
  "write_hello_res_ack B p =
     wconcat [Some (write_node_id B (ha_node_id p)),
       write_vec8 B (write_tag B) (ha_tags p)]"

definition read_kad_req :: "ext \<Rightarrow> kad_req reader" where
  "read_kad_req B =
     rbind (br_u8 B) (\<lambda>count'.
     rbind (read_node_id B) (\<lambda>target.
     rbind (read_node_id B) (\<lambda>recipient_id.
     rret \<lparr> rq_count = count', rq_target = target,
       rq_recipient_id = recipient_id \<rparr>)))"

definition write_kad_req :: "ext \<Rightarrow> kad_req \<Rightarrow> bytes option" where
  "write_kad_req B p =
     wconcat [Some (bw_u8 B (rq_count p)),
       Some (write_node_id B (rq_target p)),
       Some (write_node_id B (rq_recipient_id p))]"

definition read_kad_res :: "ext \<Rightarrow> kad_res reader" where
  "read_kad_res B =
     rbind (read_node_id B) (\<lambda>target.
     rbind (read_vec8 B (read_contact_entry B)) (\<lambda>cs.
     rret \<lparr> rs_target = target, rs_contacts = cs \<rparr>))"

definition write_kad_res :: "ext \<Rightarrow> kad_res \<Rightarrow> bytes option" where
  "write_kad_res B p =
     wconcat [Some (write_node_id B (rs_target p)),
       write_vec8 B (write_contact_entry B) (rs_contacts p)]"

definition read_search_notes_req :: "ext \<Rightarrow> search_notes_req reader" where
  "read_search_notes_req B =
     rbind (read_node_id B) (\<lambda>target.
     rbind (br_u64 B) (\<lambda>sz.
     rret \<lparr> sn_target = target, sn_size = sz \<rparr>))"

definition write_search_notes_req :: "ext \<Rightarrow> search_notes_req \<Rightarrow> bytes option" where
  "write_search_notes_req B p =
     wconcat [Some (write_node_id B (sn_target p)),
       Some (bw_u64 B (sn_size p))]"

definition read_publish_entry :: "ext \<Rightarrow> publish_entry reader" where
  "read_publish_entry B =
     rbind (read_ed2k_hash B) (\<lambda>h.
     rbind (read_vec8 B (read_tag B)) (\<lambda>ts.
     rret \<lparr> pe_hash = h, pe_tags = ts \<rparr>))"

definition write_publish_entry :: "ext \<Rightarrow> publish_entry \<Rightarrow> bytes option" where
  "write_publish_entry B p =
     wconcat [Some (write_ed2k_hash B (pe_hash p)),
       write_vec8 B (write_tag B) (pe_tags p)]"

definition read_publish_key_req :: "ext \<Rightarrow> publish_key_req reader" where
  "read_publish_key_req B =
     rbind (read_node_id B) (\<lambda>target.
     rbind (read_vec16 B (read_publish_entry B)) (\<lambda>es.
     rret \<lparr> pk_target = target, pk_entries = es \<rparr>))"

definition write_publish_key_req :: "ext \<Rightarrow> publish_key_req \<Rightarrow> bytes option" where
  "write_publish_key_req B p =
     wconcat [Some (write_node_id B (pk_target p)),
       write_vec16 B (write_publish_entry B) (pk_entries p)]"

definition read_publish_source_req :: "ext \<Rightarrow> publish_source_req reader" where
  "read_publish_source_req B =
     rbind (read_node_id B) (\<lambda>target.
     rbind (read_node_id B) (\<lambda>publisher_id.
     rbind (read_vec8 B (read_tag B)) (\<lambda>ts.
     rret \<lparr> ps_target = target, ps_publisher_id = publisher_id, ps_tags = ts \<rparr>)))"

definition write_publish_source_req :: "ext \<Rightarrow> publish_source_req \<Rightarrow> bytes option" where
  "write_publish_source_req B p =
     wconcat [Some (write_node_id B (ps_target p)),
       Some (write_node_id B (ps_publisher_id p)),
       write_vec8 B (write_tag B) (ps_tags p)]"

definition read_publish_notes_req :: "ext \<Rightarrow> publish_notes_req reader" where
  "read_publish_notes_req B =
     rbind (read_node_id B) (\<lambda>target.
     rbind (read_node_id B) (\<lambda>publisher_id.
     rbind (read_vec8 B (read_tag B)) (\<lambda>ts.
     rret \<lparr> pn_target = target, pn_publisher_id = publisher_id, pn_tags = ts \<rparr>)))"

definition write_publish_notes_req :: "ext \<Rightarrow> publish_notes_req \<Rightarrow> bytes option" where
  "write_publish_notes_req B p =
     wconcat [Some (write_node_id B (pn_target p)),
       Some (write_node_id B (pn_publisher_id p)),
       write_vec8 B (write_tag B) (pn_tags p)]"

definition read_firewalled_req :: "ext \<Rightarrow> firewalled_req reader" where
  "read_firewalled_req B =
     rbind (br_u16 B) (\<lambda>tcp_port.
     rret \<lparr> fw_tcp_port = tcp_port \<rparr>)"

definition write_firewalled_req :: "ext \<Rightarrow> firewalled_req \<Rightarrow> bytes option" where
  "write_firewalled_req B p =
     wconcat [Some (bw_u16 B (fw_tcp_port p))]"

definition read_firewalled2_req :: "ext \<Rightarrow> firewalled2_req reader" where
  "read_firewalled2_req B =
     rbind (br_u16 B) (\<lambda>tcp_port.
     rbind (read_ed2k_hash B) (\<lambda>user_hash.
     rbind (br_u8 B) (\<lambda>connect_options.
     rret \<lparr> fw2_tcp_port = tcp_port, fw2_user_hash = user_hash,
       fw2_connect_options = connect_options \<rparr>)))"

definition write_firewalled2_req :: "ext \<Rightarrow> firewalled2_req \<Rightarrow> bytes option" where
  "write_firewalled2_req B p =
     wconcat [Some (bw_u16 B (fw2_tcp_port p)),
       Some (write_ed2k_hash B (fw2_user_hash p)),
       Some (bw_u8 B (fw2_connect_options p))]"

definition read_firewalled_res :: "ext \<Rightarrow> firewalled_res reader" where
  "read_firewalled_res B =
     rbind (br_u32 B) (\<lambda>ip.
     rret \<lparr> fr_ip = ip \<rparr>)"

definition write_firewalled_res :: "ext \<Rightarrow> firewalled_res \<Rightarrow> bytes option" where
  "write_firewalled_res B p =
     wconcat [Some (bw_u32 B (fr_ip p))]"

definition read_firewall_udp :: "ext \<Rightarrow> firewall_udp reader" where
  "read_firewall_udp B =
     rbind (br_u8 B) (\<lambda>error_code.
     rbind (br_u16 B) (\<lambda>udp_port.
     rret \<lparr> fu_error_code = error_code, fu_udp_port = udp_port \<rparr>))"

definition write_firewall_udp :: "ext \<Rightarrow> firewall_udp \<Rightarrow> bytes option" where
  "write_firewall_udp B p =
     wconcat [Some (bw_u8 B (fu_error_code p)),
       Some (bw_u16 B (fu_udp_port p))]"

definition read_find_buddy_req :: "ext \<Rightarrow> find_buddy_req reader" where
  "read_find_buddy_req B =
     rbind (read_node_id B) (\<lambda>buddy_id.
     rbind (read_ed2k_hash B) (\<lambda>client_hash.
     rbind (br_u16 B) (\<lambda>tcp_port.
     rret \<lparr> fb_buddy_id = buddy_id, fb_client_hash = client_hash,
       fb_tcp_port = tcp_port \<rparr>)))"

definition write_find_buddy_req :: "ext \<Rightarrow> find_buddy_req \<Rightarrow> bytes option" where
  "write_find_buddy_req B p =
     wconcat [Some (write_node_id B (fb_buddy_id p)),
       Some (write_ed2k_hash B (fb_client_hash p)),
       Some (bw_u16 B (fb_tcp_port p))]"

definition read_callback_req :: "ext \<Rightarrow> callback_req reader" where
  "read_callback_req B =
     rbind (read_node_id B) (\<lambda>buddy_id.
     rbind (read_ed2k_hash B) (\<lambda>file_hash.
     rbind (br_u16 B) (\<lambda>tcp_port.
     rret \<lparr> cb_buddy_id = buddy_id, cb_file_hash = file_hash,
       cb_tcp_port = tcp_port \<rparr>)))"

definition write_callback_req :: "ext \<Rightarrow> callback_req \<Rightarrow> bytes option" where
  "write_callback_req B p =
     wconcat [Some (write_node_id B (cb_buddy_id p)),
       Some (write_ed2k_hash B (cb_file_hash p)),
       Some (bw_u16 B (cb_tcp_port p))]"

definition read_pong :: "ext \<Rightarrow> pong reader" where
  "read_pong B =
     rbind (br_u16 B) (\<lambda>udp_port.
     rret \<lparr> po_udp_port = udp_port \<rparr>)"

definition write_pong :: "ext \<Rightarrow> pong \<Rightarrow> bytes option" where
  "write_pong B p =
     wconcat [Some (bw_u16 B (po_udp_port p))]"


subsection \<open>Hand-written codecs\<close>

definition read_kad_search_entry_id :: "ext \<Rightarrow> ed2k_hash reader" where
  "read_kad_search_entry_id B =
     rbind (read_node_id B) (\<lambda>entry_id. rret (Ed2kHash (to_be_bytes entry_id)))"

definition write_kad_search_entry_id :: "ext \<Rightarrow> ed2k_hash \<Rightarrow> bytes" where
  "write_kad_search_entry_id B entry_id = write_node_id B (from_be_bytes (ed2k_array entry_id))"

text \<open>One iteration of the result loop: the identity, then the tags in search-result mode.\<close>

definition read_search_result_entry :: "ext \<Rightarrow> search_result_entry reader" where
  "read_search_result_entry B =
     rbind (read_kad_search_entry_id B) (\<lambda>entry_id.
     rbind (read_vec8 B (read_with_mode B SearchResult)) (\<lambda>ts.
     rret \<lparr> se_entry_id = entry_id, se_tags = ts \<rparr>))"

definition write_search_result_entry :: "ext \<Rightarrow> search_result_entry \<Rightarrow> bytes option" where
  "write_search_result_entry B e =
     wconcat [Some (write_kad_search_entry_id B (se_entry_id e)),
       write_vec8 B (write_tag B) (se_tags e)]"

definition read_search_res :: "ext \<Rightarrow> search_res reader" where
  "read_search_res B =
     rbind (read_node_id B) (\<lambda>sender_id.
     rbind (read_node_id B) (\<lambda>target.
     rbind (read_vec16 B (read_search_result_entry B)) (\<lambda>rs.
     rret \<lparr> sr_sender_id = sender_id, sr_target = target, sr_results = rs \<rparr>)))"

definition write_search_res :: "ext \<Rightarrow> search_res \<Rightarrow> bytes option" where
  "write_search_res B p =
     wconcat [Some (write_node_id B (sr_sender_id p)),
       Some (write_node_id B (sr_target p)),
       write_vec16 B (write_search_result_entry B) (sr_results p)]"

text \<open>The optional last byte: read when the cursor is before the end of the body.\<close>

definition read_opt_u8 :: "ext \<Rightarrow> u8 option reader" where
  "read_opt_u8 B s = (if s \<noteq> [] then rbind (br_u8 B) (\<lambda>b. rret (Some b)) s else rret None s)"

definition write_opt_u8 :: "ext \<Rightarrow> u8 option \<Rightarrow> bytes" where
  "write_opt_u8 B x = (case x of Some b \<Rightarrow> bw_u8 B b | None \<Rightarrow> [])"

definition read_find_buddy_res :: "ext \<Rightarrow> find_buddy_res reader" where
  "read_find_buddy_res B =
     rbind (read_node_id B) (\<lambda>buddy_id.
     rbind (read_ed2k_hash B) (\<lambda>client_hash.
     rbind (br_u16 B) (\<lambda>tcp_port.
     rbind (read_opt_u8 B) (\<lambda>connect_options.
     rret \<lparr> fs_buddy_id = buddy_id, fs_client_hash = client_hash, fs_tcp_port = tcp_port,
       fs_connect_options = connect_options \<rparr>))))"

definition write_find_buddy_res :: "ext \<Rightarrow> find_buddy_res \<Rightarrow> bytes option" where
  "write_find_buddy_res B p =
     wconcat [Some (write_node_id B (fs_buddy_id p)),
       Some (write_ed2k_hash B (fs_client_hash p)),
       Some (bw_u16 B (fs_tcp_port p)),
       Some (write_opt_u8 B (fs_connect_options p))]"

definition read_publish_res :: "ext \<Rightarrow> publish_res reader" where
  "read_publish_res B =
     rbind (read_node_id B) (\<lambda>target.
     rbind (br_u8 B) (\<lambda>ld.
     rbind (read_opt_u8 B) (\<lambda>opts.
     rret \<lparr> pr_target = target, pr_load = ld, pr_options = opts \<rparr>)))"

definition write_publish_res :: "ext \<Rightarrow> publish_res \<Rightarrow> bytes option" where
  "write_publish_res B p =
     wconcat [Some (write_node_id B (pr_target p)),
       Some (bw_u8 B (pr_load p)),
       Some (write_opt_u8 B (pr_options p))]"

definition read_search_key_req :: "ext \<Rightarrow> search_key_req reader" where
  "read_search_key_req B =
     rbind (read_node_id B) (\<lambda>target.
     rbind (br_u16 B) (\<lambda>start_position.
     rbind read_to_end (\<lambda>restrictive_payload.
     rret \<lparr> sk_target = target, sk_start_position = start_position,
       sk_restrictive_payload = restrictive_payload \<rparr>)))"

definition write_search_key_req :: "ext \<Rightarrow> search_key_req \<Rightarrow> bytes option" where
  "write_search_key_req B p =
     wconcat [Some (write_node_id B (sk_target p)),
       Some (bw_u16 B (sk_start_position p)),
       Some (sk_restrictive_payload p)]"

text \<open>\<open>cursor.read_le::<T>()?\<close>: the value, with the error converted by \<open>?\<close>.\<close>

definition read_le :: "'a reader \<Rightarrow> bytes \<Rightarrow> proto_error + 'a" where
  "read_le rd s = (case rd s of Inl e \<Rightarrow> Inl (BinRw e) | Inr (x, _) \<Rightarrow> Inr x)"

text \<open>The three body shapes told apart by the number of bytes behind the target.\<close>

definition read_search_source_req :: "ext \<Rightarrow> bytes \<Rightarrow> proto_error + search_source_req" where
  "read_search_source_req B s =
     (case read_node_id B s of
        Inl e \<Rightarrow> Inl (BinRw e)
      | Inr (target, r) \<Rightarrow>
          bind_res
            (if length r = 4 then read_le (rbind (br_u32 B) (\<lambda>sz. rret (0, ucast sz))) r
             else if length r = 8 then read_le (rbind (br_u64 B) (\<lambda>sz. rret (0, sz))) r
             else if length r = 10 then
               read_le (rbind (br_u16 B) (\<lambda>start_position.
                 rbind (br_u64 B) (\<lambda>sz. rret (start_position AND 0x7FFF, sz)))) r
             else Inl BufferTooShort)
            (\<lambda>(start_position, sz).
              Inr \<lparr> ss_target = target, ss_start_position = start_position, ss_size = sz \<rparr>))"

definition write_search_source_req :: "ext \<Rightarrow> search_source_req \<Rightarrow> bytes option" where
  "write_search_source_req B p =
     wconcat [Some (write_node_id B (ss_target p)),
       Some (bw_u16 B (ss_start_position p)),
       Some (bw_u64 B (ss_size p))]"

subsection \<open>Packets\<close>

datatype kad_packet =
     BootstrapReq
  | BootstrapRes bootstrap_res
  | HelloReq hello_req
  | HelloRes hello_res
  | HelloResAck hello_res_ack
  | Req kad_req
  | Res kad_res
  | SearchKeyReq search_key_req
  | SearchSourceReq search_source_req
  | SearchNotesReq search_notes_req
  | SearchRes search_res
  | PublishKeyReq publish_key_req
  | PublishSourceReq publish_source_req
  | PublishNotesReq publish_notes_req
  | PublishRes publish_res
  | PublishResAck
  | FirewalledReq firewalled_req
  | Firewalled2Req firewalled2_req
  | FirewalledRes firewalled_res
  | FirewalledAckRes
  | FirewallUdp firewall_udp
  | FindBuddyReq find_buddy_req
  | FindBuddyRes find_buddy_res
  | CallbackReq callback_req
  | Ping
  | Pong pong
  | Unknown u8 bytes

definition require_body_len :: "u8 \<Rightarrow> bytes \<Rightarrow> nat \<Rightarrow> proto_error + unit" where
  "require_body_len op body expected =
     (if length body = expected then Inr ()
      else Inl (InvalidPacketSize op expected (length body)))"

definition require_min_body_len :: "u8 \<Rightarrow> bytes \<Rightarrow> nat \<Rightarrow> proto_error + unit" where
  "require_min_body_len op body expected_min =
     (if length body \<ge> expected_min then Inr ()
      else Inl (InvalidPacketSize op expected_min (length body)))"

definition opcode :: "kad_packet \<Rightarrow> u8" where
  "opcode p =
     (case p of
         BootstrapReq \<Rightarrow> op_BOOTSTRAP_REQ
      | BootstrapRes _ \<Rightarrow> op_BOOTSTRAP_RES
      | HelloReq _ \<Rightarrow> op_HELLO_REQ
      | HelloRes _ \<Rightarrow> op_HELLO_RES
      | HelloResAck _ \<Rightarrow> op_HELLO_RES_ACK
      | Req _ \<Rightarrow> op_REQ
      | Res _ \<Rightarrow> op_RES
      | SearchKeyReq _ \<Rightarrow> op_SEARCH_KEY_REQ
      | SearchSourceReq _ \<Rightarrow> op_SEARCH_SOURCE_REQ
      | SearchNotesReq _ \<Rightarrow> op_SEARCH_NOTES_REQ
      | SearchRes _ \<Rightarrow> op_SEARCH_RES
      | PublishKeyReq _ \<Rightarrow> op_PUBLISH_KEY_REQ
      | PublishSourceReq _ \<Rightarrow> op_PUBLISH_SOURCE_REQ
      | PublishNotesReq _ \<Rightarrow> op_PUBLISH_NOTES_REQ
      | PublishRes _ \<Rightarrow> op_PUBLISH_RES
      | PublishResAck \<Rightarrow> op_PUBLISH_RES_ACK
      | FirewalledReq _ \<Rightarrow> op_FIREWALLED_REQ
      | Firewalled2Req _ \<Rightarrow> op_FIREWALLED2_REQ
      | FirewalledRes _ \<Rightarrow> op_FIREWALLED_RES
      | FirewalledAckRes \<Rightarrow> op_FIREWALLED_ACK_RES
      | FirewallUdp _ \<Rightarrow> op_FIREWALLUDP
      | FindBuddyReq _ \<Rightarrow> op_FINDBUDDY_REQ
      | FindBuddyRes _ \<Rightarrow> op_FINDBUDDY_RES
      | CallbackReq _ \<Rightarrow> op_CALLBACK_REQ
      | Ping \<Rightarrow> op_PING
      | Pong _ \<Rightarrow> op_PONG
      | Unknown op _ \<Rightarrow> op)"

text \<open>The map from a read structure to its packet.\<close>

definition packet_of :: "('a \<Rightarrow> kad_packet) \<Rightarrow> proto_error + 'a \<Rightarrow> proto_error + kad_packet" where
  "packet_of c r = bind_res r (\<lambda>p. Inr (c p))"

definition decode_body :: "ext \<Rightarrow> u8 \<Rightarrow> bytes \<Rightarrow> proto_error + kad_packet" where
  "decode_body B op body =
     (if op = op_BOOTSTRAP_REQ then Inr BootstrapReq
      else if op = op_BOOTSTRAP_RES then
        packet_of BootstrapRes (read_le (read_bootstrap_res B) body)
      else if op = op_HELLO_REQ then packet_of HelloReq (read_le (read_hello_req B) body)
      else if op = op_HELLO_RES then packet_of HelloRes (read_le (read_hello_res B) body)
      else if op = op_HELLO_RES_ACK then packet_of HelloResAck (read_le (read_hello_res_ack B) body)
      else if op = op_REQ then packet_of Req (read_le (read_kad_req B) body)
      else if op = op_RES then packet_of Res (read_le (read_kad_res B) body)
      else if op = op_SEARCH_KEY_REQ then
        packet_of SearchKeyReq (read_le (read_search_key_req B) body)
      else if op = op_SEARCH_SOURCE_REQ then
        packet_of SearchSourceReq (read_search_source_req B body)
      else if op = op_SEARCH_NOTES_REQ then
        packet_of SearchNotesReq (read_le (read_search_notes_req B) body)
      else if op = op_SEARCH_RES then packet_of SearchRes (read_le (read_search_res B) body)
      else if op = op_PUBLISH_KEY_REQ then
        packet_of PublishKeyReq (read_le (read_publish_key_req B) body)
      else if op = op_PUBLISH_SOURCE_REQ then
        packet_of PublishSourceReq (read_le (read_publish_source_req B) body)
      else if op = op_PUBLISH_NOTES_REQ then
        packet_of PublishNotesReq (read_le (read_publish_notes_req B) body)
      else if op = op_PUBLISH_RES then
        bind_res (require_min_body_len op body 17)
          (\<lambda>_. packet_of PublishRes (read_le (read_publish_res B) body))
      else if op = op_PUBLISH_RES_ACK then Inr PublishResAck
      else if op = op_FIREWALLED_REQ then
        bind_res (require_body_len op body 2)
          (\<lambda>_. packet_of FirewalledReq (read_le (read_firewalled_req B) body))
      else if op = op_FIREWALLED2_REQ then
        packet_of Firewalled2Req (read_le (read_firewalled2_req B) body)
      else if op = op_FIREWALLED_RES then
        bind_res (require_body_len op body 4)
          (\<lambda>_. packet_of FirewalledRes (read_le (read_firewalled_res B) body))
      else if op = op_FIREWALLED_ACK_RES then
        bind_res (require_body_len op body 0) (\<lambda>_. Inr FirewalledAckRes)
      else if op = op_FIREWALLUDP then
        bind_res (require_min_body_len op body 3)
          (\<lambda>_. packet_of FirewallUdp (read_le (read_firewall_udp B) body))
      else if op = op_FINDBUDDY_REQ then
        bind_res (require_min_body_len op body 34)
          (\<lambda>_. packet_of FindBuddyReq (read_le (read_find_buddy_req B) body))
      else if op = op_FINDBUDDY_RES then
        bind_res (require_min_body_len op body 34)
          (\<lambda>_. packet_of FindBuddyRes (read_le (read_find_buddy_res B) body))
      else if op = op_CALLBACK_REQ then
        bind_res (require_min_body_len op body 34)
          (\<lambda>_. packet_of CallbackReq (read_le (read_callback_req B) body))
      else if op = op_PING then Inr Ping
      else if op = op_PONG then
        bind_res (require_min_body_len op body 2)
          (\<lambda>_. packet_of Pong (read_le (read_pong B) body))
      else Inr (Unknown op body))"

definition decode :: "ext \<Rightarrow> bytes \<Rightarrow> proto_error + kad_packet" where
  "decode B buf =
     (if length buf < 2 then Inl BufferTooShort
      else bind_res
        (if buf ! 0 = OP_KADEMLIAPACKEDPROT then
           (case zlib_inflate B (drop 2 buf) of
              None \<Rightarrow> Inl DecompressError
            | Some decompressed \<Rightarrow> Inr (buf ! 1, decompressed))
         else if buf ! 0 = OP_KADEMLIAHEADER then Inr (buf ! 1, drop 2 buf)
         else Inl (InvalidProtocol (buf ! 0)))
        (\<lambda>(op, body). decode_body B op body))"

definition encode_body :: "ext \<Rightarrow> kad_packet \<Rightarrow> bytes option" where
  "encode_body B pkt =
     (case pkt of
         BootstrapReq \<Rightarrow> Some []
      | BootstrapRes p \<Rightarrow> write_bootstrap_res B p
      | HelloReq p \<Rightarrow> write_hello_req B p
      | HelloRes p \<Rightarrow> write_hello_res B p
      | HelloResAck p \<Rightarrow> write_hello_res_ack B p
      | Req p \<Rightarrow> write_kad_req B p
      | Res p \<Rightarrow> write_kad_res B p
      | SearchKeyReq p \<Rightarrow> write_search_key_req B p
      | SearchSourceReq p \<Rightarrow> write_search_source_req B p
      | SearchNotesReq p \<Rightarrow> write_search_notes_req B p
      | SearchRes p \<Rightarrow> write_search_res B p
      | PublishKeyReq p \<Rightarrow> write_publish_key_req B p
      | PublishSourceReq p \<Rightarrow> write_publish_source_req B p
      | PublishNotesReq p \<Rightarrow> write_publish_notes_req B p
      | PublishRes p \<Rightarrow> write_publish_res B p
      | PublishResAck \<Rightarrow> Some []
      | FirewalledReq p \<Rightarrow> write_firewalled_req B p
      | Firewalled2Req p \<Rightarrow> write_firewalled2_req B p
      | FirewalledRes p \<Rightarrow> write_firewalled_res B p
      | FirewalledAckRes \<Rightarrow> Some []
      | FirewallUdp p \<Rightarrow> write_firewall_udp B p
      | FindBuddyReq p \<Rightarrow> write_find_buddy_req B p
      | FindBuddyRes p \<Rightarrow> write_find_buddy_res B p
      | CallbackReq p \<Rightarrow> write_callback_req B p
      | Ping \<Rightarrow> Some []
      | Pong p \<Rightarrow> write_pong B p
      | Unknown _ payload \<Rightarrow> Some payload)"

definition encode :: "ext \<Rightarrow> kad_packet \<Rightarrow> bytes option" where
  "encode B p =
     wconcat [Some (bw_u8 B OP_KADEMLIAHEADER), Some (bw_u8 B (opcode p)), encode_body B p]"

end
