(* ===== verification/Kad_Tracker.thy ===== *)
theory Kad_Tracker
  imports Rust_Std Kad_Packet
begin

text \<open>
  Flood tracking and request tracking, \<open>crates/overlord-kad-net/src/tracker.rs\<close>: the per-address,
  per-family packet counters of \<open>PacketTracker\<close> and the list of outbound requests of
  \<open>OutboundRequestTracker\<close>. An \<open>Instant\<close> and a \<open>Duration\<close> are natural numbers of nanoseconds;
  \<open>duration_since\<close> saturates at zero, as subtraction on the naturals does. The clock is an argument.
\<close>

subsection \<open>Inbound packet counters\<close>

datatype tracker_bucket =
    BootstrapReqBucket | HelloReqBucket | FindNodeReqBucket | SearchReqBucket | PublishKeyReqBucket
  | PublishSourceReqBucket | PublishNotesReqBucket | FirewalledReqBucket | FindBuddyReqBucket
  | CallbackReqBucket | PingReqBucket | SearchResBucket | DefaultBucket

record tracker_key =
  tk_ip :: ip_addr
  tk_bucket :: tracker_bucket

record tracker_limit =
  tl_max_packets :: u32
  tl_window :: nat

datatype tracker_action = Allow | DropPacket | MassiveDrop

record tracker_decision =
  td_action :: tracker_action
  td_allowed :: bool
  td_observed_packets :: u32
  td_max_packets :: u32
  td_window :: nat

record packet_tracker =
  pt_counts :: "tracker_key \<rightharpoonup> u32 \<times> nat"
  pt_limits :: "tracker_bucket \<rightharpoonup> tracker_limit"
  pt_default_limit :: tracker_limit

text \<open>\<open>Duration::MAX\<close> in nanoseconds.\<close>

definition DURATION_MAX :: nat where "DURATION_MAX = (2 ^ 64 - 1) * 1000000000 + 999999999"

definition limit_new :: "u32 \<Rightarrow> nat \<Rightarrow> tracker_limit" where
  "limit_new max_packets window = \<lparr> tl_max_packets = max_packets, tl_window = window \<rparr>"

definition tracker_new :: "u32 \<Rightarrow> u32 \<Rightarrow> nat \<Rightarrow> nat \<Rightarrow> packet_tracker" where
  "tracker_new max_per_window search_res_max_per_window window request_window =
     \<lparr> pt_counts = Map.empty,
       pt_limits =
         [BootstrapReqBucket \<mapsto> limit_new 2 request_window,
          HelloReqBucket \<mapsto> limit_new 3 request_window,
          FindNodeReqBucket \<mapsto> limit_new 10 request_window,
          SearchReqBucket \<mapsto> limit_new 3 request_window,
          PublishKeyReqBucket \<mapsto> limit_new 4 request_window,
          PublishSourceReqBucket \<mapsto> limit_new 3 request_window,
          PublishNotesReqBucket \<mapsto> limit_new 2 request_window,
          FirewalledReqBucket \<mapsto> limit_new 2 request_window,
          FindBuddyReqBucket \<mapsto> limit_new 2 request_window,
          CallbackReqBucket \<mapsto> limit_new 1 request_window,
          PingReqBucket \<mapsto> limit_new 2 request_window,
          SearchResBucket \<mapsto> limit_new search_res_max_per_window window],
       pt_default_limit = limit_new max_per_window window \<rparr>"

definition limit_for_bucket :: "packet_tracker \<Rightarrow> tracker_bucket \<Rightarrow> tracker_limit" where
  "limit_for_bucket t bucket = (case pt_limits t bucket of None \<Rightarrow> pt_default_limit t | Some l \<Rightarrow> l)"

text \<open>\<open>u32::saturating_mul\<close>.\<close>

definition u32_saturating_mul :: "u32 \<Rightarrow> u32 \<Rightarrow> u32" where
  "u32_saturating_mul a b = (if unat a * unat b < 2 ^ 32 then a * b else - 1)"

definition action_for :: "u32 \<Rightarrow> u32 \<Rightarrow> tracker_action" where
  "action_for n max_packets =
     (if n > u32_saturating_mul max_packets 4 then MassiveDrop
      else if n > max_packets then DropPacket else Allow)"

definition record_and_check ::
  "nat \<Rightarrow> tracker_key \<Rightarrow> packet_tracker \<Rightarrow> tracker_decision \<times> packet_tracker" where
  "record_and_check now key t =
     (let limit = limit_for_bucket t (tk_bucket key);
          entry = (case pt_counts t key of None \<Rightarrow> (0, now) | Some e \<Rightarrow> e);
          entry = (if now - snd entry \<ge> tl_window limit then (0, now) else entry);
          entry = (fst entry + 1, snd entry);
          action = action_for (fst entry) (tl_max_packets limit) in
      (\<lparr> td_action = action, td_allowed = (action = Allow), td_observed_packets = fst entry,
         td_max_packets = tl_max_packets limit, td_window = tl_window limit \<rparr>,
       t\<lparr>pt_counts := (pt_counts t)(key \<mapsto> entry)\<rparr>))"

definition tracker_prune :: "nat \<Rightarrow> packet_tracker \<Rightarrow> packet_tracker" where
  "tracker_prune now t =
     t\<lparr>pt_counts := (\<lambda>key. case pt_counts t key of
        None \<Rightarrow> None
      | Some e \<Rightarrow>
          if now - snd e < min DURATION_MAX (tl_window (limit_for_bucket t (tk_bucket key)) * 2)
          then Some e else None)\<rparr>"

subsection \<open>Outbound requests\<close>

record request_entry =
  re_inserted_at :: nat
  re_ip :: ip_addr
  re_opcode :: u8

text \<open>The deque from front (newest) to back.\<close>

record outbound_tracker =
  ot_entries :: "request_entry list"
  ot_window :: nat

definition outbound_new :: "nat \<Rightarrow> outbound_tracker" where
  "outbound_new window = \<lparr> ot_entries = [], ot_window = window \<rparr>"

definition tracks_outbound_request_opcode :: "u8 \<Rightarrow> bool" where
  "tracks_outbound_request_opcode op \<longleftrightarrow>
     op \<in> {op_BOOTSTRAP_REQ, op_HELLO_REQ, op_HELLO_RES, op_REQ, op_SEARCH_NOTES_REQ,
       op_PUBLISH_KEY_REQ, op_PUBLISH_SOURCE_REQ, op_PUBLISH_NOTES_REQ, op_FINDBUDDY_REQ,
       op_CALLBACK_REQ, op_PING}"

text \<open>Popping expired entries off the back.\<close>

definition outbound_prune :: "nat \<Rightarrow> outbound_tracker \<Rightarrow> outbound_tracker" where
  "outbound_prune now t =
     t\<lparr>ot_entries := rev (dropWhile (\<lambda>e. now - re_inserted_at e \<ge> ot_window t) (rev (ot_entries t)))\<rparr>"

definition record_request :: "nat \<Rightarrow> ip_addr \<Rightarrow> u8 \<Rightarrow> outbound_tracker \<Rightarrow> outbound_tracker" where
  "record_request now ip op t =
     (let t = outbound_prune now t in
      if \<not> tracks_outbound_request_opcode op then t
      else t\<lparr>ot_entries := \<lparr> re_inserted_at = now, re_ip = ip, re_opcode = op \<rparr> # ot_entries t\<rparr>)"

fun remove_match :: "ip_addr \<Rightarrow> u8 \<Rightarrow> request_entry list \<Rightarrow> request_entry list option" where
  "remove_match ip op [] = None"
| "remove_match ip op (e # es) =
     (if re_ip e = ip \<and> re_opcode e = op then Some es else map_option ((#) e) (remove_match ip op es))"

definition outbound_contains ::
  "nat \<Rightarrow> ip_addr \<Rightarrow> u8 \<Rightarrow> bool \<Rightarrow> outbound_tracker \<Rightarrow> bool \<times> outbound_tracker" where
  "outbound_contains now ip op remove t =
     (let t = outbound_prune now t in
      case remove_match ip op (ot_entries t) of
        None \<Rightarrow> (False, t)
      | Some es \<Rightarrow> (True, if remove then t\<lparr>ot_entries := es\<rparr> else t))"

fun find_any ::
  "nat \<Rightarrow> ip_addr \<Rightarrow> u8 list \<Rightarrow> bool \<Rightarrow> outbound_tracker \<Rightarrow> u8 option \<times> outbound_tracker" where
  "find_any now ip [] remove t = (None, t)"
| "find_any now ip (op # ops) remove t =
     (case outbound_contains now ip op remove t of
        (True, t) \<Rightarrow> (Some op, t)
      | (False, t) \<Rightarrow> find_any now ip ops remove t)"

end
