(* ===== verification/Kad_Tracker_Props.thy ===== *)
theory Kad_Tracker_Props
  imports Kad_Tracker
begin

text \<open>
  Properties of flood and request tracking: how many packets of one family an address gets through
  in any stretch of time, over all runs of the packet tracker, and that every accepted response
  uses up a recent request of its own, over all runs of the request tracker.
\<close>

subsection \<open>Runs of the packet tracker\<close>

datatype tracker_event = Packet tracker_key | Prune

text \<open>The times at which packets of one key are allowed.\<close>

fun allowed_times :: "tracker_key \<Rightarrow> (nat \<times> tracker_event) list \<Rightarrow> packet_tracker \<Rightarrow> nat list" where
  "allowed_times key [] t = []"
| "allowed_times key ((now, Packet k) # evs) t =
     (case record_and_check now k t of (d, t') \<Rightarrow>
        (if k = key \<and> td_allowed d then [now] else []) @ allowed_times key evs t')"
| "allowed_times key ((now, Prune) # evs) t = allowed_times key evs (tracker_prune now t)"

text \<open>The times at which packets of one key arrive.\<close>

definition packet_times :: "tracker_key \<Rightarrow> (nat \<times> tracker_event) list \<Rightarrow> nat list" where
  "packet_times key evs = map fst (filter (\<lambda>ev. snd ev = Packet key) evs)"

abbreviation between :: "nat \<Rightarrow> nat \<Rightarrow> nat list \<Rightarrow> nat" where
  "between a b xs \<equiv> length (filter (\<lambda>x. a \<le> x \<and> x < b) xs)"

lemma limit_for_bucket_frame [simp]:
  "limit_for_bucket (t\<lparr>pt_counts := c\<rparr>) b = limit_for_bucket t b"
  by (simp add: limit_for_bucket_def split: option.split)

text \<open>
  The counter of a key against the times it has let through: a counting window has let through at
  most its count and the limit, its first packet at its start, and the stretch of one window length
  before it, without that length's own start, one less than the limit.
\<close>

definition window_inv :: "nat \<Rightarrow> nat \<Rightarrow> nat list \<Rightarrow> (u32 \<times> nat) option \<Rightarrow> nat \<Rightarrow> bool" where
  "window_inv w m xs e now \<longleftrightarrow>
     (\<forall>x\<in>set xs. x \<le> now) \<and> (\<forall>a. between a (a + w) xs \<le> 2 * m - 1) \<and>
     (case e of
        None \<Rightarrow> (\<forall>x\<in>set xs. x < now) \<and> between (now + 1 - w) now xs \<le> m - 1
      | Some (c, s) \<Rightarrow> 0 < unat c \<and> s \<le> now \<and> (\<forall>x\<in>set xs. x < s + w) \<and>
          between s (s + w) xs \<le> min (unat c) m \<and>
          between (s + 1) (s + w) xs \<le> min (unat c - 1) (m - 1) \<and>
          between (s + 1 - w) s xs \<le> m - 1)"

lemma between_mono: "a' \<le> a \<Longrightarrow> b \<le> b' \<Longrightarrow> between a b xs \<le> between a' b' xs"
  by (induction xs) auto

lemma between_split: "a \<le> b \<Longrightarrow> b \<le> c \<Longrightarrow> between a c xs = between a b xs + between b c xs"
  by (induction xs) auto

lemma between_none: "\<forall>x\<in>set xs. x < a \<Longrightarrow> between a b xs = 0"
  by (induction xs) auto

lemma between_cap: "\<forall>x\<in>set xs. x < b \<Longrightarrow> between a c xs \<le> between a b xs"
  by (induction xs) auto

lemma window_inv_weaken:
  assumes "window_inv w m xs e now" "now \<le> now'"
  shows "window_inv w m xs e now'"
proof (cases e)
  case None
  have "between (now' + 1 - w) now' xs \<le> between (now + 1 - w) now xs" if "\<forall>x\<in>set xs. x < now"
    using between_cap [OF that, of "now' + 1 - w" now'] assms(2)
      between_mono [of "now + 1 - w" "now' + 1 - w" now now xs] by linarith
  then show ?thesis
    using assms None by (fastforce simp: window_inv_def)
qed (use assms in \<open>auto simp: window_inv_def\<close>)

lemma window_inv_expire:
  assumes "window_inv w m xs (Some (c, s)) now" "s + w \<le> now"
  shows "window_inv w m xs None now"
proof -
  have "between (now + 1 - w) now xs \<le> between (s + 1) (s + w) xs"
    using between_cap [of xs "s + w" "now + 1 - w" now] assms
      between_mono [of "s + 1" "now + 1 - w" "s + w" "s + w" xs] by (force simp: window_inv_def)
  then show ?thesis
    using assms by (fastforce simp: window_inv_def)
qed

lemma window_inv_fresh:
  assumes "window_inv w m xs None now" "0 < w"
  shows "window_inv w m (xs @ (if 1 \<le> m then [now] else [])) (Some (1, now)) now"
proof -
  have "between a (a + w) (xs @ [now]) \<le> 2 * m - 1" if "1 \<le> m" for a
  proof (cases "a \<le> now \<and> now < a + w")
    case True
    then have "between a (a + w) xs \<le> between (now + 1 - w) now xs"
      using between_cap [of xs now a "a + w"] between_mono [of "now + 1 - w" a now now xs] assms(1)
      by (force simp: window_inv_def)
    then show ?thesis
      using that True assms(1) by (auto simp: window_inv_def)
  qed (use assms(1) in \<open>auto simp: window_inv_def\<close>)
  moreover have "between now (now + w) xs = 0" "between (Suc now) (now + w) xs = 0"
    using assms(1) by (auto simp: window_inv_def filter_empty_conv)
  ultimately show ?thesis
    using assms by (auto simp: window_inv_def)
qed

lemma window_inv_count:
  assumes "window_inv w m xs (Some (c, s)) now" "now < s + w" "unat c + 1 < 2 ^ 32"
  shows "window_inv w m (xs @ (if unat c + 1 \<le> m then [now] else [])) (Some (c + 1, s)) now"
proof -
  have u: "unat (c + 1) = unat c + 1"
    using assms(3) by (simp add: unat_word_ariths)
  have "between a (a + w) (xs @ [now]) \<le> 2 * m - 1" if "unat c + 1 \<le> m" for a
  proof (cases "a \<le> now \<and> now < a + w")
    case True
    then have "between a (a + w) xs \<le> between (s + 1 - w) (s + w) xs"
      using between_cap [of xs "s + w" a "a + w"] between_mono [of "s + 1 - w" a "s + w" "s + w" xs] assms(1)
      by (force simp: window_inv_def)
    also have "\<dots> \<le> m - 1 + unat c"
      using between_split [of "s + 1 - w" s "s + w" xs] assms(1,2) by (auto simp: window_inv_def)
    finally show ?thesis
      using that True by simp
  qed (use assms(1) in \<open>auto simp: window_inv_def\<close>)
  then show ?thesis
    using assms u by (auto simp: window_inv_def)
qed

lemma action_for_Allow: "action_for n m = Allow \<longleftrightarrow> unat n \<le> unat m"
proof -
  have "m \<le> u32_saturating_mul m 4"
  proof (cases "unat m * 4 < 2 ^ 32")
    case True
    then have "unat (m * 4) = unat m * 4"
      by (simp add: unat_word_ariths)
    then show ?thesis
      using True by (simp add: u32_saturating_mul_def word_le_nat_alt)
  qed (simp add: u32_saturating_mul_def)
  then show ?thesis
    by (auto simp: action_for_def word_le_nat_alt word_less_nat_alt)
qed

text \<open>
  The counter of a key is at most the number of packets of its current window, so it does not wrap
  as long as fewer than \<open>2 ^ 32\<close> packets arrive in a window.
\<close>

definition counter_inv :: "nat \<Rightarrow> nat list \<Rightarrow> (u32 \<times> nat) option \<Rightarrow> bool" where
  "counter_inv w ys e \<longleftrightarrow> (case e of None \<Rightarrow> True | Some (c, s) \<Rightarrow> unat c \<le> between s (s + w) ys)"

lemma counter_inv_count:
  assumes "counter_inv w ys (Some (c, s))" "s \<le> now" "now < s + w" "between s (s + w) (ys @ [now]) < 2 ^ 32"
  shows "unat c + 1 < 2 ^ 32" "counter_inv w (ys @ [now]) (Some (c + 1, s))"
proof -
  show "unat c + 1 < 2 ^ 32" using assms by (simp add: counter_inv_def)
  then have "unat (c + 1) = unat c + 1" by (simp add: unat_word_ariths)
  then show "counter_inv w (ys @ [now]) (Some (c + 1, s))" using assms by (simp add: counter_inv_def)
qed

lemma counter_inv_fresh: "0 < w \<Longrightarrow> counter_inv w (ys @ [now]) (Some (1, now))"
  by (simp add: counter_inv_def)

lemma record_window_inv:
  assumes inv: "window_inv w m xs (pt_counts t key) now"
    and w: "w = tl_window (limit_for_bucket t (tk_bucket key))" "0 < w"
    and m: "m = unat (tl_max_packets (limit_for_bucket t (tk_bucket key)))"
    and c: "counter_inv w ys (pt_counts t key)" "\<forall>b. between b (b + w) (ys @ [now]) < 2 ^ 32"
    and r: "record_and_check now key t = (d, t')"
  shows "window_inv w m (xs @ (if td_allowed d then [now] else [])) (pt_counts t' key) now
    \<and> counter_inv w (ys @ [now]) (pt_counts t' key)"
proof -
  have fresh: ?thesis if "window_inv w m xs None now" "pt_counts t' key = Some (1, now)"
      "td_allowed d \<longleftrightarrow> 1 \<le> m"
    using window_inv_fresh [OF that(1) w(2)] counter_inv_fresh [OF w(2)] that by simp
  show ?thesis
  proof (cases "pt_counts t key")
    case None
    then show ?thesis
      using fresh inv r w m by (auto simp: record_and_check_def Let_def action_for_Allow)
  next
    case (Some e)
    obtain k s where e: "e = (k, s)" by (cases e)
    show ?thesis
    proof (cases "now - s \<ge> w")
      case True
      then have "window_inv w m xs None now"
        using inv Some e w by (intro window_inv_expire [of w m xs k s]) auto
      then show ?thesis
        using fresh r w m True Some e by (auto simp: record_and_check_def Let_def action_for_Allow)
    next
      case False
      have s: "s \<le> now" "now < s + w"
        using inv Some e False by (auto simp: window_inv_def)
      have "counter_inv w ys (Some (k, s))" "between s (s + w) (ys @ [now]) < 2 ^ 32"
        using c Some e by simp_all
      then have k: "unat k + 1 < 2 ^ 32" "counter_inv w (ys @ [now]) (Some (k + 1, s))"
        using counter_inv_count [of w ys k s now] s by blast+
      then have u: "unat (k + 1) = unat k + 1"
        by (simp add: unat_word_ariths)
      have "window_inv w m (xs @ (if unat k + 1 \<le> m then [now] else [])) (Some (k + 1, s)) now"
        using inv Some e s(2) k(1) by (intro window_inv_count) auto
      then show ?thesis
        using r w m u k(2) False Some e by (auto simp: record_and_check_def Let_def action_for_Allow)
    qed
  qed
qed

lemma record_other_key [simp]:
  "k \<noteq> key \<Longrightarrow> pt_counts (snd (record_and_check now k t)) key = pt_counts t key"
  by (simp add: record_and_check_def Let_def)

lemma record_limits [simp]: "limit_for_bucket (snd (record_and_check now k t)) b = limit_for_bucket t b"
  by (simp add: record_and_check_def Let_def)

lemma prune_limits [simp]: "limit_for_bucket (tracker_prune now t) b = limit_for_bucket t b"
  by (simp add: tracker_prune_def)

lemma prune_window_inv:
  assumes "window_inv w m xs (pt_counts t key) now"
    and "w = tl_window (limit_for_bucket t (tk_bucket key))" "w \<le> DURATION_MAX"
  shows "window_inv w m xs (pt_counts (tracker_prune now t) key) now"
proof (cases "pt_counts t key")
  case (Some e)
  then have "snd e \<le> now"
    using assms(1) by (auto simp: window_inv_def)
  then have "window_inv w m xs None now"
    if "now - snd e \<ge> min DURATION_MAX (w * 2)"
    using assms Some that by (intro window_inv_expire [of w m xs "fst e" "snd e"]) auto
  then show ?thesis
    using assms Some by (auto simp: tracker_prune_def)
qed (use assms in \<open>simp add: tracker_prune_def\<close>)

lemma between_append_less: "between a b (xs @ ys) < n \<Longrightarrow> between a b xs < n"
  by simp

lemma allowed_times_bound:
  assumes "sorted (map fst evs)" "\<forall>ev\<in>set evs. now \<le> fst ev"
    and "window_inv w m xs (pt_counts t key) now"
    and "w = tl_window (limit_for_bucket t (tk_bucket key))" "0 < w" "w \<le> DURATION_MAX"
    and "m = unat (tl_max_packets (limit_for_bucket t (tk_bucket key)))"
    and "counter_inv w ys (pt_counts t key)" "\<forall>b. between b (b + w) (ys @ packet_times key evs) < 2 ^ 32"
  shows "between a (a + w) (xs @ allowed_times key evs t) \<le> 2 * m - 1"
  using assms
proof (induction evs arbitrary: now xs ys t)
  case Nil
  then show ?case by (simp add: window_inv_def)
next
  case (Cons ev evs)
  obtain now' e where ev: "ev = (now', e)" by (cases ev)
  have inv: "window_inv w m xs (pt_counts t key) now'"
    using Cons.prems(2,3) ev by (auto intro: window_inv_weaken)
  have later: "\<forall>ev\<in>set evs. now' \<le> fst ev" "sorted (map fst evs)"
    using Cons.prems(1) ev by auto
  show ?case
  proof (cases e)
    case Prune
    have "window_inv w m xs (pt_counts (tracker_prune now' t) key) now'"
      using prune_window_inv [OF inv] Cons.prems by blast
    moreover have "counter_inv w ys (pt_counts (tracker_prune now' t) key)"
      using Cons.prems(8) by (auto simp: tracker_prune_def counter_inv_def split: option.splits)
    ultimately show ?thesis
      using Cons.IH [OF later(2,1), where ys = ys and t = "tracker_prune now' t" and xs = xs] Cons.prems ev Prune
      by (simp add: packet_times_def)
  next
    case (Packet k)
    obtain d t' where r: "record_and_check now' k t = (d, t')"
      by (cases "record_and_check now' k t")
    have l: "limit_for_bucket t' (tk_bucket key) = limit_for_bucket t (tk_bucket key)"
      using record_limits [of now' k t "tk_bucket key"] r by simp
    let ?ys = "ys @ (if k = key then [now'] else [])"
    have arrivals: "ys @ packet_times key (ev # evs) = ?ys @ packet_times key evs"
      by (simp add: ev Packet packet_times_def)
    have "window_inv w m (xs @ (if k = key \<and> td_allowed d then [now'] else [])) (pt_counts t' key) now'
      \<and> counter_inv w ?ys (pt_counts t' key)"
    proof (cases "k = key")
      case True
      have "\<forall>b. between b (b + w) (ys @ [now']) < 2 ^ 32"
        using Cons.prems(9) between_append_less [of _ _ ?ys "packet_times key evs"] True
        unfolding arrivals by simp
      then show ?thesis
        using record_window_inv [OF inv Cons.prems(4,5,7,8) _ r [unfolded True]] True by simp
    next
      case False
      then have "pt_counts t' key = pt_counts t key"
        using record_other_key [of k key now' t] r by simp
      then show ?thesis
        using False inv Cons.prems(8) by simp
    qed
    then show ?thesis
      using Cons.IH [OF later(2,1), where ys = ?ys and t = t' and
          xs = "xs @ (if k = key \<and> td_allowed d then [now'] else [])"] Cons.prems(4-7)
        Cons.prems(9) [unfolded arrivals] l r ev Packet by simp
  qed
qed

text \<open>
  C4. An address cannot flood. Over every run of the tracker, however long, in which the clock does
  not go backwards and fewer than \<open>2 ^ 32\<close> packets of the address and packet family arrive in any
  stretch as long as the window of the family (the counter has 32 bits), the address gets through, in
  any such stretch (fixed or sliding), fewer than twice the family's limit of packets; a family with
  limit one gets through at most one packet. The window is one that a \<open>Duration\<close> can hold.
\<close>

theorem flood_bound:
  assumes "t = tracker_new max_per_window search_res_max_per_window window request_window"
    and "limit = limit_for_bucket t (tk_bucket key)" "tl_window limit \<le> DURATION_MAX"
    and "sorted (map fst evs)" "\<forall>b. between b (b + tl_window limit) (packet_times key evs) < 2 ^ 32"
  shows "between a (a + tl_window limit) (allowed_times key evs t) \<le> 2 * unat (tl_max_packets limit) - 1"
proof (cases "tl_window limit = 0")
  case False
  have "window_inv w m [] (pt_counts t key) 0" "counter_inv w [] (pt_counts t key)" for w m
    using assms(1) by (simp_all add: window_inv_def counter_inv_def tracker_new_def)
  then show ?thesis
    using allowed_times_bound [of evs 0 _ _ "[]" t key "[]" a] assms False by auto
qed auto

text \<open>Three pings within sixty seconds, one less than twice the limit, do get through.\<close>

definition demo_key :: tracker_key where
  "demo_key = \<lparr> tk_ip = V4 (Ipv4 1 2 3 4), tk_bucket = PingReqBucket \<rparr>"

definition demo_events :: "(nat \<times> tracker_event) list" where
  "demo_events = map (\<lambda>s. (s, Packet demo_key)) [0, 59, 60, 61, 62]"

fun key_times :: "nat \<Rightarrow> u32 \<Rightarrow> (u32 \<times> nat) option \<Rightarrow> nat list \<Rightarrow> nat list" where
  "key_times w m e [] = []"
| "key_times w m e (now # ts) =
     (case (case e of None \<Rightarrow> (0, now) | Some (c, s) \<Rightarrow> if now - s \<ge> w then (0, now) else (c, s)) of
        (c, s) \<Rightarrow> (if unat (c + 1) \<le> unat m then [now] else []) @ key_times w m (Some (c + 1, s)) ts)"

lemma allowed_key_times:
  "allowed_times key (map (\<lambda>s. (s, Packet key)) ts) t =
     key_times (tl_window (limit_for_bucket t (tk_bucket key)))
       (tl_max_packets (limit_for_bucket t (tk_bucket key))) (pt_counts t key) ts"
  by (induction ts arbitrary: t)
    (auto simp: record_and_check_def Let_def action_for_Allow split: option.splits)

lemma demo_allowed: "allowed_times demo_key demo_events (tracker_new 20 256 5 60) = [0, 59, 60, 61]"
  unfolding demo_events_def allowed_key_times
  by (simp add: tracker_new_def limit_for_bucket_def limit_new_def demo_key_def)

theorem flood_bound_witness:
  "between 59 119 (allowed_times demo_key demo_events (tracker_new 20 256 5 60)) = 3 \<and>
   between 59 (59 + tl_window (limit_for_bucket (tracker_new 20 256 5 60) (tk_bucket demo_key)))
     (allowed_times demo_key demo_events (tracker_new 20 256 5 60)) \<le>
     2 * unat (tl_max_packets (limit_for_bucket (tracker_new 20 256 5 60) (tk_bucket demo_key))) - 1"
proof
  show "between 59 119 (allowed_times demo_key demo_events (tracker_new 20 256 5 60)) = 3"
    by (simp add: demo_allowed)
  have few: "length (packet_times demo_key demo_events) \<le> 5" "(5 :: nat) < 2 ^ 32"
    by (simp_all add: packet_times_def demo_events_def)
  have "between b c (packet_times demo_key demo_events) < 2 ^ 32" for b c
    by (rule order_le_less_trans [OF order_trans [OF length_filter_le few(1)] few(2)])
  moreover have "sorted (map fst demo_events)"
    by (simp add: demo_events_def)
  moreover have "tl_window (limit_for_bucket (tracker_new 20 256 5 60) (tk_bucket demo_key)) \<le> DURATION_MAX"
    by (simp add: tracker_new_def limit_for_bucket_def limit_new_def demo_key_def DURATION_MAX_def)
  ultimately show "between 59 (59 + tl_window (limit_for_bucket (tracker_new 20 256 5 60) (tk_bucket demo_key)))
     (allowed_times demo_key demo_events (tracker_new 20 256 5 60)) \<le>
     2 * unat (tl_max_packets (limit_for_bucket (tracker_new 20 256 5 60) (tk_bucket demo_key))) - 1"
    by (intro flood_bound [OF refl refl]) blast+
qed

end
