(* ===== verification/Routing_Bin.thy ===== *)
theory Routing_Bin
  imports Node_Id
begin

text \<open>
  Contacts and k-buckets of the routing crate: \<open>crates/overlord-kad-routing/src/contact.rs\<close>,
  \<open>error.rs\<close> and \<open>bin.rs\<close>. A bin is the \<open>VecDeque\<close> of its contacts, oldest first. Every
  operation that mutates the bin returns the new bin, also when it reports an error.
  Clock reads (\<open>SystemTime::now()\<close>) are arguments named \<open>now\<close>.

  The lemmas show the bin invariant \<open>bin_ok\<close> (at most \<open>K\<close> contacts, distinct node
  identifiers, at most two non-LAN contacts of one /24) and describe \<open>try_add\<close>, \<open>remove\<close> and
  \<open>refresh\<close> on every branch.
\<close>

subsection \<open>Constants, addresses, contacts, errors\<close>

definition K :: nat where "K = 10"
definition ALPHA :: nat where "ALPHA = 3"
definition KBASE :: nat where "KBASE = 4"
definition KK :: nat where "KK = 5"

type_synonym subnet = "u8 \<times> u8 \<times> u8"

fun subnet24 :: "ipv4 \<Rightarrow> subnet" where
  "subnet24 (Ipv4 a b c d) = (a, b, c)"

datatype udp_key = KadUdpKey u32

definition udp_key_ZERO :: udp_key where
  "udp_key_ZERO = KadUdpKey 0"

fun udp_key_value :: "udp_key \<Rightarrow> u32" where
  "udp_key_value (KadUdpKey k) = k"

datatype contact_type = Active | Inactive | Dead

record contact =
  c_id :: node_id
  c_ip :: ipv4
  c_udp_port :: u16
  c_tcp_port :: u16
  c_kad_version :: u8
  c_udp_key :: udp_key
  c_hello_source_udp_port :: "u16 option"
  c_udp_firewalled :: bool
  c_tcp_firewalled :: bool
  c_requests_hello_res_ack :: bool
  c_verified :: bool
  c_contact_type :: contact_type
  c_last_seen :: nat
  c_created_at :: nat

definition contact_new :: "node_id \<Rightarrow> ipv4 \<Rightarrow> u16 \<Rightarrow> u16 \<Rightarrow> u8 \<Rightarrow> nat \<Rightarrow> contact" where
  "contact_new i ip udp_port tcp_port kad_version now =
     \<lparr>c_id = i, c_ip = ip, c_udp_port = udp_port, c_tcp_port = tcp_port,
      c_kad_version = kad_version, c_udp_key = udp_key_ZERO, c_hello_source_udp_port = None,
      c_udp_firewalled = False, c_tcp_firewalled = False, c_requests_hello_res_ack = False,
      c_verified = False, c_contact_type = Inactive, c_last_seen = now, c_created_at = now\<rparr>"

fun is_lan :: "ipv4 \<Rightarrow> bool" where
  "is_lan (Ipv4 o0 o1 o2 o3) =
     (if o0 = 10 then True
      else if o0 = 172 \<and> (o1 \<ge> 16 \<and> o1 \<le> 31) then True
      else if o0 = 192 \<and> o1 = 168 then True
      else if o0 = 127 then True
      else False)"

definition is_lan_ip :: "contact \<Rightarrow> bool" where
  "is_lan_ip c = is_lan (c_ip c)"

definition mark_alive :: "nat \<Rightarrow> contact \<Rightarrow> contact" where
  "mark_alive now c = c\<lparr>c_contact_type := Active, c_last_seen := now\<rparr>"

definition mark_dead :: "contact \<Rightarrow> contact" where
  "mark_dead c = c\<lparr>c_contact_type := Dead\<rparr>"

datatype subnet_limit_scope = Global | BinLocal

datatype split_denied_reason = DepthLimit | MaxTableSize | ZoneIndexCap

datatype routing_error =
    TableFull nat
  | IpLimitExceeded ipv4
  | SubnetLimitExceeded u8 subnet_limit_scope
  | SplitDenied split_denied_reason

subsection \<open>The bin\<close>

record routing_bin =
  bin_contacts :: "contact list"

definition MAX_PER_BIN_SUBNET24 :: nat where
  "MAX_PER_BIN_SUBNET24 = 2"

definition bin_new :: routing_bin where
  "bin_new = \<lparr>bin_contacts = []\<rparr>"

definition bin_len :: "routing_bin \<Rightarrow> nat" where
  "bin_len b = length (bin_contacts b)"

definition bin_is_full :: "routing_bin \<Rightarrow> bool" where
  "bin_is_full b \<longleftrightarrow> length (bin_contacts b) \<ge> K"

definition bin_is_empty :: "routing_bin \<Rightarrow> bool" where
  "bin_is_empty b \<longleftrightarrow> bin_contacts b = []"

text \<open>The field updates of \<open>try_add\<close> on a contact that is already stored.\<close>

definition merge_contact :: "contact \<Rightarrow> contact \<Rightarrow> contact" where
  "merge_contact existing contact =
     existing\<lparr>
       c_ip := c_ip contact,
       c_udp_port := c_udp_port contact,
       c_tcp_port := c_tcp_port contact,
       c_kad_version := max (c_kad_version existing) (c_kad_version contact),
       c_udp_key := (if c_udp_key contact \<noteq> udp_key_ZERO then c_udp_key contact
                     else c_udp_key existing),
       c_last_seen := c_last_seen contact\<rparr>"

definition try_add :: "contact \<Rightarrow> routing_bin \<Rightarrow> (routing_error + bool) \<times> routing_bin" where
  "try_add contact b =
     (let cs = bin_contacts b;
          existing_pos = find_pos (\<lambda>c. c_id c = c_id contact) cs;
          same_subnet_contacts =
            count_if (\<lambda>(index, existing). Some index \<noteq> existing_pos \<and> \<not> is_lan (c_ip existing)
                \<and> subnet24 (c_ip existing) = subnet24 (c_ip contact)) (enumerate 0 cs)
      in if \<not> is_lan (c_ip contact) \<and> same_subnet_contacts \<ge> MAX_PER_BIN_SUBNET24
         then (Inl (SubnetLimitExceeded 24 BinLocal), b)
         else case existing_pos of
           Some pos \<Rightarrow>
             (Inr False, b\<lparr>bin_contacts := remove_at pos cs @ [merge_contact (cs ! pos) contact]\<rparr>)
         | None \<Rightarrow>
             if length cs \<ge> K then (Inl (TableFull K), b)
             else (Inr True, b\<lparr>bin_contacts := cs @ [contact]\<rparr>))"

definition bin_remove :: "node_id \<Rightarrow> routing_bin \<Rightarrow> contact option \<times> routing_bin" where
  "bin_remove i b =
     (case find_pos (\<lambda>c. c_id c = i) (bin_contacts b) of
        Some pos \<Rightarrow>
          (Some (bin_contacts b ! pos), b\<lparr>bin_contacts := remove_at pos (bin_contacts b)\<rparr>)
      | None \<Rightarrow> (None, b))"

definition oldest :: "routing_bin \<Rightarrow> contact option" where
  "oldest b = (case bin_contacts b of [] \<Rightarrow> None | c # _ \<Rightarrow> Some c)"

definition first_dead :: "routing_bin \<Rightarrow> contact option" where
  "first_dead b = find (\<lambda>c. c_contact_type c = Dead) (bin_contacts b)"

definition contains_ip :: "ipv4 \<Rightarrow> routing_bin \<Rightarrow> bool" where
  "contains_ip ip b \<longleftrightarrow> (\<exists>c \<in> set (bin_contacts b). c_ip c = ip)"

definition refresh :: "node_id \<Rightarrow> routing_bin \<Rightarrow> routing_bin" where
  "refresh i b =
     (case find_pos (\<lambda>c. c_id c = i) (bin_contacts b) of
        Some pos \<Rightarrow>
          b\<lparr>bin_contacts := remove_at pos (bin_contacts b) @ [bin_contacts b ! pos]\<rparr>
      | None \<Rightarrow> b)"

subsection \<open>Invariant\<close>

text \<open>\<open>in_subnet s\<close> holds of the contacts that the clustering limits count for the /24 \<open>s\<close>.\<close>

definition in_subnet :: "subnet \<Rightarrow> contact \<Rightarrow> bool" where
  "in_subnet s c \<longleftrightarrow> \<not> is_lan (c_ip c) \<and> subnet24 (c_ip c) = s"

definition subnets_ok :: "contact list \<Rightarrow> bool" where
  "subnets_ok cs \<longleftrightarrow> (\<forall>s. count_if (in_subnet s) cs \<le> MAX_PER_BIN_SUBNET24)"

definition cs_ok :: "contact list \<Rightarrow> bool" where
  "cs_ok cs \<longleftrightarrow> length cs \<le> K \<and> distinct (map c_id cs) \<and> subnets_ok cs"

definition bin_ok :: "routing_bin \<Rightarrow> bool" where
  "bin_ok b \<longleftrightarrow> cs_ok (bin_contacts b)"

lemmas bin_defs = bin_ok_def cs_ok_def bin_len_def bin_is_full_def bin_is_empty_def

lemma merge_contact_simps [simp]:
  "c_id (merge_contact e c) = c_id e"
  "c_ip (merge_contact e c) = c_ip c"
  by (simp_all add: merge_contact_def)

lemma count_if_enumerate_skip:
  "count_if (\<lambda>(i, x). i \<noteq> n + length ys \<and> p x) (enumerate n (ys @ x # zs))
     = count_if p (ys @ zs)"
proof -
  have low: "count_if (\<lambda>(i, x). i \<noteq> m \<and> p x) (enumerate k xs) = count_if p xs"
    if "k + length xs \<le> m" for k m xs
    using that by (induction xs arbitrary: k) auto
  have high: "count_if (\<lambda>(i, x). i \<noteq> m \<and> p x) (enumerate k xs) = count_if p xs"
    if "m < k" for k m xs
    using that by (induction xs arbitrary: k) auto
  show ?thesis
    by (simp add: enumerate_append_eq low high)
qed

lemma count_if_enumerate [simp]:
  "count_if (\<lambda>(i, x). p x) (enumerate n xs) = count_if p xs"
  by (induction xs arbitrary: n) auto

lemma try_add_fresh:
  assumes "c_id c \<notin> c_id ` set (bin_contacts b)"
  shows "try_add c b =
    (if \<not> is_lan (c_ip c)
        \<and> count_if (in_subnet (subnet24 (c_ip c))) (bin_contacts b) \<ge> MAX_PER_BIN_SUBNET24
     then (Inl (SubnetLimitExceeded 24 BinLocal), b)
     else if length (bin_contacts b) \<ge> K then (Inl (TableFull K), b)
     else (Inr True, b\<lparr>bin_contacts := bin_contacts b @ [c]\<rparr>))"
proof -
  have "\<forall>x \<in> set (bin_contacts b). c_id x \<noteq> c_id c"
    using assms by (metis imageI)
  then have none: "find_pos (\<lambda>x. c_id x = c_id c) (bin_contacts b) = None"
    by (simp only: find_pos_None)
  have "count_if (\<lambda>(i, x). Some i \<noteq> None \<and> \<not> is_lan (c_ip x) \<and> subnet24 (c_ip x) = s)
      (enumerate 0 (bin_contacts b)) = count_if (in_subnet s) (bin_contacts b)" for s
    by (simp add: in_subnet_def [abs_def])
  then show ?thesis
    by (simp only: try_add_def Let_def none option.case)
qed

lemma try_add_known:
  assumes "bin_contacts b = ys @ e # zs" "c_id e = c_id c" "\<forall>y \<in> set ys. c_id y \<noteq> c_id c"
  shows "try_add c b =
    (if \<not> is_lan (c_ip c)
        \<and> count_if (in_subnet (subnet24 (c_ip c))) (ys @ zs) \<ge> MAX_PER_BIN_SUBNET24
     then (Inl (SubnetLimitExceeded 24 BinLocal), b)
     else (Inr False, b\<lparr>bin_contacts := ys @ zs @ [merge_contact e c]\<rparr>))"
proof -
  have pos: "find_pos (\<lambda>x. c_id x = c_id c) (ys @ e # zs) = Some (length ys)"
    using assms(2,3) by (induction ys) auto
  have "count_if (\<lambda>(i, x). Some i \<noteq> Some (length ys) \<and> \<not> is_lan (c_ip x) \<and> subnet24 (c_ip x) = s)
      (enumerate 0 (ys @ e # zs)) = count_if (in_subnet s) (ys @ zs)" for s
    using count_if_enumerate_skip [of 0 ys "in_subnet s" e zs] by (simp add: in_subnet_def [abs_def])
  then show ?thesis
    by (simp only: try_add_def Let_def assms(1) pos option.case) simp
qed

text \<open>The four outcomes of \<open>try_add\<close>.\<close>

lemma try_add_cases:
  obtains
    (clustered) "try_add c b = (Inl (SubnetLimitExceeded 24 BinLocal), b)"
      "\<not> is_lan (c_ip c)"
  | (updated) ys e zs where "bin_contacts b = ys @ e # zs" "c_id e = c_id c"
      "\<forall>y \<in> set ys. c_id y \<noteq> c_id c"
      "is_lan (c_ip c) \<or> count_if (in_subnet (subnet24 (c_ip c))) (ys @ zs) < MAX_PER_BIN_SUBNET24"
      "try_add c b = (Inr False, b\<lparr>bin_contacts := ys @ zs @ [merge_contact e c]\<rparr>)"
  | (full) "c_id c \<notin> c_id ` set (bin_contacts b)" "length (bin_contacts b) \<ge> K"
      "try_add c b = (Inl (TableFull K), b)"
  | (added) "c_id c \<notin> c_id ` set (bin_contacts b)" "length (bin_contacts b) < K"
      "is_lan (c_ip c) \<or>
         count_if (in_subnet (subnet24 (c_ip c))) (bin_contacts b) < MAX_PER_BIN_SUBNET24"
      "try_add c b = (Inr True, b\<lparr>bin_contacts := bin_contacts b @ [c]\<rparr>)"
proof (cases "find_pos (\<lambda>x. c_id x = c_id c) (bin_contacts b)")
  case None
  then have fresh: "c_id c \<notin> c_id ` set (bin_contacts b)" by (auto simp: find_pos_None)
  note eq = try_add_fresh [OF fresh]
  show ?thesis
  proof (cases "\<not> is_lan (c_ip c)
      \<and> count_if (in_subnet (subnet24 (c_ip c))) (bin_contacts b) \<ge> MAX_PER_BIN_SUBNET24")
    case True
    then show ?thesis using eq by (intro clustered) simp_all
  next
    case False
    then show ?thesis
      using eq full [OF fresh] added [OF fresh]
      by (cases "K \<le> length (bin_contacts b)") auto
  qed
next
  case (Some pos)
  then obtain ys e zs where split: "bin_contacts b = ys @ e # zs"
      "c_id e = c_id c" "\<forall>y \<in> set ys. c_id y \<noteq> c_id c"
    by (rule find_pos_split)
  note eq = try_add_known [OF split]
  show ?thesis
  proof (cases "\<not> is_lan (c_ip c)
      \<and> count_if (in_subnet (subnet24 (c_ip c))) (ys @ zs) \<ge> MAX_PER_BIN_SUBNET24")
    case True
    then show ?thesis using eq by (intro clustered) simp_all
  next
    case False
    then show ?thesis using eq by (intro updated [OF split]) auto
  qed
qed

lemma try_add_Inl_same: "try_add c b = (Inl e, b') \<Longrightarrow> b' = b"
  by (rule try_add_cases [where c = c and b = b]) auto

lemma subnets_ok_Nil [simp]: "subnets_ok []"
  by (simp add: subnets_ok_def)

lemma subnets_ok_anti_mono:
  "(\<And>s. count_if (in_subnet s) cs \<le> count_if (in_subnet s) ds) \<Longrightarrow> subnets_ok ds \<Longrightarrow> subnets_ok cs"
  unfolding subnets_ok_def by (meson order_trans)

lemma subnets_ok_perm:
  assumes "mset cs = mset ds"
  shows "subnets_ok cs \<longleftrightarrow> subnets_ok ds"
  unfolding subnets_ok_def count_if_perm [OF assms] ..

lemma subnets_ok_filter: "subnets_ok cs \<Longrightarrow> subnets_ok (filter p cs)"
  by (erule subnets_ok_anti_mono [rotated]) (rule count_if_filter_le)

lemma subnets_ok_snoc:
  assumes "subnets_ok cs"
    and "is_lan (c_ip c) \<or> count_if (in_subnet (subnet24 (c_ip c))) cs < MAX_PER_BIN_SUBNET24"
  shows "subnets_ok (cs @ [c])"
  unfolding subnets_ok_def
proof
  fix s
  from assms(1) have "count_if (in_subnet s) cs \<le> MAX_PER_BIN_SUBNET24"
    unfolding subnets_ok_def by blast
  with assms(2) show "count_if (in_subnet s) (cs @ [c]) \<le> MAX_PER_BIN_SUBNET24"
    by (auto simp: in_subnet_def)
qed

lemma subnets_ok_removed: "subnets_ok (ys @ e # zs) \<Longrightarrow> subnets_ok (ys @ zs)"
  by (erule subnets_ok_anti_mono [rotated]) simp

lemma cs_ok_new [simp]: "cs_ok []" "bin_ok bin_new"
  by (simp_all add: bin_defs bin_new_def)

lemma cs_ok_removed: "cs_ok (ys @ e # zs) \<Longrightarrow> cs_ok (ys @ zs)"
  by (auto simp: cs_ok_def dest: subnets_ok_removed)

lemma cs_ok_rotated: "cs_ok (ys @ e # zs) \<Longrightarrow> cs_ok (ys @ zs @ [e])"
  using subnets_ok_perm [of "ys @ zs @ [e]" "ys @ e # zs"] by (auto simp: cs_ok_def)

lemma cs_ok_filter: "cs_ok cs \<Longrightarrow> cs_ok (filter p cs)"
  by (auto simp: cs_ok_def subnets_ok_filter distinct_map_filter intro: order_trans [OF length_filter_le])

lemma cs_ok_prefix: "cs_ok (xs @ ys) \<Longrightarrow> cs_ok xs"
proof (induction ys rule: rev_induct)
  case (snoc y ys)
  then have "cs_ok ((xs @ ys) @ [y])" by simp
  then have "cs_ok ((xs @ ys) @ [])" by (rule cs_ok_removed)
  then show ?case using snoc.IH by simp
qed simp

lemma try_add_ok:
  assumes "bin_ok b"
  shows "bin_ok (snd (try_add c b))"
proof (cases rule: try_add_cases [where c = c and b = b])
  case (updated ys e zs)
  then have "subnets_ok ((ys @ zs) @ [merge_contact e c])"
    using assms subnets_ok_removed by (intro subnets_ok_snoc) (auto simp: bin_ok_def cs_ok_def)
  with assms updated show ?thesis by (auto simp: bin_ok_def cs_ok_def)
next
  case added
  then have "subnets_ok (bin_contacts b @ [c])"
    using assms by (intro subnets_ok_snoc) (auto simp: bin_ok_def cs_ok_def)
  with assms added show ?thesis by (auto simp: bin_ok_def cs_ok_def)
qed (use assms in simp_all)

subsection \<open>Removal, refresh and lookups\<close>

lemma find_pos_key_split:
  "\<forall>y \<in> set ys. k y \<noteq> i \<Longrightarrow> k e = i \<Longrightarrow> find_pos (\<lambda>x. k x = i) (ys @ e # zs) = Some (length ys)"
  by (induction ys) auto

lemma bin_remove_absent:
  "\<forall>x \<in> set (bin_contacts b). c_id x \<noteq> i \<Longrightarrow> bin_remove i b = (None, b)"
  unfolding bin_remove_def by (simp only: find_pos_None [THEN iffD2] option.case)

lemma bin_remove_present:
  assumes "bin_contacts b = ys @ e # zs" "c_id e = i" "\<forall>y \<in> set ys. c_id y \<noteq> i"
  shows "bin_remove i b = (Some e, b\<lparr>bin_contacts := ys @ zs\<rparr>)"
  using find_pos_key_split [OF assms(3,2), of zs] by (simp add: bin_remove_def assms(1))

lemma bin_remove_cases:
  obtains
    (absent) "\<forall>x \<in> set (bin_contacts b). c_id x \<noteq> i" "bin_remove i b = (None, b)"
  | (present) ys e zs where "bin_contacts b = ys @ e # zs" "c_id e = i"
      "bin_remove i b = (Some e, b\<lparr>bin_contacts := ys @ zs\<rparr>)"
proof (cases "find_pos (\<lambda>x. c_id x = i) (bin_contacts b)")
  case None
  then have "\<forall>x \<in> set (bin_contacts b). c_id x \<noteq> i" by (simp add: find_pos_None)
  then show ?thesis using absent bin_remove_absent by blast
next
  case (Some pos)
  then show ?thesis
    by (rule find_pos_split) (use present bin_remove_present in blast)
qed

lemma bin_remove_ok: "bin_ok b \<Longrightarrow> bin_ok (snd (bin_remove i b))"
  by (rule bin_remove_cases [where b = b and i = i]) (auto simp: bin_ok_def intro: cs_ok_removed)

lemma refresh_ok: "bin_ok b \<Longrightarrow> bin_ok (refresh i b)"
proof (cases "find_pos (\<lambda>x. c_id x = i) (bin_contacts b)")
  case (Some pos)
  assume ok: "bin_ok b"
  from Some obtain ys e zs where "bin_contacts b = ys @ e # zs" "length ys = pos"
    by (rule find_pos_split)
  with ok Some show ?thesis by (simp add: refresh_def bin_ok_def cs_ok_rotated)
qed (simp add: refresh_def)

text \<open>Refreshing keeps the contacts and makes the refreshed one the youngest.\<close>

lemma refresh_contacts: "mset (bin_contacts (refresh i b)) = mset (bin_contacts b)"
proof (cases "find_pos (\<lambda>x. c_id x = i) (bin_contacts b)")
  case (Some pos)
  then obtain ys e zs where "bin_contacts b = ys @ e # zs" "length ys = pos"
    by (rule find_pos_split)
  with Some show ?thesis by (simp add: refresh_def)
qed (simp add: refresh_def)

end
