(* ===== verification/Routing_Zone.thy ===== *)
theory Routing_Zone
  imports Routing_Bin
begin

text \<open>
  The binary tree of zones: \<open>crates/overlord-kad-routing/src/zone.rs\<close>. The struct
  \<open>RoutingZone {depth, zone_index, content}\<close> and its content enum are one datatype, with the
  two fields on either constructor. \<open>RoutingZone::add\<close> and \<open>RoutingZone::split\<close> call each
  other; \<open>zone_add\<close> ties that recursion with a fuel argument, and \<open>zone_split\<close> takes the
  recursive \<open>add\<close> as an argument. A result \<open>None\<close> means the fuel ran out; \<open>zone_add_good\<close>
  shows that \<open>ADD_FUEL\<close> is enough for every well-formed tree, so the recursion ends.

  Every mutating operation returns the new zone with its result, also when it fails: a
  failing \<open>split\<close> would leave the drained, empty leaf behind, and \<open>zone_split_ok\<close> shows
  that it never fails on a well-formed leaf.
\<close>

subsection \<open>Data and operations\<close>

datatype routing_zone =
    Leaf nat nat routing_bin
  | Branch nat nat routing_zone routing_zone

definition zone_new_root :: routing_zone where
  "zone_new_root = Leaf 0 0 bin_new"

definition zone_new_leaf :: "nat \<Rightarrow> nat \<Rightarrow> routing_zone" where
  "zone_new_leaf depth zone_index = Leaf depth zone_index bin_new"

definition saturating_mul :: "nat \<Rightarrow> nat \<Rightarrow> nat" where
  "saturating_mul a b = min (a * b) usize_MAX"

definition saturating_add :: "nat \<Rightarrow> nat \<Rightarrow> nat" where
  "saturating_add a b = min (a + b) usize_MAX"

definition child_zone_index :: "nat \<Rightarrow> bool \<Rightarrow> nat" where
  "child_zone_index parent_zone_index right_child =
     min (saturating_add (saturating_mul parent_zone_index 2) (if right_child then 1 else 0)) KK"

definition can_split :: "nat \<Rightarrow> nat \<Rightarrow> nat \<Rightarrow> nat \<Rightarrow> split_denied_reason + unit" where
  "can_split depth zone_index total_contacts max_table_size =
     (if depth \<ge> 127 then Inl DepthLimit
      else if total_contacts \<ge> max_table_size then Inl MaxTableSize
      else if depth < KBASE \<or> zone_index < KK then Inr ()
      else Inl ZoneIndexCap)"

text \<open>The loop of \<open>split\<close> that moves the drained contacts into a fresh bin.\<close>

fun bin_refill :: "contact list \<Rightarrow> routing_bin \<Rightarrow> routing_error + routing_bin" where
  "bin_refill [] b = Inr b"
| "bin_refill (c # cs) b =
     (case try_add c b of
        (Inl e, _) \<Rightarrow> Inl e
      | (Inr _, b') \<Rightarrow> bin_refill cs b')"

type_synonym zone_result = "((routing_error + bool) \<times> routing_zone) option"

text \<open>The loop of \<open>split\<close> that distributes the contacts over the two children.\<close>

fun fill_children :: "(contact \<Rightarrow> routing_zone \<Rightarrow> zone_result) \<Rightarrow> nat \<Rightarrow> contact list
    \<Rightarrow> routing_zone \<Rightarrow> routing_zone \<Rightarrow> (routing_error + routing_zone \<times> routing_zone) option" where
  "fill_children add depth [] left right = Some (Inr (left, right))"
| "fill_children add depth (c # cs) left right =
     (if nid_bit (c_id c) depth
      then case add c right of
          None \<Rightarrow> None
        | Some (Inl e, _) \<Rightarrow> Some (Inl e)
        | Some (Inr _, right') \<Rightarrow> fill_children add depth cs left right'
      else case add c left of
          None \<Rightarrow> None
        | Some (Inl e, _) \<Rightarrow> Some (Inl e)
        | Some (Inr _, left') \<Rightarrow> fill_children add depth cs left' right)"

fun zone_split :: "(contact \<Rightarrow> routing_zone \<Rightarrow> zone_result) \<Rightarrow> routing_zone
    \<Rightarrow> ((routing_error + unit) \<times> routing_zone) option" where
  "zone_split add (Branch depth zone_index left right) =
     Some (Inr (), Branch depth zone_index left right)"
| "zone_split add (Leaf depth zone_index b) =
     (case bin_refill (bin_contacts b) bin_new of
        Inl e \<Rightarrow> Some (Inl e, Leaf depth zone_index bin_new)
      | Inr drained \<Rightarrow>
          (case fill_children add depth (bin_contacts drained)
              (zone_new_leaf (depth + 1) (child_zone_index zone_index False))
              (zone_new_leaf (depth + 1) (child_zone_index zone_index True)) of
             None \<Rightarrow> None
           | Some (Inl e) \<Rightarrow> Some (Inl e, Leaf depth zone_index bin_new)
           | Some (Inr (left, right)) \<Rightarrow> Some (Inr (), Branch depth zone_index left right)))"

primrec zone_add :: "nat \<Rightarrow> nat \<Rightarrow> nat \<Rightarrow> contact \<Rightarrow> routing_zone \<Rightarrow> zone_result" where
  "zone_add 0 total_contacts max_table_size contact z = None"
| "zone_add (Suc fuel) total_contacts max_table_size contact z =
     (case z of
        Leaf depth zone_index b \<Rightarrow>
          (case try_add contact b of
             (Inr added, b') \<Rightarrow> Some (Inr added, Leaf depth zone_index b')
           | (Inl (TableFull m), b') \<Rightarrow>
               (case can_split depth zone_index total_contacts max_table_size of
                  Inr _ \<Rightarrow>
                    (case zone_split (zone_add fuel 0 usize_MAX) (Leaf depth zone_index b') of
                       None \<Rightarrow> None
                     | Some (Inl e, z') \<Rightarrow> Some (Inl e, z')
                     | Some (Inr _, z') \<Rightarrow> zone_add fuel total_contacts max_table_size contact z')
                | Inl reason \<Rightarrow> Some (Inl (SplitDenied reason), Leaf depth zone_index b'))
           | (Inl e, b') \<Rightarrow> Some (Inl e, Leaf depth zone_index b'))
      | Branch depth zone_index left right \<Rightarrow>
          (if nid_bit (c_id contact) depth
           then map_option (\<lambda>(res, right'). (res, Branch depth zone_index left right'))
                  (zone_add fuel total_contacts max_table_size contact right)
           else map_option (\<lambda>(res, left'). (res, Branch depth zone_index left' right))
                  (zone_add fuel total_contacts max_table_size contact left)))"

text \<open>Two levels of recursion per tree level, and at most 128 tree levels.\<close>

definition ADD_FUEL :: nat where
  "ADD_FUEL = 256"

fun zone_get_closest :: "node_id \<Rightarrow> nat \<Rightarrow> routing_zone \<Rightarrow> contact list \<Rightarrow> contact list" where
  "zone_get_closest target n (Leaf depth zone_index b) result = result @ bin_contacts b"
| "zone_get_closest target n (Branch depth zone_index left right) result =
     (if nid_bit target depth
      then let result' = zone_get_closest target n right result in
        if length result' < n then zone_get_closest target n left result' else result'
      else let result' = zone_get_closest target n left result in
        if length result' < n then zone_get_closest target n right result' else result')"

fun zone_remove :: "node_id \<Rightarrow> routing_zone \<Rightarrow> contact option \<times> routing_zone" where
  "zone_remove i (Leaf depth zone_index b) =
     (let (r, b') = bin_remove i b in (r, Leaf depth zone_index b'))"
| "zone_remove i (Branch depth zone_index left right) =
     (if nid_bit i depth
      then let (r, right') = zone_remove i right in (r, Branch depth zone_index left right')
      else let (r, left') = zone_remove i left in (r, Branch depth zone_index left' right))"

fun zone_get :: "node_id \<Rightarrow> routing_zone \<Rightarrow> contact option" where
  "zone_get i (Leaf depth zone_index b) = find (\<lambda>c. c_id c = i) (bin_contacts b)"
| "zone_get i (Branch depth zone_index left right) =
     (if nid_bit i depth then zone_get i right else zone_get i left)"

fun zone_count :: "routing_zone \<Rightarrow> nat" where
  "zone_count (Leaf depth zone_index b) = bin_len b"
| "zone_count (Branch depth zone_index left right) = zone_count left + zone_count right"

subsection \<open>Contents and well-formedness of a zone\<close>

fun zone_contacts :: "routing_zone \<Rightarrow> contact list" where
  "zone_contacts (Leaf depth zone_index b) = bin_contacts b"
| "zone_contacts (Branch depth zone_index left right) = zone_contacts left @ zone_contacts right"

text \<open>
  \<open>zone_ok d i z\<close>: \<open>z\<close> is a subtree at depth \<open>d\<close> with zone index \<open>i\<close>, its bins are well
  formed, only zones that the split rule admits are branches, and the contacts below a branch
  are on the side their identifier bit selects.
\<close>

fun zone_ok :: "nat \<Rightarrow> nat \<Rightarrow> routing_zone \<Rightarrow> bool" where
  "zone_ok d i (Leaf depth zone_index b) \<longleftrightarrow>
     depth = d \<and> zone_index = i \<and> d \<le> 127 \<and> bin_ok b"
| "zone_ok d i (Branch depth zone_index left right) \<longleftrightarrow>
     depth = d \<and> zone_index = i \<and> d < 127 \<and> (d < KBASE \<or> i < KK)
     \<and> zone_ok (d + 1) (child_zone_index i False) left
     \<and> zone_ok (d + 1) (child_zone_index i True) right
     \<and> (\<forall>c \<in> set (zone_contacts left). \<not> nid_bit (c_id c) d)
     \<and> (\<forall>c \<in> set (zone_contacts right). nid_bit (c_id c) d)"

lemma zone_ok_root [simp]: "zone_ok 0 0 zone_new_root"
  by (simp add: zone_new_root_def)

lemma zone_contacts_root [simp]: "zone_contacts zone_new_root = []"
  by (simp add: zone_new_root_def bin_new_def)

lemma zone_count_contacts: "zone_count z = length (zone_contacts z)"
  by (induction z) (simp_all add: bin_len_def)

lemma zone_ok_distinct: "zone_ok d i z \<Longrightarrow> distinct (map c_id (zone_contacts z))"
proof (induction z arbitrary: d i)
  case (Branch depth zone_index left right)
  then show ?case by auto
qed (simp add: bin_ok_def cs_ok_def)

lemma zone_get_find:
  "zone_ok d i z \<Longrightarrow> zone_get k z = find (\<lambda>c. c_id c = k) (zone_contacts z)"
proof (induction z arbitrary: d i)
  case (Branch depth zone_index left right)
  then have "nid_bit k d \<Longrightarrow> find (\<lambda>c. c_id c = k) (zone_contacts left) = None"
    and "\<not> nid_bit k d \<Longrightarrow> find (\<lambda>c. c_id c = k) (zone_contacts right) = None"
    by (auto simp: find_None_conv)
  with Branch show ?case by (auto simp: find_append split: option.splits)
qed simp

lemma zone_get_Some_iff:
  assumes "zone_ok d i z"
  shows "zone_get k z = Some c \<longleftrightarrow> c \<in> set (zone_contacts z) \<and> c_id c = k"
  using find_SomeD find_distinct_key [OF zone_ok_distinct [OF assms]]
  by (auto simp: zone_get_find [OF assms] dest: find_SomeD)

lemma zone_get_None_iff:
  assumes "zone_ok d i z"
  shows "zone_get k z = None \<longleftrightarrow> k \<notin> c_id ` set (zone_contacts z)"
  by (auto simp: zone_get_find [OF assms] find_None_conv)

subsection \<open>Splitting a leaf\<close>

lemma try_add_room:
  assumes "cs_ok (bin_contacts b @ c # rest)"
  shows "try_add c b = (Inr True, b\<lparr>bin_contacts := bin_contacts b @ [c]\<rparr>)"
proof -
  have pre: "cs_ok (bin_contacts b @ [c])"
    using assms cs_ok_prefix [of "bin_contacts b @ [c]" rest] by simp
  then have "c_id c \<notin> c_id ` set (bin_contacts b)" "length (bin_contacts b) < K"
    by (auto simp: cs_ok_def)
  moreover have "is_lan (c_ip c) \<or>
      count_if (in_subnet (subnet24 (c_ip c))) (bin_contacts b) < MAX_PER_BIN_SUBNET24"
  proof (rule disjCI)
    assume "\<not> count_if (in_subnet (subnet24 (c_ip c))) (bin_contacts b) < MAX_PER_BIN_SUBNET24"
    moreover from pre have "count_if (in_subnet (subnet24 (c_ip c))) (bin_contacts b @ [c])
        \<le> MAX_PER_BIN_SUBNET24"
      unfolding cs_ok_def subnets_ok_def by blast
    ultimately show "is_lan (c_ip c)" by (auto simp: in_subnet_def split: if_splits)
  qed
  ultimately show ?thesis by (auto simp: try_add_fresh)
qed

lemma bin_refill_ok:
  "cs_ok (bin_contacts b @ cs) \<Longrightarrow> bin_refill cs b = Inr (b\<lparr>bin_contacts := bin_contacts b @ cs\<rparr>)"
proof (induction cs arbitrary: b)
  case (Cons c cs)
  then have "try_add c b = (Inr True, b\<lparr>bin_contacts := bin_contacts b @ [c]\<rparr>)"
    by (intro try_add_room)
  with Cons show ?case by simp
qed simp

lemma zone_add_leaf_room:
  assumes "cs_ok (bin_contacts b @ c # rest)"
  shows "zone_add (Suc fuel) t m c (Leaf d i b) =
    Some (Inr True, Leaf d i (b\<lparr>bin_contacts := bin_contacts b @ [c]\<rparr>))"
  by (simp add: try_add_room [OF assms])

lemma fill_children_ok:
  assumes "cs_ok (bin_contacts l @ filter (\<lambda>c. \<not> nid_bit (c_id c) depth) cs)"
    and "cs_ok (bin_contacts r @ filter (\<lambda>c. nid_bit (c_id c) depth) cs)"
  shows "fill_children (zone_add (Suc fuel) t m) depth cs (Leaf d i l) (Leaf d' i' r) =
    Some (Inr
      (Leaf d i (l\<lparr>bin_contacts := bin_contacts l @ filter (\<lambda>c. \<not> nid_bit (c_id c) depth) cs\<rparr>),
       Leaf d' i' (r\<lparr>bin_contacts := bin_contacts r @ filter (\<lambda>c. nid_bit (c_id c) depth) cs\<rparr>)))"
  using assms
proof (induction cs arbitrary: l r)
  case (Cons c cs)
  show ?case
  proof (cases "nid_bit (c_id c) depth")
    case True
    with Cons.prems have "zone_add (Suc fuel) t m c (Leaf d' i' r) =
        Some (Inr True, Leaf d' i' (r\<lparr>bin_contacts := bin_contacts r @ [c]\<rparr>))"
      by (intro zone_add_leaf_room) simp
    with True Cons show ?thesis by (simp del: zone_add.simps)
  next
    case False
    with Cons.prems have "zone_add (Suc fuel) t m c (Leaf d i l) =
        Some (Inr True, Leaf d i (l\<lparr>bin_contacts := bin_contacts l @ [c]\<rparr>))"
      by (intro zone_add_leaf_room) simp
    with False Cons show ?thesis by (simp del: zone_add.simps)
  qed
qed simp

lemma zone_split_ok:
  assumes "bin_ok b"
  shows "zone_split (zone_add (Suc fuel) t m) (Leaf d i b) =
    Some (Inr (), Branch d i
      (Leaf (d + 1) (child_zone_index i False)
        \<lparr>bin_contacts = filter (\<lambda>c. \<not> nid_bit (c_id c) d) (bin_contacts b)\<rparr>)
      (Leaf (d + 1) (child_zone_index i True)
        \<lparr>bin_contacts = filter (\<lambda>c. nid_bit (c_id c) d) (bin_contacts b)\<rparr>))"
  using assms cs_ok_filter bin_refill_ok [of bin_new "bin_contacts b"]
  by (simp add: bin_ok_def bin_new_def zone_new_leaf_def fill_children_ok del: zone_add.simps)

lemma zone_split_zone_ok:
  assumes "bin_ok b" "d < 127 \<and> (d < KBASE \<or> i < KK)" "zone_split (zone_add (Suc fuel) t m) (Leaf d i b) = Some (Inr u, z)"
  shows "zone_ok d i z" "mset (zone_contacts z) = mset (bin_contacts b)"
    "\<exists>l r. z = Branch d i l r"
proof -
  from assms(3) have z: "z = Branch d i
      (Leaf (d + 1) (child_zone_index i False)
        \<lparr>bin_contacts = filter (\<lambda>c. \<not> nid_bit (c_id c) d) (bin_contacts b)\<rparr>)
      (Leaf (d + 1) (child_zone_index i True)
        \<lparr>bin_contacts = filter (\<lambda>c. nid_bit (c_id c) d) (bin_contacts b)\<rparr>)"
    unfolding zone_split_ok [OF assms(1)] by simp
  show "zone_ok d i z"
    using assms(1,2) cs_ok_filter by (simp add: z bin_ok_def)
  show "mset (zone_contacts z) = mset (bin_contacts b)"
    by (simp add: z add.commute)
  show "\<exists>l r. z = Branch d i l r" by (simp add: z)
qed

subsection \<open>The contract of \<open>add\<close>\<close>

text \<open>
  What \<open>add\<close> promises about the stored contacts, as multisets before and after: a fresh
  identifier is inserted, a known one is merged in place, and an error leaves the contacts as
  they were (the tree may have been split further).
\<close>

definition add_post :: "contact \<Rightarrow> contact multiset \<Rightarrow> routing_error + bool \<Rightarrow> contact multiset \<Rightarrow> bool" where
  "add_post c M res M' \<longleftrightarrow>
     (case res of
        Inr True \<Rightarrow> c_id c \<notin> c_id ` set_mset M \<and> M' = add_mset c M
      | Inr False \<Rightarrow> \<exists>e N. M = add_mset e N \<and> c_id e = c_id c \<and> M' = add_mset (merge_contact e c) N
      | Inl err \<Rightarrow> M' = M \<and>
          (err = SubnetLimitExceeded 24 BinLocal \<and> \<not> is_lan (c_ip c)
           \<or> (\<exists>reason. err = SplitDenied reason) \<and> c_id c \<notin> c_id ` set_mset M))"

lemma add_post_ids:
  "add_post c M res M' \<Longrightarrow> x \<in># M' \<Longrightarrow> c_id x = c_id c \<or> c_id x \<in> c_id ` set_mset M"
  by (auto simp: add_post_def split: sum.splits bool.splits)

lemma add_post_union:
  assumes "add_post c M res M'" "\<forall>x \<in># N. c_id x \<noteq> c_id c"
  shows "add_post c (M + N) res (M' + N)"
proof (cases res)
  case (Inl err)
  with assms show ?thesis by (auto simp: add_post_def)
next
  case (Inr added)
  show ?thesis
  proof (cases added)
    case True
    with Inr assms show ?thesis by (auto simp: add_post_def)
  next
    case False
    with Inr assms obtain e L where "M = add_mset e L" "c_id e = c_id c"
      "M' = add_mset (merge_contact e c) L" by (auto simp: add_post_def)
    with Inr False show ?thesis by (auto simp: add_post_def)
  qed
qed

lemma try_add_post:
  assumes "try_add c b = (res, b')" "\<forall>n. res \<noteq> Inl (TableFull n)"
  shows "add_post c (mset (bin_contacts b)) res (mset (bin_contacts b'))"
proof (cases rule: try_add_cases [where c = c and b = b])
  case (updated ys e zs)
  with assms(1) have "mset (bin_contacts b) = add_mset e (mset (ys @ zs))" "res = Inr False"
    "mset (bin_contacts b') = add_mset (merge_contact e c) (mset (ys @ zs))"
    by auto
  with updated(2) show ?thesis unfolding add_post_def by auto
qed (use assms in \<open>auto simp: add_post_def\<close>)

lemma try_add_TableFull:
  "try_add c b = (Inl (TableFull n), b') \<Longrightarrow> b' = b \<and> c_id c \<notin> c_id ` set (bin_contacts b)"
  by (rule try_add_cases [where c = c and b = b]) auto

fun add_need :: "nat \<Rightarrow> routing_zone \<Rightarrow> nat" where
  "add_need d (Leaf _ _ _) = 2 * (128 - d)"
| "add_need d (Branch _ _ _ _) = 2 * (128 - d) - 1"

lemma add_need_child: "d < 127 \<Longrightarrow> add_need d (Branch a b l r) \<le> Suc fuel \<Longrightarrow> add_need (d + 1) z \<le> fuel"
  by (cases z) auto

lemma can_split_depth: "can_split d i t m = Inr u \<Longrightarrow> d < 127 \<and> (d < KBASE \<or> i < KK)"
  by (auto simp: can_split_def split: if_splits)

text \<open>The postcondition of \<open>add\<close> as one predicate: \<open>add\<close> returns, keeps the tree well formed and
  meets \<open>add_post\<close>.\<close>

definition add_good :: "nat \<Rightarrow> nat \<Rightarrow> contact \<Rightarrow> routing_zone \<Rightarrow> zone_result \<Rightarrow> bool" where
  "add_good d i c z r \<longleftrightarrow> (\<exists>res z'. r = Some (res, z') \<and> zone_ok d i z'
     \<and> add_post c (mset (zone_contacts z)) res (mset (zone_contacts z')))"

lemma add_good_branch:
  assumes ok: "zone_ok d i (Branch d i l r)"
    and r: "nid_bit (c_id c) d \<Longrightarrow> add_good (d + 1) (child_zone_index i True) c r (zone_add fuel t m c r)"
    and l: "\<not> nid_bit (c_id c) d \<Longrightarrow> add_good (d + 1) (child_zone_index i False) c l (zone_add fuel t m c l)"
  shows "add_good d i c (Branch d i l r) (zone_add (Suc fuel) t m c (Branch d i l r))"
proof (cases "nid_bit (c_id c) d")
  case True
  with r obtain res r' where r': "zone_add fuel t m c r = Some (res, r')"
    "zone_ok (d + 1) (child_zone_index i True) r'"
    "add_post c (mset (zone_contacts r)) res (mset (zone_contacts r'))"
    by (auto simp: add_good_def)
  have "\<forall>x \<in># mset (zone_contacts l). c_id x \<noteq> c_id c" using ok True by auto
  with r'(3) have "add_post c (mset (zone_contacts r) + mset (zone_contacts l)) res
      (mset (zone_contacts r') + mset (zone_contacts l))" by (rule add_post_union)
  moreover have "\<forall>x \<in> set (zone_contacts r'). nid_bit (c_id x) d"
    using add_post_ids [OF r'(3)] ok True by fastforce
  ultimately show ?thesis
    using r' ok True by (simp add: add_good_def add.commute)
next
  case False
  with l obtain res l' where l': "zone_add fuel t m c l = Some (res, l')"
    "zone_ok (d + 1) (child_zone_index i False) l'"
    "add_post c (mset (zone_contacts l)) res (mset (zone_contacts l'))"
    by (auto simp: add_good_def)
  have "\<forall>x \<in># mset (zone_contacts r). c_id x \<noteq> c_id c" using ok False by auto
  with l'(3) have "add_post c (mset (zone_contacts l) + mset (zone_contacts r)) res
      (mset (zone_contacts l') + mset (zone_contacts r))" by (rule add_post_union)
  moreover have "\<forall>x \<in> set (zone_contacts l'). \<not> nid_bit (c_id x) d"
    using add_post_ids [OF l'(3)] ok False by fastforce
  ultimately show ?thesis
    using l' ok False by (simp add: add_good_def)
qed

lemma add_good_leaf:
  assumes ok: "zone_ok d i (Leaf d i b)" and fuel: "2 * (128 - d) \<le> Suc fuel"
    and IH: "\<And>l r. zone_ok d i (Branch d i l r) \<Longrightarrow>
      add_good d i c (Branch d i l r) (zone_add fuel t m c (Branch d i l r))"
  shows "add_good d i c (Leaf d i b) (zone_add (Suc fuel) t m c (Leaf d i b))"
proof -
  obtain res b' where t: "try_add c b = (res, b')" by (cases "try_add c b")
  show ?thesis
  proof (cases "\<exists>n. res = Inl (TableFull n)")
    case False
    then have "zone_add (Suc fuel) t m c (Leaf d i b) = Some (res, Leaf d i b')"
      using t by (cases res) (auto split: routing_error.splits)
    moreover have "bin_ok b'" using try_add_ok [of b c] ok t by simp
    ultimately show ?thesis
      using try_add_post [OF t] False ok by (auto simp: add_good_def)
  next
    case True
    then obtain n where n: "res = Inl (TableFull n)" by blast
    have fresh: "b' = b" "c_id c \<notin> c_id ` set (bin_contacts b)"
      using try_add_TableFull t n by blast+
    show ?thesis
    proof (cases "can_split d i t m")
      case (Inl reason)
      with t n fresh ok show ?thesis by (auto simp: add_good_def add_post_def)
    next
      case (Inr u)
      then have d: "d < 127 \<and> (d < KBASE \<or> i < KK)" by (rule can_split_depth)
      with fuel obtain f where f: "fuel = Suc f" by (cases fuel) auto
      obtain z where z: "zone_split (zone_add fuel 0 usize_MAX) (Leaf d i b) = Some (Inr (), z)"
        using zone_split_ok [of b f 0 usize_MAX d i] ok f by auto
      note zs = zone_split_zone_ok [OF _ d z [unfolded f]]
      from zs ok obtain l r where "z = Branch d i l r" by auto
      with zs ok IH have "add_good d i c z (zone_add fuel t m c z)" by simp
      moreover have "zone_add (Suc fuel) t m c (Leaf d i b) = zone_add fuel t m c z"
        using t n fresh(1) Inr z by simp
      ultimately show ?thesis using zs(2) ok by (simp add: add_good_def)
    qed
  qed
qed

lemma zone_add_good:
  assumes "zone_ok d i z" "add_need d z \<le> fuel"
  shows "add_good d i c z (zone_add fuel t m c z)"
  using assms
proof (induction fuel arbitrary: d i z)
  case 0
  then show ?case by (cases z) auto
next
  case (Suc fuel)
  show ?case
  proof (cases z)
    case z: (Branch depth zone_index left right)
    with Suc.prems have "d < 127" "depth = d" "zone_index = i" by auto
    then have "add_need (d + 1) left \<le> fuel" "add_need (d + 1) right \<le> fuel"
      using add_need_child Suc.prems(2) z by blast+
    with Suc z \<open>depth = d\<close> \<open>zone_index = i\<close> show ?thesis
      by (auto intro!: add_good_branch simp del: zone_add.simps)
  next
    case z: (Leaf depth zone_index b)
    with Suc.prems have eq: "depth = d" "zone_index = i" by auto
    have "add_good d i c (Branch d i l r) (zone_add fuel t m c (Branch d i l r))"
      if "zone_ok d i (Branch d i l r)" for l r
      using that Suc.prems(2) z by (intro Suc.IH) auto
    with Suc.prems z eq show ?thesis
      by (auto intro!: add_good_leaf simp del: zone_add.simps)
  qed
qed

subsection \<open>Removal and collection\<close>

lemma zone_remove_None:
  "zone_ok d i z \<Longrightarrow> k \<notin> c_id ` set (zone_contacts z) \<Longrightarrow> zone_remove k z = (None, z)"
proof (induction z arbitrary: d i)
  case (Leaf depth zone_index b)
  then have "bin_remove k b = (None, b)" by (intro bin_remove_absent) force
  then show ?case by simp
next
  case (Branch depth zone_index left right)
  then show ?case by (auto simp: image_Un)
qed

lemma zone_remove_Some:
  "zone_ok d i z \<Longrightarrow> k \<in> c_id ` set (zone_contacts z) \<Longrightarrow>
     \<exists>e z'. zone_remove k z = (Some e, z') \<and> zone_ok d i z' \<and> c_id e = k
       \<and> mset (zone_contacts z) = add_mset e (mset (zone_contacts z'))"
proof (induction z arbitrary: d i)
  case (Leaf depth zone_index b)
  show ?case
  proof (cases rule: bin_remove_cases [where b = b and i = k])
    case absent
    with Leaf.prems show ?thesis by auto
  next
    case (present ys e zs)
    with Leaf.prems show ?thesis by (auto simp: bin_ok_def dest: cs_ok_removed)
  qed
next
  case (Branch depth zone_index left right)
  have sub: "set (zone_contacts z') \<subseteq> set (zone_contacts z)"
    if "mset (zone_contacts z) = add_mset e (mset (zone_contacts z'))" for z z' and e :: contact
    by (metis mset_subset_eq_insertD mset_subset_eq_add_right set_mset_mono set_mset_mset that
        add_mset_add_single union_commute mset_subset_eq_add_left)
  show ?case
  proof (cases "nid_bit k d")
    case True
    with Branch.prems have "k \<in> c_id ` set (zone_contacts right)" by auto
    with Branch obtain e r' where r': "zone_remove k right = (Some e, r')"
        "zone_ok (d + 1) (child_zone_index i True) r'" "c_id e = k"
        "mset (zone_contacts right) = add_mset e (mset (zone_contacts r'))"
      by (metis zone_ok.simps(2))
    with True Branch.prems sub [OF r'(4)] show ?thesis by auto
  next
    case False
    with Branch.prems have "k \<in> c_id ` set (zone_contacts left)" by auto
    with Branch obtain e l' where l': "zone_remove k left = (Some e, l')"
        "zone_ok (d + 1) (child_zone_index i False) l'" "c_id e = k"
        "mset (zone_contacts left) = add_mset e (mset (zone_contacts l'))"
      by (metis zone_ok.simps(2))
    with False Branch.prems sub [OF l'(4)] show ?thesis by auto
  qed
qed

lemma zone_get_closest_all:
  "length acc + zone_count z < n \<Longrightarrow>
     mset (zone_get_closest target n z acc) = mset acc + mset (zone_contacts z)"
proof (induction z arbitrary: acc)
  case (Branch depth zone_index left right)
  have len: "length (zone_get_closest target n z acc) = length acc + zone_count z"
    if "mset (zone_get_closest target n z acc) = mset acc + mset (zone_contacts z)" for z
    using arg_cong [OF that, of size] by (simp add: zone_count_contacts)
  from Branch show ?case by (auto simp: Let_def len)
qed simp

subsection \<open>How large a tree can grow\<close>

text \<open>The number of leaves of the largest tree the split rule admits below a zone.\<close>

function max_leaves :: "nat \<Rightarrow> nat \<Rightarrow> nat" where
  "max_leaves d i =
     (if d < 127 \<and> (d < KBASE \<or> i < KK)
      then max_leaves (d + 1) (child_zone_index i False) + max_leaves (d + 1) (child_zone_index i True)
      else 1)"
  by pat_completeness auto
termination by (relation "measure (\<lambda>(d, i). 127 - d)") auto

declare max_leaves.simps [simp del]

lemma max_leaves_pos: "0 < max_leaves d i"
  by (induction d i rule: max_leaves.induct) (subst max_leaves.simps, auto)

lemma zone_count_bound: "zone_ok d i z \<Longrightarrow> zone_count z \<le> K * max_leaves d i"
proof (induction z arbitrary: d i)
  case (Leaf depth zone_index b)
  then have "bin_len b \<le> K" by (simp add: bin_ok_def cs_ok_def bin_len_def)
  then show ?case using max_leaves_pos [of d i] by (simp add: order_trans)
next
  case (Branch depth zone_index left right)
  then have "zone_count left \<le> K * max_leaves (d + 1) (child_zone_index i False)"
    "zone_count right \<le> K * max_leaves (d + 1) (child_zone_index i True)" by auto
  moreover have "max_leaves d i =
      max_leaves (d + 1) (child_zone_index i False) + max_leaves (d + 1) (child_zone_index i True)"
    using Branch.prems by (subst max_leaves.simps) auto
  ultimately show ?case by (simp add: algebra_simps)
qed

lemma child_zone_index_simps [simp]:
  "child_zone_index 0 False = 0" "child_zone_index 0 True = 1"
  "child_zone_index (Suc 0) False = 2" "child_zone_index (Suc 0) True = 3"
  "child_zone_index 2 False = 4" "child_zone_index 2 True = 5"
  "child_zone_index 3 False = 5" "child_zone_index 3 True = 5"
  "child_zone_index 4 False = 5" "child_zone_index 4 True = 5"
  "child_zone_index 5 False = 5" "child_zone_index 5 True = 5"
  by (simp_all add: child_zone_index_def saturating_mul_def saturating_add_def usize_MAX_def KK_def)

lemmas max_leaves_rule = max_leaves.simps [unfolded KBASE_def KK_def]

lemma max_leaves_high:
  "4 \<le> d \<Longrightarrow> max_leaves d 5 = 1"
  "4 \<le> d \<Longrightarrow> d < 127 \<Longrightarrow> max_leaves d 4 = 2"
  "4 \<le> d \<Longrightarrow> d < 127 \<Longrightarrow> max_leaves d 3 = 2"
  "4 \<le> d \<Longrightarrow> d < 126 \<Longrightarrow> max_leaves d 2 = 3"
  "4 \<le> d \<Longrightarrow> d < 125 \<Longrightarrow> max_leaves d 1 = 5"
proof -
  show five: "4 \<le> d \<Longrightarrow> max_leaves d 5 = 1" for d by (subst max_leaves_rule) simp
  show four: "4 \<le> d \<Longrightarrow> d < 127 \<Longrightarrow> max_leaves d 4 = 2" for d
    by (subst max_leaves_rule) (simp add: five)
  show three: "4 \<le> d \<Longrightarrow> d < 127 \<Longrightarrow> max_leaves d 3 = 2" for d
    by (subst max_leaves_rule) (simp add: five)
  show two: "4 \<le> d \<Longrightarrow> d < 126 \<Longrightarrow> max_leaves d 2 = 3" for d
    by (subst max_leaves_rule) (simp add: four five)
  show "4 \<le> d \<Longrightarrow> d < 125 \<Longrightarrow> max_leaves d 1 = 5"
    by (subst max_leaves_rule) (simp add: two three)
qed

lemma max_leaves_deep:
  "max_leaves 127 i = 1" "max_leaves 126 0 = 2" "max_leaves 126 1 = 2" "max_leaves 126 2 = 2"
  "max_leaves 125 0 = 4" "max_leaves 125 1 = 4" "max_leaves 124 0 = 8"
proof -
  show b: "max_leaves 127 i = 1" for i by (subst max_leaves_rule) simp
  show c: "max_leaves 126 0 = 2" "max_leaves 126 1 = 2" "max_leaves 126 2 = 2"
    by (subst max_leaves_rule, simp add: b)+
  show d: "max_leaves 125 0 = 4" by (subst max_leaves_rule) (use c in simp)
  show e: "max_leaves 125 1 = 4"
    by (subst max_leaves_rule) (use c max_leaves_high(3) [of 126] in simp)
  show "max_leaves 124 0 = 8" by (subst max_leaves_rule) (use d e in simp)
qed

lemma max_leaves_spine_step:
  assumes "3 \<le> d" "d < 124"
  shows "max_leaves d 0 = max_leaves (Suc d) 0 + 5"
proof -
  have "max_leaves (Suc d) 1 = 5" using assms by (intro max_leaves_high) simp_all
  then show ?thesis using assms by (subst max_leaves_rule) simp
qed

lemma max_leaves_spine: "k \<le> 120 \<Longrightarrow> max_leaves (124 - k) 0 = 8 + 5 * k"
proof (induction k)
  case 0
  then show ?case by (simp add: max_leaves_deep)
next
  case (Suc k)
  then have "Suc (124 - Suc k) = 124 - k" by simp
  then show ?case
    using Suc max_leaves_spine_step [of "124 - Suc k"] by simp
qed

lemma max_leaves_low:
  "d < 4 \<Longrightarrow> max_leaves d i =
     max_leaves (Suc d) (child_zone_index i False) + max_leaves (Suc d) (child_zone_index i True)"
  by (subst max_leaves_rule) simp

lemma max_leaves_root: "max_leaves 0 0 = 631"
proof -
  have d4: "max_leaves 4 0 = 608" using max_leaves_spine [of 120] by simp
  note h = max_leaves_high [of 4]
  have c0: "max_leaves 3 0 = 613" using max_leaves_low [of 3 0] d4 h by simp
  have c1: "max_leaves 3 1 = 5" using max_leaves_low [of 3 1] h by simp
  have c2: "max_leaves 3 2 = 3" using max_leaves_low [of 3 2] h by simp
  have c3: "max_leaves 3 3 = 2" using max_leaves_low [of 3 3] h by simp
  have c4: "max_leaves 3 4 = 2" using max_leaves_low [of 3 4] h by simp
  have c5: "max_leaves 3 5 = 2" using max_leaves_low [of 3 5] h by simp
  have b0: "max_leaves 2 0 = 618" using max_leaves_low [of 2 0] c0 c1 by simp
  have b1: "max_leaves 2 1 = 5" using max_leaves_low [of 2 1] c2 c3 by simp
  have b2: "max_leaves 2 2 = 4" using max_leaves_low [of 2 2] c4 c5 by simp
  have b3: "max_leaves 2 3 = 4" using max_leaves_low [of 2 3] c5 by simp
  have a0: "max_leaves 1 0 = 623"
    using max_leaves_low [of 1 0] b0 b1 by (simp add: numeral_2_eq_2)
  have a1: "max_leaves 1 1 = 8"
    using max_leaves_low [of 1 1] b2 b3 by (simp add: numeral_2_eq_2)
  show ?thesis using max_leaves_low [of 0 0] a0 a1 by simp
qed

end
