(* ===== verification/Routing_Table.thy ===== *)
theory Routing_Table
  imports Routing_Zone
begin

text \<open>
  The routing table of \<open>crates/overlord-kad-routing/src/table.rs\<close>: the zone tree together with
  the per-address and per-/24 counters. The table relies on the tree through the locale
  \<open>contact_tree\<close> (what \<open>add\<close>, \<open>remove\<close> and \<open>get\<close> of a tree do to the stored contacts), which
  is interpreted on the zone operations. \<open>table_ok\<close> says the counters are exact and the
  clustering limits hold; every operation keeps it, and the operations implement a finite map
  from node identifiers to contacts.
\<close>

subsection \<open>What the table relies on\<close>

locale contact_tree =
  fixes tree_ok :: "'t \<Rightarrow> bool"
    and contents :: "'t \<Rightarrow> contact multiset"
    and add :: "nat \<Rightarrow> nat \<Rightarrow> contact \<Rightarrow> 't \<Rightarrow> ((routing_error + bool) \<times> 't) option"
    and remove :: "node_id \<Rightarrow> 't \<Rightarrow> contact option \<times> 't"
    and get :: "node_id \<Rightarrow> 't \<Rightarrow> contact option"
  assumes add_returns: "tree_ok z \<Longrightarrow> \<exists>res z'. add t m c z = Some (res, z') \<and> tree_ok z'
      \<and> add_post c (contents z) res (contents z')"
    and remove_absent: "tree_ok z \<Longrightarrow> get k z = None \<Longrightarrow> remove k z = (None, z)"
    and remove_present: "tree_ok z \<Longrightarrow> get k z = Some e \<Longrightarrow>
      \<exists>z'. remove k z = (Some e, z') \<and> tree_ok z' \<and> contents z = add_mset e (contents z')"
    and get_Some: "tree_ok z \<Longrightarrow> get k z = Some c \<longleftrightarrow> c \<in># contents z \<and> c_id c = k"
    and keys: "tree_ok z \<Longrightarrow> contents z = add_mset c M \<Longrightarrow> c_id c \<notin> c_id ` set_mset M"
begin

lemma get_None: "tree_ok z \<Longrightarrow> get k z = None \<longleftrightarrow> k \<notin> c_id ` set_mset (contents z)"
  by (metis get_Some image_iff not_None_eq)

text \<open>Two trees with the same contents answer every lookup alike.\<close>

lemma get_contents: "tree_ok z \<Longrightarrow> tree_ok z' \<Longrightarrow> contents z = contents z' \<Longrightarrow> get k z = get k z'"
  by (metis get_None get_Some option.exhaust)

lemma get_insert:
  assumes "tree_ok z" "tree_ok z'" "contents z' = add_mset c (contents z)"
  shows "get k z' = (if k = c_id c then Some c else get k z)"
proof (cases "k = c_id c")
  case True
  with assms get_Some [of z' k c] show ?thesis by simp
next
  case False
  have "get k z' = Some x \<longleftrightarrow> get k z = Some x" for x
    using False assms by (auto simp: get_Some)
  then have "get k z' = get k z" by (metis option.exhaust)
  with False show ?thesis by simp
qed

lemma add_get:
  assumes "tree_ok z" "add t m c z = Some (res, z')"
  shows "get k z' =
    (case res of
       Inr True \<Rightarrow> if k = c_id c then Some c else get k z
     | Inr False \<Rightarrow> if k = c_id c then map_option (\<lambda>e. merge_contact e c) (get k z) else get k z
     | Inl _ \<Rightarrow> get k z)"
proof -
  from add_returns [OF assms(1), of t m c] assms(2)
  have z': "tree_ok z'" and post: "add_post c (contents z) res (contents z')" by auto
  show ?thesis
  proof (cases res)
    case (Inl e)
    with post have "contents z' = contents z" by (simp add: add_post_def)
    with Inl get_contents [OF z' assms(1)] show ?thesis by simp
  next
    case (Inr added)
    show ?thesis
    proof (cases added)
      case True
      with Inr post have "contents z' = add_mset c (contents z)" by (simp add: add_post_def)
      with Inr True get_insert [OF assms(1) z'] show ?thesis by simp
    next
      case False
      with Inr post obtain e N where eN: "contents z = add_mset e N" "c_id e = c_id c"
        "contents z' = add_mset (merge_contact e c) N" by (auto simp: add_post_def)
      have "\<forall>x \<in># N. c_id x \<noteq> c_id c"
        using keys [OF assms(1) eN(1)] eN(2) by (metis imageI)
      then have "get k z' = Some x \<longleftrightarrow>
          (if k = c_id c then x = merge_contact e c else get k z = Some x)" for x
        using eN by (auto simp: get_Some z' assms(1))
      moreover have "get (c_id c) z = Some e"
        using eN by (simp add: get_Some assms(1))
      ultimately show ?thesis
        using Inr False by (cases "k = c_id c") (auto, metis option.exhaust)
    qed
  qed
qed

lemma remove_get:
  assumes "tree_ok z" "remove k z = (r, z')"
  shows "r = get k z \<and> tree_ok z' \<and> get k' z' = (if k' = k then None else get k' z)"
proof (cases "get k z")
  case None
  with assms remove_absent show ?thesis by auto
next
  case (Some e)
  with assms remove_present obtain c: "r = Some e" and z': "tree_ok z'"
    and eq: "contents z = add_mset e (contents z')" by fastforce
  have e: "c_id e = k" using Some by (simp add: get_Some assms(1))
  have "k \<notin> c_id ` set_mset (contents z')" using keys [OF assms(1) eq] e by simp
  then have "get k z' = None" by (simp add: get_None z')
  moreover have "get k' z' = get k' z" if "k' \<noteq> k"
    using get_insert [OF z' assms(1) eq, of k'] that e by simp
  ultimately show ?thesis using c z' Some by auto
qed

end

lemma zone_add_returns:
  assumes "zone_ok 0 0 z"
  shows "\<exists>res z'. zone_add ADD_FUEL t m c z = Some (res, z') \<and> zone_ok 0 0 z'
    \<and> add_post c (mset (zone_contacts z)) res (mset (zone_contacts z'))"
proof -
  have "add_need 0 z \<le> ADD_FUEL" by (cases z) (simp_all add: ADD_FUEL_def)
  with zone_add_good [OF assms this] show ?thesis by (simp add: add_good_def)
qed

interpretation zones: contact_tree "zone_ok 0 0" "\<lambda>z. mset (zone_contacts z)" "zone_add ADD_FUEL"
  zone_remove zone_get
proof
  fix z k e
  assume ok: "zone_ok 0 0 z"
  show "zone_get k z = None \<Longrightarrow> zone_remove k z = (None, z)"
    using zone_remove_None [OF ok] zone_get_None_iff [OF ok] by blast
  assume "zone_get k z = Some e"
  then have e: "e \<in> set (zone_contacts z)" "c_id e = k" by (simp_all add: zone_get_Some_iff [OF ok])
  then obtain e' z' where z': "zone_remove k z = (Some e', z')" "zone_ok 0 0 z'" "c_id e' = k"
      "mset (zone_contacts z) = add_mset e' (mset (zone_contacts z'))"
    using zone_remove_Some [OF ok, of k] by blast
  have "e' \<in> set (zone_contacts z)" using z'(4) by (metis set_mset_mset union_single_eq_member)
  then have "e' = e"
    using zone_get_Some_iff [OF ok, of k e'] zone_get_Some_iff [OF ok, of k e] e z'(3) by simp
  with z' show "\<exists>z'. zone_remove k z = (Some e, z') \<and> zone_ok 0 0 z'
      \<and> mset (zone_contacts z) = add_mset e (mset (zone_contacts z'))" by blast
next
  fix z c M
  assume "zone_ok 0 0 z" and eq: "mset (zone_contacts z) = add_mset c M"
  then have "distinct (map c_id (zone_contacts z))" by (intro zone_ok_distinct)
  moreover obtain cs where M: "M = mset cs" using ex_mset by metis
  then have "mset (map c_id (zone_contacts z)) = mset (map c_id (c # cs))" by (simp add: eq)
  ultimately have "distinct (map c_id (c # cs))" by (metis mset_eq_imp_distinct_iff)
  then show "c_id c \<notin> c_id ` set_mset M" by (simp add: M)
qed (use zone_add_returns zone_get_Some_iff in auto)

subsection \<open>Data and operations\<close>

definition DEFAULT_MAX_SIZE :: nat where
  "DEFAULT_MAX_SIZE = 12000"

definition GLOBAL_MAX_PER_SUBNET24 :: nat where
  "GLOBAL_MAX_PER_SUBNET24 = 10"

record routing_table =
  rt_own_id :: node_id
  rt_max_size :: nat
  rt_root :: routing_zone
  rt_ip_counts :: "ipv4 \<rightharpoonup> nat"
  rt_subnet_counts :: "subnet \<rightharpoonup> nat"
  rt_total_contacts :: nat

definition with_max_size :: "node_id \<Rightarrow> nat \<Rightarrow> routing_table" where
  "with_max_size own_id max_size =
     \<lparr>rt_own_id = own_id, rt_max_size = max_size, rt_root = zone_new_root,
      rt_ip_counts = Map.empty, rt_subnet_counts = Map.empty, rt_total_contacts = 0\<rparr>"

definition table_new :: "node_id \<Rightarrow> routing_table" where
  "table_new own_id = with_max_size own_id DEFAULT_MAX_SIZE"

text \<open>The counter updates for an address that enters or leaves the table.\<close>

definition count_ip_in :: "ipv4 \<Rightarrow> routing_table \<Rightarrow> routing_table" where
  "count_ip_in ip t = t\<lparr>
     rt_ip_counts := count_inc ip (rt_ip_counts t),
     rt_subnet_counts := (if \<not> is_lan ip then count_inc (subnet24 ip) (rt_subnet_counts t)
                          else rt_subnet_counts t)\<rparr>"

definition count_ip_out :: "ipv4 \<Rightarrow> routing_table \<Rightarrow> routing_table" where
  "count_ip_out ip t = t\<lparr>
     rt_ip_counts := count_dec ip (rt_ip_counts t),
     rt_subnet_counts := (if \<not> is_lan ip then count_dec (subnet24 ip) (rt_subnet_counts t)
                          else rt_subnet_counts t)\<rparr>"

text \<open>The bookkeeping that follows the insertion into the tree: \<open>match result\<close>.\<close>

definition add_commit :: "ipv4 option \<Rightarrow> ipv4 \<Rightarrow> routing_table \<Rightarrow> (routing_error + bool) \<times> routing_zone
    \<Rightarrow> (routing_error + unit) \<times> routing_table" where
  "add_commit old_ip new_ip t result =
     (case result of
        (Inr True, root) \<Rightarrow>
          (Inr (), (count_ip_in new_ip (t\<lparr>rt_root := root\<rparr>))
             \<lparr>rt_total_contacts := rt_total_contacts t + 1\<rparr>)
      | (Inr False, root) \<Rightarrow>
          (Inr (),
           case old_ip of
             Some old \<Rightarrow>
               if old \<noteq> new_ip then count_ip_in new_ip (count_ip_out old (t\<lparr>rt_root := root\<rparr>))
               else t\<lparr>rt_root := root\<rparr>
           | None \<Rightarrow> t\<lparr>rt_root := root\<rparr>)
      | (Inl e, root) \<Rightarrow> (Inl e, t\<lparr>rt_root := root\<rparr>))"

definition add_contact :: "contact \<Rightarrow> routing_table \<Rightarrow> ((routing_error + unit) \<times> routing_table) option" where
  "add_contact contact t =
     (let ip_count = map_count (rt_ip_counts t) (c_ip contact);
          existing_ip = map_option c_ip (zone_get (c_id contact) (rt_root t));
          is_new_ip = (case existing_ip of None \<Rightarrow> True | Some ip \<Rightarrow> ip \<noteq> c_ip contact);
          subnet_count = map_count (rt_subnet_counts t) (subnet24 (c_ip contact))
      in if ip_count > 0 \<and> existing_ip \<noteq> Some (c_ip contact)
         then Some (Inl (IpLimitExceeded (c_ip contact)), t)
         else if \<not> is_lan (c_ip contact) \<and> is_new_ip \<and> subnet_count \<ge> GLOBAL_MAX_PER_SUBNET24
         then Some (Inl (SubnetLimitExceeded 24 Global), t)
         else map_option (add_commit existing_ip (c_ip contact) t)
           (zone_add ADD_FUEL (rt_total_contacts t) (rt_max_size t) contact (rt_root t)))"

definition get_closest :: "node_id \<Rightarrow> nat \<Rightarrow> routing_table \<Rightarrow> contact list" where
  "get_closest target n t =
     take n (sort_key (\<lambda>c. distance (c_id c) target)
       (zone_get_closest target usize_MAX (rt_root t) []))"

definition table_remove :: "node_id \<Rightarrow> routing_table \<Rightarrow> bool \<times> routing_table" where
  "table_remove i t =
     (case zone_remove i (rt_root t) of
        (Some contact, root) \<Rightarrow>
          (True, (count_ip_out (c_ip contact) (t\<lparr>rt_root := root\<rparr>))
             \<lparr>rt_total_contacts := rt_total_contacts t - 1\<rparr>)
      | (None, root) \<Rightarrow> (False, t\<lparr>rt_root := root\<rparr>))"

definition table_len :: "routing_table \<Rightarrow> nat" where
  "table_len t = rt_total_contacts t"

definition table_is_empty :: "routing_table \<Rightarrow> bool" where
  "table_is_empty t \<longleftrightarrow> rt_total_contacts t = 0"

definition table_get :: "node_id \<Rightarrow> routing_table \<Rightarrow> contact option" where
  "table_get i t = zone_get i (rt_root t)"

definition all_contacts :: "routing_table \<Rightarrow> contact list" where
  "all_contacts t = get_closest (rt_own_id t) (rt_total_contacts t) t"

subsection \<open>The table invariant\<close>

definition contents :: "routing_table \<Rightarrow> contact multiset" where
  "contents t = mset (zone_contacts (rt_root t))"

definition ip_count_of :: "ipv4 \<Rightarrow> contact multiset \<Rightarrow> nat" where
  "ip_count_of ip M = size (filter_mset (\<lambda>c. c_ip c = ip) M)"

definition subnet_count_of :: "subnet \<Rightarrow> contact multiset \<Rightarrow> nat" where
  "subnet_count_of s M = size (filter_mset (in_subnet s) M)"

lemma count_of_simps [simp]:
  "ip_count_of ip {#} = 0"
  "ip_count_of ip (add_mset c M) = (if c_ip c = ip then 1 else 0) + ip_count_of ip M"
  "subnet_count_of s {#} = 0"
  "subnet_count_of s (add_mset c M) = (if in_subnet s c then 1 else 0) + subnet_count_of s M"
  by (simp_all add: ip_count_of_def subnet_count_of_def)

definition counts_ok :: "routing_table \<Rightarrow> contact multiset \<Rightarrow> bool" where
  "counts_ok t M \<longleftrightarrow> (\<forall>ip. map_count (rt_ip_counts t) ip = ip_count_of ip M)
     \<and> (\<forall>s. map_count (rt_subnet_counts t) s = subnet_count_of s M)"

definition limits_ok :: "contact multiset \<Rightarrow> bool" where
  "limits_ok M \<longleftrightarrow> (\<forall>ip. ip_count_of ip M \<le> 1)
     \<and> (\<forall>s. subnet_count_of s M \<le> GLOBAL_MAX_PER_SUBNET24)"

definition table_ok :: "routing_table \<Rightarrow> bool" where
  "table_ok t \<longleftrightarrow> zone_ok 0 0 (rt_root t) \<and> rt_total_contacts t = size (contents t)
     \<and> counts_ok t (contents t) \<and> limits_ok (contents t)"

lemma counts_ok_in:
  "counts_ok t M \<Longrightarrow> c_ip c = ip \<Longrightarrow> counts_ok (count_ip_in ip t) (add_mset c M)"
  by (auto simp: counts_ok_def count_ip_in_def in_subnet_def)

lemma counts_ok_out:
  "counts_ok t (add_mset c M) \<Longrightarrow> c_ip c = ip \<Longrightarrow> counts_ok (count_ip_out ip t) M"
  by (auto simp: counts_ok_def count_ip_out_def in_subnet_def)

lemma counts_ok_frame [simp]:
  "counts_ok (t\<lparr>rt_root := r\<rparr>) M = counts_ok t M"
  "counts_ok (t\<lparr>rt_total_contacts := n\<rparr>) M = counts_ok t M"
  by (simp_all add: counts_ok_def)

lemma count_ip_frame [simp]:
  "rt_root (count_ip_in ip t) = rt_root t" "rt_root (count_ip_out ip t) = rt_root t"
  "rt_total_contacts (count_ip_in ip t) = rt_total_contacts t"
  "rt_total_contacts (count_ip_out ip t) = rt_total_contacts t"
  "rt_max_size (count_ip_in ip t) = rt_max_size t" "rt_max_size (count_ip_out ip t) = rt_max_size t"
  "rt_own_id (count_ip_in ip t) = rt_own_id t" "rt_own_id (count_ip_out ip t) = rt_own_id t"
  by (simp_all add: count_ip_in_def count_ip_out_def)

lemma contents_simps [simp]:
  "contents (t\<lparr>rt_root := r\<rparr>) = mset (zone_contacts r)"
  "contents (t\<lparr>rt_total_contacts := n\<rparr>) = contents t"
  "contents (count_ip_in ip t) = contents t" "contents (count_ip_out ip t) = contents t"
  by (simp_all add: contents_def)

lemma limits_ok_add:
  assumes "limits_ok M" "ip_count_of (c_ip c) M = 0"
    and "is_lan (c_ip c) \<or> subnet_count_of (subnet24 (c_ip c)) M < GLOBAL_MAX_PER_SUBNET24"
  shows "limits_ok (add_mset c M)"
  unfolding limits_ok_def
proof (intro conjI allI)
  fix ip
  from assms(1) have "ip_count_of ip M \<le> 1" unfolding limits_ok_def by blast
  with assms(2) show "ip_count_of ip (add_mset c M) \<le> 1" by auto
next
  fix s
  from assms(1) have "subnet_count_of s M \<le> GLOBAL_MAX_PER_SUBNET24" unfolding limits_ok_def by blast
  with assms(3) show "subnet_count_of s (add_mset c M) \<le> GLOBAL_MAX_PER_SUBNET24"
    by (auto simp: in_subnet_def)
qed

lemma limits_ok_remove: "limits_ok (add_mset c M) \<Longrightarrow> limits_ok M"
  unfolding limits_ok_def count_of_simps by (meson add_leD2)

lemma table_ok_new [simp]: "table_ok (with_max_size own_id max_size)"
  by (simp add: table_ok_def with_max_size_def contents_def counts_ok_def limits_ok_def)

subsection \<open>The outcomes of \<open>add_contact\<close>\<close>

lemma ip_count_of_pos: "ip_count_of ip M > 0 \<longleftrightarrow> (\<exists>c \<in># M. c_ip c = ip)"
  by (induction M) auto

text \<open>Under the invariant the guards read off the stored contacts.\<close>

lemma add_contact_guards:
  assumes "counts_ok t (contents t)"
  shows "add_contact c t =
    (let known = map_option c_ip (zone_get (c_id c) (rt_root t)) in
     if ip_count_of (c_ip c) (contents t) > 0 \<and> known \<noteq> Some (c_ip c)
     then Some (Inl (IpLimitExceeded (c_ip c)), t)
     else if \<not> is_lan (c_ip c) \<and> known \<noteq> Some (c_ip c)
       \<and> subnet_count_of (subnet24 (c_ip c)) (contents t) \<ge> GLOBAL_MAX_PER_SUBNET24
     then Some (Inl (SubnetLimitExceeded 24 Global), t)
     else map_option (add_commit known (c_ip c) t)
       (zone_add ADD_FUEL (rt_total_contacts t) (rt_max_size t) c (rt_root t)))"
proof -
  have "map_count (rt_ip_counts t) ip = ip_count_of ip (contents t)"
    "map_count (rt_subnet_counts t) s = subnet_count_of s (contents t)" for ip s
    using assms unfolding counts_ok_def by blast+
  moreover have "(case e of None \<Rightarrow> True | Some ip \<Rightarrow> ip \<noteq> c_ip c) \<longleftrightarrow> e \<noteq> Some (c_ip c)" for e
    by (cases e) auto
  ultimately show ?thesis by (simp only: add_contact_def Let_def)
qed

lemma add_contact_cases:
  assumes ok: "table_ok t"
  obtains
    (ip_taken) e where "add_contact c t = Some (Inl (IpLimitExceeded (c_ip c)), t)"
      "e \<in># contents t" "c_ip e = c_ip c" "c_id e \<noteq> c_id c"
  | (subnet_full) "add_contact c t = Some (Inl (SubnetLimitExceeded 24 Global), t)"
      "\<not> is_lan (c_ip c)" "subnet_count_of (subnet24 (c_ip c)) (contents t) = GLOBAL_MAX_PER_SUBNET24"
  | (added) root where "c_id c \<notin> c_id ` set_mset (contents t)"
      "ip_count_of (c_ip c) (contents t) = 0"
      "is_lan (c_ip c) \<or> subnet_count_of (subnet24 (c_ip c)) (contents t) < GLOBAL_MAX_PER_SUBNET24"
      "zone_add ADD_FUEL (rt_total_contacts t) (rt_max_size t) c (rt_root t) = Some (Inr True, root)"
      "zone_ok 0 0 root" "mset (zone_contacts root) = add_mset c (contents t)"
      "add_contact c t = Some (Inr (), (count_ip_in (c_ip c) (t\<lparr>rt_root := root\<rparr>))
         \<lparr>rt_total_contacts := rt_total_contacts t + 1\<rparr>)"
  | (updated) e N root where "contents t = add_mset e N" "c_id e = c_id c"
      "c_ip e = c_ip c \<or> ip_count_of (c_ip c) (contents t) = 0"
      "c_ip e = c_ip c \<or> is_lan (c_ip c)
         \<or> subnet_count_of (subnet24 (c_ip c)) (contents t) < GLOBAL_MAX_PER_SUBNET24"
      "zone_add ADD_FUEL (rt_total_contacts t) (rt_max_size t) c (rt_root t) = Some (Inr False, root)"
      "zone_ok 0 0 root" "mset (zone_contacts root) = add_mset (merge_contact e c) N"
      "add_contact c t = Some (Inr (),
         if c_ip e \<noteq> c_ip c
         then count_ip_in (c_ip c) (count_ip_out (c_ip e) (t\<lparr>rt_root := root\<rparr>))
         else t\<lparr>rt_root := root\<rparr>)"
  | (rejected) err root where "add_contact c t = Some (Inl err, t\<lparr>rt_root := root\<rparr>)"
      "zone_add ADD_FUEL (rt_total_contacts t) (rt_max_size t) c (rt_root t) = Some (Inl err, root)"
      "zone_ok 0 0 root" "mset (zone_contacts root) = contents t"
      "err = SubnetLimitExceeded 24 BinLocal \<and> \<not> is_lan (c_ip c) \<or>
         (\<exists>reason. err = SplitDenied reason) \<and> c_id c \<notin> c_id ` set_mset (contents t)"
proof -
  have zok: "zone_ok 0 0 (rt_root t)" and cnt: "counts_ok t (contents t)" and lim: "limits_ok (contents t)"
    using ok by (simp_all add: table_ok_def)
  define known where "known = map_option c_ip (zone_get (c_id c) (rt_root t))"
  note get_Some = zones.get_Some [OF zok, folded contents_def]
  note get_None = zones.get_None [OF zok, folded contents_def]
  note eq = add_contact_guards [OF cnt, of c, folded known_def, unfolded Let_def, folded known_def]
  consider
      (1) "ip_count_of (c_ip c) (contents t) > 0" "known \<noteq> Some (c_ip c)"
    | (2) "\<not> (ip_count_of (c_ip c) (contents t) > 0 \<and> known \<noteq> Some (c_ip c))"
        "\<not> is_lan (c_ip c)" "known \<noteq> Some (c_ip c)"
        "subnet_count_of (subnet24 (c_ip c)) (contents t) \<ge> GLOBAL_MAX_PER_SUBNET24"
    | (3) "ip_count_of (c_ip c) (contents t) = 0 \<or> known = Some (c_ip c)"
        "is_lan (c_ip c) \<or> known = Some (c_ip c)
          \<or> subnet_count_of (subnet24 (c_ip c)) (contents t) < GLOBAL_MAX_PER_SUBNET24"
    by (cases "known = Some (c_ip c)"; cases "ip_count_of (c_ip c) (contents t) > 0";
        cases "is_lan (c_ip c)";
        cases "subnet_count_of (subnet24 (c_ip c)) (contents t) \<ge> GLOBAL_MAX_PER_SUBNET24") auto
  then show thesis
  proof cases
    case 1
    then obtain e where e: "e \<in># contents t" "c_ip e = c_ip c"
      using ip_count_of_pos by blast
    moreover have "c_id e \<noteq> c_id c"
      using 1 e get_Some [of "c_id c" e] by (auto simp: known_def)
    ultimately show thesis using 1 by (intro ip_taken) (simp_all add: eq)
  next
    case 2
    have "subnet_count_of (subnet24 (c_ip c)) (contents t) \<le> GLOBAL_MAX_PER_SUBNET24"
      using lim unfolding limits_ok_def by blast
    with 2 show thesis by (intro subnet_full) (auto simp: eq)
  next
    case 3
    obtain res root where root: "zone_add ADD_FUEL (rt_total_contacts t) (rt_max_size t) c (rt_root t)
        = Some (res, root)" "zone_ok 0 0 root" "add_post c (contents t) res (mset (zone_contacts root))"
      using zone_add_returns [OF zok] unfolding contents_def by metis
    with 3 have eq3: "add_contact c t = Some (add_commit known (c_ip c) t (res, root))"
      by (auto simp: eq)
    consider (err) err where "res = Inl err" | (new) "res = Inr True" | (old) "res = Inr False"
      by (cases res) auto
    then show thesis
    proof cases
      case err
      with root eq3 show thesis by (intro rejected) (auto simp: add_post_def add_commit_def)
    next
      case new
      with root have fresh: "c_id c \<notin> c_id ` set_mset (contents t)"
        and "mset (zone_contacts root) = add_mset c (contents t)" by (auto simp: add_post_def)
      moreover from fresh have "known = None" by (simp add: known_def get_None)
      ultimately show thesis using new root eq3 3 by (intro added) (auto simp: add_commit_def)
    next
      case old
      with root obtain e N where e: "contents t = add_mset e N" "c_id e = c_id c"
        "mset (zone_contacts root) = add_mset (merge_contact e c) N" by (auto simp: add_post_def)
      then have "known = Some (c_ip e)"
        using get_Some [of "c_id c" e] by (simp add: known_def)
      with e old root eq3 3 show thesis by (intro updated [of e N root]) (auto simp: add_commit_def)
    qed
  qed
qed

lemma add_contact_ok:
  assumes ok: "table_ok t"
  shows "\<exists>res t'. add_contact c t = Some (res, t') \<and> table_ok t'
    \<and> rt_max_size t' = rt_max_size t \<and> rt_own_id t' = rt_own_id t"
  using ok
proof (cases rule: add_contact_cases [where c = c])
  case (ip_taken e)
  with ok show ?thesis by simp
next
  case subnet_full
  with ok show ?thesis by simp
next
  case (added root)
  let ?t = "t\<lparr>rt_root := root\<rparr>"
  have "counts_ok (count_ip_in (c_ip c) ?t) (add_mset c (contents t))"
    using ok by (intro counts_ok_in) (auto simp: table_ok_def)
  moreover have "limits_ok (add_mset c (contents t))"
    using ok added by (intro limits_ok_add) (auto simp: table_ok_def)
  ultimately show ?thesis
    using ok added by (simp add: table_ok_def)
next
  case (updated e N root)
  let ?t = "t\<lparr>rt_root := root\<rparr>" and ?m = "merge_contact e c"
  have cnt: "counts_ok ?t (add_mset e N)" and lim: "limits_ok (add_mset e N)"
    and tot: "rt_total_contacts t = size (add_mset e N)"
    using ok updated(1) by (simp_all add: table_ok_def)
  show ?thesis
  proof (cases "c_ip e = c_ip c")
    case True
    then have "ip_count_of ip (add_mset ?m N) = ip_count_of ip (add_mset e N)"
      "subnet_count_of s (add_mset ?m N) = subnet_count_of s (add_mset e N)" for ip s
      by (simp_all add: in_subnet_def)
    then have "counts_ok ?t (add_mset ?m N)" "limits_ok (add_mset ?m N)"
      using cnt lim unfolding counts_ok_def limits_ok_def by metis+
    with True updated tot show ?thesis by (simp add: table_ok_def)
  next
    case False
    have "counts_ok (count_ip_in (c_ip c) (count_ip_out (c_ip e) ?t)) (add_mset ?m N)"
      using cnt by (intro counts_ok_in counts_ok_out) simp_all
    moreover have "limits_ok (add_mset ?m N)"
      using lim updated(1,3,4) False
      by (intro limits_ok_add) (auto dest: limits_ok_remove split: if_splits)
    ultimately show ?thesis
      using False updated tot by (simp add: table_ok_def)
  qed
next
  case (rejected err root)
  with ok show ?thesis by (simp add: table_ok_def)
qed

lemma table_remove_ok:
  assumes ok: "table_ok t"
  shows "table_ok (snd (table_remove k t))"
proof (cases "zone_get k (rt_root t)")
  case None
  then have "zone_remove k (rt_root t) = (None, rt_root t)"
    using ok zones.remove_absent [of "rt_root t" k] by (simp add: table_ok_def)
  with ok show ?thesis by (simp add: table_remove_def)
next
  case (Some e)
  then obtain z where z: "zone_remove k (rt_root t) = (Some e, z)" "zone_ok 0 0 z"
      "contents t = add_mset e (mset (zone_contacts z))"
    using ok zones.remove_present [of "rt_root t" k e] by (auto simp: table_ok_def contents_def)
  have "counts_ok (count_ip_out (c_ip e) (t\<lparr>rt_root := z\<rparr>)) (mset (zone_contacts z))"
    using ok z(3) by (intro counts_ok_out [of _ e]) (auto simp: table_ok_def)
  moreover have "limits_ok (mset (zone_contacts z))"
    by (rule limits_ok_remove [of e]) (use ok z(3) in \<open>simp add: table_ok_def\<close>)
  ultimately show ?thesis
    using ok z by (simp add: table_remove_def table_ok_def)
qed

subsection \<open>Lookups and nearest contacts\<close>

lemma table_get_Some:
  "table_ok t \<Longrightarrow> table_get k t = Some c \<longleftrightarrow> c \<in># contents t \<and> c_id c = k"
  by (simp add: table_get_def table_ok_def zones.get_Some contents_def)

text \<open>The table as a finite map: what each operation does to every lookup.\<close>

lemma add_contact_get:
  assumes ok: "table_ok t" and add: "add_contact c t = Some (res, t')"
  shows "table_get k t' =
    (case res of
       Inl _ \<Rightarrow> table_get k t
     | Inr _ \<Rightarrow>
         if k \<noteq> c_id c then table_get k t
         else (case table_get k t of None \<Rightarrow> Some c | Some e \<Rightarrow> Some (merge_contact e c)))"
  using ok
proof (cases rule: add_contact_cases [where c = c])
  case (added root)
  have "table_get (c_id c) t = None"
    using added(1) ok zones.get_None [of "rt_root t"]
    by (simp add: table_get_def table_ok_def contents_def)
  with added add ok show ?thesis
    using zones.add_get [OF _ added(4), of k] by (auto simp: table_get_def table_ok_def)
next
  case (updated e N root)
  have "table_get (c_id c) t = Some e"
    using updated ok by (simp add: table_get_Some)
  with updated add ok show ?thesis
    using zones.add_get [OF _ updated(5), of k] by (auto simp: table_get_def table_ok_def)
next
  case (rejected err root)
  with add ok show ?thesis
    using zones.add_get [OF _ rejected(2), of k] by (auto simp: table_get_def table_ok_def)
qed (use add in auto)

lemma table_remove_get:
  assumes ok: "table_ok t"
  shows "fst (table_remove k t) \<longleftrightarrow> table_get k t \<noteq> None"
    and "table_get k' (snd (table_remove k t)) = (if k' = k then None else table_get k' t)"
proof -
  obtain r z where r: "zone_remove k (rt_root t) = (r, z)" by (cases "zone_remove k (rt_root t)")
  have "zone_ok 0 0 (rt_root t)" using ok by (simp add: table_ok_def)
  note get = zones.remove_get [OF this r]
  have r_eq: "zone_get k (rt_root t) = r" using get by blast
  show "fst (table_remove k t) \<longleftrightarrow> table_get k t \<noteq> None"
    by (cases r) (simp_all add: table_remove_def table_get_def r r_eq)
  show "table_get k' (snd (table_remove k t)) = (if k' = k then None else table_get k' t)"
  proof -
    have "rt_root (snd (table_remove k t)) = z"
      by (cases r) (simp_all add: table_remove_def r)
    then show ?thesis using get [of k'] by (simp add: table_get_def)
  qed
qed

lemma table_size_bound: "table_ok t \<Longrightarrow> size (contents t) \<le> 6310"
  using zone_count_bound [of 0 0 "rt_root t"]
  by (simp add: table_ok_def contents_def zone_count_contacts max_leaves_root K_def)

lemma collected_contents:
  assumes "table_ok t"
  shows "mset (zone_get_closest target usize_MAX (rt_root t) []) = contents t"
proof -
  have "zone_count (rt_root t) < usize_MAX"
    using table_size_bound [OF assms] by (simp add: usize_MAX_def contents_def zone_count_contacts)
  then show ?thesis by (simp add: zone_get_closest_all contents_def)
qed

text \<open>Truncating a list sorted by a key keeps the smallest keys.\<close>

lemma take_sort_key_closest:
  assumes "c \<in> set (take n (sort_key f xs))" "d \<in> set xs" "d \<notin> set (take n (sort_key f xs))"
  shows "f c \<le> f d"
proof -
  let ?ys = "sort_key f xs"
  from assms(2,3) have "d \<in> set (drop n ?ys)"
    by (metis Un_iff append_take_drop_id set_append set_sort)
  moreover have "sorted (map f (take n ?ys @ drop n ?ys))" by simp
  ultimately show ?thesis using assms(1) unfolding map_append sorted_append by auto
qed

lemma get_closest_spec:
  assumes ok: "table_ok t"
  shows "sorted (map (\<lambda>c. distance (c_id c) target) (get_closest target n t))"
    and "length (get_closest target n t) = min n (table_len t)"
    and "mset (get_closest target n t) \<subseteq># contents t"
    and "c \<in> set (get_closest target n t) \<Longrightarrow> d \<in># contents t \<Longrightarrow>
      d \<notin> set (get_closest target n t) \<Longrightarrow> distance (c_id c) target \<le> distance (c_id d) target"
proof -
  let ?xs = "zone_get_closest target usize_MAX (rt_root t) []"
  have xs: "mset ?xs = contents t" using ok by (rule collected_contents)
  show "sorted (map (\<lambda>c. distance (c_id c) target) (get_closest target n t))"
    unfolding get_closest_def by (metis sorted_sort_key sorted_wrt_take take_map)
  have "length ?xs = table_len t"
    using ok arg_cong [OF xs, of size] by (simp add: table_len_def table_ok_def)
  then show "length (get_closest target n t) = min n (table_len t)"
    by (simp add: get_closest_def min.commute)
  show "mset (get_closest target n t) \<subseteq># contents t"
    unfolding get_closest_def xs [symmetric] 
    by (metis append_take_drop_id mset_append mset_sort mset_subset_eq_add_left)
  show "c \<in> set (get_closest target n t) \<Longrightarrow> d \<in># contents t \<Longrightarrow>
      d \<notin> set (get_closest target n t) \<Longrightarrow> distance (c_id c) target \<le> distance (c_id d) target"
    unfolding get_closest_def xs [symmetric] by (rule take_sort_key_closest) auto
qed

lemma all_contacts_spec:
  assumes ok: "table_ok t"
  shows "mset (all_contacts t) = contents t"
    and "sorted (map (\<lambda>c. distance (c_id c) (rt_own_id t)) (all_contacts t))"
proof -
  have "mset (all_contacts t) \<subseteq># contents t" "size (mset (all_contacts t)) = size (contents t)"
    using get_closest_spec(2,3) [OF ok] ok
    by (simp_all add: all_contacts_def table_len_def table_ok_def)
  then show "mset (all_contacts t) = contents t"
    by (metis mset_subset_size nless_le subset_mset.le_imp_less_or_eq)
  show "sorted (map (\<lambda>c. distance (c_id c) (rt_own_id t)) (all_contacts t))"
    unfolding all_contacts_def by (rule get_closest_spec(1) [OF ok])
qed

subsection \<open>Reachable tables\<close>

text \<open>
  The tables a program can build: a new table, and the result of any \<open>add_contact\<close>
  (accepted or not) or \<open>remove\<close>.
\<close>

inductive table_reach :: "node_id \<Rightarrow> nat \<Rightarrow> routing_table \<Rightarrow> bool" for own_id max_size where
  reach_new: "table_reach own_id max_size (with_max_size own_id max_size)"
| reach_add: "table_reach own_id max_size t \<Longrightarrow> add_contact c t = Some (res, t') \<Longrightarrow>
    table_reach own_id max_size t'"
| reach_remove: "table_reach own_id max_size t \<Longrightarrow>
    table_reach own_id max_size (snd (table_remove k t))"

lemma table_reach_ok:
  assumes "table_reach own_id max_size t"
  shows "table_ok t \<and> rt_max_size t = max_size \<and> rt_own_id t = own_id"
  using assms
proof induction
  case reach_new
  show ?case by (simp add: with_max_size_def [of own_id max_size, THEN arg_cong [where f = rt_max_size]]
        with_max_size_def [of own_id max_size, THEN arg_cong [where f = rt_own_id]])
next
  case (reach_add t c res t')
  then show ?case using add_contact_ok [of t c] by auto
next
  case (reach_remove t k)
  then show ?case
    using table_remove_ok [of t k] by (auto simp: table_remove_def split: prod.splits option.splits)
qed

fun zone_bins :: "routing_zone \<Rightarrow> routing_bin list" where
  "zone_bins (Leaf d i b) = [b]"
| "zone_bins (Branch d i l r) = zone_bins l @ zone_bins r"

lemma zone_bins_ok: "zone_ok d i z \<Longrightarrow> b \<in> set (zone_bins z) \<Longrightarrow> bin_ok b"
  by (induction z arbitrary: d i) auto

subsection \<open>Properties\<close>

text \<open>A concrete contact and the table that holds it, for the witnesses below.\<close>

definition sample_contact :: contact where
  "sample_contact =
     contact_new (NodeId (Arr16 (replicate 16 1))) (Ipv4 5 6 7 8) 4672 4662 9 0"

definition sample_table :: routing_table where
  "sample_table = snd (the (add_contact sample_contact (table_new nid_ZERO)))"

lemma sample_add: "add_contact sample_contact (table_new nid_ZERO) = Some (Inr (), sample_table)"
proof -
  have "zone_add ADD_FUEL 0 12000 sample_contact zone_new_root =
      Some (Inr True, Leaf 0 0 \<lparr>bin_contacts = [sample_contact]\<rparr>)"
  proof -
    have fuel: "ADD_FUEL = Suc 255" by (simp add: ADD_FUEL_def)
    show ?thesis
      unfolding fuel zone_add.simps
      by (simp add: zone_new_root_def bin_new_def try_add_def sample_contact_def contact_new_def
          K_def MAX_PER_BIN_SUBNET24_def)
  qed
  then have "\<exists>t. add_contact sample_contact (table_new nid_ZERO) = Some (Inr (), t)"
    by (simp add: add_contact_def table_new_def with_max_size_def DEFAULT_MAX_SIZE_def
        GLOBAL_MAX_PER_SUBNET24_def add_commit_def Let_def)
  then show ?thesis by (auto simp: sample_table_def)
qed

lemma sample_reach: "table_reach nid_ZERO DEFAULT_MAX_SIZE sample_table"
  by (rule reach_add [OF _ sample_add]) (simp add: table_new_def reach_new)

lemma sample_ok: "table_ok sample_table"
  using table_reach_ok [OF sample_reach] by simp

lemma table_new_ok [simp]: "table_ok (table_new own_id)"
  by (simp add: table_new_def)

lemma table_get_new [simp]: "table_get k (table_new own_id) = None"
  by (simp add: table_new_def table_get_def with_max_size_def zone_new_root_def bin_new_def)

lemma sample_get: "table_get (c_id sample_contact) sample_table = Some sample_contact"
  using add_contact_get [OF table_new_ok sample_add, of "c_id sample_contact"] by simp

text \<open>
  C10. In every reachable table the counters are exact and the anti-clustering limits hold: an
  address occurs at most once, a non-LAN /24 at most ten times, and the total is the number of
  stored contacts.
\<close>

theorem reachable_limits:
  assumes "table_reach own_id max_size t"
  shows "map_count (rt_ip_counts t) ip = ip_count_of ip (contents t)
    \<and> map_count (rt_subnet_counts t) s = subnet_count_of s (contents t)
    \<and> ip_count_of ip (contents t) \<le> 1
    \<and> subnet_count_of s (contents t) \<le> GLOBAL_MAX_PER_SUBNET24
    \<and> table_len t = size (contents t)"
proof -
  have "table_ok t" using table_reach_ok [OF assms] by simp
  then have "counts_ok t (contents t)" "limits_ok (contents t)" "table_len t = size (contents t)"
    by (simp_all add: table_ok_def table_len_def)
  then show ?thesis unfolding counts_ok_def limits_ok_def by blast
qed

theorem reachable_limits_witness:
  "sample_contact \<in># contents sample_table
    \<and> map_count (rt_ip_counts sample_table) (Ipv4 5 6 7 8) = ip_count_of (Ipv4 5 6 7 8) (contents sample_table)
    \<and> ip_count_of (Ipv4 5 6 7 8) (contents sample_table) \<le> 1"
  using reachable_limits [OF sample_reach, of "Ipv4 5 6 7 8"] sample_get table_get_Some [OF sample_ok]
  by simp

text \<open>
  C9. Adding a contact to a well-formed table always returns (the mutual recursion of \<open>add\<close> and
  \<open>split\<close> ends), keeps the table well formed, and on every error leaves the stored contacts and
  all counters as they were: a split never loses a contact.
\<close>

theorem add_contact_total:
  assumes "table_ok t"
  shows "\<exists>res t'. add_contact c t = Some (res, t') \<and> table_ok t'
    \<and> (\<forall>err. res = Inl err \<longrightarrow> contents t' = contents t \<and> rt_ip_counts t' = rt_ip_counts t
         \<and> rt_subnet_counts t' = rt_subnet_counts t \<and> table_len t' = table_len t)"
proof -
  obtain res t' where r: "add_contact c t = Some (res, t')" "table_ok t'"
    using add_contact_ok [OF assms] by blast
  moreover have "contents t' = contents t \<and> rt_ip_counts t' = rt_ip_counts t
      \<and> rt_subnet_counts t' = rt_subnet_counts t \<and> table_len t' = table_len t" if "res = Inl err" for err
    using assms
    by (rule add_contact_cases [where c = c]) (use r that in \<open>auto simp: table_len_def\<close>)
  ultimately show ?thesis by blast
qed

theorem add_contact_total_witness:
  "table_ok sample_table \<and> (\<exists>res t'. add_contact sample_contact sample_table = Some (res, t') \<and> table_ok t')"
  using add_contact_total [OF sample_ok, of sample_contact] sample_ok by blast

text \<open>
  C8. The table implements a finite map keyed by node identifier: an accepted \<open>add_contact\<close> binds
  the contact, merged into the stored one if the identifier was known (highest Kad version,
  last non-zero UDP key); every other lookup, and every lookup after an error, is unchanged.
\<close>

theorem add_contact_lookup:
  assumes "table_ok t" "add_contact c t = Some (res, t')"
  shows "table_get k t' =
    (case res of
       Inl _ \<Rightarrow> table_get k t
     | Inr _ \<Rightarrow>
         if k \<noteq> c_id c then table_get k t
         else (case table_get k t of None \<Rightarrow> Some c | Some e \<Rightarrow> Some (merge_contact e c)))"
  using assms by (rule add_contact_get)

theorem add_contact_lookup_witness:
  "table_ok (table_new nid_ZERO)
    \<and> add_contact sample_contact (table_new nid_ZERO) = Some (Inr (), sample_table)
    \<and> table_get (c_id sample_contact) sample_table = Some sample_contact"
  using add_contact_lookup [OF table_new_ok sample_add, of "c_id sample_contact"] sample_add
  by simp

text \<open>
  Removing an identifier reports whether it was stored, unbinds exactly it, and keeps the
  table well formed.
\<close>

theorem table_remove_lookup:
  assumes "table_ok t"
  shows "table_ok (snd (table_remove k t))
    \<and> (fst (table_remove k t) \<longleftrightarrow> table_get k t \<noteq> None)
    \<and> table_get k' (snd (table_remove k t)) = (if k' = k then None else table_get k' t)"
  using table_remove_ok table_remove_get assms by simp

theorem table_remove_lookup_witness:
  "table_ok sample_table \<and> fst (table_remove (c_id sample_contact) sample_table)
    \<and> table_get (c_id sample_contact) (snd (table_remove (c_id sample_contact) sample_table)) = None"
  using table_remove_lookup [OF sample_ok, of "c_id sample_contact" "c_id sample_contact"]
    sample_ok sample_get by simp

text \<open>
  C7. \<open>get_closest\<close> returns the stored contacts nearest to the target: as many as asked for or
  stored, in order of XOR distance, and none that it leaves out is nearer than one it returns.
\<close>

theorem get_closest_nearest:
  assumes "table_ok t"
  shows "sorted (map (\<lambda>c. distance (c_id c) target) (get_closest target n t))
    \<and> length (get_closest target n t) = min n (table_len t)
    \<and> mset (get_closest target n t) \<subseteq># contents t
    \<and> (\<forall>c d. c \<in> set (get_closest target n t) \<longrightarrow> d \<in># contents t \<longrightarrow>
         d \<notin> set (get_closest target n t) \<longrightarrow> distance (c_id c) target \<le> distance (c_id d) target)"
  using get_closest_spec [OF assms] by blast

theorem get_closest_nearest_witness:
  "table_ok sample_table \<and> length (get_closest nid_ZERO 3 sample_table) = min 3 (table_len sample_table)"
  using get_closest_nearest [OF sample_ok] sample_ok by blast

text \<open>
  Whatever \<open>max_size\<close> is configured, a reachable table never holds more than 6310 contacts:
  the split rule admits at most 631 leaves of ten contacts. The default limit of 12000 is
  therefore never reached.
\<close>

theorem table_capacity:
  assumes "table_reach own_id max_size t"
  shows "table_len t \<le> 6310 \<and> 6310 < DEFAULT_MAX_SIZE"
  using table_size_bound [of t] table_reach_ok [OF assms]
  by (simp add: table_len_def table_ok_def DEFAULT_MAX_SIZE_def)

theorem table_capacity_witness:
  "table_reach nid_ZERO DEFAULT_MAX_SIZE sample_table \<and> table_len sample_table \<le> 6310"
  using table_capacity [OF sample_reach] sample_reach by blast

text \<open>
  In every reachable table each bin holds at most ten contacts with distinct identifiers,
  at most two of them from one non-LAN /24.
\<close>

theorem reachable_bins:
  assumes "table_reach own_id max_size t" "b \<in> set (zone_bins (rt_root t))"
  shows "bin_len b \<le> K \<and> distinct (map c_id (bin_contacts b))
    \<and> count_if (in_subnet s) (bin_contacts b) \<le> MAX_PER_BIN_SUBNET24"
proof -
  have "bin_ok b"
    using zone_bins_ok assms(2) table_reach_ok [OF assms(1)] by (auto simp: table_ok_def)
  then have "length (bin_contacts b) \<le> K" "distinct (map c_id (bin_contacts b))"
    "subnets_ok (bin_contacts b)" by (simp_all add: bin_ok_def cs_ok_def)
  then show ?thesis unfolding subnets_ok_def bin_len_def by blast
qed

theorem reachable_bins_witness:
  "bin_new \<in> set (zone_bins (rt_root (with_max_size nid_ZERO 1))) \<and> bin_len bin_new \<le> K"
proof -
  have b: "bin_new \<in> set (zone_bins (rt_root (with_max_size nid_ZERO 1)))"
    by (simp add: with_max_size_def zone_new_root_def)
  with reachable_bins [OF reach_new b] show ?thesis by blast
qed

text \<open>
  The snapshot \<open>all_contacts\<close> is complete: a rearrangement of the stored contacts in order of
  distance from the own identifier.
\<close>

theorem all_contacts_complete:
  assumes "table_ok t"
  shows "mset (all_contacts t) = contents t
    \<and> sorted (map (\<lambda>c. distance (c_id c) (rt_own_id t)) (all_contacts t))"
  using all_contacts_spec [OF assms] by simp

theorem all_contacts_complete_witness:
  "table_ok sample_table \<and> mset (all_contacts sample_table) = contents sample_table"
  using all_contacts_complete [OF sample_ok] sample_ok by simp

end
