(* ===== verification/Kad_Search_Expr.thy ===== *)
theory Kad_Search_Expr
  imports Tag "HOL-Library.Monad_Syntax"
begin

text \<open>
  The restrictive keyword expressions of \<open>crates/overlord-agent-emule/src/kad_search_expr.rs\<close>:
  the parser of the serialized expression tree, with its depth limit, the tokenizer of quoted
  search terms and the evaluation against a file name and tags. The parser's \<open>Result<_, ()>\<close> is an
  option. \<open>L\<close> stands for \<open>str::to_lowercase\<close>, whose Unicode tables are not modelled; nothing is
  assumed of it. The tokenizer works on the bytes of the string: every character it compares
  with is ASCII, so it cuts at the same places as the loop over the characters.
\<close>

definition MAX_SEARCH_EXPR_DEPTH :: nat where
  "MAX_SEARCH_EXPR_DEPTH = 24"

text \<open>The characters \<open> ()[]{}<>,._-!?:;\/"\<close>.\<close>

definition INVALID_KAD_KEYWORD_CHARS :: "u8 list" where
  "INVALID_KAD_KEYWORD_CHARS =
     [32, 40, 41, 91, 93, 123, 125, 60, 62, 44, 46, 95, 45, 33, 63, 58, 59, 92, 47, 34]"

definition tn_FILEFORMAT :: u8 where "tn_FILEFORMAT = 0x04"
definition tn_FILESIZE_HI :: u8 where "tn_FILESIZE_HI = 0x3A"

datatype numeric_op = Equal | Greater | Less | GreaterEqual | LessEqual | NotEqual

datatype search_term =
    And search_term search_term
  | Or search_term search_term
  | Not search_term search_term
  | StringTerms "rstring list"
  | MetaString tag_name rstring
  | Numeric tag_name numeric_op u64

subsection \<open>Reading\<close>

type_synonym 'a parser = "bytes \<Rightarrow> ('a \<times> bytes) option"

definition take_exact :: "nat \<Rightarrow> bytes parser" where
  "take_exact n s = (if length s < n then None else Some (take n s, drop n s))"

definition read_u8 :: "u8 parser" where
  "read_u8 s = do { (bs, r) \<leftarrow> take_exact 1 s; Some (bs ! 0, r) }"

definition read_u16 :: "u16 parser" where
  "read_u16 s = do { (bs, r) \<leftarrow> take_exact 2 s; Some (le_word bs, r) }"

definition read_u32 :: "u32 parser" where
  "read_u32 s = do { (bs, r) \<leftarrow> take_exact 4 s; Some (le_word bs, r) }"

definition read_u64 :: "u64 parser" where
  "read_u64 s = do { (bs, r) \<leftarrow> take_exact 8 s; Some (le_word bs, r) }"

definition expr_read_tag_name :: "tag_name parser" where
  "expr_read_tag_name s = do {
     (len, s) \<leftarrow> read_u16 s;
     (bs, s) \<leftarrow> take_exact (unat len) s;
     Some (case bs of [name] \<Rightarrow> Short name | _ \<Rightarrow> Long (from_utf8_lossy bs), s) }"

definition read_lower_string :: "(rstring \<Rightarrow> rstring) \<Rightarrow> rstring parser" where
  "read_lower_string L s = do {
     (len, s) \<leftarrow> read_u16 s;
     (bs, s) \<leftarrow> take_exact (unat len) s;
     Some (L (from_utf8_lossy bs), s) }"

subsection \<open>Tokenizing\<close>

definition keyword_char :: "u8 \<Rightarrow> bool" where
  "keyword_char c \<longleftrightarrow> c \<notin> set INVALID_KAD_KEYWORD_CHARS"

lemma length_dropWhile_quote:
  "c \<noteq> 34 \<Longrightarrow> dropWhile p (c # cs) \<noteq> [] \<Longrightarrow> hd (dropWhile p (c # cs)) = 34 \<Longrightarrow>
     length (dropWhile p (c # cs)) < length (c # cs)"
  using length_dropWhile_le [of p cs] by (auto split: if_splits)

function tokenize_opt_quoted_search_term :: "rstring \<Rightarrow> rstring list" where
  "tokenize_opt_quoted_search_term [] = []"
| "tokenize_opt_quoted_search_term (c # cs) =
     (if c = 34 then
        (let t = takeWhile (\<lambda>ch. ch \<noteq> 34) cs; r = dropWhile (\<lambda>ch. ch \<noteq> 34) cs in
         (if r \<noteq> [] \<and> t \<noteq> [] then [t] else []) @
         tokenize_opt_quoted_search_term (if r \<noteq> [] then tl r else r))
      else
        (let t = takeWhile keyword_char (c # cs); r = dropWhile keyword_char (c # cs) in
         (if t \<noteq> [] then [t] else []) @
         (if r \<noteq> [] \<and> hd r = 34 then tokenize_opt_quoted_search_term r
          else tokenize_opt_quoted_search_term (tl r))))"
  by pat_completeness auto

termination
proof (relation "measure length", goal_cases)
  case (2 c cs t r)
  then show ?case
    using length_dropWhile_le [of "\<lambda>ch. ch \<noteq> 34" cs] by auto
next
  case (3 c cs t r)
  then show ?case
    using length_dropWhile_quote [of c keyword_char cs] by auto
next
  case (4 c cs t r)
  then show ?case
    using length_dropWhile_le [of keyword_char cs] by auto
qed simp

subsection \<open>Parsing\<close>

definition numeric_op_of :: "u8 \<Rightarrow> numeric_op option" where
  "numeric_op_of b =
     (if b = 0x00 then Some Equal else if b = 0x01 then Some Greater
      else if b = 0x02 then Some Less else if b = 0x03 then Some GreaterEqual
      else if b = 0x04 then Some LessEqual else if b = 0x05 then Some NotEqual
      else None)"

definition parse_numeric_term :: "u64 \<Rightarrow> search_term parser" where
  "parse_numeric_term v s = do {
     (b, s) \<leftarrow> read_u8 s;
     op \<leftarrow> numeric_op_of b;
     (name, s) \<leftarrow> expr_read_tag_name s;
     Some (Numeric name op v, s) }"

function parse_search_term :: "(rstring \<Rightarrow> rstring) \<Rightarrow> nat \<Rightarrow> search_term parser"
  and parse_boolean_term :: "(rstring \<Rightarrow> rstring) \<Rightarrow> nat \<Rightarrow> search_term parser" where
  "parse_search_term L depth s =
     (if depth \<ge> MAX_SEARCH_EXPR_DEPTH then None
      else do {
        (op, s) \<leftarrow> read_u8 s;
        if op = 0x00 then parse_boolean_term L (depth + 1) s
        else if op = 0x01 then do {
          (v, s) \<leftarrow> read_lower_string L s;
          Some (StringTerms (tokenize_opt_quoted_search_term v), s) }
        else if op = 0x02 then do {
          (v, s) \<leftarrow> read_lower_string L s;
          (name, s) \<leftarrow> expr_read_tag_name s;
          Some (MetaString name v, s) }
        else if op = 0x03 then do {
          (v, s) \<leftarrow> read_u32 s;
          parse_numeric_term (ucast v) s }
        else if op = 0x08 then do {
          (v, s) \<leftarrow> read_u64 s;
          parse_numeric_term v s }
        else None })"
| "parse_boolean_term L depth s = do {
     (bool_op, s) \<leftarrow> read_u8 s;
     (left, s) \<leftarrow> parse_search_term L depth s;
     (right, s) \<leftarrow> parse_search_term L depth s;
     if bool_op = 0x00 then Some (And left right, s)
     else if bool_op = 0x01 then Some (Or left right, s)
     else if bool_op = 0x02 then Some (Not left right, s)
     else None }"
  by pat_completeness auto

termination
  by (relation "measure (\<lambda>x. case x of
       Inl (L, d, s) \<Rightarrow> 2 * (MAX_SEARCH_EXPR_DEPTH - d) + 1
     | Inr (L, d, s) \<Rightarrow> 2 * (MAX_SEARCH_EXPR_DEPTH - d) + 2)") auto

declare parse_search_term.simps [simp del] parse_boolean_term.simps [simp del]

subsection \<open>Evaluation\<close>

primrec str_contains :: "rstring \<Rightarrow> rstring \<Rightarrow> bool" where
  "str_contains [] t \<longleftrightarrow> t = []"
| "str_contains (c # cs) t \<longleftrightarrow> take (length t) (c # cs) = t \<or> str_contains cs t"

text \<open>\<open>rsplit_once('.')\<close>: the part behind the last dot.\<close>

definition file_extension :: "rstring \<Rightarrow> rstring option" where
  "file_extension s = (if 46 \<in> set s then Some (rev (takeWhile (\<lambda>c. c \<noteq> 46) (rev s))) else None)"

definition string_terms_match :: "rstring \<Rightarrow> rstring list \<Rightarrow> bool" where
  "string_terms_match filename_lower terms \<longleftrightarrow>
     terms \<noteq> [] \<and> list_all (\<lambda>t. str_contains filename_lower t) terms"

definition meta_string_matches ::
  "(rstring \<Rightarrow> rstring) \<Rightarrow> rstring \<Rightarrow> tag list \<Rightarrow> tag_name \<Rightarrow> rstring \<Rightarrow> bool" where
  "meta_string_matches L filename_lower tags name v =
     (if name = Short tn_FILEFORMAT then file_extension filename_lower = Some v
      else list_ex (\<lambda>t. tg_name t = name \<and>
        (case tg_value t of String tag_value \<Rightarrow> L tag_value = v | _ \<Rightarrow> False)) tags)"

text \<open>\<open>Option::get_or_insert\<close>.\<close>

definition get_or_insert :: "'a option \<Rightarrow> 'a \<Rightarrow> 'a option" where
  "get_or_insert x v = (case x of None \<Rightarrow> Some v | Some _ \<Rightarrow> x)"

text \<open>The accumulator of the size loop: whole size, low half, high half.\<close>

type_synonym size_acc = "u64 option \<times> u32 option \<times> u32 option"

fun file_size_step :: "size_acc \<Rightarrow> tag \<Rightarrow> size_acc" where
  "file_size_step (sz, lo, hi) t =
     (case tg_name t of
        Long _ \<Rightarrow> (sz, lo, hi)
      | Short name \<Rightarrow>
          if name = tn_FILESIZE then
            (case tg_value t of
               UInt v \<Rightarrow>
                 if v \<le> 0xFFFFFFFF then (sz, get_or_insert lo (ucast v), hi)
                 else (get_or_insert sz v, lo, hi)
             | U64 v \<Rightarrow> (get_or_insert sz v, lo, hi)
             | U32 v \<Rightarrow> (sz, get_or_insert lo v, hi)
             | U16 v \<Rightarrow> (sz, get_or_insert lo (ucast v), hi)
             | U8 v \<Rightarrow> (sz, get_or_insert lo (ucast v), hi)
             | Blob bs \<Rightarrow>
                 if length bs = 8 then (get_or_insert sz (le_word bs), lo, hi) else (sz, lo, hi)
             | SmallBlob bs \<Rightarrow>
                 if length bs = 8 then (get_or_insert sz (le_word bs), lo, hi) else (sz, lo, hi)
             | _ \<Rightarrow> (sz, lo, hi))
          else if name = tn_FILESIZE_HI then
            (case tg_value t of
               UInt v \<Rightarrow>
                 if v \<le> 0xFFFFFFFF then (sz, lo, get_or_insert hi (ucast v)) else (sz, lo, hi)
             | U32 v \<Rightarrow> (sz, lo, get_or_insert hi v)
             | U16 v \<Rightarrow> (sz, lo, get_or_insert hi (ucast v))
             | U8 v \<Rightarrow> (sz, lo, get_or_insert hi (ucast v))
             | _ \<Rightarrow> (sz, lo, hi))
          else (sz, lo, hi))"

text \<open>\<open>size.or_else(...)\<close>: the whole size, else the two halves put together.\<close>

fun file_size_result :: "size_acc \<Rightarrow> u64 option" where
  "file_size_result (sz, lo, hi) =
     (case sz of
        Some v \<Rightarrow> Some v
      | None \<Rightarrow> map_option (\<lambda>low.
          let high = (case hi of None \<Rightarrow> 0 | Some h \<Rightarrow> h) in
          push_bit 32 (ucast high) OR ucast low) lo)"

definition file_size_tag_value :: "tag list \<Rightarrow> u64 option" where
  "file_size_tag_value tags = file_size_result (foldl file_size_step (None, None, None) tags)"

text \<open>\<open>iter().find_map(f)\<close>.\<close>

primrec find_map :: "('a \<Rightarrow> 'b option) \<Rightarrow> 'a list \<Rightarrow> 'b option" where
  "find_map f [] = None"
| "find_map f (x # xs) = (case f x of None \<Rightarrow> find_map f xs | Some y \<Rightarrow> Some y)"

definition tag_u64 :: "tag_value \<Rightarrow> u64 option" where
  "tag_u64 v =
     (case v of
        UInt n \<Rightarrow> Some n
      | U64 n \<Rightarrow> Some n
      | U32 n \<Rightarrow> Some (ucast n)
      | U16 n \<Rightarrow> Some (ucast n)
      | U8 n \<Rightarrow> Some (ucast n)
      | _ \<Rightarrow> None)"

definition int_tag_value :: "tag list \<Rightarrow> tag_name \<Rightarrow> u64 option" where
  "int_tag_value tags name =
     (if name = Short tn_FILESIZE then file_size_tag_value tags
      else find_map (\<lambda>t. if tg_name t \<noteq> name then None else tag_u64 (tg_value t)) tags)"

definition numeric_matches :: "tag list \<Rightarrow> tag_name \<Rightarrow> numeric_op \<Rightarrow> u64 \<Rightarrow> bool" where
  "numeric_matches tags name op expected =
     (case int_tag_value tags name of
        None \<Rightarrow> False
      | Some actual \<Rightarrow>
          (case op of
             Equal \<Rightarrow> actual = expected
           | Greater \<Rightarrow> actual > expected
           | Less \<Rightarrow> actual < expected
           | GreaterEqual \<Rightarrow> actual \<ge> expected
           | LessEqual \<Rightarrow> actual \<le> expected
           | NotEqual \<Rightarrow> actual \<noteq> expected))"

primrec matches_with_lower_filename ::
  "(rstring \<Rightarrow> rstring) \<Rightarrow> search_term \<Rightarrow> rstring \<Rightarrow> tag list \<Rightarrow> bool" where
  "matches_with_lower_filename L (And l r) f tags \<longleftrightarrow>
     matches_with_lower_filename L l f tags \<and> matches_with_lower_filename L r f tags"
| "matches_with_lower_filename L (Or l r) f tags \<longleftrightarrow>
     matches_with_lower_filename L l f tags \<or> matches_with_lower_filename L r f tags"
| "matches_with_lower_filename L (Not l r) f tags \<longleftrightarrow>
     matches_with_lower_filename L l f tags \<and> \<not> matches_with_lower_filename L r f tags"
| "matches_with_lower_filename L (StringTerms terms) f tags \<longleftrightarrow> string_terms_match f terms"
| "matches_with_lower_filename L (MetaString name v) f tags \<longleftrightarrow>
     meta_string_matches L f tags name v"
| "matches_with_lower_filename L (Numeric name op v) f tags \<longleftrightarrow> numeric_matches tags name op v"

definition search_term_matches ::
  "(rstring \<Rightarrow> rstring) \<Rightarrow> search_term \<Rightarrow> rstring \<Rightarrow> tag list \<Rightarrow> bool" where
  "search_term_matches L t filename tags = matches_with_lower_filename L t (L filename) tags"

definition matches_restrictive_keyword_payload ::
  "(rstring \<Rightarrow> rstring) \<Rightarrow> rstring \<Rightarrow> tag list \<Rightarrow> bytes \<Rightarrow> bool" where
  "matches_restrictive_keyword_payload L filename tags payload =
     (case parse_search_term L 0 payload of
        None \<Rightarrow> False
      | Some (t, _) \<Rightarrow> search_term_matches L t filename tags)"

subsection \<open>Serialized expressions\<close>

text \<open>The expression trees a payload can carry and their serialized form.\<close>

datatype wire_term =
    WBool u8 wire_term wire_term
  | WString rstring
  | WMeta rstring u8
  | WNum32 u32 u8 u8
  | WNum64 u64 u8 u8

abbreviation print_string :: "rstring \<Rightarrow> bytes" where
  "print_string s \<equiv> le_bytes 2 (of_nat (length s) :: u16) @ s"

abbreviation print_name :: "u8 \<Rightarrow> bytes" where
  "print_name name \<equiv> le_bytes 2 (1 :: u16) @ [name]"

primrec print_term :: "wire_term \<Rightarrow> bytes" where
  "print_term (WBool op l r) = 0x00 # op # print_term l @ print_term r"
| "print_term (WString s) = 0x01 # print_string s"
| "print_term (WMeta s name) = 0x02 # print_string s @ print_name name"
| "print_term (WNum32 v op name) = 0x03 # le_bytes 4 v @ op # print_name name"
| "print_term (WNum64 v op name) = 0x08 # le_bytes 8 v @ op # print_name name"

primrec term_depth :: "wire_term \<Rightarrow> nat" where
  "term_depth (WBool op l r) = Suc (max (term_depth l) (term_depth r))"
| "term_depth (WString s) = 1"
| "term_depth (WMeta s name) = 1"
| "term_depth (WNum32 v op name) = 1"
| "term_depth (WNum64 v op name) = 1"

text \<open>The term denoted by a tree: operators out of range have none.\<close>

primrec term_of :: "(rstring \<Rightarrow> rstring) \<Rightarrow> wire_term \<Rightarrow> search_term option" where
  "term_of L (WBool op l r) = do {
     a \<leftarrow> term_of L l; b \<leftarrow> term_of L r;
     if op = 0 then Some (And a b) else if op = 1 then Some (Or a b)
     else if op = 2 then Some (Not a b) else None }"
| "term_of L (WString s) = Some (StringTerms (tokenize_opt_quoted_search_term (L s)))"
| "term_of L (WMeta s name) = Some (MetaString (Short name) (L s))"
| "term_of L (WNum32 v op name) =
     map_option (\<lambda>p. Numeric (Short name) p (ucast v)) (numeric_op_of op)"
| "term_of L (WNum64 v op name) =
     map_option (\<lambda>p. Numeric (Short name) p v) (numeric_op_of op)"

text \<open>Strings are well-formed and fit their length prefix.\<close>

primrec term_ok :: "wire_term \<Rightarrow> bool" where
  "term_ok (WBool op l r) \<longleftrightarrow> term_ok l \<and> term_ok r"
| "term_ok (WString s) \<longleftrightarrow> utf8_valid s \<and> length s < 65536"
| "term_ok (WMeta s name) \<longleftrightarrow> utf8_valid s \<and> length s < 65536"
| "term_ok (WNum32 v op name) \<longleftrightarrow> True"
| "term_ok (WNum64 v op name) \<longleftrightarrow> True"

lemma take_exact_append [simp]: "length t = n \<Longrightarrow> take_exact n (t @ r) = Some (t, r)"
  by (simp add: take_exact_def)

lemma read_u8_Cons [simp]: "read_u8 (b # r) = Some (b, r)"
  using take_exact_append [of "[b]" 1 r] by (simp add: read_u8_def)

lemma read_words [simp]:
  "read_u16 (le_bytes 2 v @ r) = Some (v, r)" "read_u32 (le_bytes 4 w @ r) = Some (w, r)"
  "read_u64 (le_bytes 8 x @ r) = Some (x, r)"
  by (simp_all add: read_u16_def read_u32_def read_u64_def le_word_le_bytes)

lemma read_lower_string_print [simp]:
  "utf8_valid s \<Longrightarrow> length s < 65536 \<Longrightarrow>
     read_lower_string L (le_bytes 2 (of_nat (length s) :: u16) @ s @ r) = Some (L s, r)"
  by (simp add: read_lower_string_def from_utf8_lossy_id)

lemma read_tag_name_print [simp]:
  "expr_read_tag_name (le_bytes 2 (1 :: u16) @ name # r) = Some (Short name, r)"
  using take_exact_append [of "[name]" 1 r] by (simp add: expr_read_tag_name_def)

lemma parse_numeric_print [simp]:
  "parse_numeric_term v (op # le_bytes 2 (1 :: u16) @ name # r) =
     map_option (\<lambda>p. (Numeric (Short name) p v, r)) (numeric_op_of op)"
  by (cases "numeric_op_of op") (simp_all add: parse_numeric_term_def)

lemma parse_print:
  "term_ok t \<Longrightarrow>
     parse_search_term L d (print_term t @ r) =
     (if d + term_depth t \<le> MAX_SEARCH_EXPR_DEPTH then map_option (\<lambda>x. (x, r)) (term_of L t) else None)"
proof (induction t arbitrary: d r)
  case (WBool op l r')
  have ok: "term_ok l" "term_ok r'"
    using WBool.prems by simp_all
  have depth: "Suc (d + max (term_depth l) (term_depth r')) \<le> MAX_SEARCH_EXPR_DEPTH \<longleftrightarrow>
      Suc (d + term_depth l) \<le> MAX_SEARCH_EXPR_DEPTH \<and>
      Suc (d + term_depth r') \<le> MAX_SEARCH_EXPR_DEPTH"
    by auto
  show ?case
    using WBool.IH(1) [OF ok(1), of "Suc d" "print_term r' @ r"] WBool.IH(2) [OF ok(2), of "Suc d" r]
    by (subst parse_search_term.simps, cases "term_of L l"; cases "term_of L r'")
      (auto simp: parse_boolean_term.simps depth)
qed (subst parse_search_term.simps; simp add: option.map_comp comp_def; fail)+

text \<open>
  C39. A serialized expression is understood exactly when it nests at most 24 levels: the parser then
  returns the tree it denotes (or rejects an operator out of range) and leaves what follows it,
  and it rejects every deeper expression.
\<close>

theorem parse_search_term_print:
  assumes "term_ok t"
  shows "parse_search_term L 0 (print_term t @ r) =
    (if term_depth t \<le> MAX_SEARCH_EXPR_DEPTH then map_option (\<lambda>x. (x, r)) (term_of L t) else None)"
  using parse_print [OF assms, of L 0 r] by simp

theorem parse_search_term_print_witness:
  "let t = WBool 2 (WString [0x61, 0x20, 0x62]) (WNum64 900 3 0x02) in
     term_ok t \<and> parse_search_term id 0 (print_term t @ [7]) =
       Some (Not (StringTerms [[0x61], [0x62]]) (Numeric (Short 0x02) GreaterEqual 900), [7])"
proof -
  let ?t = "WBool 2 (WString [0x61, 0x20, 0x62]) (WNum64 900 3 0x02)"
  have ok: "term_ok ?t"
    by (simp add: utf8_char_def utf8_lead_def)
  have "tokenize_opt_quoted_search_term [0x61, 0x20, 0x62] = [[0x61], [0x62]]"
    by (simp add: keyword_char_def INVALID_KAD_KEYWORD_CHARS_def)
  then show ?thesis
    using parse_search_term_print [OF ok, of id "[7]"] ok
    by (simp add: MAX_SEARCH_EXPR_DEPTH_def numeric_op_of_def del: print_term.simps)
qed

subsection \<open>Tokens and sizes\<close>

lemma tokenize_tokens:
  "t \<in> set (tokenize_opt_quoted_search_term s) \<Longrightarrow> t \<noteq> [] \<and> 34 \<notin> set t"
proof (induction s rule: tokenize_opt_quoted_search_term.induct)
  case (2 c cs)
  have "34 \<notin> set (takeWhile (\<lambda>ch. ch \<noteq> 34) xs)" for xs
    by (auto dest: set_takeWhileD)
  moreover have "34 \<notin> set (takeWhile keyword_char xs)" for xs
    by (auto dest: set_takeWhileD simp: keyword_char_def INVALID_KAD_KEYWORD_CHARS_def)
  ultimately show ?case
    using 2 by (auto simp: Let_def split: if_splits)
qed simp

end
