(* ===== verification/Kad_Store.thy ===== *)
theory Kad_Store
  imports Kad_Packet Kad_Search_Expr Rust_Std
begin

text \<open>
  The local publish cache of \<open>crates/overlord-agent-emule/src/kad_store.rs\<close>: keyword, source and
  notes publishes are recorded from inbound Kad packets and served back to searches. Points in time
  (\<open>DateTime<Utc>\<close>) and durations are nanoseconds. The sum of a time of observation and a time to
  live is exact here; \<open>chrono\<close> panics if it is no date it can represent, which takes a configured time
  to live of more than two hundred thousand years.
\<close>

subsection \<open>Constants and data\<close>

definition STOCK_MAX_SOURCES_PER_FILE :: nat where "STOCK_MAX_SOURCES_PER_FILE = 1000"
definition STOCK_MAX_NOTES_PER_FILE :: nat where "STOCK_MAX_NOTES_PER_FILE = 150"
definition STOCK_MAX_KEYWORD_INDEX :: nat where "STOCK_MAX_KEYWORD_INDEX = 50000"
definition STOCK_MAX_KEYWORD_ENTRIES :: nat where "STOCK_MAX_KEYWORD_ENTRIES = 60000"
definition STOCK_HOT_KEYWORD_REPUBLISH_MARGIN :: nat where
  "STOCK_HOT_KEYWORD_REPUBLISH_MARGIN = 5000"

lemmas stock_limits =
  STOCK_MAX_SOURCES_PER_FILE_def STOCK_MAX_NOTES_PER_FILE_def STOCK_MAX_KEYWORD_INDEX_def
  STOCK_MAX_KEYWORD_ENTRIES_def STOCK_HOT_KEYWORD_REPUBLISH_MARGIN_def

definition tn_PUBLISHINFO :: u8 where "tn_PUBLISHINFO = 0x33"
definition tn_KADAICHHASHRESULT :: u8 where "tn_KADAICHHASHRESULT = 0x37"
definition tn_SERVERIP :: u8 where "tn_SERVERIP = 0xFB"
definition tn_SOURCEUPORT :: u8 where "tn_SOURCEUPORT = 0xFC"
definition tn_SOURCEPORT :: u8 where "tn_SOURCEPORT = 0xFD"
definition tn_SOURCEIP :: u8 where "tn_SOURCEIP = 0xFE"
definition tn_SOURCETYPE :: u8 where "tn_SOURCETYPE = 0xFF"

lemmas tn_defs =
  tn_FILENAME_def tn_FILESIZE_def tn_FILETYPE_def tn_SOURCES_def tn_KADAICHHASHPUB_def
  tn_FILEFORMAT_def tn_FILESIZE_HI_def tn_PUBLISHINFO_def tn_KADAICHHASHRESULT_def
  tn_SERVERIP_def tn_SOURCEUPORT_def tn_SOURCEPORT_def tn_SOURCEIP_def tn_SOURCETYPE_def

text \<open>The fields of \<open>KadConfig\<close> that the store reads.\<close>

record kad_config =
  local_store_enabled :: bool
  local_store_keyword_ttl_secs :: nat
  local_store_source_ttl_secs :: nat
  local_store_notes_ttl_secs :: nat
  local_store_keyword_capacity :: nat
  local_store_source_capacity :: nat
  local_store_notes_capacity :: nat

record store_config =
  enabled :: bool
  keyword_ttl :: nat
  source_ttl :: nat
  notes_ttl :: nat
  keyword_capacity :: nat
  source_capacity :: nat
  notes_capacity :: nat

definition from_kad_config :: "kad_config \<Rightarrow> store_config" where
  "from_kad_config c =
     \<lparr> enabled = local_store_enabled c,
       keyword_ttl = max (local_store_keyword_ttl_secs c) 1 * 1000000000,
       source_ttl = max (local_store_source_ttl_secs c) 1 * 1000000000,
       notes_ttl = max (local_store_notes_ttl_secs c) 1 * 1000000000,
       keyword_capacity = max (local_store_keyword_capacity c) 1,
       source_capacity = max (local_store_source_capacity c) 1,
       notes_capacity = max (local_store_notes_capacity c) 1 \<rparr>"

record stored_keyword =
  kp_observed_at :: int
  kp_target :: node_id
  kp_file_hash :: ed2k_hash
  kp_tags :: "tag list"
  kp_dedup_key :: rstring

record stored_source =
  sp_observed_at :: int
  sp_target :: node_id
  sp_publisher_id :: node_id
  sp_source_ip :: ipv4
  sp_source_tcp_port :: u16
  sp_source_udp_port :: u16
  sp_tags :: "tag list"
  sp_dedup_key :: rstring

record stored_notes =
  np_observed_at :: int
  np_target :: node_id
  np_publisher_id :: node_id
  np_publisher_ip :: ipv4
  np_tags :: "tag list"
  np_dedup_key :: rstring

record kad_store =
  st_config :: store_config
  keyword_entries :: "stored_keyword list"
  source_entries :: "stored_source list"
  notes_entries :: "stored_notes list"

definition store_new :: "store_config \<Rightarrow> kad_store" where
  "store_new c =
     \<lparr> st_config = c, keyword_entries = [], source_entries = [], notes_entries = [] \<rparr>"

subsection \<open>Keys\<close>

text \<open>The literals \<open>keyword:\<close>, \<open>source:\<close> and \<open>notes:\<close>.\<close>

definition keyword_dedup_key :: "node_id \<Rightarrow> ed2k_hash \<Rightarrow> u64 \<Rightarrow> rstring" where
  "keyword_dedup_key target file_hash sz =
     [107, 101, 121, 119, 111, 114, 100, 58] @ nid_display target @ 58 # ed2k_display file_hash @
     58 # show_nat (unat sz)"

definition source_dedup_key :: "node_id \<Rightarrow> ipv4 \<Rightarrow> u16 \<Rightarrow> u16 \<Rightarrow> rstring" where
  "source_dedup_key target ip tcp udp =
     [115, 111, 117, 114, 99, 101, 58] @ nid_display target @ 58 # ipv4_to_string ip @
     58 # show_nat (unat tcp) @ 58 # show_nat (unat udp)"

definition notes_dedup_key :: "node_id \<Rightarrow> node_id \<Rightarrow> ipv4 \<Rightarrow> rstring" where
  "notes_dedup_key target publisher_id ip =
     [110, 111, 116, 101, 115, 58] @ nid_display target @ 58 # nid_display publisher_id @
     58 # ipv4_to_string ip"

subsection \<open>Reading the published tags\<close>

definition stock_stored_publish_tags :: "tag list \<Rightarrow> tag list" where
  "stock_stored_publish_tags tags =
     filter (\<lambda>t. \<not> (tg_name t = Short tn_PUBLISHINFO \<or> tg_name t = Short tn_KADAICHHASHRESULT)) tags"

definition is_integer_tag_value :: "tag_value \<Rightarrow> bool" where
  "is_integer_tag_value v =
     (case v of UInt _ \<Rightarrow> True | U64 _ \<Rightarrow> True | U32 _ \<Rightarrow> True | U16 _ \<Rightarrow> True | U8 _ \<Rightarrow> True
      | _ \<Rightarrow> False)"

definition stock_stored_source_publish_tags :: "tag list \<Rightarrow> tag list" where
  "stock_stored_source_publish_tags tags =
     filter (\<lambda>t. \<not> (tg_name t = Short tn_SERVERIP \<and> \<not> is_integer_tag_value (tg_value t)))
       (stock_stored_publish_tags tags)"

definition is_stock_source_publish :: "tag list \<Rightarrow> bool" where
  "is_stock_source_publish tags = list_ex (\<lambda>t. tg_name t = Short tn_SOURCETYPE) tags"

text \<open>\<open>u16::try_from(value).ok()\<close> of a wider integer.\<close>

definition try_port :: "'a::len word \<Rightarrow> u16 option" where
  "try_port v = (if unat v < 2 ^ 16 then Some (ucast v) else None)"

definition positive_port :: "u16 option \<Rightarrow> u16 option" where
  "positive_port x = (case x of None \<Rightarrow> None | Some p \<Rightarrow> if p > 0 then Some p else None)"

definition stock_source_tcp_port :: "tag list \<Rightarrow> u16 option" where
  "stock_source_tcp_port tags =
     find_map (\<lambda>t.
       if tg_name t \<noteq> Short tn_SOURCEPORT then None
       else (case tg_value t of
           UInt v \<Rightarrow> positive_port (try_port v)
         | U64 v \<Rightarrow> positive_port (try_port v)
         | U32 v \<Rightarrow> positive_port (try_port v)
         | U16 v \<Rightarrow> positive_port (Some v)
         | U8 v \<Rightarrow> positive_port (Some (ucast v))
         | _ \<Rightarrow> None)) tags"

definition stock_first_filename :: "tag list \<Rightarrow> rstring option" where
  "stock_first_filename tags =
     find_map (\<lambda>t.
       if tg_name t \<noteq> Short tn_FILENAME then None
       else (case tg_value t of String v \<Rightarrow> if v \<noteq> [] then Some v else None | _ \<Rightarrow> None)) tags"

text \<open>
  The size loop of the store: the same accumulator as in the expression evaluator, with blobs
  of eight bytes accepted on request.
\<close>

fun stock_size_step :: "bool \<Rightarrow> size_acc \<Rightarrow> tag \<Rightarrow> size_acc" where
  "stock_size_step accept_bsob_file_size (sz, lo, hi) t =
     (case tg_name t of
        Long _ \<Rightarrow> (sz, lo, hi)
      | Short name \<Rightarrow>
          if name = tn_FILESIZE then
            (case tg_value t of
               UInt v \<Rightarrow>
                 if v \<le> 0xFFFFFFFF then (sz, get_or_insert lo (ucast v), hi)
                 else (get_or_insert sz v, lo, hi)
             | U64 v \<Rightarrow> (get_or_insert sz v, lo, hi)
             | U32 v \<Rightarrow> (sz, get_or_insert lo v, hi)
             | U16 v \<Rightarrow> (sz, get_or_insert lo (ucast v), hi)
             | U8 v \<Rightarrow> (sz, get_or_insert lo (ucast v), hi)
             | Blob bs \<Rightarrow>
                 if accept_bsob_file_size \<and> length bs = 8 then (get_or_insert sz (le_word bs), lo, hi)
                 else (sz, lo, hi)
             | SmallBlob bs \<Rightarrow>
                 if accept_bsob_file_size \<and> length bs = 8 then (get_or_insert sz (le_word bs), lo, hi)
                 else (sz, lo, hi)
             | _ \<Rightarrow> (sz, lo, hi))
          else if name = tn_FILESIZE_HI then
            (case tg_value t of
               UInt v \<Rightarrow>
                 if v \<le> 0xFFFFFFFF then (sz, lo, get_or_insert hi (ucast v)) else (sz, lo, hi)
             | U32 v \<Rightarrow> (sz, lo, get_or_insert hi v)
             | U16 v \<Rightarrow> (sz, lo, get_or_insert hi (ucast v))
             | U8 v \<Rightarrow> (sz, lo, get_or_insert hi (ucast v))
             | _ \<Rightarrow> (sz, lo, hi))
          else (sz, lo, hi))"

definition stock_first_file_size_impl :: "tag list \<Rightarrow> bool \<Rightarrow> u64 option" where
  "stock_first_file_size_impl tags accept_bsob_file_size =
     file_size_result (foldl (stock_size_step accept_bsob_file_size) (None, None, None) tags)"

definition stock_first_file_size :: "tag list \<Rightarrow> u64 option" where
  "stock_first_file_size tags = stock_first_file_size_impl tags False"

definition stock_first_keyword_source_file_size :: "tag list \<Rightarrow> u64 option" where
  "stock_first_keyword_source_file_size tags = stock_first_file_size_impl tags True"

definition positive_size :: "u64 option \<Rightarrow> u64 option" where
  "positive_size x = (case x of None \<Rightarrow> None | Some n \<Rightarrow> if n > 0 then Some n else None)"

definition stock_keyword_file_size :: "tag list \<Rightarrow> u64 option" where
  "stock_keyword_file_size tags = positive_size (stock_first_keyword_source_file_size tags)"

definition has_stock_keyword_filename :: "tag list \<Rightarrow> bool" where
  "has_stock_keyword_filename tags =
     list_ex (\<lambda>t. tg_name t = Short tn_FILENAME \<and>
       (case tg_value t of String v \<Rightarrow> v \<noteq> [] | _ \<Rightarrow> False)) tags"

definition has_stock_note_tags :: "tag list \<Rightarrow> bool" where
  "has_stock_note_tags tags =
     list_ex (\<lambda>t. case tg_name t of
         Long _ \<Rightarrow> True
       | Short name \<Rightarrow>
           if name = tn_FILENAME then (case tg_value t of String v \<Rightarrow> v \<noteq> [] | _ \<Rightarrow> False)
           else if name = tn_FILESIZE then
             (case stock_first_file_size [t] of None \<Rightarrow> False | Some n \<Rightarrow> n > 0)
           else True) tags"

definition stock_file_size_matches_request :: "tag list \<Rightarrow> u64 \<Rightarrow> bool \<Rightarrow> bool" where
  "stock_file_size_matches_request tags request_size accept_bsob_file_size \<longleftrightarrow>
     request_size = 0 \<or>
     (case stock_first_file_size_impl tags accept_bsob_file_size of
        None \<Rightarrow> True
      | Some n \<Rightarrow> n = request_size)"

definition stock_source_file_size_matches_request :: "tag list \<Rightarrow> u64 \<Rightarrow> bool" where
  "stock_source_file_size_matches_request tags n = stock_file_size_matches_request tags n True"

definition stock_notes_file_size_matches_request :: "tag list \<Rightarrow> u64 \<Rightarrow> bool" where
  "stock_notes_file_size_matches_request tags n = stock_file_size_matches_request tags n False"

subsection \<open>Result tags\<close>

text \<open>A \<open>[u8; 20]\<close> is a byte list of that length.\<close>

definition stock_aich_publish_hash :: "tag \<Rightarrow> bytes option" where
  "stock_aich_publish_hash t =
     (case tg_value t of
        Blob bs \<Rightarrow> if length bs = 20 then Some bs else None
      | SmallBlob bs \<Rightarrow> if length bs = 20 then Some bs else None
      | _ \<Rightarrow> None)"

definition keyword_publish_info_tag :: tag where
  "keyword_publish_info_tag =
     (let trust_times_100 = 1000; publishers = 1; names = 1 in
      new_short tn_PUBLISHINFO
        (U32 (push_bit 24 names OR push_bit 16 publishers OR trust_times_100)))"

definition keyword_aich_result_tag :: "bytes \<Rightarrow> tag" where
  "keyword_aich_result_tag h = new_short tn_KADAICHHASHRESULT (SmallBlob ([1, 1] @ h))"

fun keyword_tag_step :: "tag list \<times> bytes option \<Rightarrow> tag \<Rightarrow> tag list \<times> bytes option" where
  "keyword_tag_step (tags, aich_result_hash) t =
     (case tg_name t of
        Long _ \<Rightarrow> (tags @ [t], aich_result_hash)
      | Short name \<Rightarrow>
          if name = tn_FILENAME \<or> name = tn_FILESIZE then (tags, aich_result_hash)
          else if name = tn_KADAICHHASHPUB then
            (tags, if aich_result_hash = None then stock_aich_publish_hash t else aich_result_hash)
          else if name = tn_PUBLISHINFO \<or> name = tn_KADAICHHASHRESULT then (tags, aich_result_hash)
          else (tags @ [t], aich_result_hash))"

definition opt_tag :: "('a \<Rightarrow> tag) \<Rightarrow> 'a option \<Rightarrow> tag list" where
  "opt_tag f x = (case x of None \<Rightarrow> [] | Some v \<Rightarrow> [f v])"

definition keyword_result_tags :: "stored_keyword \<Rightarrow> tag list" where
  "keyword_result_tags entry =
     (let head = opt_tag tag_filename (stock_first_filename (kp_tags entry)) @
            opt_tag tag_filesize
              (positive_size (stock_first_keyword_source_file_size (kp_tags entry)));
          (tags, aich) = foldl keyword_tag_step (head, None) (kp_tags entry) in
      tags @ [keyword_publish_info_tag] @ opt_tag keyword_aich_result_tag aich)"

text \<open>\<open>u32::from_be_bytes(source_ip.octets())\<close>.\<close>

definition source_ip_tag :: "ipv4 \<Rightarrow> tag" where
  "source_ip_tag ip =
     (case ip of Ipv4 a b c d \<Rightarrow> new_short tn_SOURCEIP (U32 (u32_from_le_bytes d c b a)))"

definition normalized_source_port_tag :: "tag \<Rightarrow> tag" where
  "normalized_source_port_tag t =
     (case tg_value t of
        UInt v \<Rightarrow> if v \<le> 0xFFFFFFFF then t\<lparr>tg_value := U32 (ucast v)\<rparr> else t
      | _ \<Rightarrow> t)"

definition normalized_source_udp_port_tag :: "tag \<Rightarrow> tag option" where
  "normalized_source_udp_port_tag t =
     (let port = (case tg_value t of
           UInt v \<Rightarrow> try_port v
         | U64 v \<Rightarrow> try_port v
         | U32 v \<Rightarrow> try_port v
         | U16 v \<Rightarrow> Some v
         | U8 v \<Rightarrow> Some (ucast v)
         | _ \<Rightarrow> None) in
      case port of
        None \<Rightarrow> None
      | Some p \<Rightarrow> if p = 0 then None else Some (new_short tn_SOURCEUPORT (U16 p)))"

text \<open>The tags so far and the three flags: source type, TCP port and UDP port seen.\<close>

type_synonym source_acc = "tag list \<times> bool \<times> bool \<times> bool"

fun source_tag_step :: "ipv4 \<Rightarrow> source_acc \<Rightarrow> tag \<Rightarrow> source_acc" where
  "source_tag_step ip (tags, saw_type, saw_tcp, saw_udp) t =
     (case tg_name t of
        Long _ \<Rightarrow> (tags @ [t], saw_type, saw_tcp, saw_udp)
      | Short name \<Rightarrow>
          if name = tn_SOURCETYPE then
            (if \<not> saw_type then (tags @ [source_ip_tag ip, t], True, saw_tcp, saw_udp)
             else (tags, saw_type, saw_tcp, saw_udp))
          else if name = tn_FILESIZE then (tags, saw_type, saw_tcp, saw_udp)
          else if name = tn_SOURCEPORT then
            (if \<not> saw_tcp then (tags @ [normalized_source_port_tag t], saw_type, True, saw_udp)
             else (tags, saw_type, saw_tcp, saw_udp))
          else if name = tn_SOURCEUPORT then
            (if saw_udp then (tags, saw_type, saw_tcp, saw_udp)
             else (case normalized_source_udp_port_tag t of
                 None \<Rightarrow> (tags, saw_type, saw_tcp, saw_udp)
               | Some u \<Rightarrow> (tags @ [u], saw_type, saw_tcp, True)))
          else (tags @ [t], saw_type, saw_tcp, saw_udp))"

definition source_result_tags :: "stored_source \<Rightarrow> tag list" where
  "source_result_tags entry =
     (let head = opt_tag tag_filesize (stock_first_keyword_source_file_size (sp_tags entry)) in
      fst (foldl (source_tag_step (sp_source_ip entry)) (head, False, False, False) (sp_tags entry)))"

definition notes_result_tags :: "stored_notes \<Rightarrow> tag list" where
  "notes_result_tags entry =
     opt_tag tag_filename (stock_first_filename (np_tags entry)) @
     opt_tag tag_filesize (positive_size (stock_first_file_size (np_tags entry))) @
     filter (\<lambda>t. \<not> (tg_name t = Short tn_FILENAME \<or> tg_name t = Short tn_FILESIZE)) (np_tags entry)"

definition source_entry_id :: "node_id \<Rightarrow> ed2k_hash" where
  "source_entry_id publisher_id = Ed2kHash (to_be_bytes publisher_id)"

subsection \<open>Bounded collections\<close>

definition purge_expired :: "('a \<Rightarrow> int) \<Rightarrow> nat \<Rightarrow> int \<Rightarrow> 'a list \<Rightarrow> 'a list" where
  "purge_expired obs ttl now entries = filter (\<lambda>e. obs e + int ttl > now) entries"

text \<open>\<open>enumerate().min_by_key(...)\<close>: the index of the first entry with the least key.\<close>

fun min_index :: "('a \<Rightarrow> int) \<Rightarrow> 'a list \<Rightarrow> nat option" where
  "min_index f [] = None"
| "min_index f (x # xs) =
     (case min_index f xs of
        None \<Rightarrow> Some 0
      | Some i \<Rightarrow> if f (xs ! i) < f x then Some (Suc i) else Some 0)"

definition evict_oldest :: "('a \<Rightarrow> int) \<Rightarrow> nat \<Rightarrow> 'a list \<Rightarrow> 'a list" where
  "evict_oldest obs capacity entries =
     (if length entries \<ge> capacity then
        (case min_index obs entries of None \<Rightarrow> entries | Some i \<Rightarrow> remove_at i entries)
      else entries)"

definition upsert_entry ::
  "('a \<Rightarrow> int) \<Rightarrow> ('a \<Rightarrow> rstring) \<Rightarrow> nat \<Rightarrow> rstring \<Rightarrow> 'a \<Rightarrow> 'a list \<Rightarrow> 'a list" where
  "upsert_entry obs key capacity dedup_key entry entries =
     (case find_pos (\<lambda>candidate. key candidate = dedup_key) entries of
        Some i \<Rightarrow> entries[i := entry]
      | None \<Rightarrow> evict_oldest obs capacity entries @ [entry])"

definition oldest_target_entry_index :: "('a \<Rightarrow> node_id) \<Rightarrow> 'a list \<Rightarrow> node_id \<Rightarrow> nat option" where
  "oldest_target_entry_index tgt entries target = find_pos (\<lambda>candidate. tgt candidate = target) entries"

text \<open>The per-target limit shared by sources and notes.\<close>

definition evict_target :: "('a \<Rightarrow> node_id) \<Rightarrow> nat \<Rightarrow> node_id \<Rightarrow> 'a list \<Rightarrow> 'a list" where
  "evict_target tgt limit target entries =
     (if count_if (\<lambda>candidate. tgt candidate = target) entries > limit then
        (case oldest_target_entry_index tgt entries target of
           None \<Rightarrow> entries
         | Some i \<Rightarrow> remove_at i entries)
      else entries)"

definition same_source :: "node_id \<Rightarrow> ipv4 \<Rightarrow> u16 \<Rightarrow> u16 \<Rightarrow> stored_source \<Rightarrow> bool" where
  "same_source target ip tcp udp c \<longleftrightarrow>
     sp_target c = target \<and> sp_source_ip c = ip \<and>
     (sp_source_tcp_port c = tcp \<or> sp_source_udp_port c = udp)"

definition upsert_source_entry ::
  "nat \<Rightarrow> stored_source \<Rightarrow> stored_source list \<Rightarrow> stored_source list" where
  "upsert_source_entry capacity entry entries =
     (case find_pos (same_source (sp_target entry) (sp_source_ip entry) (sp_source_tcp_port entry)
              (sp_source_udp_port entry)) entries of
        Some i \<Rightarrow> entries[i := entry]
      | None \<Rightarrow>
          evict_oldest sp_observed_at capacity
            (evict_target sp_target STOCK_MAX_SOURCES_PER_FILE (sp_target entry) entries) @ [entry])"

definition same_note :: "node_id \<Rightarrow> node_id \<Rightarrow> ipv4 \<Rightarrow> stored_notes \<Rightarrow> bool" where
  "same_note target publisher_id ip c \<longleftrightarrow>
     np_target c = target \<and> (np_publisher_ip c = ip \<or> np_publisher_id c = publisher_id)"

definition upsert_notes_entry ::
  "nat \<Rightarrow> stored_notes \<Rightarrow> stored_notes list \<Rightarrow> stored_notes list" where
  "upsert_notes_entry capacity entry entries =
     (case find_pos (same_note (np_target entry) (np_publisher_id entry) (np_publisher_ip entry))
              entries of
        Some i \<Rightarrow> entries[i := entry]
      | None \<Rightarrow>
          evict_oldest np_observed_at capacity
            (evict_target np_target STOCK_MAX_NOTES_PER_FILE (np_target entry) entries) @ [entry])"

subsection \<open>Load of a publish\<close>

definition source_replacement_matches ::
  "stored_source list \<Rightarrow> node_id \<Rightarrow> ipv4 \<Rightarrow> u16 \<Rightarrow> u16 \<Rightarrow> bool" where
  "source_replacement_matches entries target ip tcp udp =
     list_ex (same_source target ip tcp udp) entries"

definition stock_source_publish_load ::
  "stored_source list \<Rightarrow> node_id \<Rightarrow> ipv4 \<Rightarrow> u16 \<Rightarrow> u16 \<Rightarrow> u8" where
  "stock_source_publish_load entries target ip tcp udp =
     (let target_count = count_if (\<lambda>c. sp_target c = target) entries in
      if target_count = 0 then 1
      else if target_count > STOCK_MAX_SOURCES_PER_FILE \<and>
          \<not> source_replacement_matches entries target ip tcp udp then 100
      else of_nat (target_count * 100 div STOCK_MAX_SOURCES_PER_FILE))"

definition notes_replacement_matches ::
  "stored_notes list \<Rightarrow> node_id \<Rightarrow> node_id \<Rightarrow> ipv4 \<Rightarrow> bool" where
  "notes_replacement_matches entries target publisher_id ip =
     list_ex (same_note target publisher_id ip) entries"

definition stock_notes_publish_load ::
  "stored_notes list \<Rightarrow> node_id \<Rightarrow> node_id \<Rightarrow> ipv4 \<Rightarrow> u8" where
  "stock_notes_publish_load entries target publisher_id ip =
     (let target_count = count_if (\<lambda>c. np_target c = target) entries in
      if target_count = 0 then 1
      else if target_count > STOCK_MAX_NOTES_PER_FILE \<and>
          \<not> notes_replacement_matches entries target publisher_id ip then 100
      else of_nat (target_count * 100 div STOCK_MAX_NOTES_PER_FILE))"

definition keyword_source_count :: "stored_keyword list \<Rightarrow> node_id \<Rightarrow> nat" where
  "keyword_source_count entries target =
     length (remdups (map kp_file_hash (filter (\<lambda>e. kp_target e = target) entries)))"

definition keyword_source_exists :: "stored_keyword list \<Rightarrow> node_id \<Rightarrow> ed2k_hash \<Rightarrow> bool" where
  "keyword_source_exists entries target file_hash =
     list_ex (\<lambda>e. kp_target e = target \<and> kp_file_hash e = file_hash) entries"

definition stock_keyword_publish_decision ::
  "stored_keyword list \<Rightarrow> node_id \<Rightarrow> ed2k_hash \<Rightarrow> u8 \<times> bool" where
  "stock_keyword_publish_decision entries target file_hash =
     (if length entries > STOCK_MAX_KEYWORD_ENTRIES then (100, False)
      else
        let source_count = keyword_source_count entries target in
        if source_count = 0 then (1, True)
        else if source_count > STOCK_MAX_KEYWORD_INDEX then (100, False)
        else if keyword_source_exists entries target file_hash \<and>
          source_count > STOCK_MAX_KEYWORD_INDEX - STOCK_HOT_KEYWORD_REPUBLISH_MARGIN then (100, False)
        else (of_nat (source_count * 100 div STOCK_MAX_KEYWORD_INDEX), True))"

subsection \<open>Operations\<close>

text \<open>One iteration of the batch loop: the load so far and the keyword entries.\<close>

definition record_keyword_entry ::
  "store_config \<Rightarrow> node_id \<Rightarrow> int \<Rightarrow> u8 \<times> stored_keyword list \<Rightarrow> publish_entry \<Rightarrow>
     u8 \<times> stored_keyword list" where
  "record_keyword_entry cfg target observed_at acc entry =
     (let (ld, entries) = acc in
      case stock_keyword_file_size (pe_tags entry) of
        None \<Rightarrow> (ld, entries)
      | Some sz \<Rightarrow>
          if \<not> has_stock_keyword_filename (pe_tags entry) then (ld, entries)
          else
            let (entry_load, should_store) =
              stock_keyword_publish_decision entries target (pe_hash entry) in
            if \<not> should_store then (entry_load, entries)
            else
              let dedup_key = keyword_dedup_key target (pe_hash entry) sz in
              (entry_load,
               upsert_entry kp_observed_at kp_dedup_key (keyword_capacity cfg) dedup_key
                 \<lparr> kp_observed_at = observed_at, kp_target = target, kp_file_hash = pe_hash entry,
                   kp_tags = stock_stored_publish_tags (pe_tags entry),
                   kp_dedup_key = dedup_key \<rparr> entries))"

definition record_keyword_publish_batch ::
  "node_id \<Rightarrow> publish_entry list \<Rightarrow> int \<Rightarrow> kad_store \<Rightarrow> u8 \<times> kad_store" where
  "record_keyword_publish_batch target entries observed_at st =
     (if \<not> enabled (st_config st) then (0, st)
      else
        let (ld, es) = foldl (record_keyword_entry (st_config st) target observed_at)
          (0, purge_expired kp_observed_at (keyword_ttl (st_config st)) observed_at (keyword_entries st))
          entries in
        (ld, st\<lparr>keyword_entries := es\<rparr>))"

definition record_source_publish ::
  "node_id \<Rightarrow> node_id \<Rightarrow> ipv4 \<Rightarrow> u16 \<Rightarrow> tag list \<Rightarrow> int \<Rightarrow> kad_store \<Rightarrow> u8 option \<times> kad_store" where
  "record_source_publish target publisher_id source_ip source_udp_port tags observed_at st =
     (if \<not> enabled (st_config st) then (None, st)
      else if \<not> is_stock_source_publish tags then (None, st)
      else if source_ip = Ipv4 0 0 0 0 \<or> source_udp_port = 0 then (None, st)
      else
        case stock_source_tcp_port tags of
          None \<Rightarrow> (None, st)
        | Some source_tcp_port \<Rightarrow>
            let es = purge_expired sp_observed_at (source_ttl (st_config st)) observed_at
                  (source_entries st);
                ld = stock_source_publish_load es target source_ip source_tcp_port source_udp_port;
                dedup_key = source_dedup_key target source_ip source_tcp_port source_udp_port in
            (Some ld,
             st\<lparr>source_entries := upsert_source_entry (source_capacity (st_config st))
               \<lparr> sp_observed_at = observed_at, sp_target = target, sp_publisher_id = publisher_id,
                 sp_source_ip = source_ip, sp_source_tcp_port = source_tcp_port,
                 sp_source_udp_port = source_udp_port,
                 sp_tags = stock_stored_source_publish_tags tags, sp_dedup_key = dedup_key \<rparr> es\<rparr>))"

definition record_notes_publish ::
  "node_id \<Rightarrow> node_id \<Rightarrow> ipv4 \<Rightarrow> tag list \<Rightarrow> int \<Rightarrow> kad_store \<Rightarrow> u8 option \<times> kad_store" where
  "record_notes_publish target publisher_id publisher_ip tags observed_at st =
     (if \<not> enabled (st_config st) then (None, st)
      else if publisher_ip = Ipv4 0 0 0 0 \<or> \<not> has_stock_note_tags tags then (None, st)
      else
        let es = purge_expired np_observed_at (notes_ttl (st_config st)) observed_at
              (notes_entries st);
            ld = stock_notes_publish_load es target publisher_id publisher_ip;
            dedup_key = notes_dedup_key target publisher_id publisher_ip in
        (Some ld,
         st\<lparr>notes_entries := upsert_notes_entry (notes_capacity (st_config st))
           \<lparr> np_observed_at = observed_at, np_target = target, np_publisher_id = publisher_id,
             np_publisher_ip = publisher_ip, np_tags = stock_stored_publish_tags tags,
             np_dedup_key = dedup_key \<rparr> es\<rparr>))"

definition search_response ::
  "node_id \<Rightarrow> node_id \<Rightarrow> search_result_entry list \<Rightarrow> search_res option" where
  "search_response sender_id target results =
     (if results = [] then None
      else Some \<lparr> sr_sender_id = sender_id, sr_target = target, sr_results = results \<rparr>)"

definition keyword_entry_matches_restrictive_payload ::
  "(rstring \<Rightarrow> rstring) \<Rightarrow> stored_keyword \<Rightarrow> bytes option \<Rightarrow> bool" where
  "keyword_entry_matches_restrictive_payload L entry restrictive_payload =
     (case restrictive_payload of
        None \<Rightarrow> True
      | Some payload \<Rightarrow>
          (case stock_first_filename (kp_tags entry) of
             None \<Rightarrow> False
           | Some filename \<Rightarrow> matches_restrictive_keyword_payload L filename (kp_tags entry) payload))"

definition keyword_search_response ::
  "(rstring \<Rightarrow> rstring) \<Rightarrow> node_id \<Rightarrow> search_key_req \<Rightarrow> nat \<Rightarrow> int \<Rightarrow> kad_store \<Rightarrow>
     search_res option \<times> kad_store" where
  "keyword_search_response L sender_id request limit now st =
     (if \<not> enabled (st_config st) \<or> limit = 0 then (None, st)
      else
        let restrictive_payload =
              (if sk_start_position request AND 0x8000 \<noteq> 0
               then Some (sk_restrictive_payload request) else None);
            es = purge_expired kp_observed_at (keyword_ttl (st_config st)) now (keyword_entries st);
            offset = unat (sk_start_position request AND 0x7FFF);
            results = map (\<lambda>e. \<lparr> se_entry_id = kp_file_hash e, se_tags = keyword_result_tags e \<rparr>)
              (take limit (drop offset
                (filter (\<lambda>e. keyword_entry_matches_restrictive_payload L e restrictive_payload)
                  (filter (\<lambda>e. kp_target e = sk_target request) es)))) in
        (search_response sender_id (sk_target request) results, st\<lparr>keyword_entries := es\<rparr>))"

definition source_search_response ::
  "node_id \<Rightarrow> search_source_req \<Rightarrow> nat \<Rightarrow> int \<Rightarrow> kad_store \<Rightarrow> search_res option \<times> kad_store" where
  "source_search_response sender_id request limit now st =
     (if \<not> enabled (st_config st) \<or> limit = 0 then (None, st)
      else
        let es = purge_expired sp_observed_at (source_ttl (st_config st)) now (source_entries st);
            offset = unat (ss_start_position request AND 0x7FFF);
            results = map (\<lambda>e. \<lparr> se_entry_id = source_entry_id (sp_publisher_id e),
                se_tags = source_result_tags e \<rparr>)
              (take limit
                (filter (\<lambda>e. stock_source_file_size_matches_request (sp_tags e) (ss_size request))
                  (drop offset (filter (\<lambda>e. sp_target e = ss_target request) (rev es))))) in
        (search_response sender_id (ss_target request) results, st\<lparr>source_entries := es\<rparr>))"

definition notes_search_response ::
  "node_id \<Rightarrow> search_notes_req \<Rightarrow> nat \<Rightarrow> int \<Rightarrow> kad_store \<Rightarrow> search_res option \<times> kad_store" where
  "notes_search_response sender_id request limit now st =
     (if \<not> enabled (st_config st) \<or> limit = 0 then (None, st)
      else
        let es = purge_expired np_observed_at (notes_ttl (st_config st)) now (notes_entries st);
            results = map (\<lambda>e. \<lparr> se_entry_id = Ed2kHash (to_be_bytes (np_publisher_id e)),
                se_tags = notes_result_tags e \<rparr>)
              (take limit
                (filter (\<lambda>e. stock_notes_file_size_matches_request (np_tags e) (sn_size request))
                  (filter (\<lambda>e. np_target e = sn_target request) (rev es)))) in
        (search_response sender_id (sn_target request) results, st\<lparr>notes_entries := es\<rparr>))"

end
