(* ===== verification/Snoop_Queue.thy ===== *)
theory Snoop_Queue
  imports Rust_Std Kad_Packet Hex_Text "HOL-Library.Monad_Syntax"
begin

text \<open>
  The scheduler of harvested searches: \<open>crates/overlord-agent-emule/src/snoop_queue.rs\<close> with the
  entry type of \<open>overlord-agent-common/src/types.rs\<close> and the constructors of
  \<open>agent/snoop.rs\<close>. Every inbound search is recorded under a logical key; a passive worker
  later selects the best entry of a family, within a budget per ten minutes, and reports back how
  many results the replay had. \<open>hex::encode\<close> and \<open>hex::decode\<close> are a parameter. Times are nanoseconds
  since the Unix epoch; of the \<open>chrono\<close> crate the ranges documented for its two types are used, beyond
  which \<open>TimeDelta::seconds\<close> and the subtraction of a \<open>TimeDelta\<close> from a \<open>DateTime\<close> panic (\<open>None\<close>).
\<close>

subsection \<open>Entries\<close>

datatype snoop_entry =
    KeywordEntry (en_logical_key: rstring) (en_target: rstring) (en_start_position: u16)
      (en_restrictive_payload_hex: "rstring option") (en_hit_count: u32) (en_first_seen: int)
      (en_last_seen: int) (en_last_drained_at: "int option")
  | SourceEntry (en_logical_key: rstring) (en_target: rstring) (en_start_position: u16)
      (en_size: u64) (en_hit_count: u32) (en_first_seen: int)
      (en_last_seen: int) (en_last_drained_at: "int option")
  | NotesEntry (en_logical_key: rstring) (en_target: rstring)
      (en_size: u64) (en_hit_count: u32) (en_first_seen: int)
      (en_last_seen: int) (en_last_drained_at: "int option")

fun set_hit_count :: "u32 \<Rightarrow> snoop_entry \<Rightarrow> snoop_entry" where
  "set_hit_count v (KeywordEntry k t p x h f l d) = KeywordEntry k t p x v f l d"
| "set_hit_count v (SourceEntry k t p z h f l d) = SourceEntry k t p z v f l d"
| "set_hit_count v (NotesEntry k t z h f l d) = NotesEntry k t z v f l d"

fun set_first_seen :: "int \<Rightarrow> snoop_entry \<Rightarrow> snoop_entry" where
  "set_first_seen v (KeywordEntry k t p x h f l d) = KeywordEntry k t p x h v l d"
| "set_first_seen v (SourceEntry k t p z h f l d) = SourceEntry k t p z h v l d"
| "set_first_seen v (NotesEntry k t z h f l d) = NotesEntry k t z h v l d"

fun set_last_seen :: "int \<Rightarrow> snoop_entry \<Rightarrow> snoop_entry" where
  "set_last_seen v (KeywordEntry k t p x h f l d) = KeywordEntry k t p x h f v d"
| "set_last_seen v (SourceEntry k t p z h f l d) = SourceEntry k t p z h f v d"
| "set_last_seen v (NotesEntry k t z h f l d) = NotesEntry k t z h f v d"

fun set_last_drained_at :: "int option \<Rightarrow> snoop_entry \<Rightarrow> snoop_entry" where
  "set_last_drained_at v (KeywordEntry k t p x h f l d) = KeywordEntry k t p x h f l v"
| "set_last_drained_at v (SourceEntry k t p z h f l d) = SourceEntry k t p z h f l v"
| "set_last_drained_at v (NotesEntry k t z h f l d) = NotesEntry k t z h f l v"

datatype snoop_family = Keyword | Source | Notes

fun entry_family :: "snoop_entry \<Rightarrow> snoop_family" where
  "entry_family (KeywordEntry _ _ _ _ _ _ _ _) = Keyword"
| "entry_family (SourceEntry _ _ _ _ _ _ _ _) = Source"
| "entry_family (NotesEntry _ _ _ _ _ _ _) = Notes"

subsection \<open>Building entries from requests\<close>

text \<open>
  The functions of the \<open>hex\<close> crate, and its documented contract: two digits per byte, and decoding
  inverts encoding.
\<close>

record hex_ext =
  hex_encode :: "bytes \<Rightarrow> rstring"
  hex_decode :: "rstring \<Rightarrow> bytes option"

definition hex_ok :: "hex_ext \<Rightarrow> bool" where
  "hex_ok H \<longleftrightarrow>
     (\<forall>bs. hex_decode H (hex_encode H bs) = Some bs \<and> length (hex_encode H bs) = 2 * length bs)"

definition payload_hex :: "hex_ext \<Rightarrow> bytes \<Rightarrow> rstring option" where
  "payload_hex H bs = (if bs = [] then None else Some (hex_encode H bs))"

text \<open>The literals \<open>keyword:\<close>, \<open>source:\<close> and \<open>notes:\<close>; \<open>{:04x}\<close> of the start position.\<close>

definition keyword_logical_key :: "hex_ext \<Rightarrow> search_key_req \<Rightarrow> rstring" where
  "keyword_logical_key H req =
     [107, 101, 121, 119, 111, 114, 100, 58] @ nid_display (sk_target req) @ 58 #
     to_hex 4 (unat (sk_start_position req)) @ 58 #
     (case payload_hex H (sk_restrictive_payload req) of None \<Rightarrow> [] | Some p \<Rightarrow> p)"

definition source_logical_key :: "search_source_req \<Rightarrow> rstring" where
  "source_logical_key req =
     [115, 111, 117, 114, 99, 101, 58] @ nid_display (ss_target req) @ 58 #
     to_hex 4 (unat (ss_start_position req)) @ 58 # show_nat (unat (ss_size req))"

definition notes_logical_key :: "search_notes_req \<Rightarrow> rstring" where
  "notes_logical_key req =
     [110, 111, 116, 101, 115, 58] @ nid_display (sn_target req) @ 58 # show_nat (unat (sn_size req))"

definition build_keyword_snoop_entry :: "hex_ext \<Rightarrow> search_key_req \<Rightarrow> int \<Rightarrow> snoop_entry" where
  "build_keyword_snoop_entry H req now =
     KeywordEntry (keyword_logical_key H req) (nid_display (sk_target req)) (sk_start_position req)
       (payload_hex H (sk_restrictive_payload req)) 1 now now None"

definition build_source_snoop_entry :: "search_source_req \<Rightarrow> int \<Rightarrow> snoop_entry" where
  "build_source_snoop_entry req now =
     SourceEntry (source_logical_key req) (nid_display (ss_target req)) (ss_start_position req)
       (ss_size req) 1 now now None"

definition build_notes_snoop_entry :: "search_notes_req \<Rightarrow> int \<Rightarrow> snoop_entry" where
  "build_notes_snoop_entry req now =
     NotesEntry (notes_logical_key req) (nid_display (sn_target req)) (sn_size req) 1 now now None"

subsection \<open>State\<close>

record snoop_queue_config =
  dedup_window_secs :: u64
  general_max_queries_per_600s :: u32
  general_drain_cooldown_secs :: u64
  source_max_queries_per_600s :: u32
  source_drain_cooldown_secs :: u64
  source_stop_after_results :: nat

record replay_feedback =
  zero_result_streak :: u32
  last_result_count :: u32
  last_outcome_at :: "int option"

definition default_feedback :: replay_feedback where
  "default_feedback = \<lparr> zero_result_streak = 0, last_result_count = 0, last_outcome_at = None \<rparr>"

record snoop_queue =
  sq_config :: snoop_queue_config
  sq_entries :: "(rstring \<times> snoop_entry) list"
  sq_replay_feedback :: "(rstring \<times> replay_feedback) list"
  recent_general_drains :: "int list"
  recent_source_drains :: "int list"

record record_outcome =
  ro_is_new :: bool
  ro_hit_count :: u32
  ro_queue_depth :: nat
  ro_family_queue_depth :: nat

record family_counts_rec =
  fc_keyword :: nat
  fc_source :: nat
  fc_notes :: nat

record 'r scheduled_request =
  sc_logical_key :: rstring
  sc_request :: 'r

record 'r replay_candidate =
  rc_scheduled :: "'r scheduled_request"
  rc_hit_count :: u32
  rc_last_seen :: int
  rc_zero_result_streak :: u32
  rc_last_result_count :: u32
  rc_observed_after_outcome :: bool

definition queue_new :: "snoop_queue_config \<Rightarrow> snoop_queue" where
  "queue_new c = \<lparr> sq_config = c, sq_entries = [], sq_replay_feedback = [],
     recent_general_drains = [], recent_source_drains = [] \<rparr>"

subsection \<open>Recording\<close>

fun merge_drained :: "int option \<Rightarrow> int option \<Rightarrow> int option" where
  "merge_drained (Some left) (Some right) = Some (max left right)"
| "merge_drained (Some left) None = Some left"
| "merge_drained None right = right"

definition merge_existing :: "snoop_entry \<Rightarrow> snoop_entry \<Rightarrow> snoop_entry" where
  "merge_existing existing entry =
     (let existing = set_hit_count (sat_add (en_hit_count existing) (en_hit_count entry)) existing;
          existing = set_last_seen (max (en_last_seen existing) (en_last_seen entry)) existing;
          existing = set_first_seen (min (en_first_seen existing) (en_first_seen entry)) existing in
      set_last_drained_at
        (merge_drained (en_last_drained_at existing) (en_last_drained_at entry)) existing)"

definition merge_entry :: "snoop_entry \<Rightarrow> snoop_queue \<Rightarrow> (bool \<times> u32) \<times> snoop_queue" where
  "merge_entry entry q =
     (let logical_key = en_logical_key entry in
      case map_of (sq_entries q) logical_key of
        Some existing \<Rightarrow>
          ((False, sat_add (en_hit_count existing) (en_hit_count entry)),
           q\<lparr>sq_entries := AList.update logical_key (merge_existing existing entry) (sq_entries q)\<rparr>)
      | None \<Rightarrow> ((True, 1), q\<lparr>sq_entries := AList.update logical_key entry (sq_entries q)\<rparr>))"

definition family_count :: "snoop_family \<Rightarrow> snoop_queue \<Rightarrow> nat" where
  "family_count family q = count_if (\<lambda>e. entry_family e = family) (map snd (sq_entries q))"

definition record_entry :: "snoop_entry \<Rightarrow> snoop_queue \<Rightarrow> record_outcome \<times> snoop_queue" where
  "record_entry entry q =
     (let family = entry_family entry;
          ((is_new, hit_count), q) = merge_entry entry q in
      (\<lparr> ro_is_new = is_new, ro_hit_count = hit_count, ro_queue_depth = length (sq_entries q),
         ro_family_queue_depth = family_count family q \<rparr>, q))"

definition count_family :: "family_counts_rec \<Rightarrow> snoop_entry \<Rightarrow> family_counts_rec" where
  "count_family counts entry =
     (case entry_family entry of
        Keyword \<Rightarrow> counts\<lparr>fc_keyword := fc_keyword counts + 1\<rparr>
      | Source \<Rightarrow> counts\<lparr>fc_source := fc_source counts + 1\<rparr>
      | Notes \<Rightarrow> counts\<lparr>fc_notes := fc_notes counts + 1\<rparr>)"

definition family_counts :: "snoop_queue \<Rightarrow> family_counts_rec" where
  "family_counts q =
     foldl count_family \<lparr> fc_keyword = 0, fc_source = 0, fc_notes = 0 \<rparr> (map snd (sq_entries q))"

definition should_skip_restored_entry :: "snoop_entry \<Rightarrow> bool" where
  "should_skip_restored_entry entry =
     (case entry of
        SourceEntry _ _ _ _ _ _ _ _ \<Rightarrow>
          (case en_last_drained_at entry of
             None \<Rightarrow> False | Some last_drained_at \<Rightarrow> en_last_seen entry \<le> last_drained_at) \<or>
          en_hit_count entry \<le> 1
      | _ \<Rightarrow> False)"

definition merge_snapshot :: "snoop_entry list \<Rightarrow> snoop_queue \<Rightarrow> snoop_queue" where
  "merge_snapshot entries q =
     foldl (\<lambda>q entry. if should_skip_restored_entry entry then q else snd (merge_entry entry q))
       q entries"

definition queue_snapshot :: "snoop_queue \<Rightarrow> snoop_entry list" where
  "queue_snapshot q =
     sort_by (\<lambda>left right. compare (en_logical_key left) (en_logical_key right))
       (map snd (sq_entries q))"

definition queue_len :: "snoop_queue \<Rightarrow> nat" where
  "queue_len q = length (sq_entries q)"

subsection \<open>Budgets\<close>

fun recent_drains :: "snoop_family \<Rightarrow> snoop_queue \<Rightarrow> int list" where
  "recent_drains Source q = recent_source_drains q"
| "recent_drains _ q = recent_general_drains q"

fun set_recent_drains :: "snoop_family \<Rightarrow> int list \<Rightarrow> snoop_queue \<Rightarrow> snoop_queue" where
  "set_recent_drains Source ds q = q\<lparr>recent_source_drains := ds\<rparr>"
| "set_recent_drains _ ds q = q\<lparr>recent_general_drains := ds\<rparr>"

fun family_max_queries_per_600s :: "snoop_family \<Rightarrow> snoop_queue \<Rightarrow> u32" where
  "family_max_queries_per_600s Source q = source_max_queries_per_600s (sq_config q)"
| "family_max_queries_per_600s _ q = general_max_queries_per_600s (sq_config q)"

fun family_drain_cooldown_secs :: "snoop_family \<Rightarrow> snoop_queue \<Rightarrow> u64" where
  "family_drain_cooldown_secs Source q = source_drain_cooldown_secs (sq_config q)"
| "family_drain_cooldown_secs _ q = general_drain_cooldown_secs (sq_config q)"

definition recent_drain_len :: "snoop_family \<Rightarrow> snoop_queue \<Rightarrow> nat" where
  "recent_drain_len family q = length (recent_drains family q)"

text \<open>
  \<open>now - duration\<close>, which panics before the least \<open>DateTime\<close>, the beginning of the year 262144 BCE.
\<close>

definition MIN_UTC :: int where "MIN_UTC = - 8334601228800 * NANOS"

definition time_minus :: "int \<Rightarrow> int \<Rightarrow> int option" where
  "time_minus now duration = (if now - duration < MIN_UTC then None else Some (now - duration))"

definition prune_recent_drains :: "int \<Rightarrow> snoop_family \<Rightarrow> snoop_queue \<Rightarrow> snoop_queue option" where
  "prune_recent_drains now family q =
     map_option (\<lambda>cutoff. set_recent_drains family (dropWhile (\<lambda>d. d < cutoff) (recent_drains family q)) q)
       (time_minus now (600 * NANOS))"

subsection \<open>Requests of entries\<close>

text \<open>
  The outer \<open>None\<close> is the panic of \<open>NodeId::from_str\<close> on a string that is not sliced at
  character boundaries, the inner one an entry without a request.
\<close>

definition keyword_request :: "hex_ext \<Rightarrow> snoop_entry \<Rightarrow> search_key_req option option" where
  "keyword_request H entry =
     (case entry of
        KeywordEntry _ target start_position restrictive_payload_hex _ _ _ _ \<Rightarrow>
          (case nid_from_str target of
             None \<Rightarrow> None
           | Some (Inl _) \<Rightarrow> Some None
           | Some (Inr t) \<Rightarrow>
               (case restrictive_payload_hex of
                  None \<Rightarrow> Some (Some \<lparr> sk_target = t, sk_start_position = start_position,
                    sk_restrictive_payload = [] \<rparr>)
                | Some h \<Rightarrow>
                    (case hex_decode H h of
                       None \<Rightarrow> Some None
                     | Some bs \<Rightarrow> Some (Some \<lparr> sk_target = t, sk_start_position = start_position,
                         sk_restrictive_payload = bs \<rparr>))))
      | _ \<Rightarrow> Some None)"

definition source_request :: "snoop_entry \<Rightarrow> search_source_req option option" where
  "source_request entry =
     (case entry of
        SourceEntry _ target start_position sz _ _ _ _ \<Rightarrow>
          if sz = 0 then Some None
          else
            (case nid_from_str target of
               None \<Rightarrow> None
             | Some (Inl _) \<Rightarrow> Some None
             | Some (Inr t) \<Rightarrow>
                 Some (Some \<lparr> ss_target = t, ss_start_position = start_position, ss_size = sz \<rparr>))
      | _ \<Rightarrow> Some None)"

definition notes_request :: "snoop_entry \<Rightarrow> search_notes_req option option" where
  "notes_request entry =
     (case entry of
        NotesEntry _ target sz _ _ _ _ \<Rightarrow>
          if sz = 0 then Some None
          else
            (case nid_from_str target of
               None \<Rightarrow> None
             | Some (Inl _) \<Rightarrow> Some None
             | Some (Inr t) \<Rightarrow> Some (Some \<lparr> sn_target = t, sn_size = sz \<rparr>))
      | _ \<Rightarrow> Some None)"

subsection \<open>Selection\<close>

text \<open>\<open>TimeDelta::seconds\<close> panics on more than \<open>i64::MAX / 1_000\<close> seconds.\<close>

definition seconds :: "u64 \<Rightarrow> int option" where
  "seconds v =
     (let secs = min (uint v) (2 ^ 63 - 1) in
      if secs > (2 ^ 63 - 1) div 1000 then None else Some (secs * NANOS))"

text \<open>\<open>now - seconds(v)\<close>.\<close>

definition cutoff_before :: "int \<Rightarrow> u64 \<Rightarrow> int option" where
  "cutoff_before now v = (case seconds v of None \<Rightarrow> None | Some duration \<Rightarrow> time_minus now duration)"

definition candidate_cmp :: "'r replay_candidate \<Rightarrow> 'r replay_candidate \<Rightarrow> ordering" where
  "candidate_cmp left right =
     then_with (compare (rc_observed_after_outcome right) (rc_observed_after_outcome left))
     (then_with (compare (rc_zero_result_streak left) (rc_zero_result_streak right))
     (then_with (compare (rc_last_result_count right) (rc_last_result_count left))
     (then_with (compare (rc_hit_count right) (rc_hit_count left))
     (then_with (compare (rc_last_seen right) (rc_last_seen left))
       (compare (sc_logical_key (rc_scheduled left)) (sc_logical_key (rc_scheduled right)))))))"

definition notes_candidate_cmp ::
  "search_notes_req replay_candidate \<Rightarrow> search_notes_req replay_candidate \<Rightarrow> ordering" where
  "notes_candidate_cmp left right =
     then_with (compare (rc_observed_after_outcome right) (rc_observed_after_outcome left))
     (then_with (compare (rc_zero_result_streak left) (rc_zero_result_streak right))
     (then_with (compare (rc_last_result_count right) (rc_last_result_count left))
     (then_with (compare (rc_hit_count right) (rc_hit_count left))
     (then_with (compare (rc_last_seen right) (rc_last_seen left))
       (compare (sc_logical_key (rc_scheduled left)) (sc_logical_key (rc_scheduled right)))))))"

definition source_candidate_is_high_quality :: "search_source_req replay_candidate \<Rightarrow> bool" where
  "source_candidate_is_high_quality c \<longleftrightarrow> rc_hit_count c \<ge> 2 \<or> rc_last_result_count c > 0"

definition source_candidate_cmp ::
  "search_source_req replay_candidate \<Rightarrow> search_source_req replay_candidate \<Rightarrow> ordering" where
  "source_candidate_cmp left right =
     then_with (compare (rc_observed_after_outcome right) (rc_observed_after_outcome left))
     (then_with (compare (source_candidate_is_high_quality right) (source_candidate_is_high_quality left))
     (then_with (compare (rc_zero_result_streak left) (rc_zero_result_streak right))
     (then_with (compare (rc_last_result_count right) (rc_last_result_count left))
     (then_with (compare (rc_hit_count right) (rc_hit_count left))
     (then_with (compare (rc_last_seen right) (rc_last_seen left))
       (compare (sc_logical_key (rc_scheduled left)) (sc_logical_key (rc_scheduled right))))))))"

text \<open>\<open>recent.into_iter().next().or_else(|| stale.into_iter().next())\<close>.\<close>

definition first_of :: "'a list \<Rightarrow> 'a list \<Rightarrow> 'a option" where
  "first_of recent stale =
     (case recent of
        x # _ \<Rightarrow> Some x
      | [] \<Rightarrow> (case stale of x # _ \<Rightarrow> Some x | [] \<Rightarrow> None))"

definition select_best_source_candidate ::
  "search_source_req replay_candidate list \<Rightarrow> search_source_req replay_candidate list \<Rightarrow>
     search_source_req replay_candidate option" where
  "select_best_source_candidate recent stale =
     (let promoted = list_ex source_candidate_is_high_quality (recent @ stale);
          recent = (if promoted then filter source_candidate_is_high_quality recent else recent);
          stale = (if promoted then filter source_candidate_is_high_quality stale else stale) in
      first_of (sort_by source_candidate_cmp recent) (sort_by source_candidate_cmp stale))"

definition replay_cooldown_cutoff ::
  "int \<Rightarrow> int \<Rightarrow> u64 \<Rightarrow> snoop_entry \<Rightarrow> replay_feedback \<Rightarrow> int option" where
  "replay_cooldown_cutoff default_cutoff now drain_cooldown_secs entry feedback =
     (case last_outcome_at feedback of
        None \<Rightarrow> Some default_cutoff
      | Some outcome_at \<Rightarrow>
          if zero_result_streak feedback = 0 \<or> en_last_seen entry > outcome_at then Some default_cutoff
          else
            let zero_backoff_multiplier = min (ucast (sat_add (zero_result_streak feedback) 1)) 4;
                cooldown_secs = sat_mul drain_cooldown_secs zero_backoff_multiplier in
            cutoff_before now cooldown_secs)"

definition feedback_of :: "snoop_queue \<Rightarrow> rstring \<Rightarrow> replay_feedback" where
  "feedback_of q logical_key =
     (case map_of (sq_replay_feedback q) logical_key of
        None \<Rightarrow> default_feedback | Some feedback \<Rightarrow> feedback)"

definition cooling_down :: "snoop_queue \<Rightarrow> int \<Rightarrow> int \<Rightarrow> u64 \<Rightarrow> snoop_entry \<Rightarrow> bool option" where
  "cooling_down q cooldown_cutoff now cooldown_secs entry =
     (case en_last_drained_at entry of
        None \<Rightarrow> Some False
      | Some last_drained_at \<Rightarrow>
          map_option (\<lambda>cutoff. last_drained_at > cutoff)
            (replay_cooldown_cutoff cooldown_cutoff now cooldown_secs entry
              (feedback_of q (en_logical_key entry))))"

definition make_candidate :: "snoop_queue \<Rightarrow> snoop_entry \<Rightarrow> 'r \<Rightarrow> 'r replay_candidate" where
  "make_candidate q entry request =
     (let feedback = feedback_of q (en_logical_key entry) in
      \<lparr> rc_scheduled = \<lparr> sc_logical_key = en_logical_key entry, sc_request = request \<rparr>,
        rc_hit_count = en_hit_count entry, rc_last_seen = en_last_seen entry,
        rc_zero_result_streak = zero_result_streak feedback,
        rc_last_result_count = last_result_count feedback,
        rc_observed_after_outcome =
          (case last_outcome_at feedback of
             None \<Rightarrow> True | Some outcome_at \<Rightarrow> en_last_seen entry > outcome_at) \<rparr>)"

text \<open>The loop over the entries, with the recent and the stale candidates so far.\<close>

fun replay_loop ::
  "(snoop_entry \<Rightarrow> 'r option option) \<Rightarrow> snoop_queue \<Rightarrow> int \<Rightarrow> u64 \<Rightarrow> int \<Rightarrow> int \<Rightarrow> snoop_entry list \<Rightarrow>
     'r replay_candidate list \<Rightarrow> 'r replay_candidate list \<Rightarrow>
     ('r replay_candidate list \<times> 'r replay_candidate list) option" where
  "replay_loop req_of q now cooldown_secs dedup_cutoff cooldown_cutoff [] recent stale = Some (recent, stale)"
| "replay_loop req_of q now cooldown_secs dedup_cutoff cooldown_cutoff (entry # es) recent stale =
     (case req_of entry of
        None \<Rightarrow> None
      | Some None \<Rightarrow> replay_loop req_of q now cooldown_secs dedup_cutoff cooldown_cutoff es recent stale
      | Some (Some request) \<Rightarrow>
          (case cooling_down q cooldown_cutoff now cooldown_secs entry of
             None \<Rightarrow> None
           | Some cooling \<Rightarrow>
               if cooling then
                 replay_loop req_of q now cooldown_secs dedup_cutoff cooldown_cutoff es recent stale
               else if en_last_seen entry \<ge> dedup_cutoff then
                 replay_loop req_of q now cooldown_secs dedup_cutoff cooldown_cutoff es
                   (recent @ [make_candidate q entry request]) stale
               else
                 replay_loop req_of q now cooldown_secs dedup_cutoff cooldown_cutoff es
                   recent (stale @ [make_candidate q entry request])))"

definition mark_drained :: "snoop_family \<Rightarrow> int \<Rightarrow> rstring \<Rightarrow> snoop_queue \<Rightarrow> snoop_queue" where
  "mark_drained family now logical_key q =
     (let q = (case map_of (sq_entries q) logical_key of
           None \<Rightarrow> q
         | Some entry \<Rightarrow> q\<lparr>sq_entries :=
             AList.update logical_key (set_last_drained_at (Some now) entry) (sq_entries q)\<rparr>) in
      set_recent_drains family (recent_drains family q @ [now]) q)"

text \<open>The body the three selection functions share.\<close>

definition select_next ::
  "(snoop_entry \<Rightarrow> 'r option option) \<Rightarrow>
     ('r replay_candidate list \<Rightarrow> 'r replay_candidate list \<Rightarrow> 'r replay_candidate option) \<Rightarrow>
     snoop_family \<Rightarrow> int \<Rightarrow> snoop_queue \<Rightarrow> ('r scheduled_request option \<times> snoop_queue) option" where
  "select_next req_of pick family now q =
     (case prune_recent_drains now family q of
        None \<Rightarrow> None
      | Some q \<Rightarrow>
          if recent_drain_len family q \<ge> unat (family_max_queries_per_600s family q) then Some (None, q)
          else
            case cutoff_before now (dedup_window_secs (sq_config q)) of
              None \<Rightarrow> None
            | Some dedup_cutoff \<Rightarrow>
                let cooldown_secs = family_drain_cooldown_secs family q in
                case cutoff_before now cooldown_secs of
                  None \<Rightarrow> None
                | Some cooldown_cutoff \<Rightarrow>
                    (case replay_loop req_of q now cooldown_secs dedup_cutoff cooldown_cutoff
                        (map snd (sq_entries q)) [] [] of
                       None \<Rightarrow> None
                     | Some (recent, stale) \<Rightarrow>
                         (case pick recent stale of
                            None \<Rightarrow> Some (None, q)
                          | Some selected \<Rightarrow>
                              Some (Some (rc_scheduled selected),
                                mark_drained family now (sc_logical_key (rc_scheduled selected)) q))))"

definition select_next_keyword_request ::
  "hex_ext \<Rightarrow> int \<Rightarrow> snoop_queue \<Rightarrow> (search_key_req scheduled_request option \<times> snoop_queue) option" where
  "select_next_keyword_request H =
     select_next (keyword_request H)
       (\<lambda>recent stale. first_of (sort_by candidate_cmp recent) (sort_by candidate_cmp stale)) Keyword"

definition select_next_source_request ::
  "int \<Rightarrow> snoop_queue \<Rightarrow> (search_source_req scheduled_request option \<times> snoop_queue) option" where
  "select_next_source_request = select_next source_request select_best_source_candidate Source"

definition select_next_notes_request ::
  "int \<Rightarrow> snoop_queue \<Rightarrow> (search_notes_req scheduled_request option \<times> snoop_queue) option" where
  "select_next_notes_request =
     select_next notes_request
       (\<lambda>recent stale. first_of (sort_by notes_candidate_cmp recent) (sort_by notes_candidate_cmp stale))
       Notes"

subsection \<open>Feedback\<close>

definition should_evict_zero_yield_source_entry :: "snoop_entry \<Rightarrow> bool" where
  "should_evict_zero_yield_source_entry entry =
     (case entry of
        SourceEntry _ _ _ _ _ _ _ _ \<Rightarrow>
          (case en_last_drained_at entry of
             None \<Rightarrow> False | Some last_drained_at \<Rightarrow> en_last_seen entry \<le> last_drained_at)
      | _ \<Rightarrow> False)"

definition remove_key :: "rstring \<Rightarrow> snoop_queue \<Rightarrow> snoop_queue" where
  "remove_key logical_key q =
     q\<lparr>sq_entries := AList.delete logical_key (sq_entries q),
       sq_replay_feedback := AList.delete logical_key (sq_replay_feedback q)\<rparr>"

text \<open>The final \<open>else\<close> of the source, for a positive count, is behind the early return.\<close>

definition record_replay_outcome :: "rstring \<Rightarrow> int \<Rightarrow> nat \<Rightarrow> snoop_queue \<Rightarrow> snoop_queue" where
  "record_replay_outcome logical_key completed_at result_count q =
     (if result_count > 0 then remove_key logical_key q
      else
        let feedback = (feedback_of q logical_key)
              \<lparr>last_result_count := of_nat result_count, last_outcome_at := Some completed_at\<rparr>;
            feedback = feedback\<lparr>zero_result_streak := sat_add (zero_result_streak feedback) 1\<rparr>;
            q = q\<lparr>sq_replay_feedback := AList.update logical_key feedback (sq_replay_feedback q)\<rparr> in
        if zero_result_streak feedback \<ge> 2 \<and>
          (case map_of (sq_entries q) logical_key of
             None \<Rightarrow> False | Some entry \<Rightarrow> should_evict_zero_yield_source_entry entry)
        then remove_key logical_key q
        else q)"

end
