(* ===== verification/Kad_Firewall.thy ===== *)
theory Kad_Firewall
  imports Rust_Std
begin

text \<open>
  The Kad firewall checks of \<open>crates/overlord-agent-emule/src/kad_firewall.rs\<close>: the discovery of
  the external UDP port from pong reporters, the TCP recheck round and the UDP check round with its
  helpers. Hash sets are sets, the helper map is an association list, error messages are values of
  an enumeration with one constructor per message of the source.
\<close>

subsection \<open>State\<close>

definition TCP_FIREWALL_RECHECK_LIMIT :: nat where "TCP_FIREWALL_RECHECK_LIMIT = 4"
definition EXTERNAL_PORT_DISCOVERY_REPORTERS :: nat where "EXTERNAL_PORT_DISCOVERY_REPORTERS = 3"

record udp_check_summary =
  us_open :: bool
  us_helpers_selected :: nat
  us_helpers_requested :: nat
  us_helpers_succeeded :: nat
  us_helpers_failed :: nat
  us_started_at :: int
  us_completed_at :: int

datatype helper_outcome = Pending | RequestFailed | RemoteError | WrongPort | Succeeded

record udp_round =
  ur_started_at :: int
  ur_expected_ports :: "u16 set"
  ur_helper_outcomes :: "(ip_addr \<times> helper_outcome) list"

record tcp_round =
  tr_active_helpers :: "ip_addr set"
  tr_completed_checks :: nat

record port_discovery =
  pd_reporter_ips :: "ip_addr set"
  pd_reported_ports :: "u16 list"

datatype firewall_error =
    InconsistentPorts
  | DiscoveryTimedOut
  | NoHelpers
  | NoExpectedPorts
  | AllRequestsFailed
  | CheckTimedOut
  | Reported rstring

record firewall_state =
  udp_open :: bool
  udp_verified :: bool
  last_udp_check_started_at :: "int option"
  last_udp_check_succeeded_at :: "int option"
  last_udp_check_failed_at :: "int option"
  last_helper_ip :: "rstring option"
  last_reported_port :: "u16 option"
  last_error :: "firewall_error option"
  tcp_recheck_active :: bool
  last_tcp_check_started_at :: "int option"
  last_tcp_check_completed_at :: "int option"
  last_reported_external_ip :: "rstring option"
  last_external_port_probe_started_at :: "int option"
  last_external_port_probe_completed_at :: "int option"
  last_reported_external_udp_port :: "u16 option"
  active_round :: "udp_round option"
  active_tcp_round :: "tcp_round option"
  active_external_port_discovery :: "port_discovery option"
  discovered_external_udp_port :: "u16 option"

definition firewall_default :: firewall_state where
  "firewall_default =
     \<lparr> udp_open = False, udp_verified = False, last_udp_check_started_at = None,
       last_udp_check_succeeded_at = None, last_udp_check_failed_at = None, last_helper_ip = None,
       last_reported_port = None, last_error = None, tcp_recheck_active = False,
       last_tcp_check_started_at = None, last_tcp_check_completed_at = None,
       last_reported_external_ip = None, last_external_port_probe_started_at = None,
       last_external_port_probe_completed_at = None, last_reported_external_udp_port = None,
       active_round = None, active_tcp_round = None, active_external_port_discovery = None,
       discovered_external_udp_port = None \<rparr>"

datatype udp_packet_outcome = Open udp_check_summary | UdpRecorded | UdpIgnored
datatype response_outcome = ResRecorded | ResCompleted | ResIgnored
datatype discovery_outcome = PortRecorded | Resolved u16 | Unreliable | PortIgnored

subsection \<open>External port discovery\<close>

definition begin_external_port_discovery :: "int \<Rightarrow> firewall_state \<Rightarrow> firewall_state" where
  "begin_external_port_discovery started_at st =
     st\<lparr>last_external_port_probe_started_at := Some started_at,
        last_external_port_probe_completed_at := None,
        last_reported_external_udp_port := None,
        discovered_external_udp_port := None,
        active_external_port_discovery :=
          Some \<lparr> pd_reporter_ips = {}, pd_reported_ports = [] \<rparr>\<rparr>"

definition needs_external_port_discovery :: "firewall_state \<Rightarrow> bool" where
  "needs_external_port_discovery st \<longleftrightarrow> active_external_port_discovery st \<noteq> None"

definition record_external_port_candidate ::
  "ip_addr \<Rightarrow> u16 \<Rightarrow> int \<Rightarrow> firewall_state \<Rightarrow> discovery_outcome \<times> firewall_state" where
  "record_external_port_candidate reporter_ip reported_port observed_at st =
     (if reported_port = 0 then (PortIgnored, st)
      else case active_external_port_discovery st of
        None \<Rightarrow> (PortIgnored, st)
      | Some rnd \<Rightarrow>
          if reporter_ip \<in> pd_reporter_ips rnd then (PortIgnored, st)
          else
            let rnd = rnd\<lparr>pd_reporter_ips := insert reporter_ip (pd_reporter_ips rnd)\<rparr>;
                st = st\<lparr>last_helper_ip := Some (ip_to_string reporter_ip),
                  last_reported_external_udp_port := Some reported_port\<rparr> in
            if reported_port \<in> set (pd_reported_ports rnd) then
              (Resolved reported_port,
               st\<lparr>discovered_external_udp_port := Some reported_port,
                  last_external_port_probe_completed_at := Some observed_at,
                  last_error := None,
                  active_external_port_discovery := None\<rparr>)
            else
              let rnd = rnd\<lparr>pd_reported_ports := pd_reported_ports rnd @ [reported_port]\<rparr> in
              if card (pd_reporter_ips rnd) \<ge> EXTERNAL_PORT_DISCOVERY_REPORTERS then
                (Unreliable,
                 st\<lparr>discovered_external_udp_port := None,
                    last_external_port_probe_completed_at := Some observed_at,
                    last_error := Some InconsistentPorts,
                    active_external_port_discovery := None\<rparr>)
              else (PortRecorded, st\<lparr>active_external_port_discovery := Some rnd\<rparr>))"

definition finish_external_port_discovery :: "int \<Rightarrow> firewall_state \<Rightarrow> firewall_state" where
  "finish_external_port_discovery completed_at st =
     (if active_external_port_discovery st = None then st
      else
        let st = st\<lparr>last_external_port_probe_completed_at := Some completed_at\<rparr>;
            st = (if discovered_external_udp_port st = None
              then st\<lparr>last_error := Some DiscoveryTimedOut\<rparr> else st) in
        st\<lparr>active_external_port_discovery := None\<rparr>)"

definition external_udp_port_for_request :: "firewall_state \<Rightarrow> u16" where
  "external_udp_port_for_request st =
     (case discovered_external_udp_port st of None \<Rightarrow> 0 | Some p \<Rightarrow> p)"

subsection \<open>TCP recheck\<close>

definition refresh_tcp_recheck :: "bool \<Rightarrow> int \<Rightarrow> firewall_state \<Rightarrow> firewall_state" where
  "refresh_tcp_recheck tcp_firewalled started_at st =
     (if tcp_firewalled then
        (if active_tcp_round st = None then
           st\<lparr>tcp_recheck_active := True, last_tcp_check_started_at := Some started_at,
              active_tcp_round := Some \<lparr> tr_active_helpers = {}, tr_completed_checks = 0 \<rparr>\<rparr>
         else st)
      else st\<lparr>tcp_recheck_active := False, active_tcp_round := None\<rparr>)"

definition try_begin_tcp_firewall_probe ::
  "ip_addr \<Rightarrow> int \<Rightarrow> firewall_state \<Rightarrow> bool \<times> firewall_state" where
  "try_begin_tcp_firewall_probe helper_ip started_at st =
     (case active_tcp_round st of
        None \<Rightarrow> (False, st)
      | Some rnd \<Rightarrow>
          if tr_completed_checks rnd \<ge> TCP_FIREWALL_RECHECK_LIMIT \<or>
            card (tr_active_helpers rnd) \<ge> TCP_FIREWALL_RECHECK_LIMIT \<or>
            helper_ip \<in> tr_active_helpers rnd
          then (False, st)
          else
            (helper_ip \<notin> tr_active_helpers rnd,
             st\<lparr>tcp_recheck_active := True, last_tcp_check_started_at := Some started_at,
                active_tcp_round :=
                  Some (rnd\<lparr>tr_active_helpers := insert helper_ip (tr_active_helpers rnd)\<rparr>)\<rparr>))"

definition record_tcp_firewall_probe_failed ::
  "ip_addr \<Rightarrow> rstring \<Rightarrow> firewall_state \<Rightarrow> firewall_state" where
  "record_tcp_firewall_probe_failed helper_ip error st =
     (let st = (case active_tcp_round st of
          None \<Rightarrow> st
        | Some rnd \<Rightarrow> st\<lparr>active_tcp_round :=
            Some (rnd\<lparr>tr_active_helpers := tr_active_helpers rnd - {helper_ip}\<rparr>)\<rparr>) in
      st\<lparr>last_helper_ip := Some (ip_to_string helper_ip), last_error := Some (Reported error)\<rparr>)"

definition record_firewalled_response ::
  "ip_addr \<Rightarrow> ip_addr \<Rightarrow> int \<Rightarrow> firewall_state \<Rightarrow> response_outcome \<times> firewall_state" where
  "record_firewalled_response helper_ip reported_ip observed_at st =
     (case active_tcp_round st of
        None \<Rightarrow> (ResIgnored, st)
      | Some rnd \<Rightarrow>
          if helper_ip \<notin> tr_active_helpers rnd then (ResIgnored, st)
          else
            let rnd = rnd\<lparr>tr_active_helpers := tr_active_helpers rnd - {helper_ip},
                  tr_completed_checks := tr_completed_checks rnd + 1\<rparr>;
                st = st\<lparr>tcp_recheck_active := tr_completed_checks rnd < TCP_FIREWALL_RECHECK_LIMIT,
                  last_helper_ip := Some (ip_to_string helper_ip),
                  last_reported_external_ip := Some (ip_to_string reported_ip),
                  last_tcp_check_completed_at := Some observed_at,
                  last_error := None,
                  active_tcp_round := Some rnd\<rparr> in
            if tr_completed_checks rnd \<ge> TCP_FIREWALL_RECHECK_LIMIT
            then (ResCompleted, st\<lparr>active_tcp_round := None\<rparr>)
            else (ResRecorded, st))"

subsection \<open>UDP check\<close>

definition begin_udp_check ::
  "ip_addr list \<Rightarrow> u16 list \<Rightarrow> int \<Rightarrow> firewall_state \<Rightarrow> bool \<times> firewall_state" where
  "begin_udp_check helper_ips expected_ports started_at st =
     (let helper_outcomes = foldl (\<lambda>m ip. AList.update ip Pending m) [] helper_ips in
      if helper_outcomes = [] then (False, st\<lparr>last_error := Some NoHelpers\<rparr>)
      else
        let ports = set (filter (\<lambda>port. port \<noteq> 0) expected_ports) in
        if ports = {} then (False, st\<lparr>last_error := Some NoExpectedPorts\<rparr>)
        else
          (True,
           st\<lparr>last_udp_check_started_at := Some started_at, last_error := None,
              active_round := Some \<lparr> ur_started_at = started_at, ur_expected_ports = ports,
                ur_helper_outcomes = helper_outcomes \<rparr>\<rparr>))"

definition set_outcome :: "ip_addr \<Rightarrow> helper_outcome \<Rightarrow> udp_round \<Rightarrow> udp_round" where
  "set_outcome ip outcome rnd =
     rnd\<lparr>ur_helper_outcomes := AList.update ip outcome (ur_helper_outcomes rnd)\<rparr>"

definition record_helper_request_failed ::
  "ip_addr \<Rightarrow> rstring \<Rightarrow> firewall_state \<Rightarrow> firewall_state" where
  "record_helper_request_failed helper_ip error st =
     (case active_round st of
        None \<Rightarrow> st
      | Some rnd \<Rightarrow>
          if map_of (ur_helper_outcomes rnd) helper_ip = None then st
          else st\<lparr>active_round := Some (set_outcome helper_ip RequestFailed rnd),
            last_helper_ip := Some (ip_to_string helper_ip), last_error := Some (Reported error)\<rparr>)"

definition outcomes :: "udp_round \<Rightarrow> helper_outcome list" where
  "outcomes rnd = map snd (ur_helper_outcomes rnd)"

definition finalize_round ::
  "bool \<Rightarrow> int \<Rightarrow> firewall_state \<Rightarrow> udp_check_summary option \<times> firewall_state" where
  "finalize_round is_open completed_at st =
     (case active_round st of
        None \<Rightarrow> (None, st)
      | Some rnd \<Rightarrow>
          let st = st\<lparr>active_round := None, udp_open := is_open, udp_verified := True\<rparr>;
              st = (if is_open then st\<lparr>last_udp_check_succeeded_at := Some completed_at\<rparr>
                else st\<lparr>last_udp_check_failed_at := Some completed_at\<rparr>) in
          (Some \<lparr> us_open = is_open,
             us_helpers_selected = length (ur_helper_outcomes rnd),
             us_helpers_requested = count_if (\<lambda>c. c \<noteq> RequestFailed) (outcomes rnd),
             us_helpers_succeeded = count_if (\<lambda>c. c = Succeeded) (outcomes rnd),
             us_helpers_failed = count_if (\<lambda>c. c \<noteq> Pending \<and> c \<noteq> Succeeded) (outcomes rnd),
             us_started_at = ur_started_at rnd, us_completed_at = completed_at \<rparr>, st))"

text \<open>The outer \<open>None\<close> is the panic of the \<open>expect\<close> after a success.\<close>

definition record_firewall_udp_packet ::
  "ip_addr \<Rightarrow> u8 \<Rightarrow> u16 \<Rightarrow> int \<Rightarrow> firewall_state \<Rightarrow> (udp_packet_outcome \<times> firewall_state) option" where
  "record_firewall_udp_packet helper_ip error_code incoming_port observed_at st =
     (case active_round st of
        None \<Rightarrow> Some (UdpIgnored, st)
      | Some rnd \<Rightarrow>
          if map_of (ur_helper_outcomes rnd) helper_ip = None then Some (UdpIgnored, st)
          else
            let st = st\<lparr>last_helper_ip := Some (ip_to_string helper_ip),
                  last_reported_port := Some incoming_port\<rparr> in
            if error_code = 0 \<and> incoming_port \<in> ur_expected_ports rnd then
              let st = st\<lparr>active_round := Some (set_outcome helper_ip Succeeded rnd)\<rparr> in
              (case finalize_round True observed_at st of
                 (None, st) \<Rightarrow> None
               | (Some summary, st) \<Rightarrow> Some (Open summary, st\<lparr>last_error := None\<rparr>))
            else
              Some (UdpRecorded,
                st\<lparr>active_round := Some (set_outcome helper_ip
                  (if error_code = 0 then WrongPort else RemoteError) rnd)\<rparr>))"

definition finish_udp_check :: "int \<Rightarrow> firewall_state \<Rightarrow> udp_check_summary option \<times> firewall_state" where
  "finish_udp_check completed_at st =
     (case active_round st of
        None \<Rightarrow> (None, st)
      | Some rnd \<Rightarrow>
          if list_all (\<lambda>c. c = Succeeded) (outcomes rnd) then (None, st)
          else if list_ex (\<lambda>c. c = Succeeded) (outcomes rnd) then finalize_round True completed_at st
          else if list_all (\<lambda>c. c = RequestFailed) (outcomes rnd) then
            (None, st\<lparr>last_error := Some AllRequestsFailed, active_round := None\<rparr>)
          else finalize_round False completed_at (st\<lparr>last_error := Some CheckTimedOut\<rparr>))"

end
