(* ===== verification/Kad_Obfuscation.thy ===== *)
theory Kad_Obfuscation
  imports Rust_Std Kad_Packet
begin

text \<open>
  Kad UDP obfuscation, \<open>crates/overlord-kad-net/src/obfuscation.rs\<close> and its submodules: the
  per-peer crypto state, the choice between plaintext, node-identifier and verify-key encryption,
  RC4, and the encryption and decryption of datagrams. The digest of the \<open>md5\<close> crate is a
  parameter \<open>md5\<close>; what the source draws from \<open>thread_rng\<close> is an argument.
\<close>

subsection \<open>State\<close>

type_synonym socket_addr = "ip_addr \<times> u16"

definition MAGICVALUE_UDP_SYNC_CLIENT :: u32 where "MAGICVALUE_UDP_SYNC_CLIENT = 0x395F2EC1"
definition KAD_MARKER_RECEIVER_KEY :: u8 where "KAD_MARKER_RECEIVER_KEY = 0x02"
definition UDP_PADDING_LEN :: u8 where "UDP_PADDING_LEN = 0"

datatype kad_key_mode = NodeIdMode | ReceiverVerifyKeyMode

record decrypt_result =
  dr_data :: bytes
  dr_was_obfuscated :: bool
  dr_sender_verify_key :: "u32 option"
  dr_receiver_verify_key_valid :: bool

datatype encryption_mode = Plaintext | NodeIdEncryption | ReceiverVerifyKeyEncryption

record encryption_info =
  ei_mode :: encryption_mode
  ei_peer_node_id :: "node_id option"
  ei_peer_kad_version :: "u8 option"
  ei_receiver_verify_key :: "u32 option"
  ei_sender_verify_key :: "u32 option"

record peer_crypto_state =
  pc_node_id :: "node_id option"
  pc_kad_version :: "u8 option"

record resolved_peer =
  rp_receiver_verify_key :: "u32 option"
  rp_node_id :: "node_id option"
  rp_kad_version :: "u8 option"

record obfuscation_layer =
  our_node_id :: node_id
  our_udp_key :: u32
  ob_enabled :: bool
  ob_peers :: "socket_addr \<rightharpoonup> peer_crypto_state"
  receiver_verify_keys :: "ip_addr \<rightharpoonup> u32"

definition layer_new :: "node_id \<Rightarrow> u32 \<Rightarrow> bool \<Rightarrow> obfuscation_layer" where
  "layer_new node_id udp_key enabled =
     \<lparr> our_node_id = node_id, our_udp_key = udp_key, ob_enabled = enabled,
       ob_peers = Map.empty, receiver_verify_keys = Map.empty \<rparr>"

definition default_peer :: peer_crypto_state where
  "default_peer = \<lparr> pc_node_id = None, pc_kad_version = None \<rparr>"

definition peer_entry :: "obfuscation_layer \<Rightarrow> socket_addr \<Rightarrow> peer_crypto_state" where
  "peer_entry layer addr = (case ob_peers layer addr of None \<Rightarrow> default_peer | Some p \<Rightarrow> p)"

definition register_peer_identity ::
  "socket_addr \<Rightarrow> node_id \<Rightarrow> obfuscation_layer \<Rightarrow> obfuscation_layer" where
  "register_peer_identity addr node_id layer =
     layer\<lparr>ob_peers := (ob_peers layer)(addr \<mapsto> (peer_entry layer addr)\<lparr>pc_node_id := Some node_id\<rparr>)\<rparr>"

definition register_peer_version ::
  "socket_addr \<Rightarrow> u8 \<Rightarrow> obfuscation_layer \<Rightarrow> obfuscation_layer" where
  "register_peer_version addr version layer =
     layer\<lparr>ob_peers :=
       (ob_peers layer)(addr \<mapsto> (peer_entry layer addr)\<lparr>pc_kad_version := Some version\<rparr>)\<rparr>"

definition register_peer_key :: "socket_addr \<Rightarrow> u32 \<Rightarrow> obfuscation_layer \<Rightarrow> obfuscation_layer" where
  "register_peer_key addr key layer =
     layer\<lparr>receiver_verify_keys := (receiver_verify_keys layer)(fst addr \<mapsto> key)\<rparr>"

definition receiver_verify_key_for_addr :: "obfuscation_layer \<Rightarrow> socket_addr \<Rightarrow> u32 option" where
  "receiver_verify_key_for_addr layer addr = receiver_verify_keys layer (fst addr)"

definition peer_state_for_addr :: "obfuscation_layer \<Rightarrow> socket_addr \<Rightarrow> resolved_peer" where
  "peer_state_for_addr layer addr =
     (let peer = peer_entry layer addr in
      \<lparr> rp_receiver_verify_key = receiver_verify_keys layer (fst addr),
        rp_node_id = pc_node_id peer, rp_kad_version = pc_kad_version peer \<rparr>)"

subsection \<open>RC4 and keys\<close>

definition swap_list :: "nat \<Rightarrow> nat \<Rightarrow> 'a list \<Rightarrow> 'a list" where
  "swap_list i j xs = xs[i := xs ! j, j := xs ! i]"

text \<open>Masking with \<open>0xFF\<close> is the remainder modulo 256.\<close>

fun ksa_step :: "bytes \<Rightarrow> bytes \<times> nat \<Rightarrow> nat \<Rightarrow> bytes \<times> nat" where
  "ksa_step key (s, j) i =
     (let j = (j + unat (s ! i) + unat (key ! (i mod length key))) mod 256 in (swap_list i j s, j))"

fun rc4_loop :: "bytes \<Rightarrow> nat \<Rightarrow> nat \<Rightarrow> bytes \<Rightarrow> bytes" where
  "rc4_loop s i j [] = []"
| "rc4_loop s i j (byte # data) =
     (let i = (i + 1) mod 256;
          j = (j + unat (s ! i)) mod 256;
          s = swap_list i j s in
      (byte XOR s ! ((unat (s ! i) + unat (s ! j)) mod 256)) # rc4_loop s i j data)"

definition rc4 :: "bytes \<Rightarrow> bytes \<Rightarrow> bytes" where
  "rc4 key data =
     (if key = [] \<or> data = [] then data
      else
        let (s, j) = foldl (ksa_step key) (map of_nat [0..<256], 0) [0..<256] in
        rc4_loop s 0 0 data)"

type_synonym md5_fun = "bytes \<Rightarrow> u8x16"

definition md5_key_material :: "md5_fun \<Rightarrow> bytes \<Rightarrow> bytes" where
  "md5_key_material md5 bs = list16 (md5 bs)"

definition derive_kad_request_key :: "md5_fun \<Rightarrow> node_id \<Rightarrow> u16 \<Rightarrow> bytes" where
  "derive_kad_request_key md5 node_id random_key_part =
     md5_key_material md5 (nid_bytes node_id @ le_bytes 2 random_key_part)"

definition derive_kad_receiver_key :: "md5_fun \<Rightarrow> u32 \<Rightarrow> u16 \<Rightarrow> bytes" where
  "derive_kad_receiver_key md5 receiver_verify_key random_key_part =
     md5_key_material md5 (le_bytes 4 receiver_verify_key @ le_bytes 2 random_key_part)"

definition octets :: "ipv4 \<Rightarrow> bytes" where
  "octets ip = (case ip of Ipv4 a b c d \<Rightarrow> [a, b, c, d])"

definition derive_udp_verify_key :: "md5_fun \<Rightarrow> u32 \<Rightarrow> ipv4 \<Rightarrow> u32" where
  "derive_udp_verify_key md5 udp_key target_ip =
     (let digest = md5_key_material md5 (octets target_ip @ le_bytes 4 udp_key);
          folded = le_word (take 4 digest) XOR le_word (take 4 (drop 4 digest)) XOR
            le_word (take 4 (drop 8 digest)) XOR le_word (take 4 (drop 12 digest)) in
      folded mod 0xFFFFFFFE + 1)"

definition verify_key_for_ip :: "md5_fun \<Rightarrow> obfuscation_layer \<Rightarrow> ipv4 \<Rightarrow> u32" where
  "verify_key_for_ip md5 layer ip = derive_udp_verify_key md5 (our_udp_key layer) ip"

subsection \<open>Outbound\<close>

definition can_use_node_id_mode :: "resolved_peer \<Rightarrow> bool" where
  "can_use_node_id_mode peer \<longleftrightarrow>
     rp_node_id peer \<noteq> None \<and>
     (case rp_kad_version peer of None \<Rightarrow> True | Some version \<Rightarrow> version \<ge> 6)"

definition should_prefer_receiver_verify_key :: "u8 \<Rightarrow> bool" where
  "should_prefer_receiver_verify_key opcode_value \<longleftrightarrow> opcode_value = op_FIREWALLED2_REQ"

definition is_plain_protocol_marker :: "u8 \<Rightarrow> bool" where
  "is_plain_protocol_marker b \<longleftrightarrow> b \<in> {0xE3, 0xE4, 0xE5, 0xA3, 0xC5, 0xD4}"

text \<open>The loop over the bytes the generator yields; \<open>None\<close> if they run out.\<close>

fun select_marker :: "kad_key_mode \<Rightarrow> bytes \<Rightarrow> u8 option" where
  "select_marker mode [] = None"
| "select_marker mode (r # rs) =
     (let marker = r AND NOT 0x03;
          marker = (if mode = ReceiverVerifyKeyMode then marker OR KAD_MARKER_RECEIVER_KEY else marker) in
      if \<not> is_plain_protocol_marker marker then Some marker else select_marker mode rs)"

definition inspect_outbound :: "md5_fun \<Rightarrow> obfuscation_layer \<Rightarrow> socket_addr \<Rightarrow> u8 \<Rightarrow> encryption_info" where
  "inspect_outbound md5 layer addr opcode_value =
     (let peer = peer_state_for_addr layer addr;
          mode = (if \<not> ob_enabled layer then Plaintext
            else if should_prefer_receiver_verify_key opcode_value \<and> rp_receiver_verify_key peer \<noteq> None
            then ReceiverVerifyKeyEncryption
            else if can_use_node_id_mode peer then NodeIdEncryption
            else if rp_receiver_verify_key peer \<noteq> None then ReceiverVerifyKeyEncryption
            else Plaintext);
          sender_verify_key =
            (if mode = Plaintext then None
             else case fst addr of V4 ip \<Rightarrow> Some (verify_key_for_ip md5 layer ip) | V6 _ \<Rightarrow> None) in
      \<lparr> ei_mode = mode, ei_peer_node_id = rp_node_id peer, ei_peer_kad_version = rp_kad_version peer,
        ei_receiver_verify_key = rp_receiver_verify_key peer,
        ei_sender_verify_key = sender_verify_key \<rparr>)"

fun preferred_mode :: "encryption_mode \<Rightarrow> kad_key_mode option" where
  "preferred_mode Plaintext = None"
| "preferred_mode NodeIdEncryption = Some NodeIdMode"
| "preferred_mode ReceiverVerifyKeyEncryption = Some ReceiverVerifyKeyMode"

text \<open>The key of a mode; \<open>None\<close> is the panic of an \<open>unwrap\<close> of unknown peer state.\<close>

definition outbound_key :: "md5_fun \<Rightarrow> resolved_peer \<Rightarrow> kad_key_mode \<Rightarrow> u16 \<Rightarrow> bytes option" where
  "outbound_key md5 peer mode random_key_part =
     (case mode of
        NodeIdMode \<Rightarrow> map_option (\<lambda>i. derive_kad_request_key md5 i random_key_part) (rp_node_id peer)
      | ReceiverVerifyKeyMode \<Rightarrow>
          map_option (\<lambda>k. derive_kad_receiver_key md5 k random_key_part) (rp_receiver_verify_key peer))"

text \<open>
  \<open>encrypt\<close> with the drawn key part and marker bytes; \<open>None\<close> is a panic, or a generator that never
  yields an acceptable marker.
\<close>

definition kad_encrypt ::
  "md5_fun \<Rightarrow> u16 \<Rightarrow> bytes \<Rightarrow> obfuscation_layer \<Rightarrow> socket_addr \<Rightarrow> u8 \<Rightarrow> bytes \<Rightarrow> bytes option" where
  "kad_encrypt md5 random_key_part marker_bytes layer addr opcode_value plaintext =
     (let outbound = inspect_outbound md5 layer addr opcode_value;
          peer = peer_state_for_addr layer addr in
      if ei_mode outbound = Plaintext then Some plaintext
      else case preferred_mode (ei_mode outbound) of
        None \<Rightarrow> Some plaintext
      | Some mode \<Rightarrow>
          (case outbound_key md5 peer mode random_key_part of
             None \<Rightarrow> None
           | Some rc4_key \<Rightarrow>
               (case fst addr of
                  V6 _ \<Rightarrow> Some plaintext
                | V4 ip \<Rightarrow>
                    let encrypted_tail = rc4 rc4_key
                          (le_bytes 4 MAGICVALUE_UDP_SYNC_CLIENT @ [UDP_PADDING_LEN] @
                           le_bytes 4 (case rp_receiver_verify_key peer of None \<Rightarrow> 0 | Some k \<Rightarrow> k) @
                           le_bytes 4 (verify_key_for_ip md5 layer ip) @ plaintext) in
                    map_option (\<lambda>marker. marker # le_bytes 2 random_key_part @ encrypted_tail)
                      (select_marker mode marker_bytes))))"

subsection \<open>Inbound\<close>

definition plaintext_result :: "bytes \<Rightarrow> decrypt_result" where
  "plaintext_result buf =
     \<lparr> dr_data = buf, dr_was_obfuscated = False, dr_sender_verify_key = None,
       dr_receiver_verify_key_valid = False \<rparr>"

definition marker_try_order :: "u8 \<Rightarrow> kad_key_mode list" where
  "marker_try_order marker =
     (if marker AND 0x03 = KAD_MARKER_RECEIVER_KEY then [ReceiverVerifyKeyMode, NodeIdMode]
      else [NodeIdMode, ReceiverVerifyKeyMode])"

text \<open>One iteration of the loop over the modes: the result to return, or \<open>None\<close> to continue.\<close>

definition try_mode ::
  "md5_fun \<Rightarrow> obfuscation_layer \<Rightarrow> ipv4 \<Rightarrow> u16 \<Rightarrow> bytes \<Rightarrow> kad_key_mode \<Rightarrow> decrypt_result option" where
  "try_mode md5 layer remote_ip random_key_part body mode =
     (let rc4_key = (case mode of
            NodeIdMode \<Rightarrow> derive_kad_request_key md5 (our_node_id layer) random_key_part
          | ReceiverVerifyKeyMode \<Rightarrow>
              derive_kad_receiver_key md5 (verify_key_for_ip md5 layer remote_ip) random_key_part);
          decrypted = rc4 rc4_key body in
      if length decrypted < 13 then None
      else if le_word (take 4 decrypted) \<noteq> MAGICVALUE_UDP_SYNC_CLIENT then None
      else
        let padding_len = unat (decrypted ! 4 AND 0x0F);
            payload_offset = 5 + padding_len + 8 in
        if length decrypted \<le> payload_offset then None
        else
          let sender_verify_key = le_word (take 4 (drop (5 + padding_len + 4) decrypted));
              payload = drop payload_offset decrypted in
          if hd payload \<noteq> OP_KADEMLIAHEADER \<and> hd payload \<noteq> OP_KADEMLIAPACKEDPROT then None
          else Some \<lparr> dr_data = payload, dr_was_obfuscated = True,
            dr_sender_verify_key = Some sender_verify_key,
            dr_receiver_verify_key_valid = (mode = ReceiverVerifyKeyMode) \<rparr>)"

fun first_mode :: "(kad_key_mode \<Rightarrow> decrypt_result option) \<Rightarrow> kad_key_mode list \<Rightarrow> decrypt_result option" where
  "first_mode f [] = None"
| "first_mode f (mode # modes) = (case f mode of None \<Rightarrow> first_mode f modes | Some r \<Rightarrow> Some r)"

definition kad_decrypt :: "md5_fun \<Rightarrow> obfuscation_layer \<Rightarrow> socket_addr \<Rightarrow> bytes \<Rightarrow> decrypt_result" where
  "kad_decrypt md5 layer from buf =
     (if length buf < 3 then plaintext_result buf
      else if buf ! 0 = OP_KADEMLIAHEADER \<or> buf ! 0 = OP_KADEMLIAPACKEDPROT then plaintext_result buf
      else
        case fst from of
          V6 _ \<Rightarrow> plaintext_result buf
        | V4 remote_ip \<Rightarrow>
            (case first_mode
                (try_mode md5 layer remote_ip (le_word [buf ! 1, buf ! 2]) (drop 3 buf))
                (marker_try_order (buf ! 0)) of
               None \<Rightarrow> plaintext_result buf
             | Some r \<Rightarrow> r))"

subsection \<open>RC4 is an involution\<close>

lemma xor_xor_cancel [simp]: "(a XOR k) XOR k = (a :: 'a::len word)"
  by (simp add: xor.assoc)

lemma rc4_loop_involution: "rc4_loop s i j (rc4_loop s i j data) = data"
  by (induction data arbitrary: s i j) (simp_all add: Let_def)

lemma length_rc4_loop [simp]: "length (rc4_loop s i j data) = length data"
  by (induction data arbitrary: s i j) (simp_all add: Let_def)

lemma rc4_loop_Nil [simp]: "rc4_loop s i j data = [] \<longleftrightarrow> data = []"
  by (metis length_0_conv length_rc4_loop)

lemma rc4_rc4 [simp]: "rc4 key (rc4 key data) = data"
  by (auto simp: rc4_def rc4_loop_involution split: prod.split)

lemma length_rc4 [simp]: "length (rc4 key data) = length data"
  by (simp add: rc4_def split: prod.split)

subsection \<open>Round trip\<close>

lemma select_marker_props:
  assumes "select_marker mode rs = Some marker"
  shows "marker \<noteq> OP_KADEMLIAHEADER" "marker \<noteq> OP_KADEMLIAPACKEDPROT"
    "hd (marker_try_order marker) = mode"
proof -
  have low: "(r AND NOT 0x03) AND 0x03 = (0 :: u8)" "((r AND NOT 0x03) OR 0x02) AND 0x03 = (2 :: u8)" for r
    by (rule bit_eqI; auto simp: bit_simps)+
  show "marker \<noteq> OP_KADEMLIAHEADER" "marker \<noteq> OP_KADEMLIAPACKEDPROT"
    using assms
    by (induction rs) (auto simp: is_plain_protocol_marker_def OP_KADEMLIAHEADER_def
        OP_KADEMLIAPACKEDPROT_def Let_def split: if_splits)
  show "hd (marker_try_order marker) = mode"
    using assms low
    by (induction rs) (cases mode; auto simp: marker_try_order_def KAD_MARKER_RECEIVER_KEY_def Let_def
        split: if_splits)+
qed

lemma le_word_le_bytes_take [simp]:
  "le_word (take 4 (le_bytes 4 (w :: u32) @ xs)) = w"
  "le_word (le_bytes 2 (v :: u16)) = v"
  by (simp_all add: le_word_le_bytes)

lemma le_bytes_2: "le_bytes 2 (w :: u16) = [le_bytes 2 w ! 0, le_bytes 2 w ! 1]"
  by (simp add: le_bytes_def upt_rec)

text \<open>The plaintext in front of RC4: sync value, no padding, the two verify keys and the payload.\<close>

definition inner :: "u32 \<Rightarrow> u32 \<Rightarrow> bytes \<Rightarrow> bytes" where
  "inner receiver_key sender_key payload =
     le_bytes 4 MAGICVALUE_UDP_SYNC_CLIENT @ [UDP_PADDING_LEN] @ le_bytes 4 receiver_key @
     le_bytes 4 sender_key @ payload"

lemma inner_parts:
  "length (inner rk sk payload) = 13 + length payload"
  "inner rk sk payload ! 4 = 0"
  "take 4 (drop 9 (inner rk sk payload)) = le_bytes 4 sk"
  "drop 13 (inner rk sk payload) = payload"
  by (simp_all add: inner_def nth_append UDP_PADDING_LEN_def numeral_eq_Suc)

lemma inner_magic: "le_word (take 4 (inner rk sk payload)) = MAGICVALUE_UDP_SYNC_CLIENT"
  by (simp only: inner_def le_word_le_bytes_take)

lemma try_mode_inner:
  assumes "hd payload = OP_KADEMLIAHEADER \<or> hd payload = OP_KADEMLIAPACKEDPROT" "payload \<noteq> []"
    and "key = (case mode of
        NodeIdMode \<Rightarrow> derive_kad_request_key md5 (our_node_id layer) part
      | ReceiverVerifyKeyMode \<Rightarrow> derive_kad_receiver_key md5 (verify_key_for_ip md5 layer remote_ip) part)"
  shows "try_mode md5 layer remote_ip part (rc4 key (inner rk sk payload)) mode =
    Some \<lparr> dr_data = payload, dr_was_obfuscated = True, dr_sender_verify_key = Some sk,
      dr_receiver_verify_key_valid = (mode = ReceiverVerifyKeyMode) \<rparr>"
proof -
  have "rc4 key (rc4 key (inner rk sk payload)) = inner rk sk payload"
    by simp
  moreover have "le_word (take 4 (drop 9 (inner rk sk payload))) = sk"
    using inner_parts(3) [of rk sk payload] by (simp add: le_word_le_bytes)
  ultimately show ?thesis
    using assms(1,2) unfolding try_mode_def assms(3) [symmetric]
    by (simp add: Let_def inner_parts(1,2,4) inner_magic)
qed

text \<open>
  A sender and a receiver agree on the keys of a mode: the sender knows the receiver's
  identifier, or the verify key the receiver derives for the sender's address.
\<close>

definition keys_agree ::
  "md5_fun \<Rightarrow> obfuscation_layer \<Rightarrow> socket_addr \<Rightarrow> obfuscation_layer \<Rightarrow> ipv4 \<Rightarrow> encryption_mode \<Rightarrow> bool" where
  "keys_agree md5 sender receiver_addr receiver sender_ip mode \<longleftrightarrow>
     (mode = NodeIdEncryption \<longrightarrow>
        rp_node_id (peer_state_for_addr sender receiver_addr) = Some (our_node_id receiver)) \<and>
     (mode = ReceiverVerifyKeyEncryption \<longrightarrow>
        rp_receiver_verify_key (peer_state_for_addr sender receiver_addr) =
          Some (verify_key_for_ip md5 receiver sender_ip))"

lemma decrypt_encrypted:
  assumes "hd plaintext = OP_KADEMLIAHEADER \<or> hd plaintext = OP_KADEMLIAPACKEDPROT" "plaintext \<noteq> []"
    and enc: "kad_encrypt md5 part rs sender (V4 rip, rp) opc plaintext = Some dgram"
    and mode: "mode = ei_mode (inspect_outbound md5 sender (V4 rip, rp) opc)" "mode \<noteq> Plaintext"
    and agree: "keys_agree md5 sender (V4 rip, rp) receiver sip mode"
  shows "kad_decrypt md5 receiver (V4 sip, sp) dgram =
    \<lparr> dr_data = plaintext, dr_was_obfuscated = True,
      dr_sender_verify_key = Some (verify_key_for_ip md5 sender rip),
      dr_receiver_verify_key_valid = (mode = ReceiverVerifyKeyEncryption) \<rparr>"
proof -
  let ?peer = "peer_state_for_addr sender (V4 rip, rp)"
  let ?rk = "case rp_receiver_verify_key ?peer of None \<Rightarrow> 0 | Some k \<Rightarrow> k"
  obtain km where km: "preferred_mode mode = Some km"
    and valid: "(km = ReceiverVerifyKeyMode) = (mode = ReceiverVerifyKeyEncryption)"
    using mode(2) by (cases mode) auto
  define key where "key = (case km of
      NodeIdMode \<Rightarrow> derive_kad_request_key md5 (our_node_id receiver) part
    | ReceiverVerifyKeyMode \<Rightarrow> derive_kad_receiver_key md5 (verify_key_for_ip md5 receiver sip) part)"
  have key: "outbound_key md5 ?peer km part = Some key"
    using agree km by (cases mode) (auto simp: outbound_key_def keys_agree_def key_def)
  obtain marker where marker: "select_marker km rs = Some marker"
    and d: "dgram = marker # le_bytes 2 part @ rc4 key (inner ?rk (verify_key_for_ip md5 sender rip) plaintext)"
    using enc mode km key by (auto simp: kad_encrypt_def Let_def inner_def)
  have "try_mode md5 receiver sip part (rc4 key (inner ?rk (verify_key_for_ip md5 sender rip) plaintext)) km =
      Some \<lparr> dr_data = plaintext, dr_was_obfuscated = True,
        dr_sender_verify_key = Some (verify_key_for_ip md5 sender rip),
        dr_receiver_verify_key_valid = (km = ReceiverVerifyKeyMode) \<rparr>"
    using assms(1,2) by (rule try_mode_inner) (simp add: key_def)
  moreover have "le_word [dgram ! 1, dgram ! 2] = part"
  proof -
    obtain a b where ab: "le_bytes 2 part = [a, b]"
      using le_bytes_2 by blast
    then have "[dgram ! 1, dgram ! 2] = le_bytes 2 part"
      by (simp add: d)
    then show ?thesis
      by (simp only: le_word_le_bytes_take(2))
  qed
  moreover have "drop 3 dgram = rc4 key (inner ?rk (verify_key_for_ip md5 sender rip) plaintext)" "dgram ! 0 = marker"
    "\<not> length dgram < 3"
    by (simp_all add: d numeral_3_eq_3)
  moreover have "\<exists>m. marker_try_order marker = [km, m]"
    using select_marker_props(3) [OF marker] by (auto simp: marker_try_order_def split: if_splits)
  ultimately show ?thesis
    using select_marker_props(1,2) [OF marker] by (auto simp: kad_decrypt_def valid)
qed

lemma decrypt_plain:
  assumes "hd plaintext = OP_KADEMLIAHEADER \<or> hd plaintext = OP_KADEMLIAPACKEDPROT" "plaintext \<noteq> []"
  shows "kad_decrypt md5 receiver from plaintext = plaintext_result plaintext"
  using assms by (auto simp: kad_decrypt_def hd_conv_nth)

text \<open>
  C12. Kad datagrams survive obfuscation: whatever mode the sender selects, a receiver with which it
  agrees on the keys of that mode recovers the exact packet, learns the verify key the sender
  derived for its address, and recognises a packet that proves its own verify key as such.
\<close>

theorem kad_udp_round_trip:
  assumes "hd plaintext = OP_KADEMLIAHEADER \<or> hd plaintext = OP_KADEMLIAPACKEDPROT" "plaintext \<noteq> []"
    and "kad_encrypt md5 part rs sender (V4 rip, rp) opc plaintext = Some dgram"
    and "mode = ei_mode (inspect_outbound md5 sender (V4 rip, rp) opc)"
    and "keys_agree md5 sender (V4 rip, rp) receiver sip mode"
  shows "kad_decrypt md5 receiver (V4 sip, sp) dgram =
    \<lparr> dr_data = plaintext, dr_was_obfuscated = (mode \<noteq> Plaintext),
      dr_sender_verify_key = (if mode = Plaintext then None else Some (verify_key_for_ip md5 sender rip)),
      dr_receiver_verify_key_valid = (mode = ReceiverVerifyKeyEncryption) \<rparr>"
proof (cases "mode = Plaintext")
  case True
  then have "dgram = plaintext"
    using assms(3,4) by (auto simp: kad_encrypt_def Let_def)
  then show ?thesis
    using True decrypt_plain [OF assms(1,2)] by (simp add: plaintext_result_def)
next
  case False
  then show ?thesis
    using decrypt_encrypted [OF assms(1-4) False assms(5)] by simp
qed

subsection \<open>No panic\<close>

lemma encrypt_defined:
  assumes "list_ex (\<lambda>r. select_marker NodeIdMode [r] \<noteq> None \<and> select_marker ReceiverVerifyKeyMode [r] \<noteq> None) rs"
  shows "kad_encrypt md5 part rs layer addr opc plaintext \<noteq> None"
proof -
  have marker: "select_marker mode rs \<noteq> None" for mode
    using assms by (induction rs) (cases mode; auto simp: Let_def split: if_splits)+
  let ?peer = "peer_state_for_addr layer addr"
  have "outbound_key md5 ?peer km part \<noteq> None"
    if "preferred_mode (ei_mode (inspect_outbound md5 layer addr opc)) = Some km" for km
    using that by (auto simp: inspect_outbound_def Let_def outbound_key_def can_use_node_id_mode_def
        split: if_splits)
  then show ?thesis
    using marker by (auto simp: kad_encrypt_def Let_def split: option.split ip_addr.split)
qed

text \<open>A sender and a receiver for concrete runs, with a constant digest.\<close>

definition demo_md5 :: md5_fun where
  "demo_md5 bs = Arr16 (replicate 16 1)"

definition demo_receiver :: obfuscation_layer where
  "demo_receiver = layer_new nid_ZERO 9 True"

definition demo_sender :: obfuscation_layer where
  "demo_sender = register_peer_version (V4 (Ipv4 5 6 7 8), 4672) 8
     (register_peer_identity (V4 (Ipv4 5 6 7 8), 4672) nid_ZERO (layer_new nid_ZERO 7 True))"

lemma demo_encrypt: "\<exists>dgram. kad_encrypt md5 part [0] layer addr opc plaintext = Some dgram"
  using encrypt_defined [of "[0]" md5 part layer addr opc plaintext]
  by (simp add: is_plain_protocol_marker_def KAD_MARKER_RECEIVER_KEY_def)

lemma demo_mode:
  "ei_mode (inspect_outbound md5 demo_sender (V4 (Ipv4 5 6 7 8), 4672) 0x60) = NodeIdEncryption"
  "keys_agree md5 demo_sender (V4 (Ipv4 5 6 7 8), 4672) demo_receiver sip NodeIdEncryption"
  by (simp_all add: inspect_outbound_def demo_sender_def demo_receiver_def layer_new_def
      register_peer_version_def register_peer_identity_def peer_state_for_addr_def peer_entry_def
      default_peer_def can_use_node_id_mode_def should_prefer_receiver_verify_key_def
      op_FIREWALLED2_REQ_def keys_agree_def Let_def)

theorem kad_udp_round_trip_witness:
  "\<exists>dgram. kad_encrypt demo_md5 3 [0] demo_sender (V4 (Ipv4 5 6 7 8), 4672) 0x60 [0xE4, 0x60] = Some dgram \<and>
     dr_data (kad_decrypt demo_md5 demo_receiver (V4 (Ipv4 1 2 3 4), 4672) dgram) = [0xE4, 0x60]"
proof -
  obtain dgram where d: "kad_encrypt demo_md5 3 [0] demo_sender (V4 (Ipv4 5 6 7 8), 4672) 0x60 [0xE4, 0x60] = Some dgram"
    using demo_encrypt by blast
  show ?thesis
    using d kad_udp_round_trip [OF _ _ d demo_mode(1) [symmetric] demo_mode(2), of "Ipv4 1 2 3 4" 4672]
    by (simp add: OP_KADEMLIAHEADER_def)
qed

text \<open>
  C38. The verify-key handshake closes: after a receiver has decrypted a packet and registered the
  sender's verify key from it, every packet it sends back in verify-key mode is recovered by the
  original sender and is recognised as carrying that sender's own verify key.
\<close>

theorem verify_key_handshake:
  assumes "hd p = OP_KADEMLIAHEADER \<or> hd p = OP_KADEMLIAPACKEDPROT" "p \<noteq> []"
    and "hd reply = OP_KADEMLIAHEADER \<or> hd reply = OP_KADEMLIAPACKEDPROT" "reply \<noteq> []"
    and enc: "kad_encrypt md5 part rs sender (V4 rip, rp) opc p = Some dgram"
    and mode: "mode = ei_mode (inspect_outbound md5 sender (V4 rip, rp) opc)" "mode \<noteq> Plaintext"
    and agree: "keys_agree md5 sender (V4 rip, rp) receiver sip mode"
    and k: "dr_sender_verify_key (kad_decrypt md5 receiver (V4 sip, sp) dgram) = Some k"
    and r: "receiver' = register_peer_key (V4 sip, sp) k receiver"
    and resp: "ei_mode (inspect_outbound md5 receiver' (V4 sip, sp) opc') = ReceiverVerifyKeyEncryption"
      "kad_encrypt md5 part' rs' receiver' (V4 sip, sp) opc' reply = Some dgram'"
  shows "dr_data (kad_decrypt md5 sender (V4 rip, rp) dgram') = reply \<and>
    dr_receiver_verify_key_valid (kad_decrypt md5 sender (V4 rip, rp) dgram')"
proof -
  have "k = verify_key_for_ip md5 sender rip"
    using decrypt_encrypted [OF assms(1,2) enc mode agree, of sp] k by simp
  then have "keys_agree md5 receiver' (V4 sip, sp) sender rip ReceiverVerifyKeyEncryption"
    by (simp add: keys_agree_def r register_peer_key_def peer_state_for_addr_def Let_def)
  then show ?thesis
    using decrypt_encrypted [OF assms(3,4) resp(2) resp(1) [symmetric]] by simp
qed

theorem verify_key_handshake_witness:
  "\<exists>dgram dgram' k. kad_encrypt demo_md5 3 [0] demo_sender (V4 (Ipv4 5 6 7 8), 4672) 0x60 [0xE4, 0x60] = Some dgram \<and>
     dr_sender_verify_key (kad_decrypt demo_md5 demo_receiver (V4 (Ipv4 1 2 3 4), 4672) dgram) = Some k \<and>
     kad_encrypt demo_md5 4 [0] (register_peer_key (V4 (Ipv4 1 2 3 4), 4672) k demo_receiver)
       (V4 (Ipv4 1 2 3 4), 4672) 0x61 [0xE4, 0x61] = Some dgram' \<and>
     dr_data (kad_decrypt demo_md5 demo_sender (V4 (Ipv4 5 6 7 8), 4672) dgram') = [0xE4, 0x61]"
proof -
  let ?ra = "(V4 (Ipv4 5 6 7 8), 4672)" and ?sa = "(V4 (Ipv4 1 2 3 4), 4672)"
  obtain dgram where d: "kad_encrypt demo_md5 3 [0] demo_sender ?ra 0x60 [0xE4, 0x60] = Some dgram"
    using demo_encrypt by blast
  have h: "hd [0xE4, x] = OP_KADEMLIAHEADER \<or> hd [0xE4, x] = OP_KADEMLIAPACKEDPROT" "[0xE4, x] \<noteq> []" for x
    by (simp_all add: OP_KADEMLIAHEADER_def)
  obtain k where k: "dr_sender_verify_key (kad_decrypt demo_md5 demo_receiver ?sa dgram) = Some k"
    using decrypt_encrypted [OF h d demo_mode(1) [symmetric] _ demo_mode(2)] by simp
  let ?r = "register_peer_key ?sa k demo_receiver"
  obtain dgram' where d': "kad_encrypt demo_md5 4 [0] ?r ?sa 0x61 [0xE4, 0x61] = Some dgram'"
    using demo_encrypt by blast
  have "ei_mode (inspect_outbound demo_md5 ?r ?sa 0x61) = ReceiverVerifyKeyEncryption"
    by (simp add: inspect_outbound_def demo_receiver_def layer_new_def register_peer_key_def
        peer_state_for_addr_def peer_entry_def default_peer_def can_use_node_id_mode_def
        should_prefer_receiver_verify_key_def op_FIREWALLED2_REQ_def Let_def)
  then show ?thesis
    using verify_key_handshake [OF h h d demo_mode(1) [symmetric] _ demo_mode(2) k refl _ d'] d k d' by auto
qed

subsection \<open>Verify keys\<close>

text \<open>
  A derived verify key is between 1 and \<open>0xFFFFFFFE\<close>: the addition does not wrap, and no peer
  is ever given the value zero, which stands for an unknown key.
\<close>

theorem verify_key_range:
  "1 \<le> unat (verify_key_for_ip md5 layer ip) \<and> unat (verify_key_for_ip md5 layer ip) \<le> 0xFFFFFFFE"
proof -
  have "unat (w mod 0xFFFFFFFE + 1) = unat w mod 0xFFFFFFFE + 1" for w :: u32
  proof -
    have "unat (w mod 0xFFFFFFFE) = unat w mod 0xFFFFFFFE"
      by (simp add: unat_mod)
    moreover have "unat w mod 0xFFFFFFFE < 0xFFFFFFFE"
      by simp
    ultimately show ?thesis
      by (subst unat_add_lem [THEN iffD1]) simp_all
  qed
  moreover have "unat w mod 0xFFFFFFFE < 0xFFFFFFFE" for w :: u32
    by simp
  ultimately show ?thesis
    unfolding verify_key_for_ip_def derive_udp_verify_key_def Let_def
    by (metis Suc_eq_plus1 Suc_leI le_add2)
qed

end
