(* ===== verification/Kad_Rpc.thy ===== *)
theory Kad_Rpc
  imports Kad_Tracker Kad_Obfuscation
begin

text \<open>
  The RPC boundary of the Kad transport, \<open>crates/overlord-kad-net/src/rpc.rs\<close> and its submodules:
  classification of inbound packets, sending, pending requests, and the body of the receive loop
  that turns a datagram into a resolved request, an unsolicited packet or a drop. The rate
  limiters only delay a send and are not part of the state; the measured wait is an argument of
  \<open>send_with_class\<close>. Log lines and the wire dump are not modelled.
\<close>

subsection \<open>Packet classification\<close>

record inbound_info =
  ii_tracker_bucket :: "tracker_bucket option"
  ii_peer_id :: "node_id option"
  ii_kad_version :: "u8 option"

definition tracker_bucket_for_opcode :: "u8 \<Rightarrow> tracker_bucket option" where
  "tracker_bucket_for_opcode op =
     (if op = op_BOOTSTRAP_REQ then Some BootstrapReqBucket
      else if op = op_HELLO_REQ then Some HelloReqBucket
      else if op = op_REQ then Some FindNodeReqBucket
      else if op \<in> {op_SEARCH_KEY_REQ, op_SEARCH_SOURCE_REQ, op_SEARCH_NOTES_REQ} then Some SearchReqBucket
      else if op = op_PUBLISH_KEY_REQ then Some PublishKeyReqBucket
      else if op = op_PUBLISH_SOURCE_REQ then Some PublishSourceReqBucket
      else if op = op_PUBLISH_NOTES_REQ then Some PublishNotesReqBucket
      else if op \<in> {op_FIREWALLED_REQ, op_FIREWALLED2_REQ} then Some FirewalledReqBucket
      else if op = op_FINDBUDDY_REQ then Some FindBuddyReqBucket
      else if op = op_CALLBACK_REQ then Some CallbackReqBucket
      else if op = op_PING then Some PingReqBucket
      else if op = op_SEARCH_RES then Some SearchResBucket
      else None)"

definition inspect_inbound_packet :: "kad_packet \<Rightarrow> inbound_info" where
  "inspect_inbound_packet packet =
     (case packet of
        BootstrapRes res \<Rightarrow> \<lparr> ii_tracker_bucket = None, ii_peer_id = Some (bsr_sender_id res),
          ii_kad_version = Some (bsr_sender_version res) \<rparr>
      | HelloReq req \<Rightarrow> \<lparr> ii_tracker_bucket = Some HelloReqBucket, ii_peer_id = Some (hq_node_id req),
          ii_kad_version = Some (hq_version req) \<rparr>
      | HelloRes res \<Rightarrow> \<lparr> ii_tracker_bucket = None, ii_peer_id = Some (hs_node_id res),
          ii_kad_version = Some (hs_version res) \<rparr>
      | HelloResAck ack \<Rightarrow> \<lparr> ii_tracker_bucket = None, ii_peer_id = Some (ha_node_id ack),
          ii_kad_version = None \<rparr>
      | SearchRes res \<Rightarrow> \<lparr> ii_tracker_bucket = Some SearchResBucket, ii_peer_id = Some (sr_sender_id res),
          ii_kad_version = None \<rparr>
      | _ \<Rightarrow> \<lparr> ii_tracker_bucket = tracker_bucket_for_opcode (opcode packet), ii_peer_id = None,
          ii_kad_version = None \<rparr>)"

definition should_learn_sender_verify_key :: "u8 \<Rightarrow> bool" where
  "should_learn_sender_verify_key op \<longleftrightarrow>
     op \<in> {op_BOOTSTRAP_REQ, op_BOOTSTRAP_RES, op_HELLO_REQ, op_HELLO_RES, op_HELLO_RES_ACK, op_REQ,
       op_SEARCH_KEY_REQ, op_SEARCH_SOURCE_REQ, op_SEARCH_NOTES_REQ, op_PUBLISH_KEY_REQ,
       op_PUBLISH_SOURCE_REQ, op_PUBLISH_NOTES_REQ, op_PUBLISH_RES, op_PUBLISH_RES_ACK,
       op_FIREWALLED_REQ, op_FIREWALLED2_REQ, op_FINDBUDDY_REQ, op_FINDBUDDY_RES, op_CALLBACK_REQ,
       op_PING}"

definition is_tracked_response_opcode :: "u8 \<Rightarrow> bool" where
  "is_tracked_response_opcode op \<longleftrightarrow>
     op \<in> {op_BOOTSTRAP_RES, op_HELLO_RES, op_HELLO_RES_ACK, op_RES, op_PUBLISH_RES,
       op_PUBLISH_RES_ACK, op_FIREWALLED_RES, op_FIREWALLED_ACK_RES, op_FINDBUDDY_RES, op_PONG}"

definition tracked_request_opcode_for_response ::
  "nat \<Rightarrow> ip_addr \<Rightarrow> u8 \<Rightarrow> outbound_tracker \<Rightarrow> u8 option \<times> outbound_tracker" where
  "tracked_request_opcode_for_response now ip op t =
     (if op = op_BOOTSTRAP_RES then find_any now ip [op_BOOTSTRAP_REQ] True t
      else if op = op_HELLO_RES then find_any now ip [op_HELLO_REQ] True t
      else if op = op_HELLO_RES_ACK then find_any now ip [op_HELLO_RES] True t
      else if op = op_RES then find_any now ip [op_REQ] True t
      else if op = op_PUBLISH_RES then
        (case find_any now ip [op_PUBLISH_KEY_REQ, op_PUBLISH_SOURCE_REQ, op_PUBLISH_NOTES_REQ] False t of
           (None, t) \<Rightarrow> (None, t)
         | (Some matched, t) \<Rightarrow> (Some matched, snd (outbound_contains now ip matched True t)))
      else if op = op_FIREWALLED_RES \<or> op = op_FIREWALLED_ACK_RES then
        find_any now ip [op_FIREWALLED_REQ, op_FIREWALLED2_REQ] True t
      else if op = op_FINDBUDDY_RES then find_any now ip [op_FINDBUDDY_REQ] True t
      else if op = op_PONG then find_any now ip [op_PING] True t
      else (None, t))"

subsection \<open>Counters\<close>

datatype work_class = Interactive | Harvest | Maintenance | Publish

record bucket_counters =
  bc_accepted_requests :: u64
  bc_tracker_drops :: u64
  bc_tracker_massive_drops :: u64

record response_counters =
  rc_matched_pending :: u64
  rc_matched_tracked :: u64
  rc_dropped_unrequested :: u64
  rc_accepted_unsolicited :: u64

record class_counters =
  cc_sent_packets :: u64
  cc_delayed_packets :: u64
  cc_total_wait_millis :: u64
  cc_last_sent_at :: "int option"

record rpc_observability =
  ro_decode_failures :: u64
  ro_tracker_buckets :: "tracker_bucket \<rightharpoonup> bucket_counters"
  ro_response_opcodes :: "u8 \<rightharpoonup> response_counters"
  ro_work_classes :: "work_class \<rightharpoonup> class_counters"

definition observability_default :: rpc_observability where
  "observability_default =
     \<lparr> ro_decode_failures = 0, ro_tracker_buckets = Map.empty, ro_response_opcodes = Map.empty,
       ro_work_classes = Map.empty \<rparr>"

definition record_decode_failure :: "rpc_observability \<Rightarrow> rpc_observability" where
  "record_decode_failure ob = ob\<lparr>ro_decode_failures := ro_decode_failures ob + 1\<rparr>"

definition record_tracker_action ::
  "tracker_bucket \<Rightarrow> tracker_action \<Rightarrow> rpc_observability \<Rightarrow> rpc_observability" where
  "record_tracker_action bucket action ob =
     (let c = (case ro_tracker_buckets ob bucket of
          None \<Rightarrow> \<lparr> bc_accepted_requests = 0, bc_tracker_drops = 0, bc_tracker_massive_drops = 0 \<rparr>
        | Some c \<Rightarrow> c);
          c = (case action of
          Allow \<Rightarrow> c\<lparr>bc_accepted_requests := bc_accepted_requests c + 1\<rparr>
        | DropPacket \<Rightarrow> c\<lparr>bc_tracker_drops := bc_tracker_drops c + 1\<rparr>
        | MassiveDrop \<Rightarrow> c\<lparr>bc_tracker_massive_drops := bc_tracker_massive_drops c + 1\<rparr>) in
      ob\<lparr>ro_tracker_buckets := (ro_tracker_buckets ob)(bucket \<mapsto> c)\<rparr>)"

definition response_entry :: "u8 \<Rightarrow> rpc_observability \<Rightarrow> response_counters" where
  "response_entry op ob =
     (case ro_response_opcodes ob op of
        None \<Rightarrow> \<lparr> rc_matched_pending = 0, rc_matched_tracked = 0, rc_dropped_unrequested = 0,
          rc_accepted_unsolicited = 0 \<rparr>
      | Some c \<Rightarrow> c)"

definition record_response_matched_pending :: "u8 \<Rightarrow> rpc_observability \<Rightarrow> rpc_observability" where
  "record_response_matched_pending op ob =
     (let c = response_entry op ob in
      ob\<lparr>ro_response_opcodes := (ro_response_opcodes ob)(op \<mapsto>
        c\<lparr>rc_matched_pending := rc_matched_pending c + 1\<rparr>)\<rparr>)"

definition record_response_matched_tracked :: "u8 \<Rightarrow> rpc_observability \<Rightarrow> rpc_observability" where
  "record_response_matched_tracked op ob =
     (let c = response_entry op ob in
      ob\<lparr>ro_response_opcodes := (ro_response_opcodes ob)(op \<mapsto>
        c\<lparr>rc_matched_tracked := rc_matched_tracked c + 1\<rparr>)\<rparr>)"

definition record_response_dropped_unrequested :: "u8 \<Rightarrow> rpc_observability \<Rightarrow> rpc_observability" where
  "record_response_dropped_unrequested op ob =
     (let c = response_entry op ob in
      ob\<lparr>ro_response_opcodes := (ro_response_opcodes ob)(op \<mapsto>
        c\<lparr>rc_dropped_unrequested := rc_dropped_unrequested c + 1\<rparr>)\<rparr>)"

definition record_response_accepted_unsolicited :: "u8 \<Rightarrow> rpc_observability \<Rightarrow> rpc_observability" where
  "record_response_accepted_unsolicited op ob =
     (let c = response_entry op ob in
      ob\<lparr>ro_response_opcodes := (ro_response_opcodes ob)(op \<mapsto>
        c\<lparr>rc_accepted_unsolicited := rc_accepted_unsolicited c + 1\<rparr>)\<rparr>)"

definition record_work_class_send ::
  "work_class \<Rightarrow> u64 \<Rightarrow> int \<Rightarrow> rpc_observability \<Rightarrow> rpc_observability" where
  "record_work_class_send class wait_millis utc_now ob =
     (let c = (case ro_work_classes ob class of
          None \<Rightarrow> \<lparr> cc_sent_packets = 0, cc_delayed_packets = 0, cc_total_wait_millis = 0,
            cc_last_sent_at = None \<rparr>
        | Some c \<Rightarrow> c);
          c = c\<lparr>cc_sent_packets := cc_sent_packets c + 1,
            cc_total_wait_millis := cc_total_wait_millis c + wait_millis\<rparr>;
          c = (if wait_millis > 0 then c\<lparr>cc_delayed_packets := cc_delayed_packets c + 1\<rparr> else c);
          c = c\<lparr>cc_last_sent_at := Some utc_now\<rparr> in
      ob\<lparr>ro_work_classes := (ro_work_classes ob)(class \<mapsto> c)\<rparr>)"

subsection \<open>State, sending and pending requests\<close>

text \<open>
  \<open>pending\<close> is the hash map in its iteration order. The channel end of an entry is its identifier:
  resolving it is the outcome \<open>ResolvedPending rid packet\<close> below.
\<close>

record pending_entry =
  pe_remote_addr :: socket_addr
  pe_request_opcode :: u8
  pe_expected_opcode :: u8
  pe_created_at :: nat

record rpc_state =
  rpc_obfuscation :: obfuscation_layer
  rpc_tracker :: packet_tracker
  rpc_outbound_tracker :: outbound_tracker
  rpc_pending :: "(u64 \<times> pending_entry) list"
  rpc_next_id :: u64
  rpc_observability :: rpc_observability

record received_packet =
  rk_packet :: kad_packet
  rk_from :: socket_addr
  rk_was_obfuscated :: bool
  rk_sender_verify_key :: "u32 option"
  rk_receiver_verify_key_valid :: bool

record rpc_config =
  rcf_max_inbound_per_ip :: u32
  rcf_max_inbound_search_res_per_ip :: u32
  rcf_flood_window :: nat
  rcf_request_tracking_window :: nat

definition OUTBOUND_WINDOW :: nat where "OUTBOUND_WINDOW = 180 * 1000000000"

definition rpc_new :: "obfuscation_layer \<Rightarrow> rpc_config \<Rightarrow> rpc_state" where
  "rpc_new layer cfg =
     \<lparr> rpc_obfuscation = layer,
       rpc_tracker = tracker_new (rcf_max_inbound_per_ip cfg) (rcf_max_inbound_search_res_per_ip cfg)
         (rcf_flood_window cfg) (rcf_request_tracking_window cfg),
       rpc_outbound_tracker = outbound_new OUTBOUND_WINDOW,
       rpc_pending = [], rpc_next_id = 0, rpc_observability = observability_default \<rparr>"

text \<open>
  What the environment supplies to a send: the monotonic and the wall clock, the wait for the rate
  limiters and the draws of the random generator.
\<close>

record send_env =
  sv_now :: nat
  sv_utc_now :: int
  sv_wait_millis :: u64
  sv_random_key_part :: u16
  sv_marker_bytes :: bytes

text \<open>
  The datagram handed to the transport, and the state; \<open>None\<close> is a panic of \<open>encode\<close> (or, as for
  \<open>kad_encrypt\<close>, a generator that never yields a marker).
\<close>

definition send_with_class ::
  "ext \<Rightarrow> md5_fun \<Rightarrow> send_env \<Rightarrow> socket_addr \<Rightarrow> kad_packet \<Rightarrow> work_class \<Rightarrow> rpc_state \<Rightarrow>
     (bytes \<times> rpc_state) option" where
  "send_with_class B md5 v addr packet class st =
     (let st = st\<lparr>rpc_observability :=
          record_work_class_send class (sv_wait_millis v) (sv_utc_now v) (rpc_observability st)\<rparr> in
      case encode B packet of
        None \<Rightarrow> None
      | Some encoded \<Rightarrow>
          (case kad_encrypt md5 (sv_random_key_part v) (sv_marker_bytes v) (rpc_obfuscation st) addr
              (opcode packet) encoded of
             None \<Rightarrow> None
           | Some wire \<Rightarrow>
               Some (wire, st\<lparr>rpc_outbound_tracker :=
                 record_request (sv_now v) (fst addr) (opcode packet) (rpc_outbound_tracker st)\<rparr>)))"

text \<open>
  \<open>request_with_class\<close> up to its wait: the pending entry, the send, and the removal of the entry if
  the transport reports an error.
\<close>

definition begin_request ::
  "ext \<Rightarrow> md5_fun \<Rightarrow> send_env \<Rightarrow> bool \<Rightarrow> socket_addr \<Rightarrow> kad_packet \<Rightarrow> u8 \<Rightarrow> work_class \<Rightarrow> rpc_state \<Rightarrow>
     (u64 \<times> bytes \<times> rpc_state) option" where
  "begin_request B md5 v transport_ok addr packet expected_opcode class st =
     (let rid = rpc_next_id st;
          st = st\<lparr>rpc_next_id := rid + 1,
            rpc_pending := AList.update rid
              \<lparr> pe_remote_addr = addr, pe_request_opcode = opcode packet,
                pe_expected_opcode = expected_opcode, pe_created_at = sv_now v \<rparr> (rpc_pending st)\<rparr> in
      case send_with_class B md5 v addr packet class st of
        None \<Rightarrow> None
      | Some (wire, st) \<Rightarrow>
          Some (rid, wire, if transport_ok then st
            else st\<lparr>rpc_pending := AList.delete rid (rpc_pending st)\<rparr>))"

text \<open>The wait ends without an answer: a timeout or a closed channel.\<close>

definition end_request :: "u64 \<Rightarrow> rpc_state \<Rightarrow> rpc_state" where
  "end_request rid st = st\<lparr>rpc_pending := AList.delete rid (rpc_pending st)\<rparr>"

subsection \<open>Receiving\<close>

text \<open>\<open>min_by_key\<close>: the first of the entries with the smallest key.\<close>

fun min_by_created :: "(u64 \<times> pending_entry) list \<Rightarrow> u64 option" where
  "min_by_created [] = None"
| "min_by_created (x # xs) =
     Some (fst (foldl (\<lambda>best y. if pe_created_at (snd y) < pe_created_at (snd best) then y else best) x xs))"

definition match_pending :: "socket_addr \<Rightarrow> u8 \<Rightarrow> (u64 \<times> pending_entry) list \<Rightarrow> u64 option" where
  "match_pending from response_opcode pending =
     (case min_by_created (filter (\<lambda>(_, e). pe_remote_addr e = from \<and>
          pe_expected_opcode e = response_opcode) pending) of
        Some rid \<Rightarrow> Some rid
      | None \<Rightarrow> min_by_created (filter (\<lambda>(_, e). fst (pe_remote_addr e) = fst from \<and>
          pe_expected_opcode e = response_opcode) pending))"

datatype receive_outcome =
    DecodeFailed proto_error
  | TrackerDropped tracker_bucket
  | MassiveFlood socket_addr
  | ResolvedPending u64 kad_packet
  | UnrequestedResponse
  | Unsolicited received_packet "u8 option"

definition learn_from_packet ::
  "socket_addr \<Rightarrow> kad_packet \<Rightarrow> u32 option \<Rightarrow> obfuscation_layer \<Rightarrow> obfuscation_layer" where
  "learn_from_packet from packet sender_verify_key layer =
     (let inbound = inspect_inbound_packet packet;
          layer = (case ii_peer_id inbound of None \<Rightarrow> layer
            | Some peer_id \<Rightarrow> register_peer_identity from peer_id layer);
          layer = (case ii_kad_version inbound of None \<Rightarrow> layer
            | Some v \<Rightarrow> register_peer_version from v layer) in
      if should_learn_sender_verify_key (opcode packet) then
        (case sender_verify_key of None \<Rightarrow> layer | Some key \<Rightarrow> register_peer_key from key layer)
      else layer)"

text \<open>The receive loop after the flood check.\<close>

definition dispatch_packet ::
  "nat \<Rightarrow> received_packet \<Rightarrow> rpc_state \<Rightarrow> receive_outcome \<times> rpc_state" where
  "dispatch_packet now rk st =
     (let response_opcode = opcode (rk_packet rk);
          matched = match_pending (rk_from rk) response_opcode (rpc_pending st);
          st = (case matched of None \<Rightarrow> st
            | Some rid \<Rightarrow> st\<lparr>rpc_pending := AList.delete rid (rpc_pending st)\<rparr>);
          (tracked, ot) = tracked_request_opcode_for_response now (fst (rk_from rk)) response_opcode
            (rpc_outbound_tracker st);
          st = st\<lparr>rpc_outbound_tracker := ot\<rparr> in
      case matched of
        Some rid \<Rightarrow>
          (ResolvedPending rid (rk_packet rk),
           st\<lparr>rpc_observability := record_response_matched_pending response_opcode (rpc_observability st)\<rparr>)
      | None \<Rightarrow>
          if is_tracked_response_opcode response_opcode \<and> tracked = None then
            (UnrequestedResponse,
             st\<lparr>rpc_observability := record_response_dropped_unrequested response_opcode (rpc_observability st)\<rparr>)
          else
            (Unsolicited rk tracked,
             st\<lparr>rpc_observability :=
               (if is_tracked_response_opcode response_opcode
                then record_response_matched_tracked response_opcode (rpc_observability st)
                else record_response_accepted_unsolicited response_opcode (rpc_observability st))\<rparr>))"

definition receive_datagram ::
  "ext \<Rightarrow> md5_fun \<Rightarrow> nat \<Rightarrow> socket_addr \<Rightarrow> bytes \<Rightarrow> rpc_state \<Rightarrow> receive_outcome \<times> rpc_state" where
  "receive_datagram B md5 now from data st =
     (let dr = kad_decrypt md5 (rpc_obfuscation st) from data in
      case decode B (dr_data dr) of
        Inl e \<Rightarrow> (DecodeFailed e,
          st\<lparr>rpc_observability := record_decode_failure (rpc_observability st)\<rparr>)
      | Inr packet \<Rightarrow>
          let rk = \<lparr> rk_packet = packet, rk_from = from, rk_was_obfuscated = dr_was_obfuscated dr,
                rk_sender_verify_key = dr_sender_verify_key dr,
                rk_receiver_verify_key_valid = dr_receiver_verify_key_valid dr \<rparr>;
              st = st\<lparr>rpc_obfuscation :=
                learn_from_packet from packet (dr_sender_verify_key dr) (rpc_obfuscation st)\<rparr> in
          case ii_tracker_bucket (inspect_inbound_packet packet) of
            None \<Rightarrow> dispatch_packet now rk st
          | Some bucket \<Rightarrow>
              let (decision, tracker) = record_and_check now
                    \<lparr> tk_ip = fst from, tk_bucket = bucket \<rparr> (rpc_tracker st);
                  st = st\<lparr>rpc_tracker := tracker, rpc_observability :=
                    record_tracker_action bucket (td_action decision) (rpc_observability st)\<rparr> in
              if \<not> td_allowed decision then
                ((if td_action decision = MassiveDrop then MassiveFlood from else TrackerDropped bucket), st)
              else dispatch_packet now rk st)"

end
