(* ===== verification/Kad_Unsolicited.thy ===== *)
theory Kad_Unsolicited
  imports Routing_Table Kad_Store Snoop_Queue Kad_Firewall Kad_Rpc
begin

text \<open>
  How the agent serves unsolicited Kad packets:
  \<open>crates/overlord-agent-emule/src/agent/kad_unsolicited.rs\<close> with the hello building blocks of
  \<open>agent/kad_runtime.rs\<close>, the recording of searches of \<open>agent/snoop.rs\<close> and
  \<open>agent/passive_replay.rs\<close>, and the part of \<open>DhtNode\<close> (\<open>overlord-kad-dht/src/node/routing.rs\<close>,
  \<open>node/contact_helpers.rs\<close>) they call. The state is the composition of the states of the routing
  table, the RPC manager, the publish store, the snoop queue and the firewall verification.
  Spawned tasks are outputs. The panic of \<open>encode\<close> on a packet that cannot be written is \<open>None\<close>.
\<close>

subsection \<open>State\<close>

record harvest_family =
  hf_observed_requests :: u64
  hf_unique_shapes_observed :: u64
  hf_queued_entries :: u32
  hf_last_seen_at :: "int option"
  hf_last_from :: "rstring option"
  hf_last_target :: "rstring option"
  hf_last_start_position :: "u16 option"
  hf_last_size :: "u64 option"
  hf_last_restrictive_bytes :: "u32 option"

record harvest_observability =
  ho_keyword_requests :: harvest_family
  ho_source_requests :: harvest_family
  ho_notes_requests :: harvest_family

record snoop_observation =
  so_family :: snoop_family
  so_logical_key :: rstring
  so_target :: rstring
  so_start_position :: "u16 option"
  so_size :: "u64 option"
  so_restrictive_payload_hex :: "rstring option"
  so_observed_at :: int

text \<open>
  \<open>ag_bind_port\<close> and \<open>ag_tcp_port\<close> are the ports of the bound sockets, \<open>None\<close> when the socket
  reports an error; \<open>ag_client_id\<close> is the verdict of the eD2k server, if any.
\<close>

record agent =
  ag_own_id :: node_id
  ag_bind_port :: "u16 option"
  ag_tcp_port :: "u16 option"
  ag_client_id :: "u32 option"
  ag_rpc :: rpc_state
  ag_table :: routing_table
  ag_store :: kad_store
  ag_queue :: snoop_queue
  ag_observed :: "snoop_observation list"
  ag_harvest :: harvest_observability
  ag_firewall :: firewall_state

datatype agent_output =
    Datagram socket_addr bytes
  | SpawnFirewalledResponse socket_addr u16
  | SpawnModernFirewalledResponse socket_addr u16 ed2k_hash u8
  | SpawnFirewalledCheck socket_addr u8

datatype handler_error = BindAddrUnavailable | ListenerAddrUnavailable

text \<open>The clocks and draws a handler reads; the \<open>i\<close>-th send of a handler uses \<open>he_sends i\<close>.\<close>

record handler_env =
  he_utc_now :: int
  he_now :: nat
  he_sends :: "nat \<Rightarrow> send_env"

definition LOCAL_KEYWORD_SEARCH_RESPONSE_LIMIT :: nat where "LOCAL_KEYWORD_SEARCH_RESPONSE_LIMIT = 300"
definition LOCAL_SOURCE_SEARCH_RESPONSE_LIMIT :: nat where "LOCAL_SOURCE_SEARCH_RESPONSE_LIMIT = 300"
definition LOCAL_NOTES_SEARCH_RESPONSE_LIMIT :: nat where "LOCAL_NOTES_SEARCH_RESPONSE_LIMIT = 150"
definition LOCAL_SEARCH_RESPONSE_MAX_PACKET_BYTES :: nat where
  "LOCAL_SEARCH_RESPONSE_MAX_PACKET_BYTES = 1420"

definition KAD_VERSION :: u8 where "KAD_VERSION = 10"
definition tn_KADMISCOPTIONS :: u8 where "tn_KADMISCOPTIONS = 0xF2"

subsection \<open>Hello metadata\<close>

record hello_metadata =
  hm_hello_source_udp_port :: "u16 option"
  hm_udp_firewalled :: bool
  hm_tcp_firewalled :: bool
  hm_requests_hello_res_ack :: bool

fun read_u16_tag_value :: "tag_value \<Rightarrow> u16 option" where
  "read_u16_tag_value (U16 port) = Some port"
| "read_u16_tag_value (U32 port) = (if unat port < 2 ^ 16 then Some (ucast port) else None)"
| "read_u16_tag_value (U8 port) = Some (ucast port)"
| "read_u16_tag_value (UInt port) = (if unat port < 2 ^ 16 then Some (ucast port) else None)"
| "read_u16_tag_value _ = None"

fun read_u8_tag_value :: "tag_value \<Rightarrow> u8 option" where
  "read_u8_tag_value (U8 bits) = Some bits"
| "read_u8_tag_value (U16 bits) = (if unat bits < 2 ^ 8 then Some (ucast bits) else None)"
| "read_u8_tag_value (U32 bits) = (if unat bits < 2 ^ 8 then Some (ucast bits) else None)"
| "read_u8_tag_value (UInt bits) = (if unat bits < 2 ^ 8 then Some (ucast bits) else None)"
| "read_u8_tag_value _ = None"

definition hello_metadata_default :: hello_metadata where
  "hello_metadata_default =
     \<lparr> hm_hello_source_udp_port = None, hm_udp_firewalled = False, hm_tcp_firewalled = False,
       hm_requests_hello_res_ack = False \<rparr>"

definition hello_metadata_step :: "hello_metadata \<Rightarrow> tag \<Rightarrow> hello_metadata" where
  "hello_metadata_step metadata t =
     (case tg_name t of
        Short name \<Rightarrow>
          if name = tn_SOURCEUPORT then
            metadata\<lparr>hm_hello_source_udp_port :=
              (case read_u16_tag_value (tg_value t) of
                 None \<Rightarrow> None
               | Some port \<Rightarrow> if port \<noteq> 0 then Some port else None)\<rparr>
          else if name = tn_KADMISCOPTIONS then
            (case read_u8_tag_value (tg_value t) of
               None \<Rightarrow> metadata
             | Some bits \<Rightarrow>
                 metadata\<lparr>hm_udp_firewalled := (bits AND 0x01 \<noteq> 0),
                   hm_tcp_firewalled := (bits AND 0x02 \<noteq> 0),
                   hm_requests_hello_res_ack := (bits AND 0x04 \<noteq> 0)\<rparr>)
          else metadata
      | _ \<Rightarrow> metadata)"

definition parse_kad_hello_metadata :: "tag list \<Rightarrow> hello_metadata" where
  "parse_kad_hello_metadata tags = foldl hello_metadata_step hello_metadata_default tags"

definition is_low_id :: "u32 \<Rightarrow> bool" where
  "is_low_id client_id \<longleftrightarrow> client_id < 0x01000000"

definition current_tcp_firewalled :: "agent \<Rightarrow> bool" where
  "current_tcp_firewalled ag =
     (case ag_client_id ag of
        Some client_id \<Rightarrow> is_low_id client_id
      | None \<Rightarrow> (case ag_tcp_port ag of None \<Rightarrow> True | Some port \<Rightarrow> port = 0))"

definition misc_options :: "bool \<Rightarrow> bool \<Rightarrow> bool \<Rightarrow> u8" where
  "misc_options udp_firewalled tcp_firewalled request_ack =
     of_bool udp_firewalled OR push_bit 1 (of_bool tcp_firewalled) OR push_bit 2 (of_bool request_ack)"

definition build_kad_hello_response_tags :: "u16 \<Rightarrow> bool \<Rightarrow> bool \<Rightarrow> bool \<Rightarrow> tag list" where
  "build_kad_hello_response_tags kad_udp_port udp_firewalled tcp_firewalled request_ack =
     [new_short tn_SOURCEUPORT (U16 kad_udp_port),
      new_short tn_KADMISCOPTIONS (U8 (misc_options udp_firewalled tcp_firewalled request_ack))]"

definition build_kad_hello_request_tags :: "u16 \<Rightarrow> bool \<Rightarrow> bool \<Rightarrow> bool \<Rightarrow> bool \<Rightarrow> tag list" where
  "build_kad_hello_request_tags kad_udp_port can_advertise_source_udp_port udp_firewalled tcp_firewalled
       request_ack =
     (if request_ack \<or> udp_firewalled \<or> tcp_firewalled then
        [new_short tn_KADMISCOPTIONS (U8 (misc_options udp_firewalled tcp_firewalled request_ack))]
      else if can_advertise_source_udp_port then [new_short tn_SOURCEUPORT (U16 kad_udp_port)]
      else [])"

definition should_request_hello_response_ack :: "u8 \<Rightarrow> bool \<Rightarrow> u32 option \<Rightarrow> bool" where
  "should_request_hello_response_ack peer_version receiver_verify_key_valid sender_verify_key \<longleftrightarrow>
     peer_version \<ge> 8 \<and> \<not> receiver_verify_key_valid \<and> sender_verify_key \<noteq> None"

definition build_hello_response :: "bool \<Rightarrow> agent \<Rightarrow> handler_error + hello_res" where
  "build_hello_response request_ack ag =
     (case ag_bind_port ag of
        None \<Rightarrow> Inl BindAddrUnavailable
      | Some bind_port \<Rightarrow>
          (case ag_tcp_port ag of
             None \<Rightarrow> Inl ListenerAddrUnavailable
           | Some tcp_port \<Rightarrow>
               Inr \<lparr> hs_node_id = ag_own_id ag, hs_tcp_port = tcp_port, hs_version = KAD_VERSION,
                 hs_tags = build_kad_hello_response_tags bind_port
                   (udp_verified (ag_firewall ag) \<and> \<not> udp_open (ag_firewall ag))
                   (current_tcp_firewalled ag) request_ack \<rparr>))"

definition build_hello_request :: "bool \<Rightarrow> agent \<Rightarrow> handler_error + hello_req" where
  "build_hello_request request_ack ag =
     (case ag_bind_port ag of
        None \<Rightarrow> Inl BindAddrUnavailable
      | Some bind_port \<Rightarrow>
          (case ag_tcp_port ag of
             None \<Rightarrow> Inl ListenerAddrUnavailable
           | Some tcp_port \<Rightarrow>
               Inr \<lparr> hq_node_id = ag_own_id ag, hq_tcp_port = tcp_port, hq_version = KAD_VERSION,
                 hq_tags = build_kad_hello_request_tags bind_port
                   (udp_verified (ag_firewall ag) \<and> udp_open (ag_firewall ag))
                   (udp_verified (ag_firewall ag) \<and> \<not> udp_open (ag_firewall ag))
                   (current_tcp_firewalled ag) request_ack \<rparr>))"

subsection \<open>Contacts\<close>

definition addr_from_contact :: "contact \<Rightarrow> socket_addr" where
  "addr_from_contact contact = (V4 (c_ip contact), c_udp_port contact)"

text \<open>
  \<open>DhtNode::add_contact\<close>: fill in a known verify key, register what the contact says about its
  endpoint, and add it to the table.
\<close>

definition with_known_key :: "obfuscation_layer \<Rightarrow> contact \<Rightarrow> contact" where
  "with_known_key layer contact =
     (if c_udp_key contact = udp_key_ZERO then
        (case receiver_verify_key_for_addr layer (addr_from_contact contact) of
           Some known_udp_key \<Rightarrow> contact\<lparr>c_udp_key := KadUdpKey known_udp_key\<rparr>
         | None \<Rightarrow> contact)
      else contact)"

definition register_contact :: "contact \<Rightarrow> obfuscation_layer \<Rightarrow> obfuscation_layer" where
  "register_contact contact layer =
     (let addr = addr_from_contact contact;
          layer = register_peer_identity addr (c_id contact) layer;
          layer = register_peer_version addr (c_kad_version contact) layer in
      if c_udp_key contact \<noteq> udp_key_ZERO
      then register_peer_key addr (udp_key_value (c_udp_key contact)) layer else layer)"

definition dht_add_contact :: "contact \<Rightarrow> agent \<Rightarrow> ((routing_error + unit) \<times> agent) option" where
  "dht_add_contact contact ag =
     (let layer = rpc_obfuscation (ag_rpc ag);
          contact = with_known_key layer contact;
          ag = ag\<lparr>ag_rpc := (ag_rpc ag)\<lparr>rpc_obfuscation := register_contact contact layer\<rparr>\<rparr> in
      case add_contact contact (ag_table ag) of
        None \<Rightarrow> None
      | Some (res, table) \<Rightarrow> Some (res, ag\<lparr>ag_table := table\<rparr>))"

definition dht_register_peer_key :: "socket_addr \<Rightarrow> u32 \<Rightarrow> agent \<Rightarrow> agent" where
  "dht_register_peer_key addr key ag =
     ag\<lparr>ag_rpc := (ag_rpc ag)\<lparr>rpc_obfuscation := register_peer_key addr key (rpc_obfuscation (ag_rpc ag))\<rparr>\<rparr>"

definition closest_contacts :: "node_id \<Rightarrow> nat \<Rightarrow> agent \<Rightarrow> contact list" where
  "closest_contacts target limit ag = get_closest target limit (ag_table ag)"

text \<open>The handler of massive floods: the contact behind the endpoint leaves the table.\<close>

definition expire_contact_for_massive_flood :: "socket_addr \<Rightarrow> agent \<Rightarrow> agent" where
  "expire_contact_for_massive_flood addr ag =
     (case fst addr of
        V6 _ \<Rightarrow> ag
      | V4 ip \<Rightarrow>
          (case find (\<lambda>c. c_ip c = ip \<and> c_udp_port c = snd addr) (all_contacts (ag_table ag)) of
             None \<Rightarrow> ag
           | Some c \<Rightarrow> ag\<lparr>ag_table := snd (table_remove (c_id c) (ag_table ag))\<rparr>))"

definition hello_contact ::
  "nat \<Rightarrow> ipv4 \<Rightarrow> u16 \<Rightarrow> node_id \<Rightarrow> u16 \<Rightarrow> u8 \<Rightarrow> u32 option \<Rightarrow> hello_metadata \<Rightarrow> contact" where
  "hello_contact now ip from_port node_id tcp_port version udp_key metadata =
     (let contact = contact_new node_id ip
            (case hm_hello_source_udp_port metadata of None \<Rightarrow> from_port | Some port \<Rightarrow> port)
            tcp_port version now;
          contact = contact\<lparr>c_hello_source_udp_port := hm_hello_source_udp_port metadata,
            c_udp_firewalled := hm_udp_firewalled metadata,
            c_tcp_firewalled := hm_tcp_firewalled metadata,
            c_requests_hello_res_ack := hm_requests_hello_res_ack metadata\<rparr> in
      case udp_key of None \<Rightarrow> contact | Some key \<Rightarrow> contact\<lparr>c_udp_key := KadUdpKey key\<rparr>)"

definition add_contact_from_hello ::
  "handler_env \<Rightarrow> socket_addr \<Rightarrow> node_id \<Rightarrow> u16 \<Rightarrow> u8 \<Rightarrow> u32 option \<Rightarrow> tag list \<Rightarrow> agent \<Rightarrow>
     (hello_metadata \<times> agent) option" where
  "add_contact_from_hello v from node_id tcp_port version udp_key tags ag =
     (let metadata = parse_kad_hello_metadata tags;
          metadata = (if version < 8 then metadata\<lparr>hm_requests_hello_res_ack := False\<rparr> else metadata) in
      case fst from of
        V6 _ \<Rightarrow> Some (metadata, ag)
      | V4 ip \<Rightarrow>
          if hm_udp_firewalled metadata then Some (metadata, ag)
          else map_option (\<lambda>(_, ag). (metadata, ag))
            (dht_add_contact (hello_contact (he_now v) ip (snd from) node_id tcp_port version udp_key metadata) ag))"

definition contact_to_entry :: "contact \<Rightarrow> contact_entry" where
  "contact_to_entry contact =
     \<lparr> ce_node_id = c_id contact,
       ce_ip = (case c_ip contact of Ipv4 a b c d \<Rightarrow> u32_from_le_bytes d c b a), ce_udp_port = c_udp_port contact,
       ce_tcp_port = c_tcp_port contact, ce_version = c_kad_version contact \<rparr>"

subsection \<open>Recording searches\<close>

definition socket_addr_to_string :: "socket_addr \<Rightarrow> rstring" where
  "socket_addr_to_string addr =
     (case fst addr of
        V4 _ \<Rightarrow> ip_to_string (fst addr) @ [0x3A] @ show_nat (unat (snd addr))
      | V6 _ \<Rightarrow> [0x5B] @ ip_to_string (fst addr) @ [0x5D, 0x3A] @ show_nat (unat (snd addr)))"

definition update_harvest_family ::
  "snoop_entry \<Rightarrow> (harvest_family \<Rightarrow> harvest_family) \<Rightarrow> harvest_observability \<Rightarrow> harvest_observability" where
  "update_harvest_family entry f ho =
     (case entry_family entry of
        Keyword \<Rightarrow> ho\<lparr>ho_keyword_requests := f (ho_keyword_requests ho)\<rparr>
      | Source \<Rightarrow> ho\<lparr>ho_source_requests := f (ho_source_requests ho)\<rparr>
      | Notes \<Rightarrow> ho\<lparr>ho_notes_requests := f (ho_notes_requests ho)\<rparr>)"

definition apply_harvest_record ::
  "socket_addr \<Rightarrow> snoop_entry \<Rightarrow> bool \<Rightarrow> harvest_observability \<Rightarrow> harvest_observability" where
  "apply_harvest_record from entry is_new =
     update_harvest_family entry (\<lambda>family.
       let family = family\<lparr>hf_observed_requests := hf_observed_requests family + 1\<rparr>;
           family = (if is_new
             then family\<lparr>hf_unique_shapes_observed := hf_unique_shapes_observed family + 1\<rparr> else family);
           family = family\<lparr>hf_last_seen_at := Some (en_last_seen entry),
             hf_last_from := Some (socket_addr_to_string from), hf_last_target := Some (en_target entry)\<rparr> in
       case entry of
         KeywordEntry _ _ start_position payload _ _ _ _ \<Rightarrow>
           family\<lparr>hf_last_start_position := Some start_position, hf_last_size := None,
             hf_last_restrictive_bytes := Some (case payload of None \<Rightarrow> 0
               | Some hex \<Rightarrow> of_nat (length hex div 2))\<rparr>
       | SourceEntry _ _ start_position sz _ _ _ _ \<Rightarrow>
           family\<lparr>hf_last_start_position := Some start_position, hf_last_size := Some sz,
             hf_last_restrictive_bytes := None\<rparr>
       | NotesEntry _ _ sz _ _ _ _ \<Rightarrow>
           family\<lparr>hf_last_start_position := None, hf_last_size := Some sz,
             hf_last_restrictive_bytes := None\<rparr>)"

fun observation_of :: "snoop_entry \<Rightarrow> snoop_observation" where
  "observation_of (KeywordEntry logical_key tgt start_position payload _ _ last_seen _) =
     \<lparr> so_family = Keyword, so_logical_key = logical_key, so_target = tgt,
       so_start_position = Some start_position, so_size = None,
       so_restrictive_payload_hex = payload, so_observed_at = last_seen \<rparr>"
| "observation_of (SourceEntry logical_key tgt start_position sz _ _ last_seen _) =
     \<lparr> so_family = Source, so_logical_key = logical_key, so_target = tgt,
       so_start_position = Some start_position, so_size = Some sz,
       so_restrictive_payload_hex = None, so_observed_at = last_seen \<rparr>"
| "observation_of (NotesEntry logical_key tgt sz _ _ last_seen _) =
     \<lparr> so_family = Notes, so_logical_key = logical_key, so_target = tgt,
       so_start_position = None, so_size = Some sz,
       so_restrictive_payload_hex = None, so_observed_at = last_seen \<rparr>"

definition record_snoop_entry :: "socket_addr \<Rightarrow> snoop_entry \<Rightarrow> agent \<Rightarrow> agent" where
  "record_snoop_entry from entry ag =
     (let (outcome, queue) = record_entry entry (ag_queue ag) in
      ag\<lparr>ag_queue := queue,
         ag_harvest := apply_harvest_record from entry (ro_is_new outcome) (ag_harvest ag),
         ag_observed := ag_observed ag @ [observation_of entry]\<rparr>)"

subsection \<open>Paging search responses\<close>

definition encoded_search_response_len ::
  "ext \<Rightarrow> node_id \<Rightarrow> node_id \<Rightarrow> search_result_entry list \<Rightarrow> nat option" where
  "encoded_search_response_len B sender_id target results =
     map_option length (encode B (SearchRes
       \<lparr> sr_sender_id = sender_id, sr_target = target, sr_results = results \<rparr>))"

text \<open>The loop over the results, with the pages so far and the current page.\<close>

fun split_loop ::
  "ext \<Rightarrow> node_id \<Rightarrow> node_id \<Rightarrow> nat \<Rightarrow> search_result_entry list list \<Rightarrow> search_result_entry list \<Rightarrow>
     search_result_entry list \<Rightarrow> search_result_entry list list option" where
  "split_loop B sender_id target max_bytes pages current [] =
     Some (if current \<noteq> [] then pages @ [current] else pages)"
| "split_loop B sender_id target max_bytes pages current (result # results) =
     (if current = [] then split_loop B sender_id target max_bytes pages [result] results
      else
        let candidate = current @ [result] in
        case encoded_search_response_len B sender_id target candidate of
          None \<Rightarrow> None
        | Some len \<Rightarrow>
            if len > max_bytes
            then split_loop B sender_id target max_bytes (pages @ [current]) [result] results
            else split_loop B sender_id target max_bytes pages candidate results)"

definition split_stock_search_responses :: "ext \<Rightarrow> search_res \<Rightarrow> nat \<Rightarrow> search_res list option" where
  "split_stock_search_responses B response max_packet_bytes =
     (if max_packet_bytes = 0 \<or> length (sr_results response) \<le> 1 then Some [response]
      else map_option (map (\<lambda>results. \<lparr> sr_sender_id = sr_sender_id response,
          sr_target = sr_target response, sr_results = results \<rparr>))
        (split_loop B (sr_sender_id response) (sr_target response) max_packet_bytes [] []
          (sr_results response)))"

subsection \<open>The handler\<close>

text \<open>\<open>DhtNode::send_packet\<close>: an interactive send; the datagram is an output.\<close>

definition dht_send_packet ::
  "ext \<Rightarrow> md5_fun \<Rightarrow> send_env \<Rightarrow> socket_addr \<Rightarrow> kad_packet \<Rightarrow> agent \<Rightarrow> (agent_output list \<times> agent) option" where
  "dht_send_packet B md5 v addr packet ag =
     map_option (\<lambda>(wire, rpc). ([Datagram addr wire], ag\<lparr>ag_rpc := rpc\<rparr>))
       (send_with_class B md5 v addr packet Interactive (ag_rpc ag))"

type_synonym handler_result = "((handler_error + unit) \<times> agent_output list \<times> agent) option"

definition done_with :: "(agent_output list \<times> agent) option \<Rightarrow> handler_result" where
  "done_with r = map_option (Pair (Inr ())) r"

fun send_pages ::
  "ext \<Rightarrow> md5_fun \<Rightarrow> (nat \<Rightarrow> send_env) \<Rightarrow> nat \<Rightarrow> socket_addr \<Rightarrow> search_res list \<Rightarrow> agent \<Rightarrow>
     (agent_output list \<times> agent) option" where
  "send_pages B md5 vs i addr [] ag = Some ([], ag)"
| "send_pages B md5 vs i addr (page # pages) ag =
     (case dht_send_packet B md5 (vs i) addr (SearchRes page) ag of
        None \<Rightarrow> None
      | Some (out, ag) \<Rightarrow> map_option (map_prod ((@) out) id) (send_pages B md5 vs (Suc i) addr pages ag))"

definition answer_search ::
  "ext \<Rightarrow> md5_fun \<Rightarrow> handler_env \<Rightarrow> socket_addr \<Rightarrow> search_res option \<times> kad_store \<Rightarrow> agent \<Rightarrow>
     (agent_output list \<times> agent) option" where
  "answer_search B md5 v from answer ag =
     (let ag = ag\<lparr>ag_store := snd answer\<rparr> in
      case fst answer of
        None \<Rightarrow> Some ([], ag)
      | Some response \<Rightarrow>
          (case split_stock_search_responses B response LOCAL_SEARCH_RESPONSE_MAX_PACKET_BYTES of
             None \<Rightarrow> None
           | Some pages \<Rightarrow> send_pages B md5 (he_sends v) 0 from pages ag))"

definition answer_publish ::
  "ext \<Rightarrow> md5_fun \<Rightarrow> handler_env \<Rightarrow> socket_addr \<Rightarrow> node_id \<Rightarrow> u8 option \<times> kad_store \<Rightarrow> agent \<Rightarrow>
     (agent_output list \<times> agent) option" where
  "answer_publish B md5 v from target answer ag =
     (let ag = ag\<lparr>ag_store := snd answer\<rparr> in
      case fst answer of
        None \<Rightarrow> Some ([], ag)
      | Some load \<Rightarrow> dht_send_packet B md5 (he_sends v 0) from
          (PublishRes \<lparr> pr_target = target, pr_load = load, pr_options = None \<rparr>) ag)"

definition register_sender_key :: "socket_addr \<Rightarrow> u32 option \<Rightarrow> agent \<Rightarrow> agent" where
  "register_sender_key from sender_verify_key ag =
     (case sender_verify_key of None \<Rightarrow> ag | Some udp_key \<Rightarrow> dht_register_peer_key from udp_key ag)"

definition handle_hello_req ::
  "ext \<Rightarrow> md5_fun \<Rightarrow> handler_env \<Rightarrow> received_packet \<Rightarrow> hello_req \<Rightarrow> agent \<Rightarrow> handler_result" where
  "handle_hello_req B md5 v rk req ag =
     (let ag = register_sender_key (rk_from rk) (rk_sender_verify_key rk) ag in
      case add_contact_from_hello v (rk_from rk) (hq_node_id req) (hq_tcp_port req) (hq_version req)
          (rk_sender_verify_key rk) (hq_tags req) ag of
        None \<Rightarrow> None
      | Some (_, ag) \<Rightarrow>
          let request_ack = should_request_hello_response_ack (hq_version req)
                (rk_receiver_verify_key_valid rk) (rk_sender_verify_key rk) in
          case build_hello_response request_ack ag of
            Inl e \<Rightarrow> Some (Inl e, [], ag)
          | Inr res \<Rightarrow>
              map_option (\<lambda>(out, ag). (Inr (), out @ [SpawnFirewalledCheck (rk_from rk) (hq_version req)], ag))
                (dht_send_packet B md5 (he_sends v 0) (rk_from rk) (HelloRes res) ag))"

definition handle_hello_res ::
  "ext \<Rightarrow> md5_fun \<Rightarrow> handler_env \<Rightarrow> received_packet \<Rightarrow> hello_res \<Rightarrow> agent \<Rightarrow> handler_result" where
  "handle_hello_res B md5 v rk res ag =
     (let ag = register_sender_key (rk_from rk) (rk_sender_verify_key rk) ag in
      case add_contact_from_hello v (rk_from rk) (hs_node_id res) (hs_tcp_port res) (hs_version res)
          (rk_sender_verify_key rk) (hs_tags res) ag of
        None \<Rightarrow> None
      | Some (metadata, ag) \<Rightarrow>
          map_option (\<lambda>(out, ag). (Inr (), out @ [SpawnFirewalledCheck (rk_from rk) (hs_version res)], ag))
            (if hm_requests_hello_res_ack metadata \<and> rk_sender_verify_key rk \<noteq> None then
               dht_send_packet B md5 (he_sends v 0) (rk_from rk)
                 (HelloResAck \<lparr> ha_node_id = ag_own_id ag, ha_tags = [] \<rparr>) ag
             else Some ([], ag)))"

definition handle_unsolicited_packet ::
  "ext \<Rightarrow> md5_fun \<Rightarrow> hex_ext \<Rightarrow> (rstring \<Rightarrow> rstring) \<Rightarrow> handler_env \<Rightarrow> received_packet \<Rightarrow> agent \<Rightarrow>
     handler_result" where
  "handle_unsolicited_packet B md5 H L v rk ag =
     (let from = rk_from rk; send = dht_send_packet B md5 (he_sends v 0) from in
      case rk_packet rk of
        Ping \<Rightarrow> done_with (send (Pong \<lparr> po_udp_port = snd from \<rparr>) ag)
      | FirewalledReq req \<Rightarrow> Some (Inr (), [SpawnFirewalledResponse from (fw_tcp_port req)], ag)
      | Firewalled2Req req \<Rightarrow>
          Some (Inr (), [SpawnModernFirewalledResponse from (fw2_tcp_port req) (fw2_user_hash req)
            (fw2_connect_options req)], ag)
      | FirewallUdp packet \<Rightarrow>
          (case record_firewall_udp_packet (fst from) (fu_error_code packet) (fu_udp_port packet)
              (he_utc_now v) (ag_firewall ag) of
             None \<Rightarrow> None
           | Some (_, firewall) \<Rightarrow> Some (Inr (), [], ag\<lparr>ag_firewall := firewall\<rparr>))
      | HelloReq req \<Rightarrow> handle_hello_req B md5 v rk req ag
      | HelloRes res \<Rightarrow> handle_hello_res B md5 v rk res ag
      | BootstrapReq \<Rightarrow>
          (case ag_bind_port ag of
             None \<Rightarrow> Some (Inl BindAddrUnavailable, [], ag)
           | Some bind_port \<Rightarrow>
               done_with (send (BootstrapRes \<lparr> bsr_sender_id = ag_own_id ag, bsr_sender_tcp_port = bind_port,
                 bsr_sender_version = KAD_VERSION,
                 bsr_contacts = map contact_to_entry (closest_contacts (ag_own_id ag) K ag) \<rparr>) ag))
      | Req req \<Rightarrow>
          done_with (send (Res \<lparr> rs_target = rq_target req,
            rs_contacts = map contact_to_entry (closest_contacts (rq_target req) (unat (rq_count req)) ag) \<rparr>) ag)
      | SearchKeyReq req \<Rightarrow>
          (let ag = record_snoop_entry from (build_keyword_snoop_entry H req (he_utc_now v)) ag in
           done_with (answer_search B md5 v from (keyword_search_response L (ag_own_id ag) req
             LOCAL_KEYWORD_SEARCH_RESPONSE_LIMIT (he_utc_now v) (ag_store ag)) ag))
      | SearchSourceReq req \<Rightarrow>
          (let ag = record_snoop_entry from (build_source_snoop_entry req (he_utc_now v)) ag in
           done_with (answer_search B md5 v from (source_search_response (ag_own_id ag) req
             LOCAL_SOURCE_SEARCH_RESPONSE_LIMIT (he_utc_now v) (ag_store ag)) ag))
      | SearchNotesReq req \<Rightarrow>
          (let ag = record_snoop_entry from (build_notes_snoop_entry req (he_utc_now v)) ag in
           done_with (answer_search B md5 v from (notes_search_response (ag_own_id ag) req
             LOCAL_NOTES_SEARCH_RESPONSE_LIMIT (he_utc_now v) (ag_store ag)) ag))
      | PublishKeyReq req \<Rightarrow>
          (let (load, store) = record_keyword_publish_batch (pk_target req) (pk_entries req)
                 (he_utc_now v) (ag_store ag) in
           done_with (answer_publish B md5 v from (pk_target req) (Some load, store) ag))
      | PublishSourceReq req \<Rightarrow>
          done_with (answer_publish B md5 v from (ps_target req)
            (case fst from of
               V4 ip \<Rightarrow> record_source_publish (ps_target req) (ps_publisher_id req) ip (snd from)
                 (ps_tags req) (he_utc_now v) (ag_store ag)
             | V6 _ \<Rightarrow> (None, ag_store ag)) ag)
      | PublishNotesReq req \<Rightarrow>
          done_with (answer_publish B md5 v from (pn_target req)
            (case fst from of
               V4 ip \<Rightarrow> record_notes_publish (pn_target req) (pn_publisher_id req) ip (pn_tags req)
                 (he_utc_now v) (ag_store ag)
             | V6 _ \<Rightarrow> (None, ag_store ag)) ag)
      | _ \<Rightarrow> Some (Inr (), [], ag))"

subsection \<open>The agent and its socket\<close>

text \<open>
  One datagram through the receive loop of the RPC manager and, if it is an unsolicited packet,
  through the subscriber task that calls the handler; a massive flood calls the handler that
  \<open>DhtNode::new\<close> installs. The tasks run one after the other here.
\<close>

definition agent_receive ::
  "ext \<Rightarrow> md5_fun \<Rightarrow> hex_ext \<Rightarrow> (rstring \<Rightarrow> rstring) \<Rightarrow> handler_env \<Rightarrow> socket_addr \<Rightarrow> bytes \<Rightarrow> agent \<Rightarrow>
     (receive_outcome \<times> agent_output list \<times> agent) option" where
  "agent_receive B md5 H L v from data ag =
     (let (out, rpc) = receive_datagram B md5 (he_now v) from data (ag_rpc ag);
          ag = ag\<lparr>ag_rpc := rpc\<rparr> in
      case out of
        Unsolicited rk _ \<Rightarrow>
          map_option (\<lambda>(_, outputs, ag). (out, outputs, ag)) (handle_unsolicited_packet B md5 H L v rk ag)
      | MassiveFlood addr \<Rightarrow> Some (out, [], expire_contact_for_massive_flood addr ag)
      | _ \<Rightarrow> Some (out, [], ag))"

end
