(* ===== verification/Kad_Packet_Codec.thy ===== *)
theory Kad_Packet_Codec
  imports Kad_Packet
begin

text \<open>
  The correctness of the Kad packet codec. \<open>packet_valid\<close> is what Rust's types guarantee of a
  packet (its strings are well-formed), \<open>packet_fits\<close> that no count or length overflows its
  prefix, \<open>packet_norm\<close> the form in which a packet comes back from the wire.
\<close>

subsection \<open>Specification\<close>

definition tags_fit :: "tag list \<Rightarrow> bool" where
  "tags_fit ts \<longleftrightarrow> length ts < 256 \<and> (\<forall>t \<in> set ts. tag_fits t)"

fun packet_tags :: "kad_packet \<Rightarrow> tag list" where
  "packet_tags (HelloReq p) = hq_tags p"
| "packet_tags (HelloRes p) = hs_tags p"
| "packet_tags (HelloResAck p) = ha_tags p"
| "packet_tags (SearchRes p) = concat (map se_tags (sr_results p))"
| "packet_tags (PublishKeyReq p) = concat (map pe_tags (pk_entries p))"
| "packet_tags (PublishSourceReq p) = ps_tags p"
| "packet_tags (PublishNotesReq p) = pn_tags p"
| "packet_tags _ = []"

definition packet_valid :: "kad_packet \<Rightarrow> bool" where
  "packet_valid p \<longleftrightarrow> (\<forall>t \<in> set (packet_tags p). tag_valid t)"

fun packet_fits :: "kad_packet \<Rightarrow> bool" where
  "packet_fits (BootstrapRes p) \<longleftrightarrow> length (bsr_contacts p) < 65536"
| "packet_fits (HelloReq p) \<longleftrightarrow> tags_fit (hq_tags p)"
| "packet_fits (HelloRes p) \<longleftrightarrow> tags_fit (hs_tags p)"
| "packet_fits (HelloResAck p) \<longleftrightarrow> tags_fit (ha_tags p)"
| "packet_fits (Res p) \<longleftrightarrow> length (rs_contacts p) < 256"
| "packet_fits (SearchRes p) \<longleftrightarrow>
     length (sr_results p) < 65536 \<and> (\<forall>e \<in> set (sr_results p). tags_fit (se_tags e))"
| "packet_fits (PublishKeyReq p) \<longleftrightarrow>
     length (pk_entries p) < 65536 \<and> (\<forall>e \<in> set (pk_entries p). tags_fit (pe_tags e))"
| "packet_fits (PublishSourceReq p) \<longleftrightarrow> tags_fit (ps_tags p)"
| "packet_fits (PublishNotesReq p) \<longleftrightarrow> tags_fit (pn_tags p)"
| "packet_fits _ \<longleftrightarrow> True"

abbreviation tags_norm :: "tag list \<Rightarrow> tag list" where
  "tags_norm \<equiv> map tag_norm"

definition se_norm :: "search_result_entry \<Rightarrow> search_result_entry" where
  "se_norm e = e\<lparr>se_tags := tags_norm (se_tags e)\<rparr>"

definition pe_norm :: "publish_entry \<Rightarrow> publish_entry" where
  "pe_norm e = e\<lparr>pe_tags := tags_norm (pe_tags e)\<rparr>"

fun packet_norm :: "kad_packet \<Rightarrow> kad_packet" where
  "packet_norm (HelloReq p) = HelloReq (p\<lparr>hq_tags := tags_norm (hq_tags p)\<rparr>)"
| "packet_norm (HelloRes p) = HelloRes (p\<lparr>hs_tags := tags_norm (hs_tags p)\<rparr>)"
| "packet_norm (HelloResAck p) = HelloResAck (p\<lparr>ha_tags := tags_norm (ha_tags p)\<rparr>)"
| "packet_norm (SearchSourceReq p) =
     SearchSourceReq (p\<lparr>ss_start_position := ss_start_position p AND 0x7FFF\<rparr>)"
| "packet_norm (SearchRes p) = SearchRes (p\<lparr>sr_results := map se_norm (sr_results p)\<rparr>)"
| "packet_norm (PublishKeyReq p) = PublishKeyReq (p\<lparr>pk_entries := map pe_norm (pk_entries p)\<rparr>)"
| "packet_norm (PublishSourceReq p) = PublishSourceReq (p\<lparr>ps_tags := tags_norm (ps_tags p)\<rparr>)"
| "packet_norm (PublishNotesReq p) = PublishNotesReq (p\<lparr>pn_tags := tags_norm (pn_tags p)\<rparr>)"
| "packet_norm p = p"

definition known_opcodes :: "u8 list" where
  "known_opcodes =
     [op_BOOTSTRAP_REQ, op_BOOTSTRAP_RES, op_HELLO_REQ, op_HELLO_RES, op_HELLO_RES_ACK, op_REQ,
      op_RES, op_SEARCH_KEY_REQ, op_SEARCH_SOURCE_REQ, op_SEARCH_NOTES_REQ, op_SEARCH_RES,
      op_PUBLISH_KEY_REQ, op_PUBLISH_SOURCE_REQ, op_PUBLISH_NOTES_REQ, op_PUBLISH_RES,
      op_PUBLISH_RES_ACK, op_FIREWALLED_REQ, op_FIREWALLED2_REQ, op_FIREWALLED_RES,
      op_FIREWALLED_ACK_RES, op_FIREWALLUDP, op_FINDBUDDY_REQ, op_CALLBACK_REQ, op_FINDBUDDY_RES,
      op_PING, op_PONG]"

text \<open>An \<open>Unknown\<close> packet whose opcode is not one of the others.\<close>

fun packet_canonical :: "kad_packet \<Rightarrow> bool" where
  "packet_canonical (Unknown op payload) \<longleftrightarrow> op \<notin> set known_opcodes"
| "packet_canonical _ \<longleftrightarrow> True"

subsection \<open>Elements\<close>

lemma read_node_id_end [wire_simps]:
  "binrw_ok B \<Longrightarrow> read_node_id B (write_node_id B x) = Inr (x, [])"
  using read_node_id [of B x "[]"] by simp

interpretation contact_entries: codec "read_contact_entry B" "write_contact_entry B"
    "\<lambda>_. binrw_ok B" "\<lambda>c. c" for B
  by standard (simp add: read_contact_entry_def write_contact_entry_def wire_simps)

interpretation contacts16: codec "read_vec16 B (read_contact_entry B)"
    "write_vec16 B (write_contact_entry B)"
    "\<lambda>xs. binrw_ok B \<and> length xs < 65536 \<and> (\<forall>x \<in> set xs. binrw_ok B)" "map (\<lambda>c. c)" for B
  by (rule contact_entries.vec16_codec)

interpretation contacts8: codec "read_vec8 B (read_contact_entry B)"
    "write_vec8 B (write_contact_entry B)"
    "\<lambda>xs. binrw_ok B \<and> length xs < 256 \<and> (\<forall>x \<in> set xs. binrw_ok B)" "map (\<lambda>c. c)" for B
  by (rule contact_entries.vec8_codec)

interpretation tags8: codec "read_vec8 B (read_with_mode B mode)" "write_vec8 B (write_tag B)"
    "\<lambda>ts. binrw_ok B \<and> length ts < 256 \<and> (\<forall>t \<in> set ts. binrw_ok B \<and> tag_valid t \<and> tag_fits t)"
    tags_norm for B mode
  by (rule tags.vec8_codec)

lemma tags8_obtain:
  assumes "tags_fit ts" "binrw_ok B" "\<forall>t \<in> set ts. tag_valid t"
  obtains s where "write_vec8 B (write_tag B) ts = Some s"
    and "\<And>r. read_vec8 B (read_with_mode B mode) (s @ r) = Inr (tags_norm ts, r)"
    and "read_vec8 B (read_with_mode B mode) s = Inr (tags_norm ts, [])"
  using tags8.round_trip [of B ts mode] assms unfolding tags_fit_def by (metis append_Nil2)

interpretation publish_entries: codec "read_publish_entry B" "write_publish_entry B"
    "\<lambda>e. binrw_ok B \<and> tags_fit (pe_tags e) \<and> (\<forall>t \<in> set (pe_tags e). tag_valid t)" pe_norm for B
proof
  fix e :: publish_entry and B
  assume *: "binrw_ok B \<and> tags_fit (pe_tags e) \<and> (\<forall>t \<in> set (pe_tags e). tag_valid t)"
  then obtain s where "write_vec8 B (write_tag B) (pe_tags e) = Some s"
      "\<And>r. read_vec8 B (read_with_mode B LossyUtf8) (s @ r) = Inr (tags_norm (pe_tags e), r)"
    using tags8_obtain by metis
  with * show "\<exists>s. write_publish_entry B e = Some s \<and>
      (\<forall>r. read_publish_entry B (s @ r) = Inr (pe_norm e, r))"
    by (simp add: write_publish_entry_def read_publish_entry_def read_tag_def wire_simps pe_norm_def)
qed

lemma entry_id_round_trip [wire_simps]:
  "binrw_ok B \<Longrightarrow>
     read_kad_search_entry_id B (write_kad_search_entry_id B h @ r) = Inr (h, r)"
  by (cases h) (simp add: read_kad_search_entry_id_def write_kad_search_entry_id_def wire_simps
      to_be_bytes_from_be_bytes)

interpretation search_entries: codec "read_search_result_entry B" "write_search_result_entry B"
    "\<lambda>e. binrw_ok B \<and> tags_fit (se_tags e) \<and> (\<forall>t \<in> set (se_tags e). tag_valid t)" se_norm for B
proof
  fix e :: search_result_entry and B
  assume *: "binrw_ok B \<and> tags_fit (se_tags e) \<and> (\<forall>t \<in> set (se_tags e). tag_valid t)"
  then obtain s where "write_vec8 B (write_tag B) (se_tags e) = Some s"
      "\<And>r. read_vec8 B (read_with_mode B SearchResult) (s @ r) = Inr (tags_norm (se_tags e), r)"
    using tags8_obtain by metis
  with * show "\<exists>s. write_search_result_entry B e = Some s \<and>
      (\<forall>r. read_search_result_entry B (s @ r) = Inr (se_norm e, r))"
    by (simp add: write_search_result_entry_def read_search_result_entry_def wire_simps se_norm_def)
qed

subsection \<open>Round trip of a packet body\<close>

lemma read_opt_u8_write [wire_simps]:
  "binrw_ok B \<Longrightarrow> read_opt_u8 B (write_opt_u8 B x) = Inr (x, [])"
  by (cases x) (simp_all add: read_opt_u8_def write_opt_u8_def wire_simps)

lemma read_le_Inr [simp]: "rd s = Inr (x, r) \<Longrightarrow> read_le rd s = Inr x"
  by (simp add: read_le_def)

lemma packet_of_simps [simp]: "packet_of c (Inr x) = Inr (c x)" "packet_of c (Inl e) = Inl e"
  by (simp_all add: packet_of_def)

lemmas fixed_defs =
  read_kad_req_def write_kad_req_def read_search_key_req_def write_search_key_req_def
  read_search_notes_req_def write_search_notes_req_def read_publish_res_def write_publish_res_def
  read_firewalled_req_def write_firewalled_req_def read_firewalled2_req_def
  write_firewalled2_req_def read_firewalled_res_def write_firewalled_res_def
  read_firewall_udp_def write_firewall_udp_def read_find_buddy_req_def write_find_buddy_req_def
  read_find_buddy_res_def write_find_buddy_res_def read_callback_req_def write_callback_req_def
  read_pong_def write_pong_def read_to_end_def

text \<open>What a packet body must satisfy for the round trip of the whole packet.\<close>

definition body_ok :: "ext \<Rightarrow> kad_packet \<Rightarrow> bool" where
  "body_ok B p \<longleftrightarrow>
     (\<exists>s. encode_body B p = Some s \<and> decode_body B (opcode p) s = Inr (packet_norm p))"

lemma body_okI:
  "encode_body B p = Some s \<Longrightarrow> decode_body B (opcode p) s = Inr (packet_norm p) \<Longrightarrow> body_ok B p"
  by (auto simp: body_ok_def)

lemmas body_simps =
  body_ok_def encode_body_def decode_body_def opcode_def opcode_defs require_body_len_def
  require_min_body_len_def wire_simps

lemma body_ok_fixed:
  assumes "binrw_ok B"
  shows "body_ok B BootstrapReq" "body_ok B (Req rq)" "body_ok B (SearchKeyReq sk)"
    "body_ok B (SearchNotesReq sn)" "body_ok B (PublishRes pr)" "body_ok B PublishResAck"
    "body_ok B (FirewalledReq fw)" "body_ok B (Firewalled2Req fw2)" "body_ok B (FirewalledRes fr)"
    "body_ok B FirewalledAckRes" "body_ok B (FirewallUdp fu)" "body_ok B (FindBuddyReq fb)"
    "body_ok B (FindBuddyRes fs)" "body_ok B (CallbackReq cb)" "body_ok B Ping"
    "body_ok B (Pong po)"
  using assms by (simp_all add: body_simps fixed_defs)

lemma body_ok_search_source:
  assumes "binrw_ok B"
  shows "body_ok B (SearchSourceReq p)"
proof -
  have "read_search_source_req B
      (write_node_id B (ss_target p) @ bw_u16 B (ss_start_position p) @ bw_u64 B (ss_size p)) =
    Inr (p\<lparr>ss_start_position := ss_start_position p AND 0x7FFF\<rparr>)"
    using assms by (simp add: read_search_source_req_def wire_simps)
  then show ?thesis
    by (simp add: body_simps write_search_source_req_def)
qed

lemma body_ok_contacts:
  assumes "binrw_ok B"
  shows "packet_fits (BootstrapRes p) \<Longrightarrow> body_ok B (BootstrapRes p)"
    and "packet_fits (Res q) \<Longrightarrow> body_ok B (Res q)"
proof -
  assume "packet_fits (BootstrapRes p)"
  then obtain s where "write_vec16 B (write_contact_entry B) (bsr_contacts p) = Some s"
      "read_vec16 B (read_contact_entry B) s = Inr (bsr_contacts p, [])"
    using contacts16.round_trip [of B "bsr_contacts p"] assms by (auto dest: spec [of _ "[]"])
  then show "body_ok B (BootstrapRes p)"
    using assms by (simp add: body_simps read_bootstrap_res_def write_bootstrap_res_def)
next
  assume "packet_fits (Res q)"
  then obtain s where "write_vec8 B (write_contact_entry B) (rs_contacts q) = Some s"
      "read_vec8 B (read_contact_entry B) s = Inr (rs_contacts q, [])"
    using contacts8.round_trip [of B "rs_contacts q"] assms by (auto dest: spec [of _ "[]"])
  then show "body_ok B (Res q)"
    using assms by (simp add: body_simps read_kad_res_def write_kad_res_def)
qed

lemma body_ok_tags:
  assumes "binrw_ok B"
  shows "packet_valid (HelloReq a) \<Longrightarrow> packet_fits (HelloReq a) \<Longrightarrow> body_ok B (HelloReq a)"
    and "packet_valid (HelloRes b) \<Longrightarrow> packet_fits (HelloRes b) \<Longrightarrow> body_ok B (HelloRes b)"
    and "packet_valid (HelloResAck c) \<Longrightarrow> packet_fits (HelloResAck c) \<Longrightarrow> body_ok B (HelloResAck c)"
    and "packet_valid (PublishSourceReq d) \<Longrightarrow> packet_fits (PublishSourceReq d) \<Longrightarrow>
      body_ok B (PublishSourceReq d)"
    and "packet_valid (PublishNotesReq e) \<Longrightarrow> packet_fits (PublishNotesReq e) \<Longrightarrow>
      body_ok B (PublishNotesReq e)"
  using assms
  by (auto simp: packet_valid_def body_simps read_tag_def read_hello_req_def write_hello_req_def
      read_hello_res_def write_hello_res_def read_hello_res_ack_def write_hello_res_ack_def
      read_publish_source_req_def write_publish_source_req_def read_publish_notes_req_def
      write_publish_notes_req_def elim!: tags8_obtain [where mode = LossyUtf8])

lemma body_ok_entries:
  assumes "binrw_ok B"
  shows "packet_valid (SearchRes p) \<Longrightarrow> packet_fits (SearchRes p) \<Longrightarrow> body_ok B (SearchRes p)"
    and "packet_valid (PublishKeyReq q) \<Longrightarrow> packet_fits (PublishKeyReq q) \<Longrightarrow>
      body_ok B (PublishKeyReq q)"
proof -
  assume "packet_valid (SearchRes p)" "packet_fits (SearchRes p)"
  with assms have "binrw_ok B \<and> length (sr_results p) < 65536 \<and> (\<forall>e \<in> set (sr_results p).
      binrw_ok B \<and> tags_fit (se_tags e) \<and> (\<forall>t \<in> set (se_tags e). tag_valid t))"
    by (auto simp: packet_valid_def)
  then obtain s where "write_vec16 B (write_search_result_entry B) (sr_results p) = Some s"
      "read_vec16 B (read_search_result_entry B) s = Inr (map se_norm (sr_results p), [])"
    using codec.round_trip [OF search_entries.vec16_codec] by (metis append_Nil2)
  then show "body_ok B (SearchRes p)"
    using assms by (simp add: body_simps read_search_res_def write_search_res_def)
next
  assume "packet_valid (PublishKeyReq q)" "packet_fits (PublishKeyReq q)"
  with assms have "binrw_ok B \<and> length (pk_entries q) < 65536 \<and> (\<forall>e \<in> set (pk_entries q).
      binrw_ok B \<and> tags_fit (pe_tags e) \<and> (\<forall>t \<in> set (pe_tags e). tag_valid t))"
    by (auto simp: packet_valid_def)
  then obtain s where "write_vec16 B (write_publish_entry B) (pk_entries q) = Some s"
      "read_vec16 B (read_publish_entry B) s = Inr (map pe_norm (pk_entries q), [])"
    using codec.round_trip [OF publish_entries.vec16_codec] by (metis append_Nil2)
  then show "body_ok B (PublishKeyReq q)"
    using assms by (simp add: body_simps read_publish_key_req_def write_publish_key_req_def)
qed

lemma body_ok_Unknown: "packet_canonical (Unknown op s) \<Longrightarrow> body_ok B (Unknown op s)"
  by (simp add: body_ok_def encode_body_def opcode_def decode_body_def known_opcodes_def)

lemma body_round_trip:
  assumes "binrw_ok B" "packet_valid p" "packet_fits p" "packet_canonical p"
  shows "body_ok B p"
  using assms
  by (cases p) (simp_all add: body_ok_fixed body_ok_search_source body_ok_contacts body_ok_tags
      body_ok_entries body_ok_Unknown)

lemma decode_plain: "decode B (OP_KADEMLIAHEADER # op # body) = decode_body B op body"
  by (simp add: decode_def opcode_defs)

lemma encode_Some:
  "binrw_ok B \<Longrightarrow> encode_body B p = Some s \<Longrightarrow>
     encode B p = Some (OP_KADEMLIAHEADER # opcode p # s)"
  by (simp add: encode_def wire_simps)

text \<open>
  C6. Decoding inverts encoding: for every packet whose strings are well-formed, whose counts and
  lengths fit their prefixes and whose opcode is its own, \<open>encode\<close> returns a buffer and \<open>decode\<close> of
  that buffer returns the packet in normal form (compact integers at their wire width, one-byte
  names as short names, the source-search offset without its top bit), for every implementation
  of the integer readers and writers that satisfies their contract.
\<close>

theorem packet_round_trip:
  assumes "binrw_ok B" and "packet_valid p" and "packet_fits p" and "packet_canonical p"
  shows "\<exists>s. encode B p = Some s \<and> decode B s = Inr (packet_norm p)"
  using body_round_trip [OF assms] encode_Some [OF assms(1)] decode_plain
  unfolding body_ok_def by metis

theorem packet_round_trip_witness:
  "let B = le_ext id (\<lambda>_. None); p = HelloReq \<lparr> hq_node_id = nid_ZERO, hq_tcp_port = 4662,
       hq_version = 8, hq_tags = [new_long [0x66] (UInt 300)] \<rparr> in
     binrw_ok B \<and> packet_valid p \<and> packet_fits p \<and> packet_canonical p \<and>
     (\<exists>s. encode B p = Some s \<and> decode B s = Inr (HelloReq \<lparr> hq_node_id = nid_ZERO,
       hq_tcp_port = 4662, hq_version = 8, hq_tags = [new_short 0x66 (U16 300)] \<rparr>))"
proof -
  let ?B = "le_ext id (\<lambda>_. None)"
  let ?p = "HelloReq \<lparr> hq_node_id = nid_ZERO, hq_tcp_port = 4662,
       hq_version = 8, hq_tags = [new_long [0x66] (UInt 300)] \<rparr>"
  have ok: "packet_valid ?p" "packet_fits ?p"
    by (simp_all add: packet_valid_def tag_valid_def new_long_def utf8_char_def utf8_lead_def
        tags_fit_def tag_fits_def)
  show ?thesis
    using packet_round_trip [of ?B ?p] ok
    by (simp add: tag_norm_def new_long_def new_short_def)
qed

subsection \<open>Panics of the encoder\<close>

lemma write_vec_None:
  "write_vec8 B wr xs = None \<longleftrightarrow> \<not> length xs < 256 \<or> (\<exists>x \<in> set xs. wr x = None)"
  "write_vec16 B wr xs = None \<longleftrightarrow> \<not> length xs < 65536 \<or> (\<exists>x \<in> set xs. wr x = None)"
  using write_n_None [of wr xs]
  by (auto simp: write_vec8_def write_vec16_def try_u8_def try_u16_def wconcat.simps(2)
      split: option.splits)

lemma write_tags_None: "write_vec8 B (write_tag B) ts = None \<longleftrightarrow> \<not> tags_fit ts"
  by (auto simp: write_vec_None write_tag_None tags_fit_def)

lemma write_elements_None:
  "write_contact_entry B c \<noteq> None"
  "write_search_result_entry B e = None \<longleftrightarrow> \<not> tags_fit (se_tags e)"
  "write_publish_entry B f = None \<longleftrightarrow> \<not> tags_fit (pe_tags f)"
  by (simp_all add: write_contact_entry_def write_search_result_entry_def write_publish_entry_def
      wconcat_None write_tags_None)

lemma write_lists_None:
  "write_vec16 B (write_contact_entry B) cs = None \<longleftrightarrow> \<not> length cs < 65536"
  "write_vec8 B (write_contact_entry B) cs = None \<longleftrightarrow> \<not> length cs < 256"
  "write_vec16 B (write_search_result_entry B) es = None \<longleftrightarrow>
     \<not> (length es < 65536 \<and> (\<forall>e \<in> set es. tags_fit (se_tags e)))"
  "write_vec16 B (write_publish_entry B) fs = None \<longleftrightarrow>
     \<not> (length fs < 65536 \<and> (\<forall>f \<in> set fs. tags_fit (pe_tags f)))"
  unfolding write_vec_None by (auto simp only: write_elements_None)

lemma encode_body_None: "encode_body B p = None \<longleftrightarrow> \<not> packet_fits p"
  by (cases p) (simp_all add: encode_body_def fixed_defs write_search_source_req_def
      write_bootstrap_res_def write_kad_res_def write_hello_req_def write_hello_res_def
      write_hello_res_ack_def write_publish_source_req_def write_publish_notes_req_def
      write_search_res_def write_publish_key_req_def wconcat_None write_tags_None
      write_lists_None)

text \<open>
  \<open>encode\<close> panics exactly on the packets with a count or a length that does not fit its
  prefix: more than 255 tags or \<open>RES\<close> contacts, more than 65535 contacts, results or entries, a tag
  name or string of more than 65535 bytes, a blob or small blob over its prefix.
\<close>

theorem encode_panics_iff: "encode B p = None \<longleftrightarrow> \<not> packet_fits p"
  by (simp add: encode_def wconcat_None encode_body_None)

subsection \<open>What decoding returns\<close>

interpretation valid_tags8: sound_reader "read_vec8 B (read_with_mode B mode)"
    "\<lambda>ts. length ts < 256 \<and> (\<forall>t \<in> set ts. encoding_ok B \<longrightarrow> tag_valid t)" for B mode
  by (rule valid_tags.vec8_sound)

interpretation valid_results: sound_reader "read_search_result_entry B"
    "\<lambda>e. \<forall>t \<in> set (se_tags e). encoding_ok B \<longrightarrow> tag_valid t" for B
  by standard (auto simp: read_search_result_entry_def rbind_eq_Inr dest!: valid_tags8.sound)

interpretation valid_entries: sound_reader "read_publish_entry B"
    "\<lambda>e. \<forall>t \<in> set (pe_tags e). encoding_ok B \<longrightarrow> tag_valid t" for B
  by standard
    (auto simp: read_publish_entry_def read_tag_def rbind_eq_Inr dest!: valid_tags8.sound)

lemma read_le_eq_Inr: "read_le rd s = Inr x \<longleftrightarrow> (\<exists>r. rd s = Inr (x, r))"
  by (auto simp: read_le_def split: sum.splits)

lemma packet_of_eq_Inr: "packet_of c res = Inr p \<longleftrightarrow> (\<exists>x. res = Inr x \<and> p = c x)"
  by (auto simp: packet_of_def bind_res_eq_Inr)

lemma decode_body_opcode: "decode_body B op body = Inr p \<Longrightarrow> opcode p = op"
  unfolding decode_body_def
  by (auto simp: packet_of_eq_Inr bind_res_eq_Inr opcode_def split: if_splits)

lemma tag_readers_valid:
  assumes "encoding_ok B"
  shows "read_hello_req B s = Inr (a, r) \<Longrightarrow> packet_valid (HelloReq a)"
    and "read_hello_res B s = Inr (b, r) \<Longrightarrow> packet_valid (HelloRes b)"
    and "read_hello_res_ack B s = Inr (c, r) \<Longrightarrow> packet_valid (HelloResAck c)"
    and "read_publish_source_req B s = Inr (d, r) \<Longrightarrow> packet_valid (PublishSourceReq d)"
    and "read_publish_notes_req B s = Inr (e, r) \<Longrightarrow> packet_valid (PublishNotesReq e)"
  using assms
  by (auto simp: packet_valid_def read_tag_def rbind_eq_Inr read_hello_req_def read_hello_res_def
      read_hello_res_ack_def read_publish_source_req_def read_publish_notes_req_def
      dest!: valid_tags8.sound)

lemma entry_readers_valid:
  assumes "encoding_ok B"
  shows "read_search_res B s = Inr (a, r) \<Longrightarrow> packet_valid (SearchRes a)"
    and "read_publish_key_req B s = Inr (b, r) \<Longrightarrow> packet_valid (PublishKeyReq b)"
  using assms
  by (auto simp: packet_valid_def rbind_eq_Inr read_search_res_def read_publish_key_req_def
      dest!: sound_reader.sound [OF valid_results.vec16_sound]
        sound_reader.sound [OF valid_entries.vec16_sound])

lemma decode_body_valid:
  assumes "encoding_ok B" "decode_body B op body = Inr p"
  shows "packet_valid p"
proof -
  have "packet_valid p" if "packet_tags p = []"
    using that by (simp add: packet_valid_def)
  with assms show ?thesis
    unfolding decode_body_def
    by (auto simp: packet_of_eq_Inr read_le_eq_Inr bind_res_eq_Inr
        intro: tag_readers_valid entry_readers_valid split: if_splits)
qed

text \<open>The opcode and the body that a buffer carries, or the error of the framing.\<close>

lemma decode_eq_Inr:
  "decode B buf = Inr p \<Longrightarrow> \<exists>body. 2 \<le> length buf \<and> decode_body B (buf ! 1) body = Inr p"
  by (auto simp: decode_def bind_res_eq_Inr split: if_splits option.splits)

text \<open>
  C40. Whatever \<open>decode\<close> returns for an arbitrary buffer has the opcode of the buffer's second byte,
  and every string in it is well-formed UTF-8, provided the external code-page decoder returns
  well-formed strings.
\<close>

theorem decode_valid:
  assumes "encoding_ok B" and "decode B buf = Inr p"
  shows "packet_valid p \<and> opcode p = buf ! 1"
  using decode_eq_Inr [OF assms(2)] decode_body_opcode decode_body_valid [OF assms(1)] by blast

text \<open>A hello acknowledgment with one string tag, given by the bytes of the string.\<close>

definition ack_buffer :: "ext \<Rightarrow> bytes \<Rightarrow> bytes" where
  "ack_buffer B str =
     OP_KADEMLIAHEADER # op_HELLO_RES_ACK # write_node_id B nid_ZERO @
     [1, 0x82, 0x01] @ bw_u16 B (of_nat (length str)) @ str"

lemma decode_ack_buffer:
  assumes "binrw_ok B" "length str < 65536"
  shows "decode B (ack_buffer B str) =
    Inr (HelloResAck \<lparr> ha_node_id = nid_ZERO, ha_tags = [new_short 0x01 (String (from_utf8_lossy str))] \<rparr>)"
proof -
  have "read_exact (length str) str = Inr (str, [])"
    using read_exact_append [of str "length str" "[]"] by simp
  then show ?thesis
    using assms unfolding ack_buffer_def decode_plain
    by (simp add: decode_body_def opcode_defs read_hello_res_ack_def read_vec8_def read_tag_def
        read_with_mode_def read_tag_name_def read_tag_value_def wire_simps new_short_def
        decode_string_bytes_def)
qed

theorem decode_valid_witness:
  "let B = le_ext (\<lambda>_. []) (\<lambda>_. None); buf = ack_buffer B [0x41, 0xFF];
       p = HelloResAck \<lparr> ha_node_id = nid_ZERO,
         ha_tags = [new_short 0x01 (String [0x41, 0xEF, 0xBF, 0xBD])] \<rparr> in
     encoding_ok B \<and> decode B buf = Inr p \<and> packet_valid p \<and> opcode p = buf ! 1"
proof -
  let ?B = "le_ext (\<lambda>_. []) (\<lambda>_. None)"
  have "from_utf8_lossy [0x41, 0xFF] = [0x41, 0xEF, 0xBF, 0xBD]"
    by (simp add: utf8_char_def utf8_lead_def utf8_REPLACEMENT_def)
  then show ?thesis
    using decode_ack_buffer [of ?B "[0x41, 0xFF]"]
      decode_valid [of ?B "ack_buffer ?B [0x41, 0xFF]"] by simp
qed

text \<open>
  A decoded packet need not be encodable: replacing ill-formed bytes can triple a string, so
  there is a buffer of less than 22000 bytes that \<open>decode\<close> accepts and whose packet makes
  \<open>encode\<close> panic.
\<close>

theorem lossy_reencode_panics:
  assumes "binrw_ok B"
  shows "\<exists>buf p. length buf < 22000 \<and> decode B buf = Inr p \<and> encode B p = None"
proof -
  let ?str = "replicate 21846 (0xFF :: u8)"
  let ?p = "HelloResAck \<lparr> ha_node_id = nid_ZERO,
    ha_tags = [new_short 0x01 (String (from_utf8_lossy ?str))] \<rparr>"
  have "length (from_utf8_lossy ?str) = 65538"
    by (simp add: from_utf8_lossy_invalid length_concat sum_list_replicate map_replicate)
  then have "\<not> packet_fits ?p"
    by (simp add: tags_fit_def tag_fits_def new_short_def)
  moreover have "length (ack_buffer B ?str) < 22000"
    using assms by (simp add: ack_buffer_def wire_simps)
  ultimately show ?thesis
    using decode_ack_buffer [OF assms, of ?str] encode_body_None [of B ?p]
    by (intro exI [of _ "ack_buffer B ?str"] exI [of _ ?p])
      (simp add: encode_def wconcat_None)
qed

theorem lossy_reencode_panics_witness:
  "binrw_ok (le_ext id (\<lambda>_. None)) \<and>
   (\<exists>buf p. length buf < 22000 \<and> decode (le_ext id (\<lambda>_. None)) buf = Inr p \<and>
     encode (le_ext id (\<lambda>_. None)) p = None)"
  using lossy_reencode_panics [of "le_ext id (\<lambda>_. None)"] by simp

subsection \<open>Body sizes\<close>

text \<open>A reader of fixed width: it fails with an I/O error exactly on shorter streams.\<close>

definition width :: "'a reader \<Rightarrow> nat \<Rightarrow> bool" where
  "width rd w \<longleftrightarrow>
     (\<forall>s. length s < w \<longrightarrow> rd s = Inl BinIo) \<and> (\<forall>s. w \<le> length s \<longrightarrow> (\<exists>x. rd s = Inr (x, drop w s)))"

lemma width_prim: "prim_ok w rd wr \<Longrightarrow> width rd w"
  unfolding width_def prim_ok_def by metis

lemma width_rret: "width (rret x) 0"
  by (simp add: width_def)

lemma width_rbind: "width rd w \<Longrightarrow> (\<And>x. width (f x) v) \<Longrightarrow> width (rbind rd f) (w + v)"
  unfolding width_def rbind_def
  by (smt (verit) add.commute bind_res_simps case_prod_conv drop_drop le_add1 le_diff_conv2
      length_drop not_le order_trans add_lessD1)

lemma width_read_n: "width rd w \<Longrightarrow> width (read_n n rd) (n * w)"
  by (induction n) (auto intro!: width_rret width_rbind dest: width_rbind [OF _ width_rret])

definition min_width :: "'a reader \<Rightarrow> nat \<Rightarrow> bool" where
  "min_width rd w \<longleftrightarrow>
     (\<forall>s. length s < w \<longrightarrow> rd s = Inl BinIo) \<and> (\<forall>s. w \<le> length s \<longrightarrow> (\<exists>y. rd s = Inr y))"

lemma width_min: "width rd w \<Longrightarrow> min_width rd w"
  unfolding width_def min_width_def by metis

lemma min_width_rbind:
  assumes rd: "width rd w" and f: "\<And>x. min_width (f x) v"
  shows "min_width (rbind rd f) (w + v)"
  unfolding min_width_def
proof (intro conjI allI impI)
  fix s :: bytes
  show "rbind rd f s = Inl BinIo" if "length s < w + v"
  proof (cases "length s < w")
    case False
    with rd obtain x where "rd s = Inr (x, drop w s)"
      unfolding width_def by (meson not_le)
    with that False f [of x] show ?thesis
      by (simp add: min_width_def)
  qed (use rd in \<open>simp add: width_def\<close>)
  show "\<exists>y. rbind rd f s = Inr y" if "w + v \<le> length s"
  proof -
    from rd that obtain x where "rd s = Inr (x, drop w s)"
      unfolding width_def by (meson add_leD1)
    with that f [of x] show ?thesis
      by (simp add: min_width_def)
  qed
qed

lemma min_width_last:
  assumes "min_width rd 0"
  shows "min_width (rbind rd (\<lambda>x. rret (g x))) 0"
proof -
  have "\<exists>x r. rd s = Inr (x, r)" for s
    using assms by (simp add: min_width_def)
  then have "\<exists>y. rbind rd (\<lambda>x. rret (g x)) s = Inr y" for s
    by (metis rbind_Inr rret_apply)
  then show ?thesis
    by (simp add: min_width_def)
qed

lemma min_width_read_le:
  assumes "min_width rd w"
  shows "length s < w \<Longrightarrow> packet_of c (read_le rd s) = Inl (BinRw BinIo)"
    and "w \<le> length s \<Longrightarrow> \<exists>p. packet_of c (read_le rd s) = Inr p"
    and "w \<le> length s \<Longrightarrow> \<exists>p. read_le rd s = Inr p"
  using assms by (force simp: min_width_def read_le_def)+

lemma width_prims:
  assumes "binrw_ok B"
  shows "width (br_u8 B) 1" "width (br_u16 B) 2" "width (br_u32 B) 4" "width (br_u64 B) 8"
    "width (read_node_id B) 16" "width (read_ed2k_hash B) 16"
    "min_width (read_opt_u8 B) 0"
proof -
  show u8: "width (br_u8 B) 1" and "width (br_u16 B) 2" and "width (br_u32 B) 4"
    and "width (br_u64 B) 8"
    using binrw_okD(1-4) [OF assms] by (simp_all add: width_prim)
  have "width (read_u8x16 B) (16 * 1 + 0)"
    unfolding read_u8x16_def by (intro width_rbind width_read_n u8 width_rret)
  then have a: "width (read_u8x16 B) 16"
    by simp
  have "width (read_node_id B) (16 + 0)" "width (read_ed2k_hash B) (16 + 0)"
    unfolding read_node_id_def read_ed2k_hash_def by (intro width_rbind width_rret a)+
  then show "width (read_node_id B) 16" "width (read_ed2k_hash B) 16"
    by simp_all
  show "min_width (read_opt_u8 B) 0"
    unfolding min_width_def read_opt_u8_def
    using assms by (auto simp: neq_Nil_conv wire_simps)
qed

lemma min_width_read_to_end: "min_width read_to_end 0"
  by (simp add: min_width_def read_to_end_def)

text \<open>The smallest body each fixed layout is read from.\<close>

lemma fixed_widths:
  assumes "binrw_ok B"
  shows "min_width (read_kad_req B) (1 + (16 + (16 + 0)))"
    "min_width (read_search_key_req B) (16 + (2 + 0))"
    "min_width (read_search_notes_req B) (16 + (8 + 0))"
    "min_width (read_publish_res B) (16 + (1 + 0))"
    "min_width (read_firewalled_req B) (2 + 0)"
    "min_width (read_firewalled2_req B) (2 + (16 + (1 + 0)))"
    "min_width (read_firewalled_res B) (4 + 0)"
    "min_width (read_firewall_udp B) (1 + (2 + 0))"
    "min_width (read_find_buddy_req B) (16 + (16 + (2 + 0)))"
    "min_width (read_find_buddy_res B) (16 + (16 + (2 + 0)))"
    "min_width (read_callback_req B) (16 + (16 + (2 + 0)))"
    "min_width (read_pong B) (2 + 0)"
proof -
  show "min_width (read_kad_req B) (1 + (16 + (16 + 0)))"
    "min_width (read_search_notes_req B) (16 + (8 + 0))"
    "min_width (read_firewalled_req B) (2 + 0)"
    "min_width (read_firewalled2_req B) (2 + (16 + (1 + 0)))"
    "min_width (read_firewalled_res B) (4 + 0)"
    "min_width (read_firewall_udp B) (1 + (2 + 0))"
    "min_width (read_find_buddy_req B) (16 + (16 + (2 + 0)))"
    "min_width (read_callback_req B) (16 + (16 + (2 + 0)))"
    "min_width (read_pong B) (2 + 0)"
    unfolding fixed_defs by (intro min_width_rbind width_min [OF width_rret] width_prims assms)+
  show "min_width (read_publish_res B) (16 + (1 + 0))"
    "min_width (read_find_buddy_res B) (16 + (16 + (2 + 0)))"
    "min_width (read_search_key_req B) (16 + (2 + 0))"
    unfolding read_publish_res_def read_find_buddy_res_def read_search_key_req_def
    by (intro min_width_rbind min_width_last width_prims min_width_read_to_end assms)+
qed

definition size_error :: "u8 \<Rightarrow> nat \<Rightarrow> proto_error option" where
  "size_error op n =
     (let short = (\<lambda>m. if n < m then Some (BinRw BinIo) else None);
          min_len = (\<lambda>m. if n < m then Some (InvalidPacketSize op m n) else None);
          exact = (\<lambda>m. if n \<noteq> m then Some (InvalidPacketSize op m n) else None) in
      if op = op_REQ then short 33
      else if op = op_SEARCH_KEY_REQ then short 18
      else if op = op_SEARCH_NOTES_REQ then short 24
      else if op = op_FIREWALLED2_REQ then short 19
      else if op = op_SEARCH_SOURCE_REQ then
        (if n < 16 then Some (BinRw BinIo)
         else if n = 20 \<or> n = 24 \<or> n = 26 then None else Some BufferTooShort)
      else if op = op_PUBLISH_RES then min_len 17
      else if op = op_FIREWALLUDP then min_len 3
      else if op = op_FINDBUDDY_REQ \<or> op = op_FINDBUDDY_RES \<or> op = op_CALLBACK_REQ then min_len 34
      else if op = op_PONG then min_len 2
      else if op = op_FIREWALLED_REQ then exact 2
      else if op = op_FIREWALLED_RES then exact 4
      else if op = op_FIREWALLED_ACK_RES then exact 0
      else None)"

definition fixed_opcodes :: "u8 list" where
  "fixed_opcodes =
     [op_BOOTSTRAP_REQ, op_REQ, op_SEARCH_KEY_REQ, op_SEARCH_SOURCE_REQ, op_SEARCH_NOTES_REQ,
      op_PUBLISH_RES, op_PUBLISH_RES_ACK, op_FIREWALLED_REQ, op_FIREWALLED2_REQ, op_FIREWALLED_RES,
      op_FIREWALLED_ACK_RES, op_FIREWALLUDP, op_FINDBUDDY_REQ, op_FINDBUDDY_RES, op_CALLBACK_REQ,
      op_PING, op_PONG]"

definition size_spec :: "ext \<Rightarrow> u8 \<Rightarrow> bytes \<Rightarrow> bool" where
  "size_spec B op body \<longleftrightarrow>
     (case size_error op (length body) of
        None \<Rightarrow> \<exists>p. decode_body B op body = Inr p
      | Some e \<Rightarrow> decode_body B op body = Inl e)"

lemma search_source_sizes:
  assumes "binrw_ok B"
  shows "size_spec B op_SEARCH_SOURCE_REQ body"
proof (cases "length body < 16")
  case True
  with width_prims(5) [OF assms] have "read_node_id B body = Inl BinIo"
    by (simp add: width_def)
  with True show ?thesis
    by (simp add: size_spec_def size_error_def decode_body_def opcode_defs read_search_source_req_def)
next
  case False
  define r where "r = drop 16 body"
  from False width_prims(5) [OF assms] obtain x where x: "read_node_id B body = Inr (x, r)"
    unfolding width_def r_def by (meson not_le)
  have len: "length body = length r + 16"
    using False by (simp add: r_def)
  have w: "min_width (rbind (br_u32 B) (\<lambda>sz. rret (0 :: u16, ucast sz :: u64))) (4 + 0)"
    "min_width (rbind (br_u64 B) (\<lambda>sz. rret (0 :: u16, sz))) (8 + 0)"
    "min_width (rbind (br_u16 B) (\<lambda>start_position.
       rbind (br_u64 B) (\<lambda>sz. rret (start_position AND 0x7FFF, sz)))) (2 + (8 + 0))"
    by (intro min_width_rbind width_min [OF width_rret] width_prims assms)+
  note r = w [THEN min_width_read_le(3), of r]
  show ?thesis
    using x len r
    by (auto simp: size_spec_def size_error_def decode_body_def opcode_defs
        read_search_source_req_def)
qed

lemma fixed_sizes:
  assumes "binrw_ok B" "op \<in> set fixed_opcodes"
  shows "size_spec B op body"
proof -
  note w = fixed_widths [OF assms(1), simplified]
  note r = w [THEN min_width_read_le(1)] w [THEN min_width_read_le(2)]
  have "size_spec B op_BOOTSTRAP_REQ body" "size_spec B op_REQ body"
    "size_spec B op_SEARCH_KEY_REQ body" "size_spec B op_SEARCH_NOTES_REQ body"
    "size_spec B op_PUBLISH_RES body" "size_spec B op_PUBLISH_RES_ACK body"
    "size_spec B op_FIREWALLED_REQ body" "size_spec B op_FIREWALLED2_REQ body"
    "size_spec B op_FIREWALLED_RES body" "size_spec B op_FIREWALLED_ACK_RES body"
    "size_spec B op_FIREWALLUDP body" "size_spec B op_FINDBUDDY_REQ body"
    "size_spec B op_FINDBUDDY_RES body" "size_spec B op_CALLBACK_REQ body"
    "size_spec B op_PING body" "size_spec B op_PONG body"
    by (simp_all add: opcode_defs size_spec_def size_error_def decode_body_def not_less
        require_body_len_def require_min_body_len_def r)
  then show ?thesis
    using assms(2) search_source_sizes [OF assms(1)] unfolding fixed_opcodes_def by auto
qed

text \<open>
  For the seventeen packet kinds without lists, whether a plain packet is accepted depends only
  on its opcode and the length of its body, and \<open>size_error\<close> gives the length each kind needs and
  the error returned otherwise: an exact size, a least size, or the three source-search shapes.
\<close>

theorem decode_sizes:
  assumes "binrw_ok B" and "op \<in> set fixed_opcodes"
  shows "case size_error op (length body) of
      None \<Rightarrow> \<exists>p. decode B (OP_KADEMLIAHEADER # op # body) = Inr p
    | Some e \<Rightarrow> decode B (OP_KADEMLIAHEADER # op # body) = Inl e"
  using fixed_sizes [OF assms, of body] unfolding size_spec_def decode_plain .

theorem decode_sizes_witness:
  "let B = le_ext id (\<lambda>_. None) in
     binrw_ok B \<and> op_PONG \<in> set fixed_opcodes \<and>
     (\<exists>p. decode B [OP_KADEMLIAHEADER, op_PONG, 0x12, 0x34] = Inr p) \<and>
     decode B [OP_KADEMLIAHEADER, op_PONG, 0x12] = Inl (InvalidPacketSize op_PONG 2 1)"
proof -
  let ?B = "le_ext id (\<lambda>_. None)"
  have "op_PONG \<in> set fixed_opcodes"
    by (simp add: fixed_opcodes_def)
  moreover have "size_error op_PONG 2 = None" "size_error op_PONG 1 = Some (InvalidPacketSize op_PONG 2 1)"
    by (simp_all add: size_error_def opcode_defs)
  ultimately show ?thesis
    using decode_sizes [of ?B op_PONG "[0x12, 0x34]"] decode_sizes [of ?B op_PONG "[0x12]"]
    by (simp add: numeral_2_eq_2)
qed

end
