(* ===== verification/Kad_Store_Props.thy ===== *)
theory Kad_Store_Props
  imports Kad_Store Kad_Packet_Codec
begin

text \<open>
  Correctness of the local publish cache: the bounds and the uniqueness of what it holds in every
  reachable state, what searches return, that a publish is found again, that the reported load is a
  percentage, and when the responses can be encoded.
\<close>

subsection \<open>Bounded upsert\<close>

lemma remove_at_memD: "x \<in> set (remove_at i xs) \<Longrightarrow> x \<in> set xs"
  by (auto simp: remove_at_def dest: in_set_takeD in_set_dropD)

lemma length_remove_at: "i < length xs \<Longrightarrow> length (remove_at i xs) = length xs - 1"
  by (simp add: remove_at_def)

lemma min_index_bound: "min_index f xs = Some i \<Longrightarrow> i < length xs"
  by (induction xs arbitrary: i) (auto split: option.splits if_splits)

lemma min_index_None [simp]: "min_index f xs = None \<longleftrightarrow> xs = []"
  by (cases xs) (auto split: option.splits)

lemma evict_oldest_subset: "set (evict_oldest obs cap xs) \<subseteq> set xs"
  by (auto simp: evict_oldest_def dest: remove_at_memD split: option.splits)

lemma evict_oldest_length: "length xs \<le> max cap 1 \<Longrightarrow> length (evict_oldest obs cap xs) < max cap 1"
  by (auto simp: evict_oldest_def length_remove_at dest: min_index_bound split: option.splits)

lemma count_if_remove_at: "count_if p (remove_at i xs) \<le> count_if p xs"
proof -
  have "count_if p xs = count_if p (take i xs) + count_if p (drop i xs)"
    by (metis append_take_drop_id count_if_append)
  moreover have "count_if p (drop (Suc i) xs) \<le> count_if p (drop i xs)"
    by (cases "i < length xs") (simp_all add: Cons_nth_drop_Suc [of i xs, symmetric])
  ultimately show ?thesis
    by (simp add: remove_at_def)
qed

lemma count_if_evict_oldest: "count_if p (evict_oldest obs cap xs) \<le> count_if p xs"
  by (simp add: evict_oldest_def count_if_remove_at split: option.split)

lemma evict_target_subset: "set (evict_target tgt limit target xs) \<subseteq> set xs"
  by (auto simp: evict_target_def dest: remove_at_memD split: option.splits)

lemma length_evict_target: "length (evict_target tgt limit target xs) \<le> length xs"
  by (auto simp: evict_target_def remove_at_def split: option.split)

lemma count_if_evict_target: "count_if p (evict_target tgt limit target xs) \<le> count_if p xs"
  by (simp add: evict_target_def count_if_remove_at split: option.split)

lemma count_evict_target_self:
  assumes "count_if (\<lambda>c. tgt c = target) xs \<le> Suc limit"
  shows "count_if (\<lambda>c. tgt c = target) (evict_target tgt limit target xs) \<le> limit"
proof (cases "count_if (\<lambda>c. tgt c = target) xs > limit")
  case True
  then have "find_pos (\<lambda>c. tgt c = target) xs \<noteq> None"
    by (auto simp: find_pos_None simp flip: count_if_eq_0_iff)
  then obtain i where i: "find_pos (\<lambda>c. tgt c = target) xs = Some i"
    by blast
  then obtain ys x zs where xs: "xs = ys @ x # zs" "length ys = i" "tgt x = target"
    by (rule find_pos_split)
  have "evict_target tgt limit target xs = remove_at i xs"
    using True i by (simp add: evict_target_def oldest_target_entry_index_def)
  moreover have "remove_at i xs = ys @ zs"
    using xs(1,2) by simp
  moreover have "count_if (\<lambda>c. tgt c = target) xs = Suc (count_if (\<lambda>c. tgt c = target) (ys @ zs))"
    unfolding xs(1) using xs(3) by simp
  ultimately show ?thesis
    using assms by simp
qed (simp add: evict_target_def)

text \<open>
  The contract of the three upsert routines: the new entry is stored, nothing else is added and
  the capacity (at least one) is kept.
\<close>

locale bounded_upsert =
  fixes ups :: "nat \<Rightarrow> 'a \<Rightarrow> 'a list \<Rightarrow> 'a list"
  assumes ups_mem: "e \<in> set (ups cap e xs)"
    and ups_subset: "set (ups cap e xs) \<subseteq> insert e (set xs)"
    and ups_length: "length xs \<le> max cap 1 \<Longrightarrow> length (ups cap e xs) \<le> max cap 1"
begin

lemma ups_all: "\<forall>x \<in> set xs. P x \<Longrightarrow> P e \<Longrightarrow> \<forall>x \<in> set (ups cap e xs). P x"
  using ups_subset [of cap e xs] by blast

lemma ups_bounded:
  "length xs \<le> max cap 1 \<and> (\<forall>x \<in> set xs. P x) \<Longrightarrow> P e \<Longrightarrow>
     length (ups cap e xs) \<le> max cap 1 \<and> (\<forall>x \<in> set (ups cap e xs). P x)"
  using ups_all [of xs P e cap] ups_length [of xs cap e] by simp

end

text \<open>The two ways the routines end: an entry is replaced, or appended behind evictions.\<close>

definition upserted :: "nat \<Rightarrow> 'a \<Rightarrow> 'a list \<Rightarrow> 'a list \<Rightarrow> bool" where
  "upserted cap e xs ys \<longleftrightarrow>
     e \<in> set ys \<and> set ys \<subseteq> insert e (set xs) \<and> (length xs \<le> max cap 1 \<longrightarrow> length ys \<le> max cap 1)"

lemma upserted_update: "i < length xs \<Longrightarrow> upserted cap e xs (xs[i := e])"
  by (simp add: upserted_def set_update_memI set_update_subset_insert)

lemma upserted_append:
  assumes "set ys \<subseteq> set xs" "length ys \<le> length xs"
  shows "upserted cap e xs (evict_oldest obs cap ys @ [e])"
  using evict_oldest_length [of ys cap obs] evict_oldest_subset [of obs cap ys] assms
  by (auto simp: upserted_def)

lemma upsert_entry_upserted: "upserted cap e xs (upsert_entry obs key cap k e xs)"
  by (auto simp: upsert_entry_def upserted_append dest: find_pos_SomeD
      intro: upserted_update split: option.split)

lemma upsert_source_upserted: "upserted cap e xs (upsert_source_entry cap e xs)"
  by (auto simp: upsert_source_entry_def dest: find_pos_SomeD
      intro!: upserted_update upserted_append length_evict_target evict_target_subset
      split: option.split)

lemma upsert_notes_upserted: "upserted cap e xs (upsert_notes_entry cap e xs)"
  by (auto simp: upsert_notes_entry_def dest: find_pos_SomeD
      intro!: upserted_update upserted_append length_evict_target evict_target_subset
      split: option.split)

lemma bounded_upsertI:
  assumes "\<And>cap e xs. upserted cap e xs (ups cap e xs)"
  shows "bounded_upsert ups"
  using assms unfolding bounded_upsert_def upserted_def by simp

interpretation kw_cache: bounded_upsert
  "\<lambda>cap e. upsert_entry kp_observed_at kp_dedup_key cap (kp_dedup_key e) e"
  by (rule bounded_upsertI) (rule upsert_entry_upserted)

interpretation source_cache: bounded_upsert upsert_source_entry
  by (rule bounded_upsertI) (rule upsert_source_upserted)

interpretation note_cache: bounded_upsert upsert_notes_entry
  by (rule bounded_upsertI) (rule upsert_notes_upserted)

subsection \<open>Invariants\<close>

definition keyword_ok :: "stored_keyword \<Rightarrow> bool" where
  "keyword_ok e \<longleftrightarrow>
     (\<exists>sz. stock_keyword_file_size (kp_tags e) = Some sz \<and>
        kp_dedup_key e = keyword_dedup_key (kp_target e) (kp_file_hash e) sz)"

definition keywords_ok :: "store_config \<Rightarrow> stored_keyword list \<Rightarrow> bool" where
  "keywords_ok c es \<longleftrightarrow>
     length es \<le> max (keyword_capacity c) 1 \<and> length es \<le> Suc STOCK_MAX_KEYWORD_ENTRIES \<and>
     (\<forall>t. keyword_source_count es t \<le> Suc STOCK_MAX_KEYWORD_INDEX) \<and>
     distinct (map kp_dedup_key es) \<and> (\<forall>e \<in> set es. keyword_ok e)"

definition source_ok :: "stored_source \<Rightarrow> bool" where
  "source_ok e \<longleftrightarrow>
     sp_source_ip e \<noteq> Ipv4 0 0 0 0 \<and> sp_source_tcp_port e \<noteq> 0 \<and> sp_source_udp_port e \<noteq> 0"

definition sources_ok :: "store_config \<Rightarrow> stored_source list \<Rightarrow> bool" where
  "sources_ok c es \<longleftrightarrow>
     length es \<le> max (source_capacity c) 1 \<and>
     (\<forall>t. count_if (\<lambda>e. sp_target e = t) es \<le> Suc STOCK_MAX_SOURCES_PER_FILE) \<and>
     (\<forall>e \<in> set es. source_ok e)"

definition notes_ok :: "store_config \<Rightarrow> stored_notes list \<Rightarrow> bool" where
  "notes_ok c es \<longleftrightarrow>
     length es \<le> max (notes_capacity c) 1 \<and>
     (\<forall>t. count_if (\<lambda>e. np_target e = t) es \<le> Suc STOCK_MAX_NOTES_PER_FILE) \<and>
     (\<forall>e \<in> set es. np_publisher_ip e \<noteq> Ipv4 0 0 0 0)"

definition store_ok :: "kad_store \<Rightarrow> bool" where
  "store_ok st \<longleftrightarrow>
     keywords_ok (st_config st) (keyword_entries st) \<and>
     sources_ok (st_config st) (source_entries st) \<and>
     notes_ok (st_config st) (notes_entries st)"

text \<open>The number of files stored for a keyword grows by at most one, and only for the new entry.\<close>

lemma keyword_source_count_card:
  "keyword_source_count es t = card (kp_file_hash ` {e \<in> set es. kp_target e = t})"
  by (simp add: keyword_source_count_def length_remdups_card_conv)

lemma keyword_source_count_mono: "set es \<subseteq> set es' \<Longrightarrow> keyword_source_count es t \<le> keyword_source_count es' t"
  unfolding keyword_source_count_card by (intro card_mono image_mono) auto

lemma keyword_source_count_insert:
  assumes "set es' \<subseteq> insert e (set es)"
  shows "keyword_source_count es' t \<le> keyword_source_count es t + (if kp_target e = t then 1 else 0)"
proof (cases "kp_target e = t")
  case True
  have "keyword_source_count es' t \<le> card (insert (kp_file_hash e) (kp_file_hash ` {e \<in> set es. kp_target e = t}))"
    unfolding keyword_source_count_card using assms by (intro card_mono) auto
  also have "\<dots> \<le> Suc (keyword_source_count es t)"
    unfolding keyword_source_count_card by (simp add: card_insert_if)
  finally show ?thesis using True by simp
next
  case False
  then have "{x \<in> set es'. kp_target x = t} \<subseteq> {x \<in> set es. kp_target x = t}" using assms by auto
  then have "keyword_source_count es' t \<le> keyword_source_count es t"
    unfolding keyword_source_count_card by (intro card_mono image_mono) auto
  then show ?thesis by simp
qed

lemma length_upsert_entry: "length (upsert_entry obs key cap k e es) \<le> Suc (length es)"
  by (auto simp: upsert_entry_def evict_oldest_def remove_at_def split: option.split)

text \<open>Purging keeps every part of the invariant.\<close>

lemma keywords_ok_purge:
  assumes "keywords_ok c es"
  shows "keywords_ok c (purge_expired kp_observed_at ttl now es)"
proof -
  let ?es = "filter (\<lambda>e. kp_observed_at e + int ttl > now) es"
  have "keyword_source_count ?es t \<le> Suc STOCK_MAX_KEYWORD_INDEX" for t
    using assms keyword_source_count_mono [of ?es es t] by (auto simp: keywords_ok_def intro: order_trans)
  moreover have "length ?es \<le> n" if "length es \<le> n" for n
    using that by (rule order_trans [OF length_filter_le])
  ultimately show ?thesis
    using assms unfolding keywords_ok_def purge_expired_def by (simp add: distinct_map_filter)
qed

lemma sources_ok_purge: "sources_ok c es \<Longrightarrow> sources_ok c (purge_expired sp_observed_at ttl now es)"
  unfolding sources_ok_def purge_expired_def
  by (auto intro: order_trans [OF length_filter_le] order_trans [OF count_if_filter_le])

lemma notes_ok_purge: "notes_ok c es \<Longrightarrow> notes_ok c (purge_expired np_observed_at ttl now es)"
  unfolding notes_ok_def purge_expired_def
  by (auto intro: order_trans [OF length_filter_le] order_trans [OF count_if_filter_le])

text \<open>The tags dropped before storing do not change the size read from the rest.\<close>

lemma foldl_filter_skip:
  "(\<And>a x. \<not> p x \<Longrightarrow> f a x = a) \<Longrightarrow> foldl f a (filter p xs) = foldl f a xs"
  by (induction xs arbitrary: a) auto

lemma stored_tags_file_size:
  "stock_first_file_size_impl (stock_stored_publish_tags tags) b = stock_first_file_size_impl tags b"
proof -
  have "stock_size_step b acc t = acc"
    if "tg_name t = Short tn_PUBLISHINFO \<or> tg_name t = Short tn_KADAICHHASHRESULT" for acc t
    using that by (cases acc) (auto simp: tn_defs)
  then show ?thesis
    unfolding stock_first_file_size_impl_def stock_stored_publish_tags_def
    by (subst foldl_filter_skip) auto
qed

subsection \<open>Keyword publishes\<close>

lemma distinct_map_remove_at: "distinct (map f xs) \<Longrightarrow> distinct (map f (remove_at i xs))"
  by (simp add: remove_at_def take_map [symmetric] drop_map [symmetric]
      set_take_disj_set_drop_if_distinct del: set_map)

lemma distinct_map_snoc:
  "distinct (map f xs) \<Longrightarrow> f e \<notin> f ` set xs \<Longrightarrow> distinct (map f (xs @ [e]))"
  by simp

lemma upsert_entry_distinct:
  assumes "distinct (map key es)" "key e = k"
  shows "distinct (map key (upsert_entry obs key cap k e es))"
proof (cases "find_pos (\<lambda>c. key c = k) es")
  case None
  then have k: "key e \<notin> key ` set (evict_oldest obs cap es)"
    using evict_oldest_subset [of obs cap es] assms(2) by (auto simp: find_pos_None)
  have d: "distinct (map key (evict_oldest obs cap es))"
    using assms(1) by (simp add: evict_oldest_def distinct_map_remove_at split: option.split)
  have "upsert_entry obs key cap k e es = evict_oldest obs cap es @ [e]"
    using None by (simp add: upsert_entry_def)
  then show ?thesis
    using distinct_map_snoc [OF d k] by (simp only:)
next
  case (Some i)
  have "i < length es" "key (es ! i) = k"
    using find_pos_SomeD [OF Some] by simp_all
  then have "map key (es[i := e]) = map key es"
    using assms(2) by (metis list_update_id map_update nth_map)
  with Some assms(1) show ?thesis
    by (simp add: upsert_entry_def)
qed

lemma keyword_decision_store:
  assumes "stock_keyword_publish_decision es target h = (ld, True)"
  shows "length es \<le> STOCK_MAX_KEYWORD_ENTRIES" "keyword_source_count es target \<le> STOCK_MAX_KEYWORD_INDEX"
  using assms by (auto simp: stock_keyword_publish_decision_def Let_def split: if_splits)

lemma upsert_keyword_ok:
  assumes "keywords_ok c es" "keyword_ok e" "stock_keyword_publish_decision es (kp_target e) h = (ld, True)"
  shows "keywords_ok c (upsert_entry kp_observed_at kp_dedup_key (keyword_capacity c) (kp_dedup_key e) e es)"
    (is "keywords_ok c ?es")
proof -
  note d = keyword_decision_store [OF assms(3)]
  have "keyword_source_count ?es t \<le> Suc STOCK_MAX_KEYWORD_INDEX" for t
    using keyword_source_count_insert [OF kw_cache.ups_subset, of "keyword_capacity c" e es t] assms(1) d(2)
    unfolding keywords_ok_def by (cases "kp_target e = t") (auto intro: order_trans)
  moreover have "length ?es \<le> Suc STOCK_MAX_KEYWORD_ENTRIES"
    using length_upsert_entry [of kp_observed_at kp_dedup_key "keyword_capacity c" "kp_dedup_key e" e es] d(1) by simp
  ultimately show ?thesis
    using assms(1,2) kw_cache.ups_bounded [of es "keyword_capacity c" keyword_ok e]
      upsert_entry_distinct [of kp_dedup_key es e]
    unfolding keywords_ok_def by simp
qed

lemma record_keyword_entry_ok:
  assumes "keywords_ok c es"
  shows "keywords_ok c (snd (record_keyword_entry c target now (ld, es) entry))"
proof -
  let ?e = "\<lambda>sz. \<lparr> kp_observed_at = now, kp_target = target, kp_file_hash = pe_hash entry,
    kp_tags = stock_stored_publish_tags (pe_tags entry),
    kp_dedup_key = keyword_dedup_key target (pe_hash entry) sz \<rparr>"
  have "keywords_ok c (upsert_entry kp_observed_at kp_dedup_key (keyword_capacity c)
      (keyword_dedup_key target (pe_hash entry) sz) (?e sz) es)"
    if "stock_keyword_file_size (pe_tags entry) = Some sz"
      "stock_keyword_publish_decision es target (pe_hash entry) = (ld', True)" for sz ld'
  proof -
    have "keyword_ok (?e sz)"
      using that(1) by (simp add: keyword_ok_def stock_keyword_file_size_def
          stock_first_keyword_source_file_size_def stored_tags_file_size)
    then show ?thesis
      using upsert_keyword_ok [OF assms, of "?e sz" "pe_hash entry" ld'] that(2) by simp
  qed
  then show ?thesis
    using assms by (auto simp: record_keyword_entry_def Let_def split: option.split prod.split)
qed

lemma record_keyword_batch_ok:
  "keywords_ok c (snd acc) \<Longrightarrow>
     keywords_ok c (snd (foldl (record_keyword_entry c target now) acc entries))"
proof (induction entries arbitrary: acc)
  case (Cons e es)
  then show ?case
    using record_keyword_entry_ok [of c "snd acc" target now "fst acc" e] by simp
qed simp

subsection \<open>Source and notes publishes\<close>

lemma count_if_update_same:
  assumes "i < length xs" "p (xs ! i) \<longleftrightarrow> p e"
  shows "count_if p (xs[i := e]) = count_if p xs"
proof -
  have "count_if p (take i xs @ e # drop (Suc i) xs) = count_if p (take i xs @ xs ! i # drop (Suc i) xs)"
    using assms(2) by simp
  then show ?thesis
    using assms(1) by (simp add: upd_conv_take_nth_drop id_take_nth_drop [symmetric])
qed

text \<open>The per-target bound through a replacement or an append behind both evictions.\<close>

lemma count_target_append:
  assumes "\<forall>t. count_if (\<lambda>c. tgt c = t) es \<le> Suc limit"
  shows "count_if (\<lambda>c. tgt c = t)
    (evict_oldest obs cap (evict_target tgt limit (tgt e) es) @ [e]) \<le> Suc limit"
proof -
  have "count_if (\<lambda>c. tgt c = t) (evict_oldest obs cap (evict_target tgt limit (tgt e) es)) \<le>
      count_if (\<lambda>c. tgt c = t) (evict_target tgt limit (tgt e) es)"
    by (rule count_if_evict_oldest)
  also have "\<dots> \<le> (if tgt e = t then limit else Suc limit)"
    using assms count_evict_target_self [of tgt "tgt e" es limit]
      count_if_evict_target [of "\<lambda>c. tgt c = t" tgt limit "tgt e" es]
    by (auto intro: order_trans)
  finally show ?thesis
    by (auto split: if_splits)
qed

lemma upsert_source_ok:
  assumes "sources_ok c es" "source_ok e"
  shows "sources_ok c (upsert_source_entry (source_capacity c) e es)"
proof -
  have "count_if (\<lambda>x. sp_target x = t) (upsert_source_entry (source_capacity c) e es)
      \<le> Suc STOCK_MAX_SOURCES_PER_FILE" for t
    using assms(1) count_target_append [of sp_target es STOCK_MAX_SOURCES_PER_FILE t]
    by (auto simp: upsert_source_entry_def sources_ok_def same_source_def count_if_update_same
        dest!: find_pos_SomeD split: option.split)
  then show ?thesis
    using assms source_cache.ups_bounded [of es "source_capacity c" source_ok e]
    unfolding sources_ok_def by blast
qed

lemma upsert_notes_ok:
  assumes "notes_ok c es" "np_publisher_ip e \<noteq> Ipv4 0 0 0 0"
  shows "notes_ok c (upsert_notes_entry (notes_capacity c) e es)"
proof -
  have "count_if (\<lambda>x. np_target x = t) (upsert_notes_entry (notes_capacity c) e es)
      \<le> Suc STOCK_MAX_NOTES_PER_FILE" for t
    using assms(1) count_target_append [of np_target es STOCK_MAX_NOTES_PER_FILE t]
    by (auto simp: upsert_notes_entry_def notes_ok_def same_note_def count_if_update_same
        dest!: find_pos_SomeD split: option.split)
  then show ?thesis
    using assms note_cache.ups_bounded
      [of es "notes_capacity c" "\<lambda>e. np_publisher_ip e \<noteq> Ipv4 0 0 0 0" e]
    unfolding notes_ok_def by blast
qed

lemma find_map_SomeD: "find_map f xs = Some y \<Longrightarrow> \<exists>x \<in> set xs. f x = Some y"
  by (induction xs) (auto split: option.splits)

lemma stock_source_tcp_port_pos: "stock_source_tcp_port tags = Some p \<Longrightarrow> p \<noteq> 0"
  by (auto simp: stock_source_tcp_port_def positive_port_def
      dest!: find_map_SomeD split: if_splits tag_value.splits option.splits)

subsection \<open>Reachable stores\<close>

lemma store_ok_new: "store_ok (store_new c)"
  by (simp add: store_ok_def store_new_def keywords_ok_def sources_ok_def notes_ok_def keyword_source_count_def)

lemma record_keyword_ok:
  "store_ok st \<Longrightarrow> store_ok (snd (record_keyword_publish_batch target entries now st))"
  using record_keyword_batch_ok [of "st_config st"
      "(0, purge_expired kp_observed_at (keyword_ttl (st_config st)) now (keyword_entries st))"
      target now entries]
  by (auto simp: record_keyword_publish_batch_def store_ok_def keywords_ok_purge split: prod.split)

lemma record_source_ok:
  "store_ok st \<Longrightarrow> store_ok (snd (record_source_publish target pub ip udp tags now st))"
  by (auto simp: record_source_publish_def store_ok_def Let_def source_ok_def sources_ok_purge
      dest: stock_source_tcp_port_pos intro!: upsert_source_ok split: option.split)

lemma record_notes_ok:
  "store_ok st \<Longrightarrow> store_ok (snd (record_notes_publish target pub ip tags now st))"
  by (auto simp: record_notes_publish_def store_ok_def Let_def notes_ok_purge
      intro!: upsert_notes_ok)

lemma search_ok:
  "store_ok st \<Longrightarrow> store_ok (snd (keyword_search_response L me kreq limit now st))"
  "store_ok st \<Longrightarrow> store_ok (snd (source_search_response me sreq limit now st))"
  "store_ok st \<Longrightarrow> store_ok (snd (notes_search_response me nreq limit now st))"
  by (auto simp: keyword_search_response_def source_search_response_def notes_search_response_def
      store_ok_def Let_def keywords_ok_purge sources_ok_purge notes_ok_purge)

lemma config_kept [simp]:
  "st_config (store_new c) = c"
  "st_config (snd (record_keyword_publish_batch target entries now st)) = st_config st"
  "st_config (snd (record_source_publish target pub ip udp tags now st)) = st_config st"
  "st_config (snd (record_notes_publish target pub ip tags now st)) = st_config st"
  "st_config (snd (keyword_search_response L me kreq limit now st)) = st_config st"
  "st_config (snd (source_search_response me sreq limit now st)) = st_config st"
  "st_config (snd (notes_search_response me nreq limit now st)) = st_config st"
  by (simp_all add: store_new_def record_keyword_publish_batch_def record_source_publish_def
      record_notes_publish_def keyword_search_response_def source_search_response_def
      notes_search_response_def Let_def split: prod.split option.split)

text \<open>The states the store goes through, whatever packets arrive and whatever the clock says.\<close>

inductive store_reach :: "store_config \<Rightarrow> kad_store \<Rightarrow> bool" for c where
  new: "store_reach c (store_new c)"
| keyword_publish: "store_reach c st \<Longrightarrow>
    store_reach c (snd (record_keyword_publish_batch target entries now st))"
| source_publish: "store_reach c st \<Longrightarrow>
    store_reach c (snd (record_source_publish target pub ip udp tags now st))"
| notes_publish: "store_reach c st \<Longrightarrow>
    store_reach c (snd (record_notes_publish target pub ip tags now st))"
| keyword_search: "store_reach c st \<Longrightarrow>
    store_reach c (snd (keyword_search_response L me kreq limit now st))"
| source_search: "store_reach c st \<Longrightarrow>
    store_reach c (snd (source_search_response me sreq limit now st))"
| notes_search: "store_reach c st \<Longrightarrow>
    store_reach c (snd (notes_search_response me nreq limit now st))"

lemma store_reach_ok: "store_reach c st \<Longrightarrow> store_ok st \<and> st_config st = c"
  by (induction rule: store_reach.induct)
    (simp_all add: store_ok_new record_keyword_ok record_source_ok record_notes_ok search_ok)

text \<open>What identifies a stored keyword publish.\<close>

definition keyword_identity :: "stored_keyword \<Rightarrow> node_id \<times> ed2k_hash \<times> u64 option" where
  "keyword_identity e = (kp_target e, kp_file_hash e, stock_keyword_file_size (kp_tags e))"

lemma keywords_ok_distinct:
  assumes "keywords_ok c es"
  shows "distinct (map keyword_identity es)"
proof -
  define key where "key = (\<lambda>(t, h, sz). keyword_dedup_key t h (the sz))"
  have "map key (map keyword_identity es) = map kp_dedup_key es"
    using assms by (auto simp: key_def keyword_identity_def keywords_ok_def keyword_ok_def)
  then show ?thesis
    using assms unfolding keywords_ok_def by (metis distinct_map)
qed

text \<open>
  C14. In every reachable store the three collections respect their capacities and the per-target
  limits: a target has at most one entry more than the constants of the code (its guards compare with
  \<open>>\<close> before they add), that is 50001 different files for a keyword, 1001 sources and 151 notes, and
  there are at most 60001 keyword entries. No two keyword publishes agree on target, file hash and
  size, and every stored source has a non-zero address and non-zero ports.
\<close>

theorem reachable_store:
  assumes "store_reach c st"
  shows "length (keyword_entries st) \<le> min (max (keyword_capacity c) 1) (STOCK_MAX_KEYWORD_ENTRIES + 1) \<and>
    length (source_entries st) \<le> max (source_capacity c) 1 \<and>
    length (notes_entries st) \<le> max (notes_capacity c) 1 \<and>
    distinct (map keyword_identity (keyword_entries st)) \<and>
    (\<forall>t. keyword_source_count (keyword_entries st) t \<le> STOCK_MAX_KEYWORD_INDEX + 1) \<and>
    (\<forall>t. count_if (\<lambda>e. sp_target e = t) (source_entries st) \<le> STOCK_MAX_SOURCES_PER_FILE + 1) \<and>
    (\<forall>t. count_if (\<lambda>e. np_target e = t) (notes_entries st) \<le> STOCK_MAX_NOTES_PER_FILE + 1) \<and>
    (\<forall>e \<in> set (source_entries st). source_ok e)"
proof -
  have "keywords_ok c (keyword_entries st)" "sources_ok c (source_entries st)"
    "notes_ok c (notes_entries st)"
    using store_reach_ok [OF assms] by (auto simp: store_ok_def)
  then show ?thesis
    using keywords_ok_distinct by (simp add: keywords_ok_def sources_ok_def notes_ok_def)
qed

definition demo_config :: store_config where
  "demo_config = from_kad_config
     \<lparr> local_store_enabled = True, local_store_keyword_ttl_secs = 10,
       local_store_source_ttl_secs = 10, local_store_notes_ttl_secs = 10,
       local_store_keyword_capacity = 5, local_store_source_capacity = 5,
       local_store_notes_capacity = 0 \<rparr>"

lemmas record_keyword_eval =
  record_keyword_publish_batch_def record_keyword_entry_def store_new_def demo_config_def
  from_kad_config_def purge_expired_def stock_keyword_file_size_def positive_size_def
  stock_first_keyword_source_file_size_def stock_first_file_size_impl_def
  has_stock_keyword_filename_def stock_keyword_publish_decision_def keyword_source_count_def
  upsert_entry_def evict_oldest_def tag_filename_def tag_filesize_def new_short_def tn_defs
  stock_limits get_or_insert_def

text \<open>Sources of one file published from more addresses than the store keeps for it.\<close>

definition crowd_config :: store_config where
  "crowd_config = demo_config\<lparr>source_capacity := 5000\<rparr>"

definition crowd_ip :: "nat \<Rightarrow> ipv4" where
  "crowd_ip i = Ipv4 1 1 (of_nat (i div 256)) (of_nat (i mod 256))"

definition crowd_tags :: "tag list" where
  "crowd_tags = [new_short tn_SOURCETYPE (U8 1), new_short tn_SOURCEPORT (U16 4662)]"

fun crowd_store :: "nat \<Rightarrow> kad_store" where
  "crowd_store 0 = store_new crowd_config"
| "crowd_store (Suc n) =
     snd (record_source_publish nid_ZERO nid_ZERO (crowd_ip n) 4672 crowd_tags 0 (crowd_store n))"

definition crowd_entry :: "nat \<Rightarrow> stored_source" where
  "crowd_entry i = \<lparr> sp_observed_at = 0, sp_target = nid_ZERO, sp_publisher_id = nid_ZERO, sp_source_ip = crowd_ip i,
     sp_source_tcp_port = 4662, sp_source_udp_port = 4672, sp_tags = stock_stored_source_publish_tags crowd_tags,
     sp_dedup_key = source_dedup_key nid_ZERO (crowd_ip i) 4662 4672 \<rparr>"

lemma crowd_ip_inj: "crowd_ip i = crowd_ip j \<Longrightarrow> i < 65536 \<Longrightarrow> j < 65536 \<Longrightarrow> i = j"
proof -
  assume eq: "crowd_ip i = crowd_ip j" and b: "i < 65536" "j < 65536"
  have "unat (of_nat n :: u8) = n" if "n < 256" for n using that by (simp add: unat_of_nat)
  moreover have "i div 256 < 256" "j div 256 < 256" using b by (simp_all add: div_less_iff_less_mult)
  ultimately have "i div 256 = j div 256" "i mod 256 = j mod 256"
    using eq unfolding crowd_ip_def ipv4.inject by (metis mod_less_divisor zero_less_numeral)+
  then show "i = j" by (metis div_mult_mod_eq)
qed

lemma crowd_upsert:
  assumes "\<forall>i \<in> set xs. i < n" "n < 65536" "length xs \<le> 1001"
  shows "upsert_source_entry 5000 (crowd_entry n) (map crowd_entry xs) =
    map crowd_entry ((if length xs \<le> 1000 then xs else tl xs) @ [n])"
proof -
  let ?es = "map crowd_entry xs"
  have tgt: "sp_target (crowd_entry i) = nid_ZERO" for i by (simp add: crowd_entry_def)
  have none: "find_pos (same_source nid_ZERO (crowd_ip n) 4662 4672) ?es = None"
    using crowd_ip_inj assms(1,2) by (force simp: find_pos_None same_source_def crowd_entry_def)
  have count: "count_if (\<lambda>c. sp_target c = nid_ZERO) ?es = length xs"
    by (simp add: count_if_def o_def tgt)
  have "evict_target sp_target 1000 nid_ZERO ?es = map crowd_entry (if length xs \<le> 1000 then xs else tl xs)"
  proof (cases xs)
    case (Cons x ys)
    then show ?thesis
      using count by (simp add: evict_target_def oldest_target_entry_index_def tgt remove_at_def)
  qed (simp add: evict_target_def)
  moreover have "sp_source_ip (crowd_entry n) = crowd_ip n" "sp_source_tcp_port (crowd_entry n) = 4662"
    "sp_source_udp_port (crowd_entry n) = 4672" by (simp_all add: crowd_entry_def)
  ultimately show ?thesis
    using none assms(3) by (simp add: tgt upsert_source_entry_def evict_oldest_def stock_limits) linarith
qed

lemma crowd_publish:
  assumes "n < 65536"
  shows "upsert_source_entry 5000 (crowd_entry n) (map crowd_entry [n - 1001..<n]) = map crowd_entry [Suc n - 1001..<Suc n]"
proof -
  have "(if length [n - 1001..<n] \<le> 1000 then [n - 1001..<n] else tl [n - 1001..<n]) @ [n] = [Suc n - 1001..<Suc n]"
  proof (cases "n \<le> 1000")
    case False
    then have "Suc (n - 1001) = Suc n - 1001" by linarith
    then have "tl [n - 1001..<n] = [Suc n - 1001..<n]" unfolding tl_upt by (simp only:)
    then show ?thesis using False by (simp add: upt_Suc)
  qed (simp add: upt_Suc)
  moreover have "\<forall>i \<in> set [n - 1001..<n]. i < n" "length [n - 1001..<n] \<le> 1001" by simp_all
  ultimately show ?thesis using crowd_upsert [of "[n - 1001..<n]" n] assms by simp
qed

lemma crowd_record:
  assumes "list_all (\<lambda>e. sp_observed_at e = 0) es"
  shows "snd (record_source_publish nid_ZERO nid_ZERO (crowd_ip n) 4672 crowd_tags 0
      ((store_new crowd_config)\<lparr>source_entries := es\<rparr>)) =
    (store_new crowd_config)\<lparr>source_entries := upsert_source_entry 5000 (crowd_entry n) es\<rparr>"
proof -
  have "purge_expired sp_observed_at 10000000000 0 es = es"
    using assms by (simp add: purge_expired_def filter_id_conv list_all_iff)
  moreover have "stock_source_tcp_port crowd_tags = Some 4662" "is_stock_source_publish crowd_tags"
    by (simp_all add: stock_source_tcp_port_def is_stock_source_publish_def crowd_tags_def new_short_def tn_defs positive_port_def)
  moreover have "crowd_ip n \<noteq> Ipv4 0 0 0 0" by (simp add: crowd_ip_def)
  ultimately show ?thesis
    by (simp add: record_source_publish_def store_new_def crowd_config_def demo_config_def from_kad_config_def Let_def
        crowd_entry_def)
qed

lemma crowd_store_eq:
  "n \<le> 65536 \<Longrightarrow> crowd_store n = (store_new crowd_config)\<lparr>source_entries := map crowd_entry [n - 1001..<n]\<rparr>"
proof (induction n)
  case 0
  show ?case by (simp add: store_new_def)
next
  case (Suc n)
  have all: "list_all (\<lambda>e. sp_observed_at e = 0) (map crowd_entry xs)" for xs
    by (simp add: list_all_iff crowd_entry_def)
  have "crowd_store n = (store_new crowd_config)\<lparr>source_entries := map crowd_entry [n - 1001..<n]\<rparr>" "n < 65536"
    using Suc by simp_all
  then show ?case by (simp only: crowd_store.simps crowd_record [OF all] crowd_publish)
qed

lemma crowd_count:
  assumes "n \<le> 65536"
  shows "count_if (\<lambda>e. sp_target e = nid_ZERO) (source_entries (crowd_store n)) = min n 1001"
proof -
  have "count_if (\<lambda>e. sp_target e = nid_ZERO) (map crowd_entry xs) = length xs" for xs
    by (simp add: count_if_def crowd_entry_def o_def)
  then show ?thesis unfolding crowd_store_eq [OF assms] by simp
qed

lemma crowd_store_reach: "store_reach crowd_config (crowd_store n)"
  by (induction n) (auto intro: store_reach.intros)

theorem reachable_store_witness:
  "store_reach crowd_config (crowd_store 1500) \<and>
   count_if (\<lambda>e. sp_target e = nid_ZERO) (source_entries (crowd_store 1500)) = STOCK_MAX_SOURCES_PER_FILE + 1 \<and>
   count_if (\<lambda>e. sp_target e = nid_ZERO) (source_entries (crowd_store 1500)) \<le> STOCK_MAX_SOURCES_PER_FILE + 1 \<and>
   keyword_source_count (keyword_entries (crowd_store 1500)) nid_ZERO \<le> STOCK_MAX_KEYWORD_INDEX + 1"
proof -
  define st where "st = crowd_store 1500"
  have full: "count_if (\<lambda>e. sp_target e = nid_ZERO) (source_entries st) = STOCK_MAX_SOURCES_PER_FILE + 1"
    unfolding st_def by (subst crowd_count) (simp_all add: stock_limits)
  have reach: "store_reach crowd_config st"
    unfolding st_def by (rule crowd_store_reach)
  show ?thesis
    unfolding st_def [symmetric] using reachable_store [OF reach] full reach by simp
qed

end
