(* ===== verification/Kad_Store_Search.thy ===== *)
theory Kad_Store_Search
  imports Kad_Store_Props
begin

text \<open>
  What the local store answers: the loads reported to publishers, soundness of
  the three search responses, where a stored source is found, and whether a response can be put on the wire.
\<close>

subsection \<open>Loads\<close>

lemma percentage_bound:
  "n \<le> m + m div 150 \<Longrightarrow> 150 \<le> m \<Longrightarrow> n * 100 div m \<le> (100 :: nat)"
proof -
  assume "n \<le> m + m div 150" "150 \<le> m"
  then have "n * 100 < 101 * m"
    by (simp add: div_le_mono algebra_simps)
  then have "n * 100 div m < 101"
    by (simp add: div_less_iff_less_mult)
  then show ?thesis
    by simp
qed

lemma unat_percentage: "k \<le> 100 \<Longrightarrow> unat (of_nat k :: u8) \<le> 100"
  by (simp add: unat_of_nat)

lemma source_load_bound:
  assumes "sources_ok c es"
  shows "unat (stock_source_publish_load es target ip tcp udp) \<le> 100"
proof -
  have "count_if (\<lambda>e. sp_target e = target) es \<le> 1000 + 1"
    using assms by (simp add: sources_ok_def stock_limits)
  then have "count_if (\<lambda>e. sp_target e = target) es * 100 div 1000 \<le> 100"
    by (intro percentage_bound) simp_all
  then show ?thesis
    by (simp add: stock_source_publish_load_def Let_def unat_percentage stock_limits del: of_nat_mult)
qed

lemma notes_load_bound:
  assumes "notes_ok c es"
  shows "unat (stock_notes_publish_load es target pub ip) \<le> 100"
proof -
  have "count_if (\<lambda>e. np_target e = target) es \<le> 150 + 1"
    using assms by (simp add: notes_ok_def stock_limits)
  then have "count_if (\<lambda>e. np_target e = target) es * 100 div 150 \<le> 100"
    by (intro percentage_bound) simp_all
  then show ?thesis
    by (simp add: stock_notes_publish_load_def Let_def unat_percentage stock_limits del: of_nat_mult)
qed

lemma keyword_load_bound: "unat (fst (stock_keyword_publish_decision es target h)) \<le> 100"
proof -
  have "n * 100 div 50000 \<le> 100" if "\<not> 50000 < n" for n :: nat
    using that by (intro percentage_bound) auto
  then show ?thesis
    by (simp add: stock_keyword_publish_decision_def Let_def unat_percentage stock_limits
        del: of_nat_mult)
qed

lemma record_keyword_load:
  "unat (fst acc) \<le> 100 \<Longrightarrow>
     unat (fst (foldl (record_keyword_entry cfg target now) acc entries)) \<le> 100"
proof (induction entries arbitrary: acc)
  case (Cons e entries)
  obtain ld es where acc: "acc = (ld, es)"
    by fastforce
  have "unat (fst (record_keyword_entry cfg target now acc e)) \<le> 100"
    using Cons.prems keyword_load_bound [of es target "pe_hash e"]
    by (auto simp: acc record_keyword_entry_def Let_def split: option.split prod.split)
  then show ?case
    using Cons.IH by simp
qed simp

text \<open>
  The load reported for a publish is a percentage: on every reachable store it is at most
  100, so the narrowing to one byte never wraps.
\<close>

theorem publish_load_bound:
  assumes "store_reach c st"
  shows "unat (fst (record_keyword_publish_batch target entries now st)) \<le> 100 \<and>
    pred_option (\<lambda>ld. unat ld \<le> 100)
      (fst (record_source_publish target pub ip udp tags now st)) \<and>
    pred_option (\<lambda>ld. unat ld \<le> 100) (fst (record_notes_publish target pub ip tags now st))"
proof -
  have ok: "sources_ok c (source_entries st)" "notes_ok c (notes_entries st)"
    using store_reach_ok [OF assms] by (auto simp: store_ok_def)
  have "unat (fst (record_keyword_publish_batch target entries now st)) \<le> 100"
    using record_keyword_load [of "(0, _)"]
    by (simp add: record_keyword_publish_batch_def case_prod_beta)
  then show ?thesis
    using source_load_bound [OF sources_ok_purge [OF ok(1)]]
      notes_load_bound [OF notes_ok_purge [OF ok(2)]]
    by (simp add: record_source_publish_def record_notes_publish_def Let_def split: option.split)
qed

theorem publish_load_bound_witness:
  "unat (fst (record_keyword_publish_batch nid_ZERO [] 0 (store_new demo_config))) \<le> 100"
  using publish_load_bound [OF store_reach.new] by blast

subsection \<open>Soundness of the responses\<close>

lemma search_response_Some:
  "search_response me t rs = Some r \<longleftrightarrow>
     rs \<noteq> [] \<and> r = \<lparr> sr_sender_id = me, sr_target = t, sr_results = rs \<rparr>"
  by (auto simp: search_response_def)

lemma pred_optionI: "(\<And>r. x = Some r \<Longrightarrow> P r) \<Longrightarrow> pred_option P x"
  by (cases x) auto

definition keyword_result :: "stored_keyword \<Rightarrow> search_result_entry" where
  "keyword_result e = \<lparr> se_entry_id = kp_file_hash e, se_tags = keyword_result_tags e \<rparr>"

definition source_result :: "stored_source \<Rightarrow> search_result_entry" where
  "source_result e =
     \<lparr> se_entry_id = source_entry_id (sp_publisher_id e), se_tags = source_result_tags e \<rparr>"

definition notes_result :: "stored_notes \<Rightarrow> search_result_entry" where
  "notes_result e =
     \<lparr> se_entry_id = Ed2kHash (to_be_bytes (np_publisher_id e)), se_tags = notes_result_tags e \<rparr>"

text \<open>Which stored entries answer a request at a given time.\<close>

definition keyword_answers :: "(rstring \<Rightarrow> rstring) \<Rightarrow> search_key_req \<Rightarrow> int \<Rightarrow> kad_store \<Rightarrow>
    stored_keyword \<Rightarrow> bool" where
  "keyword_answers L req now st e \<longleftrightarrow>
     e \<in> set (keyword_entries st) \<and> kp_target e = sk_target req \<and>
     now < kp_observed_at e + int (keyword_ttl (st_config st)) \<and>
     (sk_start_position req AND 0x8000 \<noteq> 0 \<longrightarrow>
        keyword_entry_matches_restrictive_payload L e (Some (sk_restrictive_payload req)))"

definition source_answers :: "search_source_req \<Rightarrow> int \<Rightarrow> kad_store \<Rightarrow> stored_source \<Rightarrow> bool" where
  "source_answers req now st e \<longleftrightarrow>
     e \<in> set (source_entries st) \<and> sp_target e = ss_target req \<and>
     now < sp_observed_at e + int (source_ttl (st_config st)) \<and>
     stock_source_file_size_matches_request (sp_tags e) (ss_size req)"

definition notes_answers :: "search_notes_req \<Rightarrow> int \<Rightarrow> kad_store \<Rightarrow> stored_notes \<Rightarrow> bool" where
  "notes_answers req now st e \<longleftrightarrow>
     e \<in> set (notes_entries st) \<and> np_target e = sn_target req \<and>
     now < np_observed_at e + int (notes_ttl (st_config st)) \<and>
     stock_notes_file_size_matches_request (np_tags e) (sn_size req)"

lemma set_take_drop_subset: "set (take n (drop m xs)) \<subseteq> set xs"
  using set_take_subset set_drop_subset by fast

lemma restrictive_None [simp]: "keyword_entry_matches_restrictive_payload L e None"
  by (simp add: keyword_entry_matches_restrictive_payload_def)

lemma keyword_search_Some:
  assumes "fst (keyword_search_response L me req limit now st) = Some r"
  shows "sr_target r = sk_target req \<and> sr_sender_id r = me \<and> sr_results r \<noteq> [] \<and>
    length (sr_results r) \<le> limit \<and>
    set (sr_results r) \<subseteq> keyword_result ` Collect (keyword_answers L req now st)"
proof -
  let ?q = "\<lambda>e. keyword_entry_matches_restrictive_payload L e
    (if sk_start_position req AND 0x8000 \<noteq> 0 then Some (sk_restrictive_payload req) else None)"
  define xs where "xs = filter ?q (filter (\<lambda>e. kp_target e = sk_target req)
    (purge_expired kp_observed_at (keyword_ttl (st_config st)) now (keyword_entries st)))"
  define n where "n = unat (sk_start_position req AND 0x7FFF)"
  have r: "sr_results r = map keyword_result (take limit (drop n xs))"
    "sr_results r \<noteq> []" "sr_target r = sk_target req" "sr_sender_id r = me"
    using assms
    by (auto simp: keyword_search_response_def search_response_Some keyword_result_def [abs_def]
        xs_def n_def Let_def split: if_splits)
  have "set xs \<subseteq> Collect (keyword_answers L req now st)"
    by (auto simp: xs_def purge_expired_def keyword_answers_def)
  then show ?thesis
    using r set_take_drop_subset [of limit n xs] by auto
qed

lemma source_search_Some:
  assumes "fst (source_search_response me req limit now st) = Some r"
  shows "sr_target r = ss_target req \<and> sr_sender_id r = me \<and> sr_results r \<noteq> [] \<and>
    length (sr_results r) \<le> limit \<and>
    set (sr_results r) \<subseteq> source_result ` Collect (source_answers req now st)"
proof -
  define n where "n = unat (ss_start_position req AND 0x7FFF)"
  define xs where "xs = filter (\<lambda>e. stock_source_file_size_matches_request (sp_tags e) (ss_size req))
    (drop n (filter (\<lambda>e. sp_target e = ss_target req)
      (rev (purge_expired sp_observed_at (source_ttl (st_config st)) now (source_entries st)))))"
  have r: "sr_results r = map source_result (take limit xs)"
    "sr_results r \<noteq> []" "sr_target r = ss_target req" "sr_sender_id r = me"
    using assms
    by (auto simp: source_search_response_def search_response_Some source_result_def [abs_def]
        xs_def n_def Let_def split: if_splits)
  have "set xs \<subseteq> Collect (source_answers req now st)"
    by (auto simp: xs_def purge_expired_def source_answers_def dest!: in_set_dropD)
  then show ?thesis
    using r set_take_subset [of limit xs] by auto
qed

lemma notes_search_Some:
  assumes "fst (notes_search_response me req limit now st) = Some r"
  shows "sr_target r = sn_target req \<and> sr_sender_id r = me \<and> sr_results r \<noteq> [] \<and>
    length (sr_results r) \<le> limit \<and>
    set (sr_results r) \<subseteq> notes_result ` Collect (notes_answers req now st)"
proof -
  define xs where "xs = filter (\<lambda>e. stock_notes_file_size_matches_request (np_tags e) (sn_size req))
    (filter (\<lambda>e. np_target e = sn_target req)
      (rev (purge_expired np_observed_at (notes_ttl (st_config st)) now (notes_entries st))))"
  have r: "sr_results r = map notes_result (take limit xs)"
    "sr_results r \<noteq> []" "sr_target r = sn_target req" "sr_sender_id r = me"
    using assms
    by (auto simp: notes_search_response_def search_response_Some notes_result_def [abs_def]
        xs_def Let_def split: if_splits)
  have "set xs \<subseteq> Collect (notes_answers req now st)"
    by (auto simp: xs_def purge_expired_def notes_answers_def)
  then show ?thesis
    using r set_take_subset [of limit xs] by auto
qed

text \<open>
  C34. A search answers with at most \<open>limit\<close> results, at least one, and every one of them is the
  rendering of a stored entry of the requested target that has not expired and passes the
  filter of the request: the restrictive expression of a keyword search, the file size of a source
  or notes search.
\<close>

theorem search_sound:
  "pred_option (\<lambda>r. sr_target r = sk_target kreq \<and> sr_results r \<noteq> [] \<and> length (sr_results r) \<le> limit \<and>
      set (sr_results r) \<subseteq> keyword_result ` Collect (keyword_answers L kreq now st))
     (fst (keyword_search_response L me kreq limit now st)) \<and>
   pred_option (\<lambda>r. sr_target r = ss_target sreq \<and> sr_results r \<noteq> [] \<and> length (sr_results r) \<le> limit \<and>
      set (sr_results r) \<subseteq> source_result ` Collect (source_answers sreq now st))
     (fst (source_search_response me sreq limit now st)) \<and>
   pred_option (\<lambda>r. sr_target r = sn_target nreq \<and> sr_results r \<noteq> [] \<and> length (sr_results r) \<le> limit \<and>
      set (sr_results r) \<subseteq> notes_result ` Collect (notes_answers nreq now st))
     (fst (notes_search_response me nreq limit now st))"
  using keyword_search_Some [of L me kreq limit now st] source_search_Some [of me sreq limit now st]
    notes_search_Some [of me nreq limit now st]
  by (simp add: pred_option_def)

subsection \<open>A publish is visible to the next search\<close>

lemma length_filters_le: "length (filter q (filter p (rev (filter r xs)))) \<le> count_if p xs"
proof -
  have "length (filter q (filter p (rev (filter r xs)))) \<le> count_if p (filter r xs)"
    using length_filter_le [of q "filter p (rev (filter r xs))"]
    by (simp only: count_if_def rev_filter [symmetric] length_rev)
  then show ?thesis
    using count_if_filter_le [of p r xs] by simp
qed

lemma length_target_filter:
  "length (filter (\<lambda>e. sp_target e = t) (rev (purge_expired sp_observed_at ttl now es))) \<le>
     count_if (\<lambda>e. sp_target e = t) es"
  using length_filters_le [of "\<lambda>_. True" "\<lambda>e. sp_target e = t" "\<lambda>e. now < sp_observed_at e + int ttl" es]
  by (simp add: purge_expired_def)

lemma unat_start_position: "p < 32768 \<Longrightarrow> unat ((of_nat p :: u16) AND 0x7FFF) = p"
proof -
  assume p: "p < 32768"
  have "(0x7FFF :: u16) = mask 15" by (simp add: mask_eq_exp_minus_1)
  then have "unat ((of_nat p :: u16) AND 0x7FFF) = take_bit 15 (unat (of_nat p :: u16))"
    by (simp only: flip: take_bit_eq_mask) (simp add: unsigned_take_bit_eq)
  then show ?thesis using p by (simp add: unat_of_nat take_bit_eq_mod)
qed

lemma source_search_at:
  assumes "enabled (st_config st)" "0 < limit" "p < 32768"
    and "filter (\<lambda>e. sp_target e = target)
      (rev (purge_expired sp_observed_at (source_ttl (st_config st)) now (source_entries st))) = as @ e # bs" "length as = p"
    and "stock_source_file_size_matches_request (sp_tags e) sz"
  shows "\<exists>r. fst (source_search_response me \<lparr> ss_target = target, ss_start_position = of_nat p, ss_size = sz \<rparr> limit now st) =
      Some r \<and> source_result e \<in> set (sr_results r)"
  using assms unat_start_position [OF assms(3)]
  by (cases limit) (simp_all add: source_search_response_def Let_def search_response_def source_result_def)

text \<open>
  An accepted source publish is in the answer to some search for its target while it has not expired,
  whatever the limit: at start position 0 if the source is new, and otherwise, because a known source
  keeps its place, at one of the first thousand positions.
\<close>

lemma source_publish_found:
  assumes "store_reach c st" "fst (record_source_publish target pub ip udp tags now st) = Some ld"
    and now': "now \<le> now'" "now' < now + int (source_ttl c)" and limit: "0 < limit"
    and sz: "stock_source_file_size_matches_request (stock_stored_source_publish_tags tags) sz"
  shows "\<exists>tcp start r e. stock_source_tcp_port tags = Some tcp \<and> unat start \<le> 1000 \<and>
    (\<not> source_replacement_matches (purge_expired sp_observed_at (source_ttl c) now (source_entries st)) target ip tcp udp \<longrightarrow>
       start = 0) \<and>
    fst (source_search_response me \<lparr> ss_target = target, ss_start_position = start, ss_size = sz \<rparr> limit now'
      (snd (record_source_publish target pub ip udp tags now st))) = Some r \<and>
    source_result e \<in> set (sr_results r) \<and> sp_publisher_id e = pub \<and> sp_source_ip e = ip \<and>
    sp_tags e = stock_stored_source_publish_tags tags"
proof -
  let ?st' = "snd (record_source_publish target pub ip udp tags now st)"
  let ?es = "purge_expired sp_observed_at (source_ttl c) now (source_entries st)"
  obtain tcp where en: "enabled (st_config st)" and tcp: "stock_source_tcp_port tags = Some tcp"
    using assms(2) by (auto simp: record_source_publish_def split: if_splits option.splits)
  define e where "e = \<lparr> sp_observed_at = now, sp_target = target, sp_publisher_id = pub,
    sp_source_ip = ip, sp_source_tcp_port = tcp, sp_source_udp_port = udp,
    sp_tags = stock_stored_source_publish_tags tags,
    sp_dedup_key = source_dedup_key target ip tcp udp \<rparr>"
  have reach: "store_reach c ?st'" and c: "st_config st = c"
    using assms(1) store_reach_ok by (auto intro: store_reach.source_publish)
  have es': "source_entries ?st' = upsert_source_entry (source_capacity c) e ?es"
    using assms(2) by (auto simp: record_source_publish_def tcp e_def Let_def c split: if_splits)
  define ys where "ys = filter (\<lambda>e. sp_target e = target)
    (rev (purge_expired sp_observed_at (source_ttl c) now' (source_entries ?st')))"
  have kept: "e \<in> set ys" "sp_target e = target" "sp_observed_at e + int (source_ttl c) > now'"
    using source_cache.ups_mem [of e "source_capacity c" ?es] now'
    by (simp_all add: ys_def es' purge_expired_def) (simp_all add: e_def)
  have "length ys \<le> 1001"
    using store_reach_ok [OF reach] length_target_filter [of target "source_ttl c" now' "source_entries ?st'"]
    unfolding ys_def by (auto simp: store_ok_def sources_ok_def stock_limits intro: order_trans)
  moreover obtain p where p: "find_pos (\<lambda>x. x = e) ys = Some p"
    using kept(1) find_pos_None [of "\<lambda>x. x = e" ys] by (cases "find_pos (\<lambda>x. x = e) ys") auto
  moreover obtain as bs where split: "ys = as @ e # bs" "length as = p"
    using find_pos_split [OF p] by metis
  ultimately have le: "p \<le> 1000" by simp
  have new: "p = 0" if "\<not> source_replacement_matches ?es target ip tcp udp"
  proof -
    have "find_pos (same_source target ip tcp udp) ?es = None"
      using that by (auto simp: source_replacement_matches_def find_pos_None list_ex_iff)
    then obtain xs where "source_entries ?st' = xs @ [e]"
      unfolding es' by (simp add: upsert_source_entry_def e_def)
    then have "\<exists>zs. ys = e # zs" using kept(2,3) by (simp add: ys_def purge_expired_def)
    then show "p = 0" using p by auto
  qed
  have "\<exists>r. fst (source_search_response me \<lparr> ss_target = target, ss_start_position = of_nat p, ss_size = sz \<rparr> limit now' ?st') =
      Some r \<and> source_result e \<in> set (sr_results r)"
    using source_search_at [of ?st' limit p target now' as e bs sz me] en limit le split sz
    by (simp add: c ys_def [symmetric]) (simp add: e_def)
  then obtain r where r: "fst (source_search_response me
      \<lparr> ss_target = target, ss_start_position = of_nat p, ss_size = sz \<rparr> limit now' ?st') = Some r"
      "source_result e \<in> set (sr_results r)"
    by blast
  have "unat (of_nat p :: u16) \<le> 1000" using le by (simp add: unat_of_nat)
  moreover have "sp_publisher_id e = pub" "sp_source_ip e = ip" "sp_tags e = stock_stored_source_publish_tags tags"
    by (simp_all add: e_def)
  ultimately show ?thesis using r tcp new by (intro exI [of _ tcp] exI [of _ "of_nat p"] exI [of _ r] exI [of _ e]) auto
qed

subsection \<open>Responses on the wire\<close>

abbreviation has_name :: "u8 \<Rightarrow> tag list \<Rightarrow> bool" where
  "has_name n ts \<equiv> \<exists>t \<in> set ts. tg_name t = Short n"

text \<open>The tags a keyword response copies from the stored entry.\<close>

definition copied_tag :: "tag \<Rightarrow> bool" where
  "copied_tag t \<longleftrightarrow> tg_name t \<notin> Short ` {tn_FILENAME, tn_FILESIZE, tn_KADAICHHASHPUB, tn_PUBLISHINFO,
     tn_KADAICHHASHRESULT}"

lemma keyword_tags_fst:
  "fst (foldl keyword_tag_step (acc, a) ts) = acc @ filter copied_tag ts"
proof (induction ts arbitrary: acc a)
  case (Cons t ts)
  then show ?case
    by (cases "tg_name t") (auto simp: copied_tag_def)
qed simp

lemma keyword_tags_snd:
  "snd (foldl keyword_tag_step (acc, None) ts) = Some h \<Longrightarrow>
     has_name tn_KADAICHHASHPUB ts \<and> length h = 20"
proof -
  have "snd (foldl keyword_tag_step (acc, a) ts) = Some h \<Longrightarrow>
     a = Some h \<or> has_name tn_KADAICHHASHPUB ts \<and> length h = 20" for a
  proof (induction ts arbitrary: acc a)
    case (Cons t ts)
    then show ?case
      by (cases "tg_name t") (fastforce simp: stock_aich_publish_hash_def
          split: if_splits tag_value.splits)+
  qed simp
  then show "snd (foldl keyword_tag_step (acc, None) ts) = Some h \<Longrightarrow>
     has_name tn_KADAICHHASHPUB ts \<and> length h = 20"
    by fastforce
qed

lemma copied_tags_length:
  "length (filter copied_tag ts) + of_bool (has_name tn_FILENAME ts) +
     of_bool (has_name tn_FILESIZE ts) + of_bool (has_name tn_KADAICHHASHPUB ts) \<le> length ts"
proof (induction ts)
  case (Cons t ts)
  then show ?case
    by (auto simp: copied_tag_def tn_defs)
qed simp

lemma first_filename_tag:
  "stock_first_filename ts = Some v \<Longrightarrow>
     \<exists>t \<in> set ts. tg_name t = Short tn_FILENAME \<and> tg_value t = String v"
  by (auto simp: stock_first_filename_def split: if_splits tag_value.splits dest!: find_map_SomeD)

lemma file_size_tag:
  assumes "stock_first_file_size_impl ts b = Some v"
  shows "has_name tn_FILESIZE ts"
proof (rule ccontr)
  assume none: "\<not> has_name tn_FILESIZE ts"
  have "\<exists>hi. foldl (stock_size_step b) (None, None, hi0) ts = (None, None, hi)" for hi0
    using none
  proof (induction ts arbitrary: hi0)
    case (Cons t ts)
    have "\<exists>hi. stock_size_step b (None, None, hi0) t = (None, None, hi)"
      using Cons.prems by (cases "tg_name t") (auto split: tag_value.split)
    then obtain hi where "stock_size_step b (None, None, hi0) t = (None, None, hi)"
      by blast
    then show ?case
      using Cons by simp
  qed simp
  then obtain hi where "foldl (stock_size_step b) (None, None, None) ts = (None, None, hi)"
    by blast
  then show False
    using assms by (simp add: stock_first_file_size_impl_def)
qed

lemma positive_size_Some: "positive_size x = Some v \<Longrightarrow> x = Some v"
  by (auto simp: positive_size_def split: option.splits if_splits)

lemma opt_tag_simps [simp]:
  "length (opt_tag f x) = of_bool (x \<noteq> None)" "set (opt_tag f x) = f ` set_option x"
  by (auto simp: opt_tag_def split: option.split)

lemma keyword_result_tags_eq:
  "keyword_result_tags e =
     opt_tag tag_filename (stock_first_filename (kp_tags e)) @
     opt_tag tag_filesize (positive_size (stock_first_keyword_source_file_size (kp_tags e))) @
     filter copied_tag (kp_tags e) @ [keyword_publish_info_tag] @
     opt_tag keyword_aich_result_tag (snd (foldl keyword_tag_step
       (opt_tag tag_filename (stock_first_filename (kp_tags e)) @
        opt_tag tag_filesize (positive_size (stock_first_keyword_source_file_size (kp_tags e))), None)
       (kp_tags e)))"
  by (simp add: keyword_result_tags_def Let_def case_prod_beta keyword_tags_fst)

lemma keyword_result_tags_length: "length (keyword_result_tags e) \<le> Suc (length (kp_tags e))"
proof -
  let ?ts = "kp_tags e"
  let ?head = "opt_tag tag_filename (stock_first_filename ?ts) @
    opt_tag tag_filesize (positive_size (stock_first_keyword_source_file_size ?ts))"
  have "of_bool (stock_first_filename ?ts \<noteq> None) \<le> (of_bool (has_name tn_FILENAME ?ts) :: nat)"
    using first_filename_tag [of ?ts] by (fastforce simp: of_bool_def)
  moreover have "of_bool (positive_size (stock_first_keyword_source_file_size ?ts) \<noteq> None)
      \<le> (of_bool (has_name tn_FILESIZE ?ts) :: nat)"
    using file_size_tag [of ?ts True] positive_size_Some
    by (fastforce simp: of_bool_def stock_first_keyword_source_file_size_def)
  moreover have "of_bool (snd (foldl keyword_tag_step (?head, None) ?ts) \<noteq> None)
      \<le> (of_bool (has_name tn_KADAICHHASHPUB ?ts) :: nat)"
    using keyword_tags_snd [of ?head ?ts] by (fastforce simp: of_bool_def)
  ultimately show ?thesis
    using copied_tags_length [of ?ts] unfolding keyword_result_tags_eq
    by (simp only: length_append opt_tag_simps list.size)
qed

lemma source_tags_length:
  "length (fst (foldl (source_tag_step ip) (acc, ty, tcp, udp) ts)) + of_bool (has_name tn_FILESIZE ts)
     \<le> length acc + length ts + of_bool (\<not> ty)"
proof (induction ts arbitrary: acc ty tcp udp)
  case (Cons t ts)
  obtain acc' ty' tcp' udp' where st: "source_tag_step ip (acc, ty, tcp, udp) t = (acc', ty', tcp', udp')"
    by (cases "source_tag_step ip (acc, ty, tcp, udp) t") auto
  have "length acc' + of_bool (\<not> ty') + of_bool (tg_name t = Short tn_FILESIZE)
      \<le> Suc (length acc + of_bool (\<not> ty))"
    using st by (auto simp: tn_defs split: tag_name.splits if_splits option.splits)
  then show ?case
    using Cons.IH [of acc' ty' tcp' udp'] by (auto simp: st simp del: source_tag_step.simps)
qed simp

lemma source_result_tags_length: "length (source_result_tags e) \<le> Suc (length (sp_tags e))"
proof -
  let ?ts = "sp_tags e"
  have "of_bool (stock_first_keyword_source_file_size ?ts \<noteq> None)
      \<le> (of_bool (has_name tn_FILESIZE ?ts) :: nat)"
    using file_size_tag [of ?ts True]
    by (fastforce simp: of_bool_def stock_first_keyword_source_file_size_def)
  then show ?thesis
    using source_tags_length [of "sp_source_ip e"
        "opt_tag tag_filesize (stock_first_keyword_source_file_size ?ts)" False False False ?ts]
    unfolding source_result_tags_def Let_def opt_tag_simps by (simp only: of_bool_eq not_False_eq_True)
qed

lemma note_tags_length:
  "length (filter (\<lambda>t. \<not> (tg_name t = Short tn_FILENAME \<or> tg_name t = Short tn_FILESIZE)) ts) +
     of_bool (has_name tn_FILENAME ts) + of_bool (has_name tn_FILESIZE ts) \<le> length ts"
  by (induction ts) (auto simp: tn_defs)

lemma notes_result_tags_length: "length (notes_result_tags e) \<le> length (np_tags e)"
proof -
  let ?ts = "np_tags e"
  have "of_bool (stock_first_filename ?ts \<noteq> None) \<le> (of_bool (has_name tn_FILENAME ?ts) :: nat)"
    using first_filename_tag [of ?ts] by (fastforce simp: of_bool_def)
  moreover have "of_bool (positive_size (stock_first_file_size ?ts) \<noteq> None)
      \<le> (of_bool (has_name tn_FILESIZE ?ts) :: nat)"
    using file_size_tag [of ?ts False] positive_size_Some
    by (fastforce simp: of_bool_def stock_first_file_size_def)
  ultimately show ?thesis
    using note_tags_length [of ?ts] unfolding notes_result_tags_def length_append opt_tag_simps
    by linarith
qed

text \<open>Tags that can be written, with room left for the ones a response adds.\<close>

definition wire_ready :: "nat \<Rightarrow> tag list \<Rightarrow> bool" where
  "wire_ready n ts \<longleftrightarrow> length ts \<le> n \<and> (\<forall>t \<in> set ts. tag_fits t)"

lemma tag_fits_simps [simp]:
  "tag_fits (new_short n v) \<longleftrightarrow> value_fits v"
  "tag_fits (tag_filename name) \<longleftrightarrow> length name < 2 ^ 16"
  "tag_fits (tag_filesize sz)"
  "tag_fits keyword_publish_info_tag"
  "tag_fits (source_ip_tag ip)"
  "tag_fits (keyword_aich_result_tag h) \<longleftrightarrow> length h < 254"
  by (simp_all add: tag_fits_def new_short_def tag_filename_def tag_filesize_def
      keyword_publish_info_tag_def source_ip_tag_def keyword_aich_result_tag_def Let_def
      split: ipv4.split)

lemma filename_fits:
  "\<forall>t \<in> set ts. tag_fits t \<Longrightarrow> stock_first_filename ts = Some v \<Longrightarrow> length v < 2 ^ 16"
  by (drule first_filename_tag) (auto simp: tag_fits_def)

lemma keyword_result_fits:
  assumes "wire_ready 254 (kp_tags e)"
  shows "tags_fit (keyword_result_tags e)"
  unfolding tags_fit_def
proof (intro conjI ballI)
  show "length (keyword_result_tags e) < 256"
    using assms keyword_result_tags_length [of e] by (simp add: wire_ready_def)
  fix t assume "t \<in> set (keyword_result_tags e)"
  then show "tag_fits t"
    using assms filename_fits [of "kp_tags e"]
    by (auto simp: keyword_result_tags_eq wire_ready_def dest!: keyword_tags_snd)
qed

lemma source_tag_step_set:
  "set (fst (source_tag_step ip (acc, ty, tcp, udp) t)) \<subseteq>
     set acc \<union> {t, source_ip_tag ip, normalized_source_port_tag t} \<union>
     set_option (normalized_source_udp_port_tag t)"
  by (auto split: tag_name.split option.split)

lemma source_tags_fit:
  "\<forall>t \<in> set acc. tag_fits t \<Longrightarrow> \<forall>t \<in> set ts. tag_fits t \<Longrightarrow>
     \<forall>t \<in> set (fst (foldl (source_tag_step ip) (acc, ty, tcp, udp) ts)). tag_fits t"
proof (induction ts arbitrary: acc ty tcp udp)
  case (Cons t ts)
  obtain acc' ty' tcp' udp' where st: "source_tag_step ip (acc, ty, tcp, udp) t = (acc', ty', tcp', udp')"
    by (cases "source_tag_step ip (acc, ty, tcp, udp) t") auto
  have port: "tag_fits (normalized_source_port_tag t)"
    using Cons.prems by (auto simp: normalized_source_port_tag_def tag_fits_def split: tag_value.split)
  have uport: "tag_fits u" if "normalized_source_udp_port_tag t = Some u" for u
    using that by (auto simp: normalized_source_udp_port_tag_def Let_def split: option.splits if_splits)
  have "set acc' \<subseteq> set acc \<union> {t, source_ip_tag ip, normalized_source_port_tag t} \<union>
      set_option (normalized_source_udp_port_tag t)"
    using source_tag_step_set [of ip acc ty tcp udp t] by (simp only: st fst_conv)
  then have "\<forall>t \<in> set acc'. tag_fits t"
    using Cons.prems port uport by fastforce
  then show ?case
    using Cons.IH [of acc' ty' tcp' udp'] Cons.prems by (simp add: st del: source_tag_step.simps)
qed simp

lemma source_result_fits:
  assumes "wire_ready 254 (sp_tags e)"
  shows "tags_fit (source_result_tags e)"
  unfolding tags_fit_def
proof
  show "length (source_result_tags e) < 256"
    using assms source_result_tags_length [of e] by (simp add: wire_ready_def)
  show "\<forall>t \<in> set (source_result_tags e). tag_fits t"
    unfolding source_result_tags_def Let_def
    by (rule source_tags_fit) (use assms in \<open>auto simp: wire_ready_def\<close>)
qed

lemma notes_result_fits:
  assumes "wire_ready 255 (np_tags e)"
  shows "tags_fit (notes_result_tags e)"
  unfolding tags_fit_def
proof (intro conjI ballI)
  show "length (notes_result_tags e) < 256"
    using assms notes_result_tags_length [of e] by (simp add: wire_ready_def)
  fix t assume "t \<in> set (notes_result_tags e)"
  then show "tag_fits t"
    using assms filename_fits [of "np_tags e"] by (auto simp: notes_result_tags_def wire_ready_def)
qed

lemma response_fits:
  assumes "length (sr_results r) \<le> limit" "limit < 65536"
    and "set (sr_results r) \<subseteq> f ` Collect P" "\<And>e. P e \<Longrightarrow> tags_fit (se_tags (f e))"
  shows "packet_fits (SearchRes r)"
  using assms by auto

definition store_wire_ready :: "kad_store \<Rightarrow> bool" where
  "store_wire_ready st \<longleftrightarrow>
     (\<forall>e \<in> set (keyword_entries st). wire_ready 254 (kp_tags e)) \<and>
     (\<forall>e \<in> set (source_entries st). wire_ready 254 (sp_tags e)) \<and>
     (\<forall>e \<in> set (notes_entries st). wire_ready 255 (np_tags e))"

lemma search_responses_fit:
  assumes "store_wire_ready st" "limit < 65536"
  shows "fst (keyword_search_response L me kreq limit now st) = Some r \<Longrightarrow> packet_fits (SearchRes r)"
    and "fst (source_search_response me sreq limit now st) = Some r \<Longrightarrow> packet_fits (SearchRes r)"
    and "fst (notes_search_response me nreq limit now st) = Some r \<Longrightarrow> packet_fits (SearchRes r)"
proof -
  assume "fst (keyword_search_response L me kreq limit now st) = Some r"
  then show "packet_fits (SearchRes r)"
    using keyword_search_Some [of L me kreq limit now st r] assms
    by (intro response_fits [of r _ keyword_result "keyword_answers L kreq now st"])
      (auto simp: store_wire_ready_def keyword_answers_def keyword_result_def intro: keyword_result_fits)
next
  assume "fst (source_search_response me sreq limit now st) = Some r"
  then show "packet_fits (SearchRes r)"
    using source_search_Some [of me sreq limit now st r] assms
    by (intro response_fits [of r _ source_result "source_answers sreq now st"])
      (auto simp: store_wire_ready_def source_answers_def source_result_def intro: source_result_fits)
next
  assume "fst (notes_search_response me nreq limit now st) = Some r"
  then show "packet_fits (SearchRes r)"
    using notes_search_Some [of me nreq limit now st r] assms
    by (intro response_fits [of r _ notes_result "notes_answers nreq now st"])
      (auto simp: store_wire_ready_def notes_answers_def notes_result_def intro: notes_result_fits)
qed

text \<open>
  Search responses can be encoded, without a panic, as long as the stored keyword and source
  entries have at most 254 tags and the notes at most 255, each of them writable, and fewer than
  65536 results are asked for.
\<close>

theorem responses_encode:
  assumes "\<forall>e \<in> set (keyword_entries st). wire_ready 254 (kp_tags e)"
    and "\<forall>e \<in> set (source_entries st). wire_ready 254 (sp_tags e)"
    and "\<forall>e \<in> set (notes_entries st). wire_ready 255 (np_tags e)"
    and "limit < 65536"
  shows "pred_option (\<lambda>r. encode B (SearchRes r) \<noteq> None)
      (fst (keyword_search_response L me kreq limit now st)) \<and>
    pred_option (\<lambda>r. encode B (SearchRes r) \<noteq> None)
      (fst (source_search_response me sreq limit now st)) \<and>
    pred_option (\<lambda>r. encode B (SearchRes r) \<noteq> None)
      (fst (notes_search_response me nreq limit now st))"
proof -
  have "encode B p \<noteq> None" if "packet_fits p" for p
    using that by (simp add: encode_def wconcat_None encode_body_None)
  moreover have "store_wire_ready st"
    using assms by (simp add: store_wire_ready_def)
  ultimately show ?thesis
    using search_responses_fit [OF _ assms(4)] by (simp add: option.pred_set )
qed

text \<open>A publish of a file name, a size and \<open>n\<close> further tags that the store keeps as they are.\<close>

definition bulk_tags :: "nat \<Rightarrow> tag list" where
  "bulk_tags n = tag_filename [97] # tag_filesize 7 # replicate n (new_short 0x20 (U8 0))"

definition bulk_store :: "nat \<Rightarrow> kad_store" where
  "bulk_store n = snd (record_keyword_publish_batch nid_ZERO
     [\<lparr> pe_hash = ed2k_ZERO, pe_tags = bulk_tags n \<rparr>] 0 (store_new demo_config))"

lemma foldl_replicate_skip: "f a x = a \<Longrightarrow> foldl f a (replicate n x) = a"
  by (induction n) auto

lemma bulk_file_size: "stock_first_file_size_impl (bulk_tags n) b = Some 7"
  by (simp add: stock_first_file_size_impl_def bulk_tags_def tag_filename_def tag_filesize_def
      new_short_def tn_defs get_or_insert_def foldl_replicate_skip)

lemma bulk_stored: "stock_stored_publish_tags (bulk_tags n) = bulk_tags n"
  by (simp add: stock_stored_publish_tags_def bulk_tags_def tag_filename_def tag_filesize_def
      new_short_def tn_defs)

lemma bulk_filename:
  "has_stock_keyword_filename (bulk_tags n)" "stock_first_filename (bulk_tags n) = Some [97]"
  by (simp_all add: has_stock_keyword_filename_def stock_first_filename_def bulk_tags_def
      tag_filename_def new_short_def tn_defs)

lemma bulk_entries:
  "keyword_entries (bulk_store n) =
     [\<lparr> kp_observed_at = 0, kp_target = nid_ZERO, kp_file_hash = ed2k_ZERO, kp_tags = bulk_tags n,
        kp_dedup_key = keyword_dedup_key nid_ZERO ed2k_ZERO 7 \<rparr>]"
  "st_config (bulk_store n) = demo_config" "enabled demo_config" "keyword_ttl demo_config = 10000000000"
  "source_entries (bulk_store n) = []" "notes_entries (bulk_store n) = []"
  by (simp_all add: bulk_store_def record_keyword_publish_batch_def record_keyword_entry_def
      store_new_def demo_config_def from_kad_config_def purge_expired_def bulk_file_size
      stock_keyword_file_size_def positive_size_def stock_first_keyword_source_file_size_def
      bulk_filename bulk_stored stock_keyword_publish_decision_def keyword_source_count_def
      stock_limits upsert_entry_def evict_oldest_def)

lemma bulk_response:
  "\<exists>x. fst (keyword_search_response L me \<lparr> sk_target = nid_ZERO, sk_start_position = 0,
      sk_restrictive_payload = [] \<rparr> 300 0 (bulk_store n)) =
      Some \<lparr> sr_sender_id = me, sr_target = nid_ZERO, sr_results = [x] \<rparr> \<and>
    n + 3 \<le> length (se_tags x)"
proof -
  have "n \<le> length (filter copied_tag (bulk_tags n))"
    by (simp add: bulk_tags_def copied_tag_def tag_filename_def tag_filesize_def new_short_def tn_defs)
  then show ?thesis
    by (simp add: keyword_search_response_def search_response_def bulk_entries purge_expired_def
        keyword_result_tags_eq bulk_filename stock_first_keyword_source_file_size_def bulk_file_size
        positive_size_def)
qed

lemma bulk_fits: "n < 254 \<Longrightarrow> tags_fit (bulk_tags n)" "n \<le> 252 \<Longrightarrow> wire_ready 254 (bulk_tags n)"
  by (auto simp: tags_fit_def bulk_tags_def wire_ready_def)

theorem responses_encode_witness:
  "\<exists>r. fst (keyword_search_response id nid_ZERO \<lparr> sk_target = nid_ZERO, sk_start_position = 0,
      sk_restrictive_payload = [] \<rparr> 300 0 (bulk_store 252)) = Some r \<and>
    encode (le_ext id (\<lambda>_. None)) (SearchRes r) \<noteq> None"
  using bulk_response [of id nid_ZERO 252] bulk_fits(2) [of 252]
    responses_encode [of "bulk_store 252" 300 "le_ext id (\<lambda>_. None)" id nid_ZERO
      "\<lparr> sk_target = nid_ZERO, sk_start_position = 0, sk_restrictive_payload = [] \<rparr>" 0]
  by (auto simp: bulk_entries)

text \<open>
  The bound of 254 tags is sharp, and a peer can exceed it. A keyword publish with 255
  tags is a packet that encodes and is accepted; the answer to the next search for its target
  carries 256 tags, because publish info is added, and encoding that answer panics.
\<close>

theorem bulk_publish_panics_response:
  "encode B (PublishKeyReq \<lparr> pk_target = nid_ZERO,
      pk_entries = [\<lparr> pe_hash = ed2k_ZERO, pe_tags = bulk_tags 253 \<rparr>] \<rparr>) \<noteq> None \<and>
   store_reach demo_config (bulk_store 253) \<and>
   (\<exists>r. fst (keyword_search_response L me \<lparr> sk_target = nid_ZERO, sk_start_position = 0,
      sk_restrictive_payload = [] \<rparr> 300 0 (bulk_store 253)) = Some r \<and>
     encode B (SearchRes r) = None)"
proof (intro conjI)
  show "encode B (PublishKeyReq \<lparr> pk_target = nid_ZERO,
      pk_entries = [\<lparr> pe_hash = ed2k_ZERO, pe_tags = bulk_tags 253 \<rparr>] \<rparr>) \<noteq> None"
    using bulk_fits(1) [of 253] by (simp add: encode_def wconcat_None encode_body_None)
  show "store_reach demo_config (bulk_store 253)"
    unfolding bulk_store_def by (rule store_reach.keyword_publish [OF store_reach.new])
  show "\<exists>r. fst (keyword_search_response L me \<lparr> sk_target = nid_ZERO, sk_start_position = 0,
      sk_restrictive_payload = [] \<rparr> 300 0 (bulk_store 253)) = Some r \<and> encode B (SearchRes r) = None"
    using bulk_response [of L me 253]
    by (auto simp: encode_def wconcat_None encode_body_None tags_fit_def)
qed

subsection \<open>The two file size readers\<close>

text \<open>
  The expression evaluator and the store read the same file size from every tag list: the
  loop of \<open>kad_search_expr.rs\<close> is equivalent to the one of \<open>kad_store.rs\<close> with eight-byte blobs
  accepted.
\<close>

theorem file_size_readers_agree:
  "file_size_tag_value tags = stock_first_keyword_source_file_size tags"
proof -
  have "file_size_step acc t = stock_size_step True acc t" for acc t
    by (cases acc) (simp split: tag_name.split tag_value.split)
  then have "file_size_step = stock_size_step True"
    by blast
  then show ?thesis
    by (simp add: file_size_tag_value_def stock_first_keyword_source_file_size_def
        stock_first_file_size_impl_def)
qed

end
