(* ===== verification/Snoop_Queue_Props.thy ===== *)
theory Snoop_Queue_Props
  imports Snoop_Queue
begin

text \<open>
  Correctness of the snoop queue: the requests recorded are the requests replayed, keys do not
  collide, the drain budgets hold over every window of ten minutes, and selection makes progress
  and does not depend on the iteration order of the hash map.
\<close>

subsection \<open>Requests and keys\<close>

lemma to_hex_inject: "m < 16 ^ k \<Longrightarrow> n < 16 ^ k \<Longrightarrow> to_hex k m = to_hex k n \<longleftrightarrow> m = n"
proof -
  have "radix16_loop (16 ^ k) 0 (to_hex k m) = Some m" if "m < 16 ^ k" for m
    using radix16_loop_to_hex [of m k 0 "16 ^ k" "[]"] that by (simp add: less_imp_le)
  then show "m < 16 ^ k \<Longrightarrow> n < 16 ^ k \<Longrightarrow> to_hex k m = to_hex k n \<longleftrightarrow> m = n"
    by (metis option.inject)
qed

lemma to_hex_u16_inject: "to_hex 4 (unat (a :: u16)) = to_hex 4 (unat b) \<longleftrightarrow> a = b"
proof -
  have "unat c < 16 ^ 4" for c :: u16
    using unsigned_less [of c] by simp
  then show ?thesis
    by (simp only: to_hex_inject word_unat_eq_iff)
qed

lemma hex_encode_inject: "hex_ok H \<Longrightarrow> hex_encode H a = hex_encode H b \<longleftrightarrow> a = b"
  unfolding hex_ok_def by (metis option.inject)

lemma hex_encode_not_Nil: "hex_ok H \<Longrightarrow> b \<noteq> [] \<Longrightarrow> hex_encode H b \<noteq> []"
  unfolding hex_ok_def by (metis length_0_conv mult_eq_0_iff zero_neq_numeral)

lemma request_of_entry:
  "hex_ok H \<Longrightarrow> keyword_request H (build_keyword_snoop_entry H kreq now) = Some (Some kreq)"
  "ss_size sreq \<noteq> 0 \<Longrightarrow> source_request (build_source_snoop_entry sreq now) = Some (Some sreq)"
  "sn_size nreq \<noteq> 0 \<Longrightarrow> notes_request (build_notes_snoop_entry nreq now) = Some (Some nreq)"
  by (simp_all add: keyword_request_def build_keyword_snoop_entry_def payload_hex_def hex_ok_def
      source_request_def build_source_snoop_entry_def notes_request_def build_notes_snoop_entry_def
      nid_from_str_display)

lemma keyword_key_inject:
  assumes "hex_ok H"
  shows "keyword_logical_key H a = keyword_logical_key H b \<longleftrightarrow> a = b"
proof
  assume eq: "keyword_logical_key H a = keyword_logical_key H b"
  then have "sk_target a = sk_target b" "sk_start_position a = sk_start_position b"
    and p: "(case payload_hex H (sk_restrictive_payload a) of None \<Rightarrow> [] | Some p \<Rightarrow> p) =
      (case payload_hex H (sk_restrictive_payload b) of None \<Rightarrow> [] | Some p \<Rightarrow> p)"
    by (simp_all add: keyword_logical_key_def to_hex_u16_inject del: to_hex.simps)
  moreover have "sk_restrictive_payload a = sk_restrictive_payload b"
    using p hex_encode_inject [OF assms, of "sk_restrictive_payload a" "sk_restrictive_payload b"]
      hex_encode_not_Nil [OF assms, of "sk_restrictive_payload a"]
      hex_encode_not_Nil [OF assms, of "sk_restrictive_payload b"]
    by (simp add: payload_hex_def split: if_splits)
  ultimately show "a = b"
    by simp
qed simp

lemma source_key_inject: "source_logical_key a = source_logical_key b \<longleftrightarrow> a = b"
  by (cases a, cases b)
    (simp add: source_logical_key_def to_hex_u16_inject word_unat_eq_iff [symmetric] del: to_hex.simps)

lemma notes_key_inject: "notes_logical_key a = notes_logical_key b \<longleftrightarrow> a = b"
  by (cases a, cases b) (simp add: notes_logical_key_def word_unat_eq_iff [symmetric])

lemma family_keys_differ:
  "keyword_logical_key H a \<noteq> source_logical_key b" "keyword_logical_key H a \<noteq> notes_logical_key c"
  "source_logical_key b \<noteq> notes_logical_key c"
  by (simp_all add: keyword_logical_key_def source_logical_key_def notes_logical_key_def)

subsection \<open>A concrete hexadecimal codec\<close>

fun hex_pairs :: "rstring \<Rightarrow> bytes option" where
  "hex_pairs [] = Some []"
| "hex_pairs [c] = None"
| "hex_pairs (c # d # cs) =
     (case (to_digit16 c, to_digit16 d, hex_pairs cs) of
        (Some m, Some n, Some bs) \<Rightarrow> Some (of_nat (16 * m + n) # bs)
      | _ \<Rightarrow> None)"

definition std_hex :: hex_ext where
  "std_hex = \<lparr> hex_encode = (\<lambda>bs. concat (map (\<lambda>b. to_hex 2 (unat b)) bs)), hex_decode = hex_pairs \<rparr>"

lemma to_hex_2: "to_hex 2 n = [hex_digit (n div 16 mod 16), hex_digit (n mod 16)]"
  by (simp add: numeral_2_eq_2)

lemma std_hex_ok: "hex_ok std_hex"
proof -
  have byte: "of_nat (16 * (unat b div 16 mod 16) + unat b mod 16) = b" for b :: u8
  proof -
    have "unat b < 2 ^ LENGTH(8)"
      by (rule unsigned_less)
    then have "unat b div 16 mod 16 = unat b div 16"
      by (intro mod_less) simp
    then have "16 * (unat b div 16 mod 16) + unat b mod 16 = unat b"
      by simp
    then show ?thesis
      by simp
  qed
  have "hex_pairs (concat (map (\<lambda>b. to_hex 2 (unat b)) bs)) = Some bs" for bs :: bytes
    by (induction bs) (simp_all add: to_hex_2 byte del: to_hex.simps of_nat_add of_nat_mult)
  moreover have "length (concat (map (\<lambda>b. to_hex 2 (unat b)) bs)) = 2 * length bs" for bs :: bytes
    by (induction bs) (simp_all del: to_hex.simps)
  ultimately show ?thesis
    by (simp add: hex_ok_def std_hex_def)
qed

text \<open>
  An entry built from a search gives that search back when it is replayed (source and notes
  searches if they carry a size), and two searches are recorded under the same key only if they are
  equal.
\<close>

theorem snoop_entries_faithful:
  assumes "hex_ok H"
  shows "keyword_request H (build_keyword_snoop_entry H k now) = Some (Some k) \<and>
    (ss_size s \<noteq> 0 \<longrightarrow> source_request (build_source_snoop_entry s now) = Some (Some s)) \<and>
    (sn_size n \<noteq> 0 \<longrightarrow> notes_request (build_notes_snoop_entry n now) = Some (Some n)) \<and>
    (en_logical_key (build_keyword_snoop_entry H k now) = en_logical_key (build_keyword_snoop_entry H k' now')
      \<longleftrightarrow> k = k') \<and>
    (en_logical_key (build_source_snoop_entry s now) = en_logical_key (build_source_snoop_entry s' now')
      \<longleftrightarrow> s = s') \<and>
    (en_logical_key (build_notes_snoop_entry n now) = en_logical_key (build_notes_snoop_entry n' now')
      \<longleftrightarrow> n = n') \<and>
    distinct [en_logical_key (build_keyword_snoop_entry H k now),
      en_logical_key (build_source_snoop_entry s now), en_logical_key (build_notes_snoop_entry n now)]"
proof -
  have keys: "en_logical_key (build_keyword_snoop_entry H k now) = keyword_logical_key H k"
    "en_logical_key (build_source_snoop_entry s now) = source_logical_key s"
    "en_logical_key (build_notes_snoop_entry n now) = notes_logical_key n" for k s n now
    by (simp_all add: build_keyword_snoop_entry_def build_source_snoop_entry_def
        build_notes_snoop_entry_def)
  show ?thesis
    using request_of_entry(1) [of H k now] request_of_entry(2) [of s now]
      request_of_entry(3) [of n now] assms
    by (simp add: keys keyword_key_inject source_key_inject notes_key_inject family_keys_differ)
qed

theorem snoop_entries_faithful_witness:
  "keyword_request std_hex (build_keyword_snoop_entry std_hex
      \<lparr> sk_target = nid_ZERO, sk_start_position = 0x8000, sk_restrictive_payload = [1, 0, 0] \<rparr> 5) =
    Some (Some \<lparr> sk_target = nid_ZERO, sk_start_position = 0x8000, sk_restrictive_payload = [1, 0, 0] \<rparr>)"
  using snoop_entries_faithful [OF std_hex_ok] by blast

subsection \<open>Drain budgets\<close>

lemma recent_drains_set [simp]:
  "recent_drains f (set_recent_drains g ds q) = (if (f = Source) = (g = Source) then ds else recent_drains f q)"
  "sq_config (set_recent_drains g ds q) = sq_config q"
  "sq_entries (set_recent_drains g ds q) = sq_entries q"
  "sq_replay_feedback (set_recent_drains g ds q) = sq_replay_feedback q"
  by (cases f; cases g; simp)+

lemma recent_drains_frame [simp]:
  "recent_drains f (q\<lparr>sq_entries := es\<rparr>) = recent_drains f q"
  "recent_drains f (q\<lparr>sq_replay_feedback := fs\<rparr>) = recent_drains f q"
  by (cases f; simp)+

lemma recent_drains_bucket: "(f = Source) = (g = Source) \<Longrightarrow> recent_drains f q = recent_drains g q"
  by (cases f; cases g; simp)

declare recent_drains.simps [simp del] set_recent_drains.simps [simp del]

lemma queue_ops_frame [simp]:
  "recent_drains f (snd (merge_entry e q)) = recent_drains f q"
  "sq_config (snd (merge_entry e q)) = sq_config q"
  "recent_drains f (snd (record_entry e q)) = recent_drains f q"
  "sq_config (snd (record_entry e q)) = sq_config q"
  "recent_drains f (record_replay_outcome k at n q) = recent_drains f q"
  "sq_config (record_replay_outcome k at n q) = sq_config q"
  by (auto simp: merge_entry_def record_entry_def record_replay_outcome_def remove_key_def Let_def
      split: option.split)

lemma merge_snapshot_frame [simp]:
  "recent_drains f (merge_snapshot es q) = recent_drains f q"
  "sq_config (merge_snapshot es q) = sq_config q"
  by (induction es arbitrary: q) (simp_all add: merge_snapshot_def)

lemma mark_drained_frame [simp]:
  "recent_drains f (mark_drained g now k q) =
     recent_drains f q @ (if (f = Source) = (g = Source) then [now] else [])"
  "sq_config (mark_drained g now k q) = sq_config q"
  using recent_drains_bucket [of f g q]
  by (auto simp: mark_drained_def Let_def split: option.split)

text \<open>The drains of a family that its budget still remembers at a given time.\<close>

definition live_drains :: "int \<Rightarrow> snoop_family \<Rightarrow> snoop_queue \<Rightarrow> int list" where
  "live_drains now f q = dropWhile (\<lambda>d. d < now - 600 * NANOS) (recent_drains f q)"

text \<open>
  The cutoffs as plain differences, without the limits of the time types: what the code computes when
  the cutoffs can be represented.
\<close>

definition cutoff :: "int \<Rightarrow> u64 \<Rightarrow> int" where
  "cutoff now v = now - min (uint v) (2 ^ 63 - 1) * NANOS"

definition cooldown_of :: "u64 \<Rightarrow> snoop_entry \<Rightarrow> replay_feedback \<Rightarrow> u64" where
  "cooldown_of cd e fb =
     (case last_outcome_at fb of
        None \<Rightarrow> cd
      | Some at \<Rightarrow> if zero_result_streak fb = 0 \<or> en_last_seen e > at then cd
          else sat_mul cd (min (ucast (sat_add (zero_result_streak fb) 1)) 4))"

definition cooling :: "snoop_queue \<Rightarrow> int \<Rightarrow> u64 \<Rightarrow> snoop_entry \<Rightarrow> bool" where
  "cooling q now cd e =
     (case en_last_drained_at e of
        None \<Rightarrow> False
      | Some at \<Rightarrow> at > cutoff now (cooldown_of cd e (feedback_of q (en_logical_key e))))"

abbreviation fresh :: "snoop_queue \<Rightarrow> int \<Rightarrow> snoop_entry \<Rightarrow> bool" where
  "fresh q now e \<equiv> cutoff now (dedup_window_secs (sq_config q)) \<le> en_last_seen e"

definition replay_candidates ::
  "(snoop_entry \<Rightarrow> 'r option option) \<Rightarrow> snoop_queue \<Rightarrow> int \<Rightarrow> u64 \<Rightarrow> (snoop_entry \<Rightarrow> bool) \<Rightarrow> snoop_entry list \<Rightarrow>
     'r replay_candidate list" where
  "replay_candidates req_of q now cd P es =
     concat (map (\<lambda>e. case req_of e of
        Some (Some x) \<Rightarrow> if \<not> cooling q now cd e \<and> P e then [make_candidate q e x] else []
      | _ \<Rightarrow> []) es)"

text \<open>A number of seconds that can be subtracted from the time.\<close>

definition reaches_back :: "int \<Rightarrow> int \<Rightarrow> bool" where
  "reaches_back now secs \<longleftrightarrow> secs \<le> (2 ^ 63 - 1) div 1000 \<and> MIN_UTC \<le> now - secs * NANOS"

lemma reaches_back_mono: "reaches_back now s \<Longrightarrow> t \<le> s \<Longrightarrow> reaches_back now t"
  by (auto simp: reaches_back_def NANOS_def)

lemma cutoff_before_eq:
  "cutoff_before now v = (if reaches_back now (uint v) then Some (cutoff now v) else None)"
proof (cases "uint v \<le> (2 ^ 63 - 1) div 1000")
  case True
  then have "min (uint v) (2 ^ 63 - 1) = uint v" by simp
  then show ?thesis
    using True by (auto simp: cutoff_before_def seconds_def time_minus_def reaches_back_def cutoff_def Let_def)
qed (auto simp: cutoff_before_def seconds_def reaches_back_def Let_def)

lemma cooldown_of_le: "uint (cooldown_of cd e fb) \<le> 4 * uint cd"
proof -
  have "unat (min x 4 :: u64) \<le> 4" for x
    using min.cobounded2 [of x 4] by (simp add: word_le_nat_alt)
  then have "unat (sat_mul cd (min x 4)) \<le> unat cd * 4" for x
    unfolding unat_sat_mul by (metis min.coboundedI1 mult_le_mono2)
  then have "unat (cooldown_of cd e fb) \<le> 4 * unat cd"
    by (auto simp: cooldown_of_def mult.commute split: option.split)
  then have "int (unat (cooldown_of cd e fb)) \<le> 4 * int (unat cd)" by linarith
  then show ?thesis by simp
qed

lemma cooling_down_eq:
  assumes "reaches_back now (4 * uint cd)"
  shows "cooling_down q (cutoff now cd) now cd e = Some (cooling q now cd e)"
proof -
  have "cutoff_before now (cooldown_of cd e fb) = Some (cutoff now (cooldown_of cd e fb))" for fb
    using reaches_back_mono [OF assms cooldown_of_le] by (simp add: cutoff_before_eq)
  then have "replay_cooldown_cutoff (cutoff now cd) now cd e fb = Some (cutoff now (cooldown_of cd e fb))" for fb
  proof (cases "\<exists>at. last_outcome_at fb = Some at \<and> zero_result_streak fb \<noteq> 0 \<and> \<not> en_last_seen e > at")
    case True
    then have "replay_cooldown_cutoff (cutoff now cd) now cd e fb = cutoff_before now (cooldown_of cd e fb)"
      by (auto simp: replay_cooldown_cutoff_def cooldown_of_def Let_def)
    then show ?thesis
      using \<open>\<And>fb. cutoff_before now (cooldown_of cd e fb) = Some (cutoff now (cooldown_of cd e fb))\<close> by simp
  qed (auto simp: replay_cooldown_cutoff_def cooldown_of_def split: option.split)
  then show ?thesis by (simp add: cooling_down_def cooling_def split: option.split)
qed

text \<open>The times a selection subtracts, the cooldown up to four times over, can be represented.\<close>

definition times_ok :: "snoop_family \<Rightarrow> int \<Rightarrow> snoop_queue \<Rightarrow> bool" where
  "times_ok f now q \<longleftrightarrow> reaches_back now 600 \<and> reaches_back now (uint (dedup_window_secs (sq_config q))) \<and>
     reaches_back now (4 * uint (family_drain_cooldown_secs f q))"

text \<open>Pruning, on a time that reaches back ten minutes.\<close>

definition pruned :: "int \<Rightarrow> snoop_family \<Rightarrow> snoop_queue \<Rightarrow> snoop_queue" where
  "pruned now f q = set_recent_drains f (live_drains now f q) q"

lemma prune_eq: "prune_recent_drains now f q = (if reaches_back now 600 then Some (pruned now f q) else None)"
  by (auto simp: prune_recent_drains_def time_minus_def pruned_def live_drains_def reaches_back_def)

lemma pruned_frame [simp]:
  "sq_config (pruned now f q) = sq_config q" "sq_entries (pruned now f q) = sq_entries q"
  "feedback_of (pruned now f q) = feedback_of q"
  "recent_drain_len f (pruned now f q) = length (live_drains now f q)"
  "family_max_queries_per_600s g (pruned now f q) = family_max_queries_per_600s g q"
  "family_drain_cooldown_secs g (pruned now f q) = family_drain_cooldown_secs g q"
  by (cases g; auto simp: pruned_def feedback_of_def recent_drain_len_def)+

lemma select_next_drains:
  assumes "select_next req_of pick f now q = Some (r, q')"
  shows "sq_config q' = sq_config q \<and>
    recent_drains g q' = (if (g = Source) \<noteq> (f = Source) then recent_drains g q
      else live_drains now f q @ (if r = None then [] else [now])) \<and>
    (r \<noteq> None \<longrightarrow> length (live_drains now f q) < unat (family_max_queries_per_600s f q))"
proof -
  have "recent_drains g (pruned now f q) =
      (if (g = Source) \<noteq> (f = Source) then recent_drains g q else live_drains now f q)" for g
    by (auto simp: pruned_def)
  then show ?thesis
    using assms
    by (auto simp: select_next_def prune_eq Let_def not_le split: if_splits option.splits)
qed

text \<open>
  A run of the queue: any sequence of operations with a clock that does not go back, and the log of
  the requests it handed out.
\<close>

inductive snoop_run :: "snoop_queue_config \<Rightarrow> snoop_queue \<Rightarrow> int \<Rightarrow> (snoop_family \<times> int) list \<Rightarrow> bool"
  for c where
  start: "snoop_run c (queue_new c) t []"
| restored: "snoop_run c q t log \<Longrightarrow> snoop_run c (merge_snapshot es q) t log"
| recorded: "snoop_run c q t log \<Longrightarrow> snoop_run c (snd (record_entry e q)) t log"
| outcome: "snoop_run c q t log \<Longrightarrow> snoop_run c (record_replay_outcome k at n q) t log"
| keyword_drain: "snoop_run c q t log \<Longrightarrow> t \<le> now \<Longrightarrow> select_next_keyword_request H now q = Some (r, q') \<Longrightarrow>
    snoop_run c q' now (log @ (if r = None then [] else [(Keyword, now)]))"
| source_drain: "snoop_run c q t log \<Longrightarrow> t \<le> now \<Longrightarrow> select_next_source_request now q = Some (r, q') \<Longrightarrow>
    snoop_run c q' now (log @ (if r = None then [] else [(Source, now)]))"
| notes_drain: "snoop_run c q t log \<Longrightarrow> t \<le> now \<Longrightarrow> select_next_notes_request now q = Some (r, q') \<Longrightarrow>
    snoop_run c q' now (log @ (if r = None then [] else [(Notes, now)]))"

text \<open>
  The invariant of one budget: the remembered drains are the end of the log, what was forgotten
  is older than the window, and every window holds at most \<open>m\<close> drains.
\<close>

definition budget_ok :: "nat \<Rightarrow> int \<Rightarrow> int list \<Rightarrow> int list \<Rightarrow> bool" where
  "budget_ok m t drains log \<longleftrightarrow>
     (\<exists>old. log = old @ drains \<and> (\<forall>d \<in> set old. d < t - 600 * NANOS)) \<and>
     (\<forall>s. count_if (\<lambda>d. s \<le> d \<and> d \<le> s + 600 * NANOS) log \<le> m)"

lemma budget_later:
  assumes "budget_ok m t drains log" "t \<le> now"
  shows "budget_ok m now (dropWhile (\<lambda>d. d < now - 600 * NANOS) drains) log"
proof -
  obtain old where old: "log = old @ drains" "\<forall>d \<in> set old. d < t - 600 * NANOS"
    using assms(1) by (auto simp: budget_ok_def)
  let ?p = "\<lambda>d. d < now - 600 * NANOS"
  have "log = (old @ takeWhile ?p drains) @ dropWhile ?p drains"
    by (simp add: old(1))
  moreover have "\<forall>d \<in> set (old @ takeWhile ?p drains). ?p d"
    using old(2) assms(2) by (auto dest: set_takeWhileD)
  ultimately show ?thesis
    using assms(1) unfolding budget_ok_def by blast
qed

lemma budget_push:
  assumes "budget_ok m now drains log" "length drains < m"
  shows "budget_ok m now (drains @ [now]) (log @ [now])"
proof -
  obtain old where old: "log = old @ drains" "\<forall>d \<in> set old. d < now - 600 * NANOS"
    using assms(1) by (auto simp: budget_ok_def)
  have "count_if (\<lambda>d. s \<le> d \<and> d \<le> s + 600 * NANOS) (log @ [now]) \<le> m" for s
  proof (cases "s \<le> now \<and> now \<le> s + 600 * NANOS")
    case True
    then have "count_if (\<lambda>d. s \<le> d \<and> d \<le> s + 600 * NANOS) old = 0"
      using old(2) by (force simp: count_if_eq_0_iff)
    then show ?thesis
      using assms(2) count_if_le_length [of "\<lambda>d. s \<le> d \<and> d \<le> s + 600 * NANOS" drains] by (simp add: old(1))
  next
    case False
    then show ?thesis
      using assms(1) by (auto simp: budget_ok_def)
  qed
  then show ?thesis
    using old unfolding budget_ok_def by auto
qed

lemma budget_mono: "budget_ok m t drains log \<Longrightarrow> t \<le> now \<Longrightarrow> budget_ok m now drains log"
  unfolding budget_ok_def by (elim conjE exE, intro conjI exI) auto

definition drained :: "snoop_family \<Rightarrow> (snoop_family \<times> int) list \<Rightarrow> int list" where
  "drained g log = map snd (filter (\<lambda>(f, _). (f = Source) = (g = Source)) log)"

definition budgets_ok :: "snoop_queue \<Rightarrow> int \<Rightarrow> (snoop_family \<times> int) list \<Rightarrow> bool" where
  "budgets_ok q t log \<longleftrightarrow> (\<forall>g. budget_ok (unat (family_max_queries_per_600s g q)) t (recent_drains g q)
     (drained g log))"

lemma family_max_config:
  "sq_config q = sq_config q' \<Longrightarrow> family_max_queries_per_600s g q = family_max_queries_per_600s g q'"
  by (cases g) simp_all

lemma family_max_bucket:
  "(f = Source) = (g = Source) \<Longrightarrow> family_max_queries_per_600s f q = family_max_queries_per_600s g q"
  by (cases f; cases g; simp)

lemma budgets_ok_frame:
  "budgets_ok q t log \<Longrightarrow> sq_config q' = sq_config q \<Longrightarrow> (\<And>g. recent_drains g q' = recent_drains g q) \<Longrightarrow>
     budgets_ok q' t log"
  unfolding budgets_ok_def by (simp add: family_max_config [of q' q])

lemma budgets_ok_select:
  assumes "budgets_ok q t log" "t \<le> now" and sel: "select_next req_of pick f now q = Some (r, q')"
  shows "budgets_ok q' now (log @ (if r = None then [] else [(f, now)]))"
  unfolding budgets_ok_def
proof
  fix g
  let ?m = "unat (family_max_queries_per_600s g q)"
  have g: "budget_ok ?m t (recent_drains g q) (drained g log)"
    using assms(1) by (simp add: budgets_ok_def)
  note eff = select_next_drains [OF sel, of g]
  have m: "family_max_queries_per_600s g q' = family_max_queries_per_600s g q"
    using eff by (intro family_max_config) simp
  show "budget_ok (unat (family_max_queries_per_600s g q')) now (recent_drains g q')
      (drained g (log @ (if r = None then [] else [(f, now)])))"
  proof (cases "(f = Source) = (g = Source)")
    case True
    then have "budget_ok ?m now (live_drains now f q) (drained g log)"
      using budget_later [OF g assms(2)] recent_drains_bucket [of f g q] by (simp add: live_drains_def)
    then show ?thesis
      using eff True budget_push family_max_bucket [of f g q] by (auto simp: m drained_def)
  next
    case False
    then show ?thesis
      using eff budget_mono [OF g assms(2)] by (auto simp: m drained_def)
  qed
qed

lemma snoop_run_budgets: "snoop_run c q t log \<Longrightarrow> sq_config q = c \<and> budgets_ok q t log"
proof (induction rule: snoop_run.induct)
  case (start t)
  have "recent_drains g (queue_new c) = []" for g
    by (cases g) (simp_all add: queue_new_def recent_drains.simps)
  then show ?case
    by (simp add: budgets_ok_def budget_ok_def drained_def) (simp add: queue_new_def)
next
  case (keyword_drain q t log now H r q')
  then show ?case
    using budgets_ok_select select_next_drains unfolding select_next_keyword_request_def by metis
next
  case (source_drain q t log now r q')
  then show ?case
    using budgets_ok_select select_next_drains unfolding select_next_source_request_def by metis
next
  case (notes_drain q t log now r q')
  then show ?case
    using budgets_ok_select select_next_drains unfolding select_next_notes_request_def by metis
qed (auto intro: budgets_ok_frame)

subsection \<open>Well-formed queues\<close>

lemma setter_fields [simp]:
  "en_logical_key (set_hit_count v e) = en_logical_key e" "en_target (set_hit_count v e) = en_target e"
  "en_logical_key (set_first_seen t e) = en_logical_key e" "en_target (set_first_seen t e) = en_target e"
  "en_logical_key (set_last_seen t e) = en_logical_key e" "en_target (set_last_seen t e) = en_target e"
  "en_logical_key (set_last_drained_at d e) = en_logical_key e"
  "en_target (set_last_drained_at d e) = en_target e"
  by (cases e; simp)+

text \<open>
  Entries are stored under their own key, and their targets can be parsed without a panic.
\<close>

definition queue_ok :: "snoop_queue \<Rightarrow> bool" where
  "queue_ok q \<longleftrightarrow> distinct (map fst (sq_entries q)) \<and>
     (\<forall>k e. map_of (sq_entries q) k = Some e \<longrightarrow> en_logical_key e = k \<and> nid_from_str (en_target e) \<noteq> None)"

lemma queue_okD:
  "queue_ok q \<Longrightarrow> (k, e) \<in> set (sq_entries q) \<Longrightarrow> en_logical_key e = k \<and> nid_from_str (en_target e) \<noteq> None"
  unfolding queue_ok_def by (metis map_of_is_SomeI)

lemma queue_ok_update:
  "queue_ok q \<Longrightarrow> en_logical_key e = k \<Longrightarrow> nid_from_str (en_target e) \<noteq> None \<Longrightarrow>
     queue_ok (q\<lparr>sq_entries := AList.update k e (sq_entries q)\<rparr>)"
  by (simp add: queue_ok_def update_conv' distinct_update)

lemma queue_ok_merge:
  assumes "queue_ok q" "nid_from_str (en_target e) \<noteq> None"
  shows "queue_ok (snd (merge_entry e q))"
proof -
  have "en_logical_key (merge_existing x e) = en_logical_key x" "en_target (merge_existing x e) = en_target x" for x
    by (simp_all add: merge_existing_def Let_def)
  moreover have "en_logical_key x = en_logical_key e \<and> nid_from_str (en_target x) \<noteq> None"
    if "map_of (sq_entries q) (en_logical_key e) = Some x" for x
    using assms(1) that by (auto simp: queue_ok_def)
  ultimately show ?thesis
    using assms by (auto simp: merge_entry_def Let_def intro!: queue_ok_update split: option.split)
qed

lemma queue_ok_record:
  "queue_ok q \<Longrightarrow> nid_from_str (en_target e) \<noteq> None \<Longrightarrow> queue_ok (snd (record_entry e q))"
  using queue_ok_merge [of q e] by (simp add: record_entry_def Let_def case_prod_beta)

lemma queue_ok_remove: "queue_ok q \<Longrightarrow> queue_ok (remove_key k q)"
  by (simp add: queue_ok_def remove_key_def distinct_delete delete_conv' del: map_of_eq_Some_iff)

lemma queue_ok_outcome: "queue_ok q \<Longrightarrow> queue_ok (record_replay_outcome k at n q)"
  by (auto simp: record_replay_outcome_def Let_def intro!: queue_ok_remove) (auto simp: queue_ok_def)

lemma queue_ok_select:
  assumes "queue_ok q" "select_next req_of pick f now q = Some (r, q')"
  shows "queue_ok q'"
proof -
  have "queue_ok p" if "sq_entries p = sq_entries q" for p
    using assms(1) that by (simp add: queue_ok_def)
  moreover have "queue_ok (mark_drained f now k p)" if p: "queue_ok p" for p k
  proof (cases "map_of (sq_entries p) k")
    case (Some e)
    then have "queue_ok (p\<lparr>sq_entries := AList.update k (set_last_drained_at (Some now) e) (sq_entries p)\<rparr>)"
      using p by (intro queue_ok_update) (auto simp: queue_ok_def)
    then show ?thesis
      using Some by (simp add: mark_drained_def queue_ok_def)
  qed (use p in \<open>simp add: mark_drained_def queue_ok_def\<close>)
  ultimately show ?thesis
    using assms(2) by (auto simp: select_next_def prune_eq Let_def split: if_splits option.splits)
qed

text \<open>
  The queues the agent goes through: inbound searches are recorded, a snapshot with parsable
  targets is restored, workers select and report. They are well formed.
\<close>

lemma build_targets:
  "nid_from_str (en_target (build_keyword_snoop_entry H k now)) \<noteq> None"
  "nid_from_str (en_target (build_source_snoop_entry s now)) \<noteq> None"
  "nid_from_str (en_target (build_notes_snoop_entry n now)) \<noteq> None"
  by (simp_all add: build_keyword_snoop_entry_def build_source_snoop_entry_def
      build_notes_snoop_entry_def nid_from_str_display)

lemma queue_ok_restore:
  "queue_ok q \<Longrightarrow> \<forall>e \<in> set es. nid_from_str (en_target e) \<noteq> None \<Longrightarrow> queue_ok (merge_snapshot es q)"
  by (induction es arbitrary: q) (simp_all add: merge_snapshot_def queue_ok_merge)

inductive harvest_reach :: "snoop_queue_config \<Rightarrow> snoop_queue \<Rightarrow> bool" for c where
  start: "harvest_reach c (queue_new c)"
| restored: "harvest_reach c q \<Longrightarrow> \<forall>e \<in> set es. nid_from_str (en_target e) \<noteq> None \<Longrightarrow>
    harvest_reach c (merge_snapshot es q)"
| keyword_seen: "harvest_reach c q \<Longrightarrow>
    harvest_reach c (snd (record_entry (build_keyword_snoop_entry H k now) q))"
| source_seen: "harvest_reach c q \<Longrightarrow>
    harvest_reach c (snd (record_entry (build_source_snoop_entry s now) q))"
| notes_seen: "harvest_reach c q \<Longrightarrow>
    harvest_reach c (snd (record_entry (build_notes_snoop_entry n now) q))"
| outcome: "harvest_reach c q \<Longrightarrow> harvest_reach c (record_replay_outcome key at results q)"
| keyword_drain: "harvest_reach c q \<Longrightarrow> select_next_keyword_request H now q = Some (kr, q') \<Longrightarrow>
    harvest_reach c q'"
| source_drain: "harvest_reach c q \<Longrightarrow> select_next_source_request now q = Some (sr, q') \<Longrightarrow>
    harvest_reach c q'"
| notes_drain: "harvest_reach c q \<Longrightarrow> select_next_notes_request now q = Some (nr, q') \<Longrightarrow>
    harvest_reach c q'"

lemma harvest_ok: "harvest_reach c q \<Longrightarrow> queue_ok q"
proof (induction rule: harvest_reach.induct)
  case start
  show ?case
    by (simp add: queue_ok_def queue_new_def)
qed (auto simp: select_next_keyword_request_def select_next_source_request_def
    select_next_notes_request_def
    intro: queue_ok_restore queue_ok_outcome queue_ok_select queue_ok_record [OF _ build_targets(1)]
      queue_ok_record [OF _ build_targets(2)] queue_ok_record [OF _ build_targets(3)])

subsection \<open>Selection\<close>

lemma replay_loop_eq:
  assumes "reaches_back now (4 * uint cd)"
  shows "\<forall>e \<in> set es. req_of e \<noteq> None \<Longrightarrow>
     replay_loop req_of q now cd (cutoff now (dedup_window_secs (sq_config q))) (cutoff now cd) es r s =
       Some (r @ replay_candidates req_of q now cd (fresh q now) es,
             s @ replay_candidates req_of q now cd (\<lambda>e. \<not> fresh q now e) es)"
proof (induction es arbitrary: r s)
  case (Cons e es)
  then show ?case
    by (auto simp: replay_candidates_def cooling_down_eq [OF assms] split: option.split)
qed (simp add: replay_candidates_def)

lemma set_replay_candidates:
  "set (replay_candidates req_of q now cd P es) =
     {make_candidate q e x |e x. e \<in> set es \<and> req_of e = Some (Some x) \<and> \<not> cooling q now cd e \<and> P e}"
  by (force simp: replay_candidates_def split: option.splits if_splits)

lemma mset_concat_map: "mset (concat (map f xs)) = \<Sum>\<^sub># (image_mset (\<lambda>x. mset (f x)) (mset xs))"
  by (induction xs) simp_all

lemma mset_replay_candidates:
  "mset es = mset es' \<Longrightarrow>
     mset (replay_candidates req_of q now cd P es) = mset (replay_candidates req_of q now cd P es')"
  by (simp add: replay_candidates_def mset_concat_map)

text \<open>The comparators order by a key.\<close>

definition cand_key :: "'r replay_candidate \<Rightarrow> bool \<times> nat \<times> int \<times> int \<times> int \<times> rstring" where
  "cand_key c = (\<not> rc_observed_after_outcome c, unat (rc_zero_result_streak c),
     - uint (rc_last_result_count c), - uint (rc_hit_count c), - rc_last_seen c,
     sc_logical_key (rc_scheduled c))"

definition source_key :: "search_source_req replay_candidate \<Rightarrow>
    bool \<times> bool \<times> nat \<times> int \<times> int \<times> int \<times> rstring" where
  "source_key c = (\<not> rc_observed_after_outcome c, \<not> source_candidate_is_high_quality c,
     unat (rc_zero_result_streak c), - uint (rc_last_result_count c),
     - uint (rc_hit_count c), - rc_last_seen c, sc_logical_key (rc_scheduled c))"

lemma compare_word_rev: "compare (b :: 'a::len word) a = compare (- uint a) (- uint b)"
  by (auto simp: compare_def word_less_def word_uint_eq_iff)

lemma candidate_cmp_key: "candidate_cmp x y = compare (cand_key x) (cand_key y)"
  by (simp only: candidate_cmp_def cand_key_def compare_prod
      compare_not [of "rc_observed_after_outcome y" "rc_observed_after_outcome x"]
      compare_word [of "rc_zero_result_streak x" "rc_zero_result_streak y"]
      compare_word_rev [of "rc_last_result_count y" "rc_last_result_count x"]
      compare_word_rev [of "rc_hit_count y" "rc_hit_count x"]
      compare_rev [of "rc_last_seen y" "rc_last_seen x"])

lemma notes_candidate_cmp_key: "notes_candidate_cmp x y = compare (cand_key x) (cand_key y)"
  unfolding candidate_cmp_key [symmetric] by (simp add: notes_candidate_cmp_def candidate_cmp_def)

lemma source_candidate_cmp_key: "source_candidate_cmp x y = compare (source_key x) (source_key y)"
  by (simp only: source_candidate_cmp_def source_key_def compare_prod
      compare_not [of "rc_observed_after_outcome y" "rc_observed_after_outcome x"]
      compare_not [of "source_candidate_is_high_quality y" "source_candidate_is_high_quality x"]
      compare_word [of "rc_zero_result_streak x" "rc_zero_result_streak y"]
      compare_word_rev [of "rc_last_result_count y" "rc_last_result_count x"]
      compare_word_rev [of "rc_hit_count y" "rc_hit_count x"]
      compare_rev [of "rc_last_seen y" "rc_last_seen x"])

lemma candidates_frame:
  assumes "feedback_of p = feedback_of q"
  shows "replay_candidates req_of p now cd P = replay_candidates req_of q now cd P"
  unfolding replay_candidates_def [abs_def] cooling_def make_candidate_def assms ..

lemma sort_key_Nil [simp]: "sort_key k xs = [] \<longleftrightarrow> xs = []"
  by (metis length_0_conv length_sort)

text \<open>An entry of a queue that a worker may replay now.\<close>

definition replayable ::
  "(snoop_entry \<Rightarrow> 'r option option) \<Rightarrow> snoop_family \<Rightarrow> int \<Rightarrow> snoop_queue \<Rightarrow> snoop_entry \<Rightarrow> bool" where
  "replayable req_of f now q e \<longleftrightarrow> e \<in> set (map snd (sq_entries q)) \<and>
     (\<exists>x. req_of e = Some (Some x)) \<and> \<not> cooling q now (family_drain_cooldown_secs f q) e"

definition budget_left :: "snoop_family \<Rightarrow> int \<Rightarrow> snoop_queue \<Rightarrow> bool" where
  "budget_left f now q \<longleftrightarrow> length (live_drains now f q) < unat (family_max_queries_per_600s f q)"

text \<open>
  What the selection relies on: a choice between recent and stale candidates that finds one whenever
  there is one, and that does not depend on the order of the candidates.
\<close>

locale replay_picker =
  fixes pick :: "'r replay_candidate list \<Rightarrow> 'r replay_candidate list \<Rightarrow> 'r replay_candidate option"
  assumes pick_None: "pick recent stale = None \<longleftrightarrow> recent = [] \<and> stale = []"
    and pick_mem: "pick recent stale = Some c \<Longrightarrow> c \<in> set recent \<union> set stale"
    and pick_perm: "mset recent = mset recent' \<Longrightarrow> mset stale = mset stale' \<Longrightarrow>
      inj_on (\<lambda>c. sc_logical_key (rc_scheduled c)) (set recent \<union> set stale) \<Longrightarrow>
      pick recent stale = pick recent' stale'"
begin

abbreviation (input) recent_of where
  "recent_of req_of q now f \<equiv>
     replay_candidates req_of q now (family_drain_cooldown_secs f q) (fresh q now) (map snd (sq_entries q))"

abbreviation (input) stale_of where
  "stale_of req_of q now f \<equiv>
     replay_candidates req_of q now (family_drain_cooldown_secs f q) (\<lambda>e. \<not> fresh q now e) (map snd (sq_entries q))"

lemma select_next_eq:
  assumes "\<forall>e \<in> set (map snd (sq_entries q)). req_of e \<noteq> None" "times_ok f now q"
  shows "map_option fst (select_next req_of pick f now q) =
    Some (if unat (family_max_queries_per_600s f q) \<le> length (live_drains now f q) then None
      else map_option rc_scheduled (pick (recent_of req_of q now f) (stale_of req_of q now f)))"
proof -
  let ?cd = "family_drain_cooldown_secs f q" and ?dd = "dedup_window_secs (sq_config q)"
  have r: "reaches_back now 600" "reaches_back now (uint ?dd)" "reaches_back now (4 * uint ?cd)"
    using assms(2) by (simp_all add: times_ok_def)
  have "reaches_back now (uint ?cd)" by (rule reaches_back_mono [OF r(3)]) simp
  then have c: "cutoff_before now ?dd = Some (cutoff now ?dd)" "cutoff_before now ?cd = Some (cutoff now ?cd)"
    using r(2) by (simp_all add: cutoff_before_eq)
  have "replay_loop req_of (pruned now f q) now ?cd (cutoff now ?dd) (cutoff now ?cd) (map snd (sq_entries q)) [] [] =
      Some (recent_of req_of q now f, stale_of req_of q now f)"
    using replay_loop_eq [OF r(3), of "map snd (sq_entries q)" req_of "pruned now f q" "[]" "[]"] assms(1)
    by (simp add: candidates_frame [of "pruned now f q" q])
  then show ?thesis
    by (simp add: select_next_def prune_eq r(1) c Let_def split: option.split)
qed

lemma select_panics:
  assumes "budget_left f now q"
    and "\<not> (reaches_back now (uint (dedup_window_secs (sq_config q))) \<and>
      reaches_back now (uint (family_drain_cooldown_secs f q)))"
  shows "select_next req_of pick f now q = None"
  using assms by (auto simp: select_next_def prune_eq cutoff_before_eq budget_left_def Let_def)

lemma select_progress:
  assumes "\<forall>e \<in> set (map snd (sq_entries q)). req_of e \<noteq> None" "times_ok f now q"
  shows "\<exists>r q'. select_next req_of pick f now q = Some (r, q') \<and>
    (r \<noteq> None \<longleftrightarrow> budget_left f now q \<and> (\<exists>e. replayable req_of f now q e))"
proof -
  obtain r q' where sel: "select_next req_of pick f now q = Some (r, q')"
    using select_next_eq [OF assms] by (cases "select_next req_of pick f now q") auto
  have "recent_of req_of q now f = [] \<and> stale_of req_of q now f = [] \<longleftrightarrow>
      \<not> (\<exists>e. replayable req_of f now q e)"
    unfolding set_empty [symmetric] set_replay_candidates replayable_def by auto
  then show ?thesis
    using select_next_eq [OF assms] sel
      pick_None [of "recent_of req_of q now f" "stale_of req_of q now f"]
    by (auto simp: not_le budget_left_def split: if_splits)
qed

lemma select_perm:
  assumes "\<forall>e \<in> set (map snd (sq_entries q)). req_of e \<noteq> None" "queue_ok q"
    and perm: "mset es = mset (sq_entries q)" and times: "times_ok f now q"
  shows "map_option fst (select_next req_of pick f now (q\<lparr>sq_entries := es\<rparr>)) =
    map_option fst (select_next req_of pick f now q)"
proof -
  let ?q = "q\<lparr>sq_entries := es\<rparr>"
  have set: "set es = set (sq_entries q)"
    by (rule mset_eq_setD [OF perm])
  have ms: "mset (map snd es) = mset (map snd (sq_entries q))"
    using perm by simp
  have fb: "feedback_of ?q = feedback_of q"
    by (intro ext) (simp add: feedback_of_def)
  note c = candidates_frame [OF fb]
  have f: "family_max_queries_per_600s f ?q = family_max_queries_per_600s f q"
    "family_drain_cooldown_secs f ?q = family_drain_cooldown_secs f q"
    by (cases f; simp)+
  have same: "replay_candidates req_of ?q now cd P = replay_candidates req_of q now cd P" for cd P
    by (simp add: c)
  have "inj_on (\<lambda>c. sc_logical_key (rc_scheduled c))
      (set (recent_of req_of q now f) \<union> set (stale_of req_of q now f))"
  proof (rule inj_onI)
    fix a b
    assume "a \<in> set (recent_of req_of q now f) \<union> set (stale_of req_of q now f)"
      "b \<in> set (recent_of req_of q now f) \<union> set (stale_of req_of q now f)"
      and key: "sc_logical_key (rc_scheduled a) = sc_logical_key (rc_scheduled b)"
    then obtain ka ea xa kb eb xb where
      ab: "a = make_candidate q ea xa" "(ka, ea) \<in> set (sq_entries q)" "req_of ea = Some (Some xa)"
      "b = make_candidate q eb xb" "(kb, eb) \<in> set (sq_entries q)" "req_of eb = Some (Some xb)"
      unfolding set_replay_candidates by auto
    then have "ka = kb"
      using key queue_okD [OF assms(2)] by (simp add: make_candidate_def Let_def)
    then have "ea = eb"
      using ab(2,5) assms(2) eq_key_imp_eq_value [of "sq_entries q" kb ea eb] by (simp add: queue_ok_def)
    then show "a = b"
      using ab by simp
  qed
  then have "pick (recent_of req_of ?q now f) (stale_of req_of ?q now f) =
      pick (recent_of req_of q now f) (stale_of req_of q now f)"
    unfolding same f by (intro pick_perm [symmetric]) (auto intro!: mset_replay_candidates simp: perm)
  moreover have "live_drains now f ?q = live_drains now f q"
    by (simp add: live_drains_def)
  moreover have "times_ok f now ?q" using times by (simp add: times_ok_def f)
  ultimately show ?thesis
    using assms(1) times by (simp add: select_next_eq f set)
qed

end

lemma first_of_simps:
  "first_of r s = None \<longleftrightarrow> r = [] \<and> s = []"
  "first_of r s = Some c \<Longrightarrow> c \<in> set r \<union> set s"
  by (auto simp: first_of_def split: list.splits)

lemma cand_key_inj: "inj_on (\<lambda>c. sc_logical_key (rc_scheduled c)) A \<Longrightarrow> inj_on cand_key A"
  by (auto simp: inj_on_def cand_key_def)

lemma source_key_inj: "inj_on (\<lambda>c. sc_logical_key (rc_scheduled c)) A \<Longrightarrow> inj_on source_key A"
  by (auto simp: inj_on_def source_key_def)

lemma sorted_picker:
  assumes "\<And>x y. cmp x y = compare (cand_key x) (cand_key y)"
  shows "replay_picker (\<lambda>recent stale. first_of (sort_by cmp recent) (sort_by cmp stale))"
proof -
  have cmp: "cmp = (\<lambda>x y. compare (cand_key x) (cand_key y))"
    using assms by blast
  show ?thesis
    unfolding cmp sort_by_key
  proof
    show "first_of (sort_key cand_key r) (sort_key cand_key s) = None \<longleftrightarrow> r = [] \<and> s = []" for r s
      by (simp add: first_of_simps)
    show "first_of (sort_key cand_key r) (sort_key cand_key s) = Some c \<Longrightarrow> c \<in> set r \<union> set s" for r s c
      using first_of_simps(2) [of "sort_key cand_key r" "sort_key cand_key s" c] by simp
    show "first_of (sort_key cand_key r) (sort_key cand_key s) =
        first_of (sort_key cand_key r') (sort_key cand_key s')"
      if "mset r = mset r'" "mset s = mset s'"
        "inj_on (\<lambda>c. sc_logical_key (rc_scheduled c)) (set r \<union> set s)" for r r' s s'
      using that cand_key_inj [OF that(3)] sort_key_perm [of r r' cand_key] sort_key_perm [of s s' cand_key]
      by (simp add: inj_on_Un)
  qed
qed

interpretation keyword_picker: replay_picker
  "\<lambda>recent stale. first_of (sort_by candidate_cmp recent) (sort_by candidate_cmp stale)"
  by (rule sorted_picker) (rule candidate_cmp_key)

interpretation notes_picker: replay_picker
  "\<lambda>recent stale. first_of (sort_by notes_candidate_cmp recent) (sort_by notes_candidate_cmp stale)"
  by (rule sorted_picker) (rule notes_candidate_cmp_key)

lemma source_sort: "sort_by source_candidate_cmp xs = sort_key source_key xs"
  using sort_by_key [of source_key xs] by (simp add: source_candidate_cmp_key [abs_def])

interpretation source_picker: replay_picker select_best_source_candidate
proof
  fix r s :: "search_source_req replay_candidate list" and c
  show "select_best_source_candidate r s = None \<longleftrightarrow> r = [] \<and> s = []"
    by (auto simp: select_best_source_candidate_def source_sort first_of_simps Let_def filter_empty_conv
        list_ex_iff)
  show "select_best_source_candidate r s = Some c \<Longrightarrow> c \<in> set r \<union> set s"
    by (auto simp: select_best_source_candidate_def source_sort Let_def
        dest!: first_of_simps(2) split: if_splits)
next
  fix r r' s s' :: "search_source_req replay_candidate list"
  assume p: "mset r = mset r'" "mset s = mset s'"
    and inj: "inj_on (\<lambda>c. sc_logical_key (rc_scheduled c)) (set r \<union> set s)"
  let ?h = source_candidate_is_high_quality
  have i: "inj_on source_key (set r)" "inj_on source_key (set s)"
    using source_key_inj [OF inj] by (simp_all add: inj_on_Un)
  have "sort_key source_key r = sort_key source_key r'" "sort_key source_key s = sort_key source_key s'"
    by (rule sort_key_perm [OF p(1) i(1)], rule sort_key_perm [OF p(2) i(2)])
  moreover have "sort_key source_key (filter ?h r) = sort_key source_key (filter ?h r')"
    using p(1) inj_on_subset [OF i(1) filter_is_subset] by (intro sort_key_perm) simp_all
  moreover have "sort_key source_key (filter ?h s) = sort_key source_key (filter ?h s')"
    using p(2) inj_on_subset [OF i(2) filter_is_subset] by (intro sort_key_perm) simp_all
  moreover note mset_eq_setD [OF p(1)] mset_eq_setD [OF p(2)]
  ultimately show "select_best_source_candidate r s = select_best_source_candidate r' s'"
    by (simp add: select_best_source_candidate_def source_sort Let_def list_ex_iff)
qed

lemma requests_no_panic:
  assumes "queue_ok q" "e \<in> set (map snd (sq_entries q))"
  shows "keyword_request H e \<noteq> None" "source_request e \<noteq> None" "notes_request e \<noteq> None"
proof -
  have "nid_from_str (en_target e) \<noteq> None"
    using queue_okD [OF assms(1)] assms(2) by auto
  then show "keyword_request H e \<noteq> None" "source_request e \<noteq> None" "notes_request e \<noteq> None"
    by (auto simp: keyword_request_def source_request_def notes_request_def
        split: snoop_entry.split option.split sum.split)
qed

text \<open>What a worker gets from a selection.\<close>

definition makes_progress ::
  "(snoop_entry \<Rightarrow> 'r option option) \<Rightarrow> snoop_family \<Rightarrow> int \<Rightarrow> snoop_queue \<Rightarrow>
     ('r scheduled_request option \<times> snoop_queue) option \<Rightarrow> bool" where
  "makes_progress req_of f now q result \<longleftrightarrow>
     (times_ok f now q \<longrightarrow> (\<exists>r q'. result = Some (r, q') \<and>
        (r \<noteq> None \<longleftrightarrow> budget_left f now q \<and> (\<exists>e. replayable req_of f now q e)))) \<and>
     (budget_left f now q \<longrightarrow>
        \<not> (reaches_back now (uint (dedup_window_secs (sq_config q))) \<and>
           reaches_back now (uint (family_drain_cooldown_secs f q))) \<longrightarrow> result = None)"

text \<open>
  C36. The workers never starve while there is work, unless the configured times are absurd. On every
  reachable queue, if ten minutes, the deduplication window and four times the cooldown can be
  subtracted from the clock, a selection returns without a panic, and it hands out a request if and
  only if the budget of its family is not used up and some entry of the family is replayable (it
  carries a request and is not cooling down). If the deduplication window or the cooldown cannot be
  subtracted, because it is more than \<open>i64::MAX / 1000\<close> seconds or leads before the least time, every
  selection with budget left panics.
\<close>

theorem selection_progress:
  assumes "harvest_reach c q"
  shows "makes_progress (keyword_request H) Keyword now q (select_next_keyword_request H now q) \<and>
    makes_progress source_request Source now q (select_next_source_request now q) \<and>
    makes_progress notes_request Notes now q (select_next_notes_request now q)"
  unfolding select_next_keyword_request_def select_next_source_request_def
    select_next_notes_request_def makes_progress_def
  using requests_no_panic [OF harvest_ok [OF assms]]
  by (intro conjI impI keyword_picker.select_progress source_picker.select_progress
      notes_picker.select_progress keyword_picker.select_panics source_picker.select_panics
      notes_picker.select_panics) blast+

definition tiny_snoop_config :: snoop_queue_config where
  "tiny_snoop_config =
     \<lparr> dedup_window_secs = 60, general_max_queries_per_600s = 1, general_drain_cooldown_secs = 0,
       source_max_queries_per_600s = 1, source_drain_cooldown_secs = 0,
       source_stop_after_results = 2 \<rparr>"

definition tiny_queue :: snoop_queue where
  "tiny_queue = snd (record_entry (build_source_snoop_entry
     \<lparr> ss_target = nid_ZERO, ss_start_position = 0, ss_size = 9 \<rparr> 5) (queue_new tiny_snoop_config))"

lemma tiny_queue_reach: "harvest_reach tiny_snoop_config tiny_queue"
  unfolding tiny_queue_def by (intro harvest_reach.source_seen harvest_reach.start)

lemma tiny_replayable:
  "replayable source_request Source 7 tiny_queue
     (build_source_snoop_entry \<lparr> ss_target = nid_ZERO, ss_start_position = 0, ss_size = 9 \<rparr> 5)"
  "budget_left Source 7 tiny_queue"
  by (simp_all add: replayable_def budget_left_def tiny_queue_def record_entry_def merge_entry_def
      queue_new_def request_of_entry cooling_def live_drains_def recent_drains.simps
      tiny_snoop_config_def Let_def) (simp add: build_source_snoop_entry_def)

lemma tiny_times: "times_ok Source 7 tiny_queue"
  by (simp add: times_ok_def tiny_queue_def queue_new_def tiny_snoop_config_def reaches_back_def MIN_UTC_def NANOS_def)

text \<open>The same queue with a cooldown that no time reaches back.\<close>

definition absurd_queue :: snoop_queue where
  "absurd_queue = snd (record_entry (build_source_snoop_entry
     \<lparr> ss_target = nid_ZERO, ss_start_position = 0, ss_size = 9 \<rparr> 5)
     (queue_new (tiny_snoop_config\<lparr>source_drain_cooldown_secs := - 1\<rparr>)))"

lemma absurd_queue_facts:
  "harvest_reach (tiny_snoop_config\<lparr>source_drain_cooldown_secs := - 1\<rparr>) absurd_queue"
  "budget_left Source 7 absurd_queue"
  "\<not> reaches_back 7 (uint (family_drain_cooldown_secs Source absurd_queue))"
proof -
  show "harvest_reach (tiny_snoop_config\<lparr>source_drain_cooldown_secs := - 1\<rparr>) absurd_queue"
    unfolding absurd_queue_def by (intro harvest_reach.source_seen harvest_reach.start)
  show "budget_left Source 7 absurd_queue"
    by (simp add: budget_left_def absurd_queue_def queue_new_def live_drains_def recent_drains.simps record_entry_def
        merge_entry_def tiny_snoop_config_def Let_def)
  show "\<not> reaches_back 7 (uint (family_drain_cooldown_secs Source absurd_queue))"
    by (simp add: absurd_queue_def queue_new_def tiny_snoop_config_def reaches_back_def unsigned_minus_1_eq_mask
        mask_eq_exp_minus_1)
qed

theorem selection_progress_witness:
  "(\<exists>r q'. select_next_source_request 7 tiny_queue = Some (Some r, q')) \<and>
   select_next_source_request 7 absurd_queue = None"
proof
  show "\<exists>r q'. select_next_source_request 7 tiny_queue = Some (Some r, q')"
    using conjunct1 [OF conjunct2 [OF selection_progress [OF tiny_queue_reach, of std_hex 7]]] tiny_replayable tiny_times
    unfolding makes_progress_def by blast
  show "select_next_source_request 7 absurd_queue = None"
    using conjunct1 [OF conjunct2 [OF selection_progress [OF absurd_queue_facts(1), of std_hex 7]]] absurd_queue_facts(2,3)
    unfolding makes_progress_def by blast
qed

lemma tiny_queue_select: "\<exists>r q'. select_next_source_request 7 tiny_queue = Some (Some r, q')"
  using source_picker.select_progress [OF _ tiny_times, of source_request] tiny_replayable
    requests_no_panic [OF harvest_ok [OF tiny_queue_reach]] unfolding select_next_source_request_def by blast

text \<open>
  C13. Replays are rate limited, whatever is recorded and however often the workers ask: in every
  window of ten minutes at most \<open>general_max_queries_per_600s\<close> keyword and notes requests
  together, and at most \<open>source_max_queries_per_600s\<close> source requests, are handed out, provided
  the clock does not run backwards.
\<close>

theorem replay_rate_limited:
  assumes "snoop_run c q t log"
  shows "count_if (\<lambda>(f, d). f \<noteq> Source \<and> s \<le> d \<and> d \<le> s + 600 * NANOS) log
      \<le> unat (general_max_queries_per_600s c) \<and>
    count_if (\<lambda>(f, d). f = Source \<and> s \<le> d \<and> d \<le> s + 600 * NANOS) log
      \<le> unat (source_max_queries_per_600s c)"
proof -
  have "count_if (\<lambda>(f, d). (f = Source) = (g = Source) \<and> s \<le> d \<and> d \<le> s + 600 * NANOS) log =
      count_if (\<lambda>d. s \<le> d \<and> d \<le> s + 600 * NANOS) (drained g log)" for g
    by (induction log) (auto simp: drained_def)
  moreover have "count_if (\<lambda>d. s \<le> d \<and> d \<le> s + 600 * NANOS) (drained g log)
      \<le> unat (family_max_queries_per_600s g q)" for g
    using snoop_run_budgets [OF assms] by (simp add: budgets_ok_def budget_ok_def)
  ultimately have "count_if (\<lambda>(f, d). (f = Source) = (g = Source) \<and> s \<le> d \<and> d \<le> s + 600 * NANOS) log
      \<le> unat (family_max_queries_per_600s g q)" for g
    by metis
  from this [of Keyword] this [of Source] show ?thesis
    using snoop_run_budgets [OF assms] by simp
qed

theorem replay_rate_limited_witness:
  "\<exists>q log. snoop_run tiny_snoop_config q 7 log \<and> log = [(Source, 7)] \<and>
     count_if (\<lambda>(f, d). f = Source \<and> 7 \<le> d \<and> d \<le> 7 + 600 * NANOS) log \<le> 1"
proof -
  obtain r q' where sel: "select_next_source_request 7 tiny_queue = Some (Some r, q')"
    using tiny_queue_select by blast
  have "snoop_run tiny_snoop_config tiny_queue 5 []"
    unfolding tiny_queue_def by (rule snoop_run.recorded [OF snoop_run.start])
  then have "snoop_run tiny_snoop_config q' 7 ([] @ (if Some r = None then [] else [(Source, 7)]))"
    by (rule snoop_run.source_drain [OF _ _ sel]) simp
  then have "snoop_run tiny_snoop_config q' 7 [(Source, 7)]"
    by simp
  then show ?thesis
    using replay_rate_limited [of tiny_snoop_config q' 7 "[(Source, 7)]" 7]
    by (auto simp: tiny_snoop_config_def)
qed

text \<open>
  Which request is handed out does not depend on the iteration order of the hash map of
  entries: on a reachable queue every reordering of the entries gives the same selection, if the
  configured times can be subtracted from the clock.
\<close>

theorem selection_deterministic:
  assumes "harvest_reach c q" "mset es = mset (sq_entries q)" "\<forall>f. times_ok f now q"
  shows "map_option fst (select_next_keyword_request H now (q\<lparr>sq_entries := es\<rparr>)) =
      map_option fst (select_next_keyword_request H now q) \<and>
    map_option fst (select_next_source_request now (q\<lparr>sq_entries := es\<rparr>)) =
      map_option fst (select_next_source_request now q) \<and>
    map_option fst (select_next_notes_request now (q\<lparr>sq_entries := es\<rparr>)) =
      map_option fst (select_next_notes_request now q)"
  unfolding select_next_keyword_request_def select_next_source_request_def
    select_next_notes_request_def
  using requests_no_panic [OF harvest_ok [OF assms(1)]] harvest_ok [OF assms(1)] assms(2,3)
  by (intro conjI keyword_picker.select_perm source_picker.select_perm notes_picker.select_perm) blast+

theorem selection_deterministic_witness:
  "map_option fst (select_next_source_request 7 (tiny_queue\<lparr>sq_entries := rev (sq_entries tiny_queue)\<rparr>)) =
     map_option fst (select_next_source_request 7 tiny_queue)"
proof -
  have "times_ok f 7 tiny_queue" for f
    by (cases f) (simp_all add: times_ok_def tiny_queue_def queue_new_def tiny_snoop_config_def reaches_back_def
        MIN_UTC_def NANOS_def)
  then show ?thesis
    using selection_deterministic [OF tiny_queue_reach, of "rev (sq_entries tiny_queue)" 7 std_hex] by simp
qed

end
