(* ===== verification/Kad_Firewall_Props.thy ===== *)
theory Kad_Firewall_Props
  imports Kad_Firewall
begin

text \<open>
  Correctness of the firewall checks: the invariant of the three rounds over every sequence of
  events, what it takes to be considered open, and the external port discovery against a reference
  definition.
\<close>

subsection \<open>Events\<close>

datatype fw_event =
    BeginDiscovery int
  | PortCandidate ip_addr u16 int
  | FinishDiscovery int
  | RefreshTcp bool int
  | TryProbe ip_addr int
  | ProbeFailed ip_addr rstring
  | FirewalledResponse ip_addr ip_addr int
  | BeginUdp "ip_addr list" "u16 list" int
  | HelperFailed ip_addr rstring
  | UdpPacket ip_addr u8 u16 int
  | FinishUdp int

text \<open>The state after an event, \<open>None\<close> for a panic.\<close>

fun fw_step :: "fw_event \<Rightarrow> firewall_state \<Rightarrow> firewall_state option" where
  "fw_step (BeginDiscovery t) st = Some (begin_external_port_discovery t st)"
| "fw_step (PortCandidate ip p t) st = Some (snd (record_external_port_candidate ip p t st))"
| "fw_step (FinishDiscovery t) st = Some (finish_external_port_discovery t st)"
| "fw_step (RefreshTcp b t) st = Some (refresh_tcp_recheck b t st)"
| "fw_step (TryProbe ip t) st = Some (snd (try_begin_tcp_firewall_probe ip t st))"
| "fw_step (ProbeFailed ip e) st = Some (record_tcp_firewall_probe_failed ip e st)"
| "fw_step (FirewalledResponse ip ext t) st = Some (snd (record_firewalled_response ip ext t st))"
| "fw_step (BeginUdp ips ports t) st = Some (snd (begin_udp_check ips ports t st))"
| "fw_step (HelperFailed ip e) st = Some (record_helper_request_failed ip e st)"
| "fw_step (UdpPacket ip ec p t) st = map_option snd (record_firewall_udp_packet ip ec p t st)"
| "fw_step (FinishUdp t) st = Some (snd (finish_udp_check t st))"

inductive fw_reach :: "firewall_state \<Rightarrow> bool" where
  init: "fw_reach firewall_default"
| step: "fw_reach st \<Longrightarrow> fw_step ev st = Some st' \<Longrightarrow> fw_reach st'"

subsection \<open>Invariants of the rounds\<close>

definition udp_round_ok :: "udp_round \<Rightarrow> bool" where
  "udp_round_ok rnd \<longleftrightarrow> ur_helper_outcomes rnd \<noteq> [] \<and> distinct (map fst (ur_helper_outcomes rnd)) \<and>
     Succeeded \<notin> set (outcomes rnd) \<and> ur_expected_ports rnd \<noteq> {} \<and> 0 \<notin> ur_expected_ports rnd"

definition tcp_round_ok :: "tcp_round \<Rightarrow> bool" where
  "tcp_round_ok rnd \<longleftrightarrow> finite (tr_active_helpers rnd) \<and> card (tr_active_helpers rnd) \<le> 4 \<and>
     tr_completed_checks rnd < 4"

definition discovery_ok :: "port_discovery \<Rightarrow> bool" where
  "discovery_ok d \<longleftrightarrow> finite (pd_reporter_ips d) \<and> card (pd_reporter_ips d) = length (pd_reported_ports d) \<and>
     length (pd_reported_ports d) < 3 \<and> distinct (pd_reported_ports d) \<and> 0 \<notin> set (pd_reported_ports d)"

definition firewall_ok :: "firewall_state \<Rightarrow> bool" where
  "firewall_ok st \<longleftrightarrow> pred_option udp_round_ok (active_round st) \<and>
     pred_option tcp_round_ok (active_tcp_round st) \<and>
     pred_option discovery_ok (active_external_port_discovery st) \<and>
     (active_external_port_discovery st \<noteq> None \<longrightarrow> discovered_external_udp_port st = None) \<and>
     (tcp_recheck_active st \<longleftrightarrow> active_tcp_round st \<noteq> None) \<and>
     (udp_open st \<longrightarrow> udp_verified st \<and> last_udp_check_succeeded_at st \<noteq> None)"

lemma firewall_ok_default: "firewall_ok firewall_default"
  by (simp add: firewall_ok_def firewall_default_def)

lemma discovery_ok_steps:
  "firewall_ok st \<Longrightarrow> firewall_ok (begin_external_port_discovery t st)"
  "firewall_ok st \<Longrightarrow> firewall_ok (snd (record_external_port_candidate ip p t st))"
  "firewall_ok st \<Longrightarrow> firewall_ok (finish_external_port_discovery t st)"
  by (auto simp: firewall_ok_def begin_external_port_discovery_def finish_external_port_discovery_def
      record_external_port_candidate_def discovery_ok_def Let_def EXTERNAL_PORT_DISCOVERY_REPORTERS_def
      split: option.split)

lemma card_remove_le: "card A \<le> n \<Longrightarrow> card (A - {x}) \<le> n"
  using card_Diff1_le [of A x] by simp

lemma tcp_ok_steps:
  "firewall_ok st \<Longrightarrow> firewall_ok (refresh_tcp_recheck b t st)"
  "firewall_ok st \<Longrightarrow> firewall_ok (snd (try_begin_tcp_firewall_probe ip t st))"
  "firewall_ok st \<Longrightarrow> firewall_ok (record_tcp_firewall_probe_failed ip e st)"
  "firewall_ok st \<Longrightarrow> firewall_ok (snd (record_firewalled_response ip ext t st))"
  by (auto simp: firewall_ok_def refresh_tcp_recheck_def try_begin_tcp_firewall_probe_def
      record_tcp_firewall_probe_failed_def record_firewalled_response_def tcp_round_ok_def Let_def
      TCP_FIREWALL_RECHECK_LIMIT_def card_remove_le split: option.split)

lemma set_outcome_ok:
  assumes "udp_round_ok rnd" "c \<noteq> Succeeded"
  shows "udp_round_ok (set_outcome ip c rnd)"
proof -
  have "snd ` set (AList.update ip c xs) \<subseteq> insert c (snd ` set xs)" for xs :: "(ip_addr \<times> helper_outcome) list"
    by (induction xs) auto
  then show ?thesis
    using assms by (auto simp: udp_round_ok_def set_outcome_def outcomes_def distinct_update)
qed

lemma pending_outcomes:
  "distinct (map fst m) \<and> snd ` set m \<subseteq> {Pending} \<Longrightarrow>
     distinct (map fst (foldl (\<lambda>m ip. AList.update ip Pending m) m ips)) \<and>
     snd ` set (foldl (\<lambda>m ip. AList.update ip Pending m) m ips) \<subseteq> {Pending}"
proof (induction ips arbitrary: m)
  case (Cons ip ips)
  have "snd ` set (AList.update ip Pending m) \<subseteq> insert Pending (snd ` set m)"
    by (induction m) auto
  then have "distinct (map fst (AList.update ip Pending m)) \<and> snd ` set (AList.update ip Pending m) \<subseteq> {Pending}"
    using Cons.prems by (auto simp: distinct_update)
  then show ?case
    using Cons.IH by simp
qed simp

lemma begin_udp_ok: "firewall_ok st \<Longrightarrow> firewall_ok (snd (begin_udp_check ips ports t st))"
  using pending_outcomes [of "[]" ips]
  by (auto simp: begin_udp_check_def Let_def firewall_ok_def udp_round_ok_def outcomes_def)

lemma finalize_ok: "firewall_ok st \<Longrightarrow> firewall_ok (snd (finalize_round b t st))"
  by (auto simp: finalize_round_def Let_def firewall_ok_def split: option.split)

lemma firewall_ok_frame [simp]:
  "firewall_ok (st\<lparr>last_error := e\<rparr>) = firewall_ok st"
  "firewall_ok (st\<lparr>last_helper_ip := h\<rparr>) = firewall_ok st"
  "firewall_ok (st\<lparr>last_reported_port := p\<rparr>) = firewall_ok st"
  by (simp_all add: firewall_ok_def)

lemma firewall_ok_round:
  "firewall_ok st \<Longrightarrow> pred_option udp_round_ok r \<Longrightarrow> firewall_ok (st\<lparr>active_round := r\<rparr>)"
  "firewall_ok st \<Longrightarrow> active_round st = Some rnd \<Longrightarrow> udp_round_ok rnd"
  by (simp_all add: firewall_ok_def)

lemma firewall_ok_set_outcome:
  "firewall_ok st \<Longrightarrow> active_round st = Some rnd \<Longrightarrow> c \<noteq> Succeeded \<Longrightarrow>
     firewall_ok (st\<lparr>active_round := Some (set_outcome ip c rnd)\<rparr>)"
  using set_outcome_ok [of rnd c ip] firewall_ok_round(2) [of st rnd] by (intro firewall_ok_round(1)) auto

lemma udp_ok_steps:
  "firewall_ok st \<Longrightarrow> firewall_ok (record_helper_request_failed ip e st)"
  "firewall_ok st \<Longrightarrow> firewall_ok (snd (finish_udp_check t st))"
  by (auto simp: record_helper_request_failed_def finish_udp_check_def finalize_ok
      firewall_ok_set_outcome intro: firewall_ok_round(1) split: option.split)

lemma finalize_active:
  "\<exists>s st'. finalize_round b t (st\<lparr>active_round := Some rnd\<rparr>) = (Some s, st')"
  by (simp add: finalize_round_def Let_def)

lemma finalize_success_ok:
  "firewall_ok st \<Longrightarrow> firewall_ok (snd (finalize_round b t (st\<lparr>active_round := Some rnd\<rparr>)))"
  by (auto simp: finalize_round_def Let_def firewall_ok_def)

lemma udp_packet_result:
  assumes "firewall_ok st"
  shows "\<exists>r st'. record_firewall_udp_packet ip ec p t st = Some (r, st') \<and> firewall_ok st'"
proof (cases "active_round st")
  case (Some rnd)
  let ?st = "st\<lparr>last_helper_ip := Some (ip_to_string ip), last_reported_port := Some p\<rparr>"
  have st: "firewall_ok ?st" "udp_round_ok rnd"
    using assms Some firewall_ok_round(2) by auto
  obtain s st' where fin: "finalize_round True t (?st\<lparr>active_round := Some (set_outcome ip Succeeded rnd)\<rparr>) =
      (Some s, st')"
    using finalize_active [of True t "set_outcome ip Succeeded rnd" ?st] by blast
  have "firewall_ok st'"
    using finalize_success_ok [OF st(1), of True t "set_outcome ip Succeeded rnd"] by (simp add: fin)
  then show ?thesis
    using Some st by (auto simp: record_firewall_udp_packet_def Let_def fin set_outcome_ok
        intro!: firewall_ok_round(1))
qed (use assms in \<open>simp add: record_firewall_udp_packet_def\<close>)

lemma fw_step_ok: "firewall_ok st \<Longrightarrow> \<exists>st'. fw_step ev st = Some st' \<and> firewall_ok st'"
proof (cases ev)
  case (UdpPacket ip ec p t)
  assume "firewall_ok st"
  then obtain r st' where "record_firewall_udp_packet ip ec p t st = Some (r, st')" "firewall_ok st'"
    using udp_packet_result by blast
  then show ?thesis
    by (simp add: UdpPacket)
qed (auto simp: discovery_ok_steps tcp_ok_steps begin_udp_ok udp_ok_steps)

lemma fw_reach_ok: "fw_reach st \<Longrightarrow> firewall_ok st"
proof (induction rule: fw_reach.induct)
  case (step st ev st')
  then show ?case
    using fw_step_ok [of st ev] by auto
qed (rule firewall_ok_default)

text \<open>
  C15. No sequence of events makes the firewall state panic, and in every reachable state an active
  UDP round has at least one helper, none of which has succeeded yet, and a non-zero port to
  expect; an active TCP recheck has fewer than four answers and at most four reserved helpers, and
  is reported as active exactly while it runs; a port discovery has fewer than three reporters, all
  with different ports, and no result yet; an open verdict is a verified one.
\<close>

theorem firewall_invariant:
  assumes "fw_reach st"
  shows "firewall_ok st \<and> fw_step ev st \<noteq> None"
  using fw_step_ok [OF fw_reach_ok [OF assms], of ev] fw_reach_ok [OF assms] by auto

theorem firewall_invariant_witness:
  "\<exists>st. fw_step (BeginUdp [V4 (Ipv4 1 2 3 4)] [4672] 0) firewall_default = Some st \<and>
     active_round st \<noteq> None \<and> firewall_ok st"
proof -
  obtain st where st: "fw_step (BeginUdp [V4 (Ipv4 1 2 3 4)] [4672] 0) firewall_default = Some st"
    by simp
  then have "fw_reach st"
    by (rule fw_reach.step [OF fw_reach.init])
  then show ?thesis
    using firewall_invariant [of st] st by (auto simp: begin_udp_check_def Let_def firewall_default_def)
qed

subsection \<open>What makes the agent open\<close>

lemma finish_udp_closed: "firewall_ok st \<Longrightarrow> udp_open (snd (finish_udp_check t st)) \<Longrightarrow> udp_open st"
  by (auto simp: finish_udp_check_def finalize_round_def firewall_ok_def udp_round_ok_def Let_def
      list_ex_iff split: option.splits if_splits)

lemma udp_packet_open:
  assumes "record_firewall_udp_packet ip ec p t st = Some (r, st')" "udp_open st'" "\<not> udp_open st"
  shows "\<exists>rnd. active_round st = Some rnd \<and> map_of (ur_helper_outcomes rnd) ip \<noteq> None \<and>
    ec = 0 \<and> p \<in> ur_expected_ports rnd"
  using assms by (auto simp: record_firewall_udp_packet_def Let_def split: option.splits if_splits)

text \<open>
  C37. The agent starts to consider its UDP port open only on evidence: the event is a
  firewall packet without error, from a helper selected for the round that is active, that reports
  one of the ports the round expects.
\<close>

theorem open_only_by_helper:
  assumes "fw_reach st" "fw_step ev st = Some st'" "udp_open st'" "\<not> udp_open st"
  shows "\<exists>ip p t rnd. ev = UdpPacket ip 0 p t \<and> active_round st = Some rnd \<and>
    map_of (ur_helper_outcomes rnd) ip \<noteq> None \<and> p \<in> ur_expected_ports rnd"
proof (cases ev)
  case (UdpPacket ip ec p t)
  then obtain r where "record_firewall_udp_packet ip ec p t st = Some (r, st')"
    using assms(2) by auto
  then show ?thesis
    using udp_packet_open assms(3,4) UdpPacket by blast
next
  case (FinishUdp t)
  then show ?thesis
    using finish_udp_closed [OF fw_reach_ok [OF assms(1)]] assms by auto
qed (use assms in \<open>auto simp: begin_external_port_discovery_def record_external_port_candidate_def
    finish_external_port_discovery_def refresh_tcp_recheck_def try_begin_tcp_firewall_probe_def
    record_tcp_firewall_probe_failed_def record_firewalled_response_def begin_udp_check_def
    record_helper_request_failed_def Let_def split: option.splits if_splits\<close>)

theorem open_only_by_helper_witness:
  "\<exists>st st'. fw_step (BeginUdp [V4 (Ipv4 1 2 3 4)] [4672] 0) firewall_default = Some st \<and>
     fw_step (UdpPacket (V4 (Ipv4 1 2 3 4)) 0 4672 1) st = Some st' \<and> udp_open st' \<and>
     (\<exists>rnd. active_round st = Some rnd \<and> 4672 \<in> ur_expected_ports rnd)"
proof -
  let ?ip = "V4 (Ipv4 1 2 3 4)"
  obtain st where st: "fw_step (BeginUdp [?ip] [4672] 0) firewall_default = Some st"
    by simp
  have reach: "fw_reach st"
    by (rule fw_reach.step [OF fw_reach.init st])
  have closed: "\<not> udp_open st"
    using st by (auto simp: begin_udp_check_def Let_def firewall_default_def)
  obtain st' where st': "fw_step (UdpPacket ?ip 0 4672 1) st = Some st'" "udp_open st'"
    using st by (auto simp: begin_udp_check_def record_firewall_udp_packet_def finalize_round_def Let_def)
  show ?thesis
    using open_only_by_helper [OF reach st'(1,2) closed] st st' by auto
qed

subsection \<open>External port discovery\<close>

text \<open>
  The reference: of all reports, those with a port and from a new address count, and the first
  three of them decide by majority.
\<close>

fun counted_reports :: "(ip_addr \<times> u16) list \<Rightarrow> ip_addr set \<Rightarrow> u16 list" where
  "counted_reports [] seen = []"
| "counted_reports ((ip, p) # rs) seen =
     (if p = 0 \<or> ip \<in> seen then counted_reports rs seen else p # counted_reports rs (insert ip seen))"

fun agreed_port :: "u16 list \<Rightarrow> u16 option" where
  "agreed_port (a # b # c # _) = (if a = b then Some a else if c = a \<or> c = b then Some c else None)"
| "agreed_port [a, b] = (if a = b then Some a else None)"
| "agreed_port _ = None"

definition discover :: "(ip_addr \<times> u16) list \<Rightarrow> int \<Rightarrow> firewall_state \<Rightarrow> firewall_state" where
  "discover reports t st =
     foldl (\<lambda>st (ip, p). snd (record_external_port_candidate ip p t st)) st reports"

lemma discover_settled:
  "active_external_port_discovery st = None \<Longrightarrow> discover reports t st = st"
proof (induction reports)
  case (Cons r reports)
  then show ?case
    by (cases r) (simp add: discover_def record_external_port_candidate_def)
qed (simp add: discover_def)

lemma agreed_port_append:
  "length ps < 3 \<Longrightarrow> distinct ps \<Longrightarrow> p \<in> set ps \<Longrightarrow> agreed_port (ps @ p # qs) = Some p"
  "length ps = 2 \<Longrightarrow> distinct ps \<Longrightarrow> p \<notin> set ps \<Longrightarrow> agreed_port (ps @ p # qs) = None"
  "length ps < 3 \<Longrightarrow> distinct ps \<Longrightarrow> agreed_port ps = None"
  by (auto simp: numeral_3_eq_3 numeral_2_eq_2 less_Suc_eq length_Suc_conv; cases qs; auto)+

lemma discover_active:
  assumes "active_external_port_discovery st = Some d" "discovery_ok d"
    and "discovered_external_udp_port st = None"
  shows "discovered_external_udp_port (discover reports t st) =
    agreed_port (pd_reported_ports d @ counted_reports reports (pd_reporter_ips d))"
  using assms
proof (induction reports arbitrary: st d)
  case Nil
  then show ?case
    by (simp add: discover_def agreed_port_append(3) discovery_ok_def)
next
  case (Cons r reports)
  obtain ip p where r: "r = (ip, p)"
    by fastforce
  let ?st = "snd (record_external_port_candidate ip p t st)"
  have next_: "discover ((ip, p) # reports) t st = discover reports t ?st"
    by (simp add: discover_def)
  have d: "length (pd_reported_ports d) < 3" "distinct (pd_reported_ports d)" "finite (pd_reporter_ips d)"
    "card (pd_reporter_ips d) = length (pd_reported_ports d)" "0 \<notin> set (pd_reported_ports d)"
    using Cons.prems(2) by (auto simp: discovery_ok_def)
  consider "p = 0 \<or> ip \<in> pd_reporter_ips d"
    | "p \<noteq> 0" "ip \<notin> pd_reporter_ips d" "p \<in> set (pd_reported_ports d)"
    | "p \<noteq> 0" "ip \<notin> pd_reporter_ips d" "p \<notin> set (pd_reported_ports d)" "length (pd_reported_ports d) = 2"
    | "p \<noteq> 0" "ip \<notin> pd_reporter_ips d" "p \<notin> set (pd_reported_ports d)" "length (pd_reported_ports d) < 2"
    using d(1) by linarith
  then show ?case
  proof cases
    case 1
    then have "?st = st"
      using Cons.prems(1) by (auto simp: record_external_port_candidate_def)
    then show ?thesis
      using Cons 1 by (simp add: next_ r)
  next
    case 2
    then have "active_external_port_discovery ?st = None" "discovered_external_udp_port ?st = Some p"
      using Cons.prems(1) by (auto simp: record_external_port_candidate_def Let_def)
    then show ?thesis
      using 2 d by (simp add: next_ r discover_settled agreed_port_append(1))
  next
    case 3
    then have "active_external_port_discovery ?st = None" "discovered_external_udp_port ?st = None"
      using Cons.prems(1) d
      by (auto simp: record_external_port_candidate_def Let_def EXTERNAL_PORT_DISCOVERY_REPORTERS_def)
    then show ?thesis
      using 3 d by (simp add: next_ r discover_settled agreed_port_append(2))
  next
    case 4
    let ?d = "\<lparr> pd_reporter_ips = insert ip (pd_reporter_ips d), pd_reported_ports = pd_reported_ports d @ [p] \<rparr>"
    have "active_external_port_discovery ?st = Some ?d" "discovered_external_udp_port ?st = None"
      using Cons.prems 4 d
      by (auto simp: record_external_port_candidate_def Let_def EXTERNAL_PORT_DISCOVERY_REPORTERS_def)
    moreover have "discovery_ok ?d"
      using 4 d by (auto simp: discovery_ok_def)
    ultimately show ?thesis
      using 4 Cons.IH [of ?st ?d] by (simp add: next_ r)
  qed
qed

text \<open>
  The external port discovery computes the majority: after a discovery round has begun, any
  sequence of reports gives the port on which two of the first three counting reporters agree (a
  report counts if it has a port and its address has not reported before), and the request to
  helpers carries that port, or zero if there is none.
\<close>

theorem discovery_is_majority:
  "discovered_external_udp_port (discover reports t (begin_external_port_discovery t0 st)) =
     agreed_port (counted_reports reports {}) \<and>
   external_udp_port_for_request (discover reports t (begin_external_port_discovery t0 st)) =
     (case agreed_port (counted_reports reports {}) of None \<Rightarrow> 0 | Some p \<Rightarrow> p)"
  using discover_active [of "begin_external_port_discovery t0 st" "\<lparr> pd_reporter_ips = {}, pd_reported_ports = [] \<rparr>"
      reports t]
  by (simp add: begin_external_port_discovery_def discovery_ok_def external_udp_port_for_request_def)

end
