(* ===== verification/Kad_Rpc_Props.thy ===== *)
theory Kad_Rpc_Props
  imports Kad_Rpc Kad_Packet_Codec
begin

text \<open>
  Properties of the RPC boundary over all its runs: every response that reaches the agent answers a
  request of its own that was sent to the same address less than three minutes before.
\<close>

subsection \<open>The request tracker\<close>

definition outbound_inv :: "outbound_tracker \<Rightarrow> nat \<Rightarrow> bool" where
  "outbound_inv t now \<longleftrightarrow>
     sorted_wrt (\<lambda>x y. re_inserted_at y \<le> re_inserted_at x) (ot_entries t) \<and>
     (\<forall>e\<in>set (ot_entries t). re_inserted_at e \<le> now) \<and>
     (\<forall>e\<in>set (ot_entries t). tracks_outbound_request_opcode (re_opcode e))"

text \<open>What a lookup may do to the tracker: expire entries, and use up the one it found.\<close>

definition lookup_spec ::
  "nat \<Rightarrow> ip_addr \<Rightarrow> u8 list \<Rightarrow> u8 option \<Rightarrow> outbound_tracker \<Rightarrow> outbound_tracker \<Rightarrow> bool" where
  "lookup_spec now ip ops r t t' \<longleftrightarrow>
     ot_window t' = ot_window t \<and> outbound_inv t' now \<and>
     (case r of
        None \<Rightarrow> mset (ot_entries t') \<subseteq># mset (ot_entries t)
      | Some op \<Rightarrow> op \<in> set ops \<and> (\<exists>e. re_ip e = ip \<and> re_opcode e = op \<and>
          now - re_inserted_at e < ot_window t \<and> add_mset e (mset (ot_entries t')) \<subseteq># mset (ot_entries t)))"

lemma prune_prefix: "\<exists>ys. ot_entries t = ot_entries (outbound_prune now t) @ ys"
proof -
  let ?P = "\<lambda>e. now - re_inserted_at e \<ge> ot_window t"
  have "ot_entries t = rev (takeWhile ?P (rev (ot_entries t)) @ dropWhile ?P (rev (ot_entries t)))"
    by simp
  then show ?thesis
    unfolding outbound_prune_def rev_append by auto
qed

lemma prune_window [simp]: "ot_window (outbound_prune now t) = ot_window t"
  by (simp add: outbound_prune_def)

lemma prune_inv:
  assumes "outbound_inv t now"
  shows "outbound_inv (outbound_prune now t) now \<and>
    mset (ot_entries (outbound_prune now t)) \<subseteq># mset (ot_entries t)"
proof -
  obtain ys where "ot_entries t = ot_entries (outbound_prune now t) @ ys"
    using prune_prefix by blast
  then show ?thesis
    using assms by (auto simp: outbound_inv_def sorted_wrt_append)
qed

lemma dropWhile_sorted_recent:
  "sorted_wrt (\<lambda>x y. f x \<le> f y) xs \<Longrightarrow> e \<in> set (dropWhile (\<lambda>x. now - f x \<ge> w) xs) \<Longrightarrow>
     now - f e < (w :: nat)"
  by (induction xs) (fastforce split: if_splits)+

lemma prune_recent:
  assumes "outbound_inv t now" "e \<in> set (ot_entries (outbound_prune now t))"
  shows "now - re_inserted_at e < ot_window t"
  using assms dropWhile_sorted_recent [of re_inserted_at "rev (ot_entries t)" e "ot_window t" now]
  by (simp add: outbound_prune_def outbound_inv_def sorted_wrt_rev)

lemma remove_match_Some:
  "remove_match ip op es = Some es' \<Longrightarrow>
     \<exists>xs e ys. es = xs @ e # ys \<and> es' = xs @ ys \<and> re_ip e = ip \<and> re_opcode e = op"
proof (induction es arbitrary: es')
  case (Cons e es)
  show ?case
  proof (cases "re_ip e = ip \<and> re_opcode e = op")
    case True
    then show ?thesis
      using Cons.prems by (intro exI [of _ "[]"]) auto
  next
    case False
    then obtain es'' where es: "remove_match ip op es = Some es''" "es' = e # es''"
      using Cons.prems by (auto split: if_splits)
    from Cons.IH [OF es(1)] es(2) show ?thesis
      by (metis append_Cons)
  qed
qed simp

lemma contains_lookup:
  assumes "outbound_inv t now" "outbound_contains now ip op True t = (b, t')"
  shows "lookup_spec now ip [op] (if b then Some op else None) t t'"
proof (cases "remove_match ip op (ot_entries (outbound_prune now t))")
  case None
  then show ?thesis
    using assms prune_inv [OF assms(1)] by (auto simp: outbound_contains_def Let_def lookup_spec_def)
next
  case (Some es)
  let ?p = "outbound_prune now t"
  obtain xs e ys where m: "ot_entries ?p = xs @ e # ys" "es = xs @ ys" "re_ip e = ip" "re_opcode e = op"
    using remove_match_Some [OF Some] by blast
  have t': "t' = ?p\<lparr>ot_entries := es\<rparr>" "b"
    using assms(2) Some by (simp_all add: outbound_contains_def Let_def)
  have "now - re_inserted_at e < ot_window t"
    using prune_recent [OF assms(1), of e] m(1) by simp
  then show ?thesis
    using prune_inv [OF assms(1)] m t' by (auto simp: lookup_spec_def outbound_inv_def sorted_wrt_append)
qed

lemma lookup_trans:
  assumes "lookup_spec now ip ops None t t'" "lookup_spec now ip ops' r t' t''"
  shows "lookup_spec now ip (ops @ ops') r t t''"
  using assms by (auto simp: lookup_spec_def split: option.splits dest: subset_mset.order_trans)

lemma find_any_lookup:
  assumes "outbound_inv t now" "find_any now ip ops True t = (r, t')"
  shows "lookup_spec now ip ops r t t'"
  using assms
proof (induction ops arbitrary: t)
  case Nil
  then show ?case by (simp add: lookup_spec_def)
next
  case (Cons op ops)
  obtain b t1 where c: "outbound_contains now ip op True t = (b, t1)"
    by (cases "outbound_contains now ip op True t")
  note l = contains_lookup [OF Cons.prems(1) c]
  show ?case
  proof (cases b)
    case True
    then show ?thesis
      using l c Cons.prems(2) by (auto simp: lookup_spec_def)
  next
    case False
    then have "lookup_spec now ip ops r t1 t'"
      using Cons.IH [of t1] l c Cons.prems(2) by (auto simp: lookup_spec_def)
    then show ?thesis
      using lookup_trans [of now ip "[op]" t t1 ops r t'] l False by simp
  qed
qed

lemma prune_idem [simp]: "outbound_prune now (outbound_prune now t) = outbound_prune now t"
  by (simp add: outbound_prune_def)

lemma prune_lookup: "outbound_inv t now \<Longrightarrow> lookup_spec now ip ops None t (outbound_prune now t)"
  using prune_inv [of t now] by (simp add: lookup_spec_def)

text \<open>A lookup that only looks leaves what it found to the removal that follows.\<close>

lemma find_any_peek:
  assumes "outbound_inv t now" "find_any now ip ops False t = (r, t')"
  shows "lookup_spec now ip [] None t t' \<and>
    (\<forall>op. r = Some op \<longrightarrow> op \<in> set ops \<and> fst (outbound_contains now ip op True t'))"
  using assms
proof (induction ops arbitrary: t)
  case Nil
  then show ?case by (simp add: lookup_spec_def)
next
  case (Cons op ops)
  let ?p = "outbound_prune now t"
  have p: "lookup_spec now ip [] None t ?p"
    using prune_lookup [OF Cons.prems(1)] .
  show ?case
  proof (cases "remove_match ip op (ot_entries ?p)")
    case None
    then have "find_any now ip ops False ?p = (r, t')"
      using Cons.prems(2) by (simp add: outbound_contains_def Let_def)
    then have "lookup_spec now ip [] None ?p t' \<and>
      (\<forall>op. r = Some op \<longrightarrow> op \<in> set ops \<and> fst (outbound_contains now ip op True t'))"
      using Cons.IH [of ?p] p by (simp add: lookup_spec_def)
    then show ?thesis
      using lookup_trans [OF p, of "[]" None t'] by auto
  next
    case (Some es)
    then show ?thesis
      using Cons.prems(2) p by (auto simp: outbound_contains_def Let_def)
  qed
qed

definition request_opcodes :: "u8 \<Rightarrow> u8 list" where
  "request_opcodes op =
     (if op = op_BOOTSTRAP_RES then [op_BOOTSTRAP_REQ]
      else if op = op_HELLO_RES then [op_HELLO_REQ]
      else if op = op_HELLO_RES_ACK then [op_HELLO_RES]
      else if op = op_RES then [op_REQ]
      else if op = op_PUBLISH_RES then [op_PUBLISH_KEY_REQ, op_PUBLISH_SOURCE_REQ, op_PUBLISH_NOTES_REQ]
      else if op = op_FIREWALLED_RES \<or> op = op_FIREWALLED_ACK_RES then [op_FIREWALLED_REQ, op_FIREWALLED2_REQ]
      else if op = op_FINDBUDDY_RES then [op_FINDBUDDY_REQ]
      else if op = op_PONG then [op_PING] else [])"

lemma publish_lookup:
  assumes "outbound_inv t now" "find_any now ip ops False t = (Some op, t1)"
    and "outbound_contains now ip op True t1 = (b, t')"
  shows "lookup_spec now ip ops (Some op) t t'"
proof -
  have p: "lookup_spec now ip [] None t t1" "op \<in> set ops" "b"
    using find_any_peek [OF assms(1,2)] assms(3) by auto
  then have "lookup_spec now ip [op] (Some op) t1 t'"
    using contains_lookup [OF _ assms(3)] by (simp add: lookup_spec_def)
  then show ?thesis
    using lookup_trans [OF p(1)] p(2) by (fastforce simp: lookup_spec_def)
qed

lemma tracked_lookup:
  assumes "outbound_inv t now" "tracked_request_opcode_for_response now ip op t = (r, t')"
  shows "lookup_spec now ip (request_opcodes op) r t t'"
proof (cases "op = op_PUBLISH_RES")
  case True
  obtain r1 t1 where f: "find_any now ip [op_PUBLISH_KEY_REQ, op_PUBLISH_SOURCE_REQ, op_PUBLISH_NOTES_REQ]
      False t = (r1, t1)"
    by (cases "find_any now ip [op_PUBLISH_KEY_REQ, op_PUBLISH_SOURCE_REQ, op_PUBLISH_NOTES_REQ] False t")
  show ?thesis
  proof (cases r1)
    case None
    then have "r = None" "t' = t1"
      using assms(2) f True by (simp_all add: tracked_request_opcode_for_response_def opcode_defs)
    then show ?thesis
      using find_any_peek [OF assms(1) f] by (simp add: lookup_spec_def)
  next
    case (Some m)
    then have "r = Some m" "t' = snd (outbound_contains now ip m True t1)"
      using assms(2) f True by (simp_all add: tracked_request_opcode_for_response_def opcode_defs)
    then show ?thesis
      using publish_lookup [OF assms(1), of ip _ m t1] f Some True
      by (simp add: request_opcodes_def opcode_defs prod_eq_iff)
  qed
next
  case False
  have none: "lookup_spec now ip [] None t t"
    using assms(1) by (simp add: lookup_spec_def)
  show ?thesis
    using find_any_lookup [OF assms(1)] assms(2) False none
    by (auto simp: tracked_request_opcode_for_response_def request_opcodes_def simp del: find_any.simps split: if_splits)
qed

subsection \<open>Runs\<close>

text \<open>
  The states the manager can reach with a clock that does not go backwards, with the log of packets
  sent (time, address, opcode) and of the requests that delivered responses have used up.
\<close>

fun answered_by :: "receive_outcome \<Rightarrow> (ip_addr \<times> u8) list" where
  "answered_by (Unsolicited rk (Some op)) = [(fst (rk_from rk), op)]"
| "answered_by _ = []"

inductive rpc_run ::
  "ext \<Rightarrow> md5_fun \<Rightarrow> rpc_state \<Rightarrow> nat \<Rightarrow> (nat \<times> ip_addr \<times> u8) list \<Rightarrow> (ip_addr \<times> u8) list \<Rightarrow> bool"
  for B md5 where
  run_new: "rpc_run B md5 (rpc_new layer cfg) now [] []"
| run_send: "rpc_run B md5 st now sent ans \<Longrightarrow> now \<le> sv_now v \<Longrightarrow>
    send_with_class B md5 v addr packet class st = Some (wire, st') \<Longrightarrow>
    rpc_run B md5 st' (sv_now v) ((sv_now v, fst addr, opcode packet) # sent) ans"
| run_request: "rpc_run B md5 st now sent ans \<Longrightarrow> now \<le> sv_now v \<Longrightarrow>
    begin_request B md5 v transport_ok addr packet expected class st = Some (rid, wire, st') \<Longrightarrow>
    rpc_run B md5 st' (sv_now v) ((sv_now v, fst addr, opcode packet) # sent) ans"
| run_end: "rpc_run B md5 st now sent ans \<Longrightarrow> rpc_run B md5 (end_request rid st) now sent ans"
| run_receive: "rpc_run B md5 st now sent ans \<Longrightarrow> now \<le> now' \<Longrightarrow>
    receive_datagram B md5 now' from data st = (out, st') \<Longrightarrow>
    rpc_run B md5 st' now' sent (answered_by out @ ans)"

abbreviation request_kind :: "request_entry \<Rightarrow> ip_addr \<times> u8" where
  "request_kind e \<equiv> (re_ip e, re_opcode e)"

definition requests_ok ::
  "outbound_tracker \<Rightarrow> nat \<Rightarrow> (nat \<times> ip_addr \<times> u8) list \<Rightarrow> (ip_addr \<times> u8) list \<Rightarrow> bool" where
  "requests_ok t now sent ans \<longleftrightarrow>
     outbound_inv t now \<and> ot_window t = OUTBOUND_WINDOW \<and>
     (\<forall>e\<in>set (ot_entries t). (re_inserted_at e, request_kind e) \<in> set sent) \<and>
     mset (map request_kind (ot_entries t)) + mset ans \<subseteq># mset (map snd sent)"

definition rpc_ok :: "rpc_state \<Rightarrow> nat \<Rightarrow> (nat \<times> ip_addr \<times> u8) list \<Rightarrow> (ip_addr \<times> u8) list \<Rightarrow> bool" where
  "rpc_ok st now sent ans \<longleftrightarrow>
     requests_ok (rpc_outbound_tracker st) now sent ans \<and> distinct (map fst (rpc_pending st))"

lemma requests_ok_later: "requests_ok t now sent ans \<Longrightarrow> now \<le> now' \<Longrightarrow> requests_ok t now' sent ans"
  by (auto simp: requests_ok_def outbound_inv_def)

lemma requests_ok_fewer:
  assumes "requests_ok t now sent ans" "ot_window t' = ot_window t" "outbound_inv t' now"
    and "mset (ot_entries t') + E \<subseteq># mset (ot_entries t)" "mset ans' = image_mset request_kind E + mset ans"
  shows "requests_ok t' now sent ans'"
proof -
  have "image_mset request_kind (mset (ot_entries t') + E) \<subseteq># image_mset request_kind (mset (ot_entries t))"
    using assms(4) by (rule image_mset_subseteq_mono)
  then have "image_mset request_kind (mset (ot_entries t')) + mset ans' \<subseteq>#
      image_mset request_kind (mset (ot_entries t)) + mset ans"
    unfolding assms(5) by (simp add: add.assoc [symmetric])
  moreover have "set (ot_entries t') \<subseteq> set (ot_entries t)"
    using set_mset_mono [OF assms(4)] by auto
  ultimately show ?thesis
    using assms(1-3) unfolding requests_ok_def by (auto intro: subset_mset.order_trans)
qed

lemma requests_ok_lookup:
  assumes "requests_ok t now sent ans" "lookup_spec now ip ops r t t'"
  shows "requests_ok t' now sent (case r of None \<Rightarrow> ans | Some op \<Rightarrow> (ip, op) # ans)"
proof (cases r)
  case None
  then show ?thesis
    using assms requests_ok_fewer [OF assms(1), of t' "{#}" ans] by (simp add: lookup_spec_def)
next
  case (Some op)
  then obtain e where e: "re_ip e = ip" "re_opcode e = op" "add_mset e (mset (ot_entries t')) \<subseteq># mset (ot_entries t)"
    using assms(2) by (auto simp: lookup_spec_def)
  then show ?thesis
    using assms Some requests_ok_fewer [OF assms(1), of t' "{#e#}" "(ip, op) # ans"] by (simp add: lookup_spec_def)
qed

lemma requests_ok_unused: "requests_ok t now sent (a # ans) \<Longrightarrow> requests_ok t now sent ans"
  by (auto simp: requests_ok_def intro: subset_mset.order_trans [rotated])

lemma requests_ok_record:
  assumes "requests_ok t now sent ans" "now \<le> now'"
  shows "requests_ok (record_request now' ip op t) now' ((now', ip, op) # sent) ans"
proof -
  have p: "requests_ok (outbound_prune now' t) now' sent ans"
    using requests_ok_lookup [OF requests_ok_later [OF assms] prune_lookup]
      requests_ok_later [OF assms] by (simp add: requests_ok_def)
  then show ?thesis
    by (auto simp: record_request_def Let_def requests_ok_def outbound_inv_def
        intro: subset_mset.order_trans)
qed

subsection \<open>Pending requests\<close>

lemma min_by_created_Some:
  assumes "min_by_created xs = Some rid"
  shows "\<exists>e. (rid, e) \<in> set xs \<and> (\<forall>(r, e')\<in>set xs. pe_created_at e \<le> pe_created_at e')"
proof -
  let ?f = "\<lambda>best y. if pe_created_at (snd y) < pe_created_at (snd best) then y else best"
  have f: "foldl ?f x ys \<in> insert x (set ys) \<and>
      (\<forall>y\<in>insert x (set ys). pe_created_at (snd (foldl ?f x ys)) \<le> pe_created_at (snd y))" for x ys
  proof (induction ys arbitrary: x)
    case (Cons y ys)
    show ?case
      using Cons.IH [of "?f x y"] by (auto split: if_splits)
  qed simp
  obtain y ys where "xs = y # ys" "rid = fst (foldl ?f y ys)"
    using assms by (cases xs) auto
  then show ?thesis
    using f [of y ys] by (intro exI [of _ "snd (foldl ?f y ys)"]) force
qed

lemma min_by_created_None [simp]: "min_by_created xs = None \<longleftrightarrow> xs = []"
  by (cases xs) auto

text \<open>
  The entry a response resolves: it expects this opcode from this address, from this very endpoint
  if any entry does, and is the oldest of those.
\<close>

definition resolves :: "socket_addr \<Rightarrow> u8 \<Rightarrow> (u64 \<times> pending_entry) list \<Rightarrow> pending_entry \<Rightarrow> bool" where
  "resolves from op pending e \<longleftrightarrow>
     pe_expected_opcode e = op \<and> fst (pe_remote_addr e) = fst from \<and>
     (\<forall>(_, e')\<in>set pending. pe_expected_opcode e' = op \<longrightarrow>
        pe_remote_addr e' = from \<longrightarrow> pe_remote_addr e = from \<and> pe_created_at e \<le> pe_created_at e') \<and>
     (\<forall>(_, e')\<in>set pending. pe_expected_opcode e' = op \<longrightarrow> fst (pe_remote_addr e') = fst from \<longrightarrow>
        pe_remote_addr e \<noteq> from \<longrightarrow> pe_created_at e \<le> pe_created_at e')"

lemma match_pending_Some:
  assumes "match_pending from op pending = Some rid"
  shows "\<exists>e. (rid, e) \<in> set pending \<and> resolves from op pending e"
proof (cases "filter (\<lambda>(_, e). pe_remote_addr e = from \<and> pe_expected_opcode e = op) pending = []")
  case True
  then have "min_by_created (filter (\<lambda>(_, e). fst (pe_remote_addr e) = fst from \<and>
      pe_expected_opcode e = op) pending) = Some rid"
    using assms by (simp add: match_pending_def)
  then obtain e where "(rid, e) \<in> set pending" "fst (pe_remote_addr e) = fst from" "pe_expected_opcode e = op"
    "\<forall>(r, e')\<in>set pending. fst (pe_remote_addr e') = fst from \<longrightarrow> pe_expected_opcode e' = op \<longrightarrow>
      pe_created_at e \<le> pe_created_at e'"
    by (fastforce dest!: min_by_created_Some)
  then show ?thesis
    using True unfolding resolves_def filter_empty_conv by (intro exI [of _ e]) auto
next
  case False
  then have "min_by_created (filter (\<lambda>(_, e). pe_remote_addr e = from \<and> pe_expected_opcode e = op) pending)
      = Some rid"
    using assms by (auto simp: match_pending_def split: option.splits)
  then obtain e where "(rid, e) \<in> set pending" "pe_remote_addr e = from" "pe_expected_opcode e = op"
    "\<forall>(r, e')\<in>set pending. pe_remote_addr e' = from \<longrightarrow> pe_expected_opcode e' = op \<longrightarrow>
      pe_created_at e \<le> pe_created_at e'"
    by (fastforce dest!: min_by_created_Some)
  then show ?thesis
    unfolding resolves_def by (intro exI [of _ e]) auto
qed

subsection \<open>The invariant\<close>

lemma send_outbound:
  assumes "send_with_class B md5 v addr packet class st = Some (wire, st')"
  shows "rpc_outbound_tracker st' = record_request (sv_now v) (fst addr) (opcode packet) (rpc_outbound_tracker st)
    \<and> rpc_pending st' = rpc_pending st"
  using assms by (auto simp: send_with_class_def Let_def split: option.splits)

abbreviation tracked_for :: "nat \<Rightarrow> received_packet \<Rightarrow> rpc_state \<Rightarrow> u8 option \<times> outbound_tracker" where
  "tracked_for now rk st \<equiv> tracked_request_opcode_for_response now (fst (rk_from rk)) (opcode (rk_packet rk))
     (rpc_outbound_tracker st)"

abbreviation matched_for :: "received_packet \<Rightarrow> rpc_state \<Rightarrow> u64 option" where
  "matched_for rk st \<equiv> match_pending (rk_from rk) (opcode (rk_packet rk)) (rpc_pending st)"

lemma dispatch_outbound:
  "rpc_outbound_tracker (snd (dispatch_packet now rk st)) = snd (tracked_for now rk st)"
  by (simp add: dispatch_packet_def Let_def split: prod.split option.split)

lemma dispatch_pending:
  "rpc_pending (snd (dispatch_packet now rk st)) =
     (case matched_for rk st of None \<Rightarrow> rpc_pending st | Some rid \<Rightarrow> AList.delete rid (rpc_pending st))"
  by (simp add: dispatch_packet_def Let_def split: prod.split option.split)

lemma dispatch_outcome:
  "fst (dispatch_packet now rk st) =
     (case matched_for rk st of
        Some rid \<Rightarrow> ResolvedPending rid (rk_packet rk)
      | None \<Rightarrow>
          if is_tracked_response_opcode (opcode (rk_packet rk)) \<and> fst (tracked_for now rk st) = None
          then UnrequestedResponse else Unsolicited rk (fst (tracked_for now rk st)))"
  by (simp add: dispatch_packet_def Let_def split: prod.split option.split)

lemma dispatch_ok:
  assumes "rpc_ok st now sent ans"
  shows "rpc_ok (snd (dispatch_packet now rk st)) now sent (answered_by (fst (dispatch_packet now rk st)) @ ans)"
proof -
  let ?r = "fst (tracked_for now rk st)"
  have q: "requests_ok (rpc_outbound_tracker st) now sent ans" and i: "outbound_inv (rpc_outbound_tracker st) now"
    using assms by (simp_all add: rpc_ok_def requests_ok_def)
  have o: "requests_ok (snd (tracked_for now rk st)) now sent
      (case ?r of None \<Rightarrow> ans | Some op \<Rightarrow> (fst (rk_from rk), op) # ans)"
    by (rule requests_ok_lookup [OF q tracked_lookup [OF i]]) simp
  then have "requests_ok (snd (tracked_for now rk st)) now sent ans"
    by (auto split: option.splits dest: requests_ok_unused)
  with o show ?thesis
    using assms unfolding rpc_ok_def dispatch_outbound dispatch_pending dispatch_outcome
    by (auto simp: distinct_delete split: option.splits)
qed

text \<open>The flood check and what is learnt before it do not touch requests.\<close>

lemma receive_cases:
  assumes "receive_datagram B md5 now from data st = (out, st')"
  obtains (kept) "rpc_outbound_tracker st' = rpc_outbound_tracker st" "rpc_pending st' = rpc_pending st"
      "answered_by out = []" "\<And>rid p. out \<noteq> ResolvedPending rid p" "\<And>rk r. out \<noteq> Unsolicited rk r"
  | (dispatched) st1 rk where "dispatch_packet now rk st1 = (out, st')" "rk_from rk = from"
      "rpc_outbound_tracker st1 = rpc_outbound_tracker st" "rpc_pending st1 = rpc_pending st"
proof (cases "decode B (dr_data (kad_decrypt md5 (rpc_obfuscation st) from data))")
  case (Inl e)
  then show thesis
    using assms kept by (auto simp: receive_datagram_def Let_def)
next
  case (Inr packet)
  show thesis
  proof (cases "ii_tracker_bucket (inspect_inbound_packet packet)")
    case None
    with Inr assms dispatched show thesis
      by (auto simp: receive_datagram_def Let_def)
  next
    case (Some bucket)
    obtain d tr where d: "record_and_check now \<lparr> tk_ip = fst from, tk_bucket = bucket \<rparr> (rpc_tracker st) = (d, tr)"
      by (cases "record_and_check now \<lparr> tk_ip = fst from, tk_bucket = bucket \<rparr> (rpc_tracker st)")
    show thesis
    proof (cases "td_allowed d")
      case True
      with Inr Some d assms dispatched show thesis
        by (auto simp: receive_datagram_def Let_def)
    next
      case False
      with Inr Some d assms kept show thesis
        by (auto simp: receive_datagram_def Let_def split: if_splits)
    qed
  qed
qed

lemma receive_ok:
  assumes "rpc_ok st now sent ans" "receive_datagram B md5 now from data st = (out, st')"
  shows "rpc_ok st' now sent (answered_by out @ ans)"
  using assms(2)
proof (cases rule: receive_cases)
  case kept
  then show ?thesis
    using assms(1) by (simp add: rpc_ok_def)
next
  case (dispatched st1 rk)
  then have "rpc_ok st1 now sent ans"
    using assms(1) by (simp add: rpc_ok_def)
  from dispatch_ok [OF this, of rk] dispatched(1) show ?thesis by simp
qed

lemma send_ok:
  assumes "rpc_ok st now sent ans" "now \<le> sv_now v"
    and "send_with_class B md5 v addr packet wc st = Some (wire, st')"
  shows "rpc_ok st' (sv_now v) ((sv_now v, fst addr, opcode packet) # sent) ans"
  using assms(1,2) send_outbound [OF assms(3)] by (auto simp: rpc_ok_def intro: requests_ok_record)

lemma request_ok:
  assumes "rpc_ok st now sent ans" "now \<le> sv_now v"
    and "begin_request B md5 v transport_ok addr packet expected wc st = Some (rid, wire, st')"
  shows "rpc_ok st' (sv_now v) ((sv_now v, fst addr, opcode packet) # sent) ans"
proof -
  let ?st = "st\<lparr>rpc_next_id := rpc_next_id st + 1,
    rpc_pending := AList.update (rpc_next_id st) \<lparr> pe_remote_addr = addr, pe_request_opcode = opcode packet,
      pe_expected_opcode = expected, pe_created_at = sv_now v \<rparr> (rpc_pending st)\<rparr>"
  obtain st2 where s: "send_with_class B md5 v addr packet wc ?st = Some (wire, st2)"
    "st' = (if transport_ok then st2 else st2\<lparr>rpc_pending := AList.delete rid (rpc_pending st2)\<rparr>)"
    using assms(3) by (auto simp: begin_request_def Let_def split: option.splits)
  have "rpc_ok ?st now sent ans"
    using assms(1) by (simp add: rpc_ok_def distinct_update)
  from send_ok [OF this assms(2) s(1)] show ?thesis
    using s(2) by (simp add: rpc_ok_def distinct_delete)
qed

lemma rpc_run_ok: "rpc_run B md5 st now sent ans \<Longrightarrow> rpc_ok st now sent ans"
proof (induction rule: rpc_run.induct)
  case (run_new layer cfg now)
  show ?case
    by (simp add: rpc_ok_def rpc_new_def requests_ok_def outbound_new_def outbound_inv_def)
next
  case (run_end st now sent ans rid)
  then show ?case
    by (simp add: rpc_ok_def end_request_def distinct_delete)
next
  case (run_receive st now sent ans now' frm data out st')
  then have "rpc_ok st now' sent ans"
    using requests_ok_later [of _ now sent ans now'] by (simp add: rpc_ok_def)
  then show ?case
    using run_receive by (blast intro: receive_ok)
qed (blast intro: send_ok request_ok)+

lemma lookup_requested:
  assumes ok: "requests_ok t now sent ans" and l: "lookup_spec now ip ops (Some op) t t'"
  shows "op \<in> set ops \<and> tracks_outbound_request_opcode op \<and>
    (\<exists>s. (s, ip, op) \<in> set sent \<and> now < s + OUTBOUND_WINDOW) \<and>
    count_list ans (ip, op) < count_list (map snd sent) (ip, op)"
proof -
  obtain e where e: "op \<in> set ops" "re_ip e = ip" "re_opcode e = op" "now - re_inserted_at e < ot_window t"
    "add_mset e (mset (ot_entries t')) \<subseteq># mset (ot_entries t)"
    using l by (auto simp: lookup_spec_def)
  have "e \<in> set (ot_entries t)"
    using set_mset_mono [OF e(5)] by simp
  then have "(re_inserted_at e, ip, op) \<in> set sent" "re_inserted_at e \<le> now" "tracks_outbound_request_opcode op"
    using ok e by (auto simp: requests_ok_def outbound_inv_def)
  moreover have "requests_ok t' now sent ((ip, op) # ans)"
    using requests_ok_lookup [OF ok l] by simp
  then have "mset (map request_kind (ot_entries t')) + mset ((ip, op) # ans) \<subseteq># mset (map snd sent)"
    unfolding requests_ok_def by blast
  then have "mset ((ip, op) # ans) \<subseteq># mset (map snd sent)"
    by (rule subset_mset.order_trans [rotated]) simp
  from mset_subset_eq_count [OF this, of "(ip, op)"]
  have "count_list ans (ip, op) < count_list (map snd sent) (ip, op)"
    by (simp flip: count_mset mset_map)
  ultimately show ?thesis
    using e(1,4) ok by (intro conjI exI [of _ "re_inserted_at e"]) (auto simp: requests_ok_def)
qed

text \<open>
  C3. No response reaches the agent unasked. Over every run with a clock that does not go backwards,
  a response that is broadcast answers a request of a kind that fits it, sent to the same address
  less than 180 seconds before, and fewer responses than requests of that kind have been delivered
  for that address so far; a response that resolves a pending request was expected from that
  address by the oldest request to that very endpoint, or the oldest to that address when none is
  to that endpoint, and the request is no longer pending.
\<close>

theorem responses_requested:
  assumes "rpc_run B md5 st now sent ans" "now \<le> now'"
    and "receive_datagram B md5 now' from data st = (out, st')"
  shows "(\<forall>rk tracked. out = Unsolicited rk tracked \<longrightarrow> is_tracked_response_opcode (opcode (rk_packet rk)) \<longrightarrow>
      (\<exists>op t. tracked = Some op \<and> op \<in> set (request_opcodes (opcode (rk_packet rk))) \<and>
        tracks_outbound_request_opcode op \<and> (t, fst from, op) \<in> set sent \<and> now' < t + OUTBOUND_WINDOW \<and>
        count_list ans (fst from, op) < count_list (map snd sent) (fst from, op)))
    \<and> (\<forall>rid p. out = ResolvedPending rid p \<longrightarrow>
      (\<exists>e. map_of (rpc_pending st) rid = Some e \<and> resolves from (opcode p) (rpc_pending st) e \<and>
        map_of (rpc_pending st') rid = None))"
  using assms(3)
proof (cases rule: receive_cases)
  case (dispatched st1 rk)
  have ok: "requests_ok (rpc_outbound_tracker st) now' sent ans" "distinct (map fst (rpc_pending st))"
    using rpc_run_ok [OF assms(1)] requests_ok_later [OF _ assms(2)] by (auto simp: rpc_ok_def)
  then have l: "lookup_spec now' (fst from) (request_opcodes (opcode (rk_packet rk)))
      (fst (tracked_for now' rk st1)) (rpc_outbound_tracker st) (snd (tracked_for now' rk st1))"
    using tracked_lookup [of "rpc_outbound_tracker st" now'] dispatched(2,3) by (simp add: requests_ok_def)
  have out: "out = fst (dispatch_packet now' rk st1)" "st' = snd (dispatch_packet now' rk st1)"
    using dispatched(1) by simp_all
  have "\<exists>op t. tracked = Some op \<and> op \<in> set (request_opcodes (opcode (rk_packet rk'))) \<and>
        tracks_outbound_request_opcode op \<and> (t, fst from, op) \<in> set sent \<and> now' < t + OUTBOUND_WINDOW \<and>
        count_list ans (fst from, op) < count_list (map snd sent) (fst from, op)"
    if u: "out = Unsolicited rk' tracked" "is_tracked_response_opcode (opcode (rk_packet rk'))" for rk' tracked
  proof -
    obtain op where "rk' = rk" "tracked = Some op" "fst (tracked_for now' rk st1) = Some op"
      using u out(1) unfolding dispatch_outcome by (auto split: option.splits if_splits)
    then show ?thesis
      using lookup_requested [OF ok(1), of "fst from" _ op] l by auto
  qed
  moreover have "\<exists>e. map_of (rpc_pending st) rid = Some e \<and> resolves from (opcode p) (rpc_pending st) e \<and>
        map_of (rpc_pending st') rid = None"
    if "out = ResolvedPending rid p" for rid p
  proof -
    have m: "matched_for rk st1 = Some rid" "p = rk_packet rk"
      using that out(1) unfolding dispatch_outcome by (auto split: option.splits if_splits)
    from match_pending_Some [OF m(1)] m(2) show ?thesis
      using ok(2) dispatched(2,4) out(2) m(1) by (auto simp: dispatch_pending delete_conv')
  qed
  ultimately show ?thesis by blast
qed auto

text \<open>A ping is sent in the clear, and its pong is delivered a second later.\<close>

definition demo_rpc :: rpc_state where
  "demo_rpc = rpc_new (layer_new nid_ZERO 0 False)
     \<lparr> rcf_max_inbound_per_ip = 20, rcf_max_inbound_search_res_per_ip = 256,
       rcf_flood_window = 1000000000, rcf_request_tracking_window = 60000000000 \<rparr>"

definition demo_addr :: socket_addr where "demo_addr = (V4 (Ipv4 1 2 3 4), 4672)"

definition demo_env :: send_env where
  "demo_env = \<lparr> sv_now = 0, sv_utc_now = 0, sv_wait_millis = 0, sv_random_key_part = 0, sv_marker_bytes = [] \<rparr>"

lemma demo_pong:
  assumes "binrw_ok B"
  shows "\<exists>wire st. send_with_class B md5 demo_env demo_addr Ping Interactive demo_rpc = Some (wire, st) \<and>
    (\<exists>data st'. receive_datagram B md5 1000000000 demo_addr data st = (Unsolicited
       \<lparr> rk_packet = Pong \<lparr> po_udp_port = 4672 \<rparr>, rk_from = demo_addr, rk_was_obfuscated = False,
         rk_sender_verify_key = None, rk_receiver_verify_key_valid = False \<rparr> (Some op_PING), st'))"
proof -
  let ?pong = "Pong \<lparr> po_udp_port = 4672 \<rparr>"
  obtain s where s: "encode_body B ?pong = Some s" "decode_body B (opcode ?pong) s = Inr ?pong"
    using body_round_trip [OF assms, of ?pong] by (auto simp: body_ok_def packet_valid_def)
  have "encode B Ping = Some [OP_KADEMLIAHEADER, op_PING]"
    using encode_Some [OF assms, of Ping "[]"] by (simp add: encode_body_def opcode_def)
  then have p: "send_with_class B md5 demo_env demo_addr Ping Interactive demo_rpc =
      Some ([OP_KADEMLIAHEADER, op_PING], demo_rpc\<lparr>
        rpc_observability := record_work_class_send Interactive 0 0 observability_default,
        rpc_outbound_tracker := record_request 0 (fst demo_addr) op_PING (outbound_new OUTBOUND_WINDOW)\<rparr>)"
    by (simp add: send_with_class_def demo_rpc_def rpc_new_def kad_encrypt_def inspect_outbound_def
        layer_new_def Let_def demo_env_def opcode_def)
  have d: "decode B (OP_KADEMLIAHEADER # op_PONG # s) = Inr ?pong"
    using s by (simp add: decode_plain opcode_def)
  have k: "kad_decrypt md5 l demo_addr (OP_KADEMLIAHEADER # op_PONG # s) =
      plaintext_result (OP_KADEMLIAHEADER # op_PONG # s)" for l
    using s(2) by (cases s) (auto simp: kad_decrypt_def plaintext_result_def)
  have t: "tracked_request_opcode_for_response 1000000000 (fst demo_addr) op_PONG
      (record_request 0 (fst demo_addr) op_PING (outbound_new OUTBOUND_WINDOW)) =
      (Some op_PING, outbound_new OUTBOUND_WINDOW)"
    by (simp add: tracked_request_opcode_for_response_def opcode_defs record_request_def outbound_new_def
        outbound_prune_def tracks_outbound_request_opcode_def outbound_contains_def OUTBOUND_WINDOW_def)
  have b: "inspect_inbound_packet ?pong = \<lparr> ii_tracker_bucket = None, ii_peer_id = None, ii_kad_version = None \<rparr>"
    by (simp add: inspect_inbound_packet_def tracker_bucket_for_opcode_def opcode_def opcode_defs)
  let ?st = "demo_rpc\<lparr>rpc_observability := record_work_class_send Interactive 0 0 observability_default,
      rpc_outbound_tracker := record_request 0 (fst demo_addr) op_PING (outbound_new OUTBOUND_WINDOW)\<rparr>"
  have "fst (receive_datagram B md5 1000000000 demo_addr (OP_KADEMLIAHEADER # op_PONG # s) ?st) = Unsolicited
       \<lparr> rk_packet = ?pong, rk_from = demo_addr, rk_was_obfuscated = False,
         rk_sender_verify_key = None, rk_receiver_verify_key_valid = False \<rparr> (Some op_PING)"
    using d k t b
    by (simp add: receive_datagram_def plaintext_result_def dispatch_outcome Let_def demo_rpc_def rpc_new_def
        match_pending_def opcode_def)
  then show ?thesis
    unfolding p by (metis prod.collapse)
qed

theorem responses_requested_witness:
  "\<exists>B md5 st sent data st' rk. rpc_run B md5 st 0 sent [] \<and>
     receive_datagram B md5 1000000000 demo_addr data st = (Unsolicited rk (Some op_PING), st') \<and>
     (\<exists>t. (t, fst demo_addr, op_PING) \<in> set sent \<and> 1000000000 < t + OUTBOUND_WINDOW) \<and>
     count_list [] (fst demo_addr, op_PING) < count_list (map snd sent) (fst demo_addr, op_PING)"
proof -
  let ?B = "le_ext id (\<lambda>_. None)" and ?sent = "[(0, fst demo_addr, op_PING)]"
  obtain wire st data st' where
    p: "send_with_class ?B demo_md5 demo_env demo_addr Ping Interactive demo_rpc = Some (wire, st)"
      "receive_datagram ?B demo_md5 1000000000 demo_addr data st = (Unsolicited
       \<lparr> rk_packet = Pong \<lparr> po_udp_port = 4672 \<rparr>, rk_from = demo_addr, rk_was_obfuscated = False,
         rk_sender_verify_key = None, rk_receiver_verify_key_valid = False \<rparr> (Some op_PING), st')"
    using demo_pong [OF le_ext_ok] by blast
  have r: "rpc_run ?B demo_md5 st 0 ?sent []"
    using run_send [OF run_new [of ?B demo_md5, where now = 0, folded demo_rpc_def] _ p(1) [unfolded demo_rpc_def]]
    by (simp add: demo_env_def opcode_def)
  have "is_tracked_response_opcode (opcode (Pong \<lparr> po_udp_port = 4672 \<rparr>))"
    by (simp add: is_tracked_response_opcode_def opcode_def)
  then have "(\<exists>t. (t, fst demo_addr, op_PING) \<in> set ?sent \<and> 1000000000 < t + OUTBOUND_WINDOW) \<and>
     count_list [] (fst demo_addr, op_PING) < count_list (map snd ?sent) (fst demo_addr, op_PING)"
    using responses_requested [OF r _ p(2)] by simp
  with r p(2) show ?thesis by blast
qed

end
