(* ===== verification/Kad_Unsolicited_Props.thy ===== *)
theory Kad_Unsolicited_Props
  imports Kad_Unsolicited Kad_Store_Search Snoop_Queue_Props Kad_Firewall_Props Kad_Rpc_Props
begin

text \<open>
  Properties of the packet handler and of the agent it is part of: how search responses are paged,
  that the handler never panics on a store whose entries can be written and keeps the invariants
  of every component, what hello tags say, and a lookup request from peer to peer.
\<close>

subsection \<open>Paging\<close>

definition page_ok :: "ext \<Rightarrow> node_id \<Rightarrow> node_id \<Rightarrow> nat \<Rightarrow> search_result_entry list \<Rightarrow> bool" where
  "page_ok B sender_id target max_bytes page \<longleftrightarrow>
     page \<noteq> [] \<and>
     (1 < length page \<longrightarrow>
       (\<exists>n. encoded_search_response_len B sender_id target page = Some n \<and> n \<le> max_bytes))"

text \<open>A page is closed only when the next result does not fit on it.\<close>

fun greedy :: "ext \<Rightarrow> node_id \<Rightarrow> node_id \<Rightarrow> nat \<Rightarrow> search_result_entry list list \<Rightarrow> bool" where
  "greedy B sender_id target max_bytes (p # q # ps) \<longleftrightarrow>
     (\<exists>n. encoded_search_response_len B sender_id target (p @ [hd q]) = Some n \<and> max_bytes < n) \<and>
     greedy B sender_id target max_bytes (q # ps)"
| "greedy B sender_id target max_bytes ps \<longleftrightarrow> True"

lemma encode_fits: "packet_fits p \<Longrightarrow> \<exists>s. encode B p = Some s"
  using encode_body_None [of B p] by (auto simp: encode_def wconcat_None simp flip: not_None_eq)

lemma split_loop_shift:
  "split_loop B me tgt mx pages current rs = map_option ((@) pages) (split_loop B me tgt mx [] current rs)"
proof (induction rs arbitrary: pages current)
  case (Cons r rs)
  have "split_loop B me tgt mx (pages @ [current]) [r] rs =
      map_option ((@) pages) (split_loop B me tgt mx [current] [r] rs)"
    using Cons.IH [of "pages @ [current]" "[r]"] Cons.IH [of "[current]" "[r]"]
    by (simp add: option.map_comp comp_def)
  then show ?case
    using Cons.IH [of pages] by (simp add: Let_def split: option.split)
qed simp

lemma split_loop_spec:
  assumes "\<forall>r\<in>set (current @ rs). tags_fit (se_tags r)" "length (current @ rs) < 65536"
    and "current \<noteq> [] \<longrightarrow> page_ok B me tgt mx current" "current @ rs \<noteq> []"
  shows "\<exists>ps. split_loop B me tgt mx [] current rs = Some ps \<and> concat ps = current @ rs \<and>
    list_all (page_ok B me tgt mx) ps \<and> greedy B me tgt mx ps \<and> ps \<noteq> [] \<and>
    (current \<noteq> [] \<longrightarrow> hd (hd ps) = hd current)"
  using assms
proof (induction rs arbitrary: current)
  case Nil
  then show ?case by auto
next
  case (Cons r rs)
  have single: "page_ok B me tgt mx [r]"
    by (simp add: page_ok_def)
  obtain ps where ps: "split_loop B me tgt mx [] [r] rs = Some ps" "concat ps = r # rs"
      "list_all (page_ok B me tgt mx) ps" "greedy B me tgt mx ps" "ps \<noteq> []" "hd (hd ps) = r"
    using Cons.IH [of "[r]"] Cons.prems single by auto
  show ?case
  proof (cases "current = []")
    case True
    then show ?thesis using ps by simp
  next
    case False
    let ?cand = "current @ [r]"
    obtain n where n: "encoded_search_response_len B me tgt ?cand = Some n"
      using encode_fits [of "SearchRes \<lparr> sr_sender_id = me, sr_target = tgt, sr_results = ?cand \<rparr>" B] Cons.prems
      by (auto simp: encoded_search_response_len_def)
    show ?thesis
    proof (cases "n > mx")
      case True
      obtain q qs where q: "ps = q # qs" "hd q = r"
        using ps(5,6) by (cases ps) auto
      have "split_loop B me tgt mx [] current (r # rs) = Some (current # ps)"
        using False n True ps(1) split_loop_shift [of B me tgt mx "[current]" "[r]" rs] by simp
      moreover have "page_ok B me tgt mx current"
        using Cons.prems(3) False by simp
      moreover have "greedy B me tgt mx (current # ps)"
        using q n True ps(4) by simp
      ultimately show ?thesis
        using ps(2,3) by (intro exI [of _ "current # ps"]) simp
    next
      case False
      then have "page_ok B me tgt mx ?cand"
        using n by (auto simp: page_ok_def)
      then obtain ps' where "split_loop B me tgt mx [] ?cand rs = Some ps'" "concat ps' = ?cand @ rs"
          "list_all (page_ok B me tgt mx) ps'" "greedy B me tgt mx ps'" "ps' \<noteq> []" "hd (hd ps') = hd ?cand"
        using Cons.IH [of ?cand] Cons.prems by auto
      then show ?thesis
        using \<open>current \<noteq> []\<close> n False by (intro exI [of _ ps']) simp
    qed
  qed
qed

text \<open>
  C35. Search responses are paged without loss: every response that can be written is split without
  a panic into responses with the same sender and target whose results, in order, are exactly the
  original results; no page is empty; a page with more than one result is a packet of at most the
  given size; and a page is closed only when the next result does not fit on it.
\<close>

theorem search_pages:
  assumes "packet_fits (SearchRes r)" "sr_results r \<noteq> []" "0 < mx"
  shows "\<exists>pages. split_stock_search_responses B r mx = Some pages \<and>
    concat (map sr_results pages) = sr_results r \<and>
    (\<forall>p\<in>set pages. sr_sender_id p = sr_sender_id r \<and> sr_target p = sr_target r \<and>
      page_ok B (sr_sender_id r) (sr_target r) mx (sr_results p)) \<and>
    greedy B (sr_sender_id r) (sr_target r) mx (map sr_results pages)"
proof (cases "length (sr_results r) \<le> 1")
  case True
  then show ?thesis
    using assms by (auto simp: split_stock_search_responses_def page_ok_def)
next
  case False
  obtain ps where "split_loop B (sr_sender_id r) (sr_target r) mx [] [] (sr_results r) = Some ps"
      "concat ps = sr_results r" "list_all (page_ok B (sr_sender_id r) (sr_target r) mx) ps"
      "greedy B (sr_sender_id r) (sr_target r) mx ps"
    using split_loop_spec [of "[]" "sr_results r" B "sr_sender_id r" "sr_target r" mx] assms by auto
  then show ?thesis
    using False assms by (auto simp: split_stock_search_responses_def list_all_iff comp_def)
qed

theorem search_pages_witness:
  "let r = \<lparr> sr_sender_id = nid_ZERO, sr_target = nid_ZERO,
       sr_results = replicate 2 \<lparr> se_entry_id = ed2k_ZERO, se_tags = [] \<rparr> \<rparr> in
   packet_fits (SearchRes r) \<and>
   (\<exists>pages. split_stock_search_responses (le_ext id (\<lambda>_. None)) r 60 = Some pages \<and>
     concat (map sr_results pages) = sr_results r)"
proof -
  let ?r = "\<lparr> sr_sender_id = nid_ZERO, sr_target = nid_ZERO,
       sr_results = replicate 2 \<lparr> se_entry_id = ed2k_ZERO, se_tags = [] \<rparr> \<rparr>"
  have "packet_fits (SearchRes ?r)"
    by (simp add: tags_fit_def)
  then show ?thesis
    using search_pages [of ?r 60 "le_ext id (\<lambda>_. None)"] by (auto simp: Let_def)
qed

subsection \<open>The handler keeps every component well formed\<close>

text \<open>Draws from which an acceptable marker of either kind can be made.\<close>

definition draws_ok :: "send_env \<Rightarrow> bool" where
  "draws_ok v \<longleftrightarrow> list_ex (\<lambda>r. select_marker NodeIdMode [r] \<noteq> None \<and>
     select_marker ReceiverVerifyKeyMode [r] \<noteq> None) (sv_marker_bytes v)"

definition agent_ok :: "agent \<Rightarrow> bool" where
  "agent_ok ag \<longleftrightarrow> table_ok (ag_table ag) \<and> store_ok (ag_store ag) \<and> queue_ok (ag_queue ag) \<and>
     firewall_ok (ag_firewall ag)"

text \<open>An answer: outputs that go to the sender only, and an agent that differs in its RPC state.\<close>

definition replies :: "socket_addr \<Rightarrow> agent \<Rightarrow> (agent_output list \<times> agent) option \<Rightarrow> bool" where
  "replies addr ag r \<longleftrightarrow> (\<exists>outs rpc. r = Some (outs, ag\<lparr>ag_rpc := rpc\<rparr>) \<and>
     (\<forall>a w. Datagram a w \<in> set outs \<longrightarrow> a = addr))"

lemma replies_none [simp]: "replies addr ag (Some ([], ag))"
  unfolding replies_def by (rule exI [of _ "[]"], rule exI [of _ "ag_rpc ag"]) simp

lemma send_replies:
  assumes "draws_ok v" "packet_fits p"
  shows "replies addr ag (dht_send_packet B md5 v addr p ag)"
proof -
  obtain s where "encode B p = Some s"
    using encode_fits assms(2) by blast
  moreover have "kad_encrypt md5 (sv_random_key_part v) (sv_marker_bytes v) layer addr (opcode p) s \<noteq> None" for layer
    using assms(1) by (intro encrypt_defined) (simp add: draws_ok_def)
  ultimately show ?thesis
    by (auto simp: replies_def dht_send_packet_def send_with_class_def Let_def split: option.split)
qed

lemma send_pages_replies:
  assumes "\<forall>i. draws_ok (vs i)" "\<forall>p\<in>set pages. packet_fits (SearchRes p)"
  shows "replies addr ag (send_pages B md5 vs i addr pages ag)"
  using assms(2)
proof (induction pages arbitrary: i ag)
  case (Cons p ps)
  obtain out rpc where o: "dht_send_packet B md5 (vs i) addr (SearchRes p) ag = Some (out, ag\<lparr>ag_rpc := rpc\<rparr>)"
      "\<forall>a w. Datagram a w \<in> set out \<longrightarrow> a = addr"
    using send_replies [of "vs i" "SearchRes p" addr ag B md5] assms(1) Cons.prems by (auto simp: replies_def)
  show ?case
    using Cons.IH [of "ag\<lparr>ag_rpc := rpc\<rparr>" "Suc i"] Cons.prems o by (fastforce simp: replies_def)
qed simp

lemma pages_fit:
  assumes "packet_fits (SearchRes r)"
  shows "\<exists>pages. split_stock_search_responses B r mx = Some pages \<and> (\<forall>p\<in>set pages. packet_fits (SearchRes p))"
proof (cases "mx = 0 \<or> length (sr_results r) \<le> 1")
  case False
  then have "sr_results r \<noteq> []" by auto
  then obtain ps where ps: "split_loop B (sr_sender_id r) (sr_target r) mx [] [] (sr_results r) = Some ps"
      "concat ps = sr_results r"
    using split_loop_spec [of "[]" "sr_results r" B "sr_sender_id r" "sr_target r" mx] assms by auto
  have "length p \<le> length (sr_results r) \<and> set p \<subseteq> set (sr_results r)" if "p \<in> set ps" for p
    using that ps(2) [symmetric] by (auto simp: length_concat intro: member_le_sum_list)
  then show ?thesis
    using ps assms False by (fastforce simp: split_stock_search_responses_def)
qed (use assms in \<open>simp add: split_stock_search_responses_def\<close>)

lemma answer_search_replies:
  assumes "\<forall>i. draws_ok (he_sends v i)" "\<And>r. fst answer = Some r \<Longrightarrow> packet_fits (SearchRes r)"
  shows "replies addr (ag\<lparr>ag_store := snd answer\<rparr>) (answer_search B md5 v addr answer ag)"
proof (cases "fst answer")
  case (Some r)
  then obtain pages where "split_stock_search_responses B r LOCAL_SEARCH_RESPONSE_MAX_PACKET_BYTES = Some pages"
      "\<forall>p\<in>set pages. packet_fits (SearchRes p)"
    using pages_fit assms(2) by blast
  then show ?thesis
    using Some send_pages_replies [OF assms(1)] by (simp add: answer_search_def)
qed (simp add: answer_search_def)

lemma answer_publish_replies:
  assumes "\<forall>i. draws_ok (he_sends v i)"
  shows "replies addr (ag\<lparr>ag_store := snd answer\<rparr>) (answer_publish B md5 v addr tgt answer ag)"
  using assms by (auto simp: answer_publish_def Let_def intro!: send_replies split: option.split)

lemma table_contacts_bound: "length (closest_contacts tgt n ag) \<le> n"
  by (simp add: closest_contacts_def get_closest_def)

lemma dht_add_contact_ok:
  assumes "agent_ok ag"
  shows "\<exists>res rpc table. dht_add_contact c ag = Some (res, ag\<lparr>ag_rpc := rpc, ag_table := table\<rparr>) \<and> table_ok table"
  using add_contact_ok [of "ag_table ag" "with_known_key (rpc_obfuscation (ag_rpc ag)) c"] assms
  by (auto simp: dht_add_contact_def Let_def agent_ok_def) blast

lemma hello_contact_ok:
  assumes "agent_ok ag"
  shows "\<exists>metadata rpc table. add_contact_from_hello v from i p ver k tags ag =
      Some (metadata, ag\<lparr>ag_rpc := rpc, ag_table := table\<rparr>) \<and> table_ok table"
proof -
  let ?md = "if ver < 8 then (parse_kad_hello_metadata tags)\<lparr>hm_requests_hello_res_ack := False\<rparr>
    else parse_kad_hello_metadata tags"
  have keep: "\<exists>rpc table. Some (?md, ag) = Some (?md, ag\<lparr>ag_rpc := rpc, ag_table := table\<rparr>) \<and> table_ok table"
    using assms by (intro exI [of _ "ag_rpc ag"] exI [of _ "ag_table ag"]) (simp add: agent_ok_def)
  show ?thesis
  proof (cases "fst from")
    case (V4 ip)
    obtain res rpc table where
      "dht_add_contact (hello_contact (he_now v) ip (snd from) i p ver k ?md) ag =
         Some (res, ag\<lparr>ag_rpc := rpc, ag_table := table\<rparr>)" "table_ok table"
      using dht_add_contact_ok [OF assms] by blast
    then show ?thesis
      using V4 keep by (cases "hm_udp_firewalled ?md") (auto simp: add_contact_from_hello_def Let_def)
  qed (use keep in \<open>auto simp: add_contact_from_hello_def Let_def\<close>)
qed

definition handled :: "socket_addr \<Rightarrow> handler_result \<Rightarrow> bool" where
  "handled addr r \<longleftrightarrow> (\<exists>res outs ag'. r = Some (res, outs, ag') \<and> agent_ok ag' \<and>
     (\<forall>a w. Datagram a w \<in> set outs \<longrightarrow> a = addr))"

lemma agent_ok_frame [simp]:
  "agent_ok (ag\<lparr>ag_rpc := rpc\<rparr>) = agent_ok ag"
  "agent_ok ag \<Longrightarrow> table_ok t \<Longrightarrow> agent_ok (ag\<lparr>ag_table := t\<rparr>)"
  "agent_ok ag \<Longrightarrow> store_ok st \<Longrightarrow> agent_ok (ag\<lparr>ag_store := st\<rparr>)"
  "agent_ok ag \<Longrightarrow> firewall_ok fw \<Longrightarrow> agent_ok (ag\<lparr>ag_firewall := fw\<rparr>)"
  by (simp_all add: agent_ok_def)

lemma handled_done: "replies addr ag r \<Longrightarrow> agent_ok ag \<Longrightarrow> handled addr (done_with r)"
  by (auto simp: handled_def done_with_def replies_def)

lemma handled_now [simp]: "agent_ok ag \<Longrightarrow> (\<And>a w. Datagram a w \<notin> set outs) \<Longrightarrow> handled addr (Some (res, outs, ag))"
  by (auto simp: handled_def)

lemma hello_tags_fit: "packet_fits (HelloRes \<lparr> hs_node_id = i, hs_tcp_port = p, hs_version = ver,
    hs_tags = build_kad_hello_response_tags port u t a \<rparr>)"
  by (simp add: build_kad_hello_response_tags_def tags_fit_def)

lemma register_sender_key_frame:
  "\<exists>rpc. register_sender_key from k ag = ag\<lparr>ag_rpc := rpc\<rparr>"
  unfolding register_sender_key_def dht_register_peer_key_def
  by (cases k) (auto intro: exI [of _ "ag_rpc ag"])

lemma handle_hello_req_ok:
  assumes "agent_ok ag" "\<forall>i. draws_ok (he_sends v i)"
  shows "handled (rk_from rk) (handle_hello_req B md5 v rk req ag)"
proof -
  obtain rpc where k: "register_sender_key (rk_from rk) (rk_sender_verify_key rk) ag = ag\<lparr>ag_rpc := rpc\<rparr>"
    using register_sender_key_frame by blast
  obtain metadata rpc' table where c: "add_contact_from_hello v (rk_from rk) (hq_node_id req) (hq_tcp_port req)
      (hq_version req) (rk_sender_verify_key rk) (hq_tags req) (ag\<lparr>ag_rpc := rpc\<rparr>) =
      Some (metadata, ag\<lparr>ag_rpc := rpc', ag_table := table\<rparr>)" "table_ok table"
    using hello_contact_ok [of "ag\<lparr>ag_rpc := rpc\<rparr>"] assms(1) by fastforce
  let ?ag = "ag\<lparr>ag_rpc := rpc', ag_table := table\<rparr>"
  let ?ack = "should_request_hello_response_ack (hq_version req) (rk_receiver_verify_key_valid rk)
    (rk_sender_verify_key rk)"
  have ok: "agent_ok ?ag"
    using assms(1) c(2) by simp
  show ?thesis
  proof (cases "build_hello_response ?ack ?ag")
    case (Inl e)
    then show ?thesis
      using k c ok by (simp add: handle_hello_req_def)
  next
    case (Inr res)
    then have "packet_fits (HelloRes res)"
      using hello_tags_fit by (auto simp: build_hello_response_def split: option.splits)
    then have "replies (rk_from rk) ?ag (dht_send_packet B md5 (he_sends v 0) (rk_from rk) (HelloRes res) ?ag)"
      using send_replies assms(2) by blast
    then show ?thesis
      using k c Inr ok assms(1) by (auto simp: handle_hello_req_def handled_def replies_def)
  qed
qed

lemma handle_hello_res_ok:
  assumes "agent_ok ag" "\<forall>i. draws_ok (he_sends v i)"
  shows "handled (rk_from rk) (handle_hello_res B md5 v rk res ag)"
proof -
  obtain rpc where k: "register_sender_key (rk_from rk) (rk_sender_verify_key rk) ag = ag\<lparr>ag_rpc := rpc\<rparr>"
    using register_sender_key_frame by blast
  obtain metadata rpc' table where c: "add_contact_from_hello v (rk_from rk) (hs_node_id res) (hs_tcp_port res)
      (hs_version res) (rk_sender_verify_key rk) (hs_tags res) (ag\<lparr>ag_rpc := rpc\<rparr>) =
      Some (metadata, ag\<lparr>ag_rpc := rpc', ag_table := table\<rparr>)" "table_ok table"
    using hello_contact_ok [of "ag\<lparr>ag_rpc := rpc\<rparr>"] assms(1) by fastforce
  let ?ag = "ag\<lparr>ag_rpc := rpc', ag_table := table\<rparr>"
  have ok: "agent_ok ?ag"
    using assms(1) c(2) by simp
  have "replies (rk_from rk) ?ag (dht_send_packet B md5 (he_sends v 0) (rk_from rk)
      (HelloResAck \<lparr> ha_node_id = ag_own_id ag, ha_tags = [] \<rparr>) ?ag)"
    using assms(2) by (intro send_replies) (simp_all add: tags_fit_def)
  then show ?thesis
    using k c ok assms(1) by (auto simp: handle_hello_res_def handled_def replies_def)
qed

lemma record_snoop_ok:
  assumes "agent_ok ag" "nid_from_str (en_target e) \<noteq> None"
  shows "agent_ok (record_snoop_entry from e ag) \<and> ag_store (record_snoop_entry from e ag) = ag_store ag
    \<and> ag_own_id (record_snoop_entry from e ag) = ag_own_id ag"
  using assms queue_ok_record [of "ag_queue ag" e]
  by (auto simp: record_snoop_entry_def agent_ok_def split: prod.split)

lemma built_targets_parse:
  "nid_from_str (en_target (build_keyword_snoop_entry H kreq now)) \<noteq> None"
  "nid_from_str (en_target (build_source_snoop_entry sreq now)) \<noteq> None"
  "nid_from_str (en_target (build_notes_snoop_entry nreq now)) \<noteq> None"
  by (simp_all add: build_keyword_snoop_entry_def build_source_snoop_entry_def build_notes_snoop_entry_def
      nid_from_str_display)

lemma handled_send:
  "agent_ok ag \<Longrightarrow> \<forall>i. draws_ok (he_sends v i) \<Longrightarrow> packet_fits p \<Longrightarrow>
     handled addr (done_with (dht_send_packet B md5 (he_sends v 0) addr p ag))"
  using handled_done [OF send_replies] by blast

lemma handled_search:
  assumes "agent_ok ag" "\<forall>i. draws_ok (he_sends v i)" "store_ok (snd answer)"
    and "\<And>r. fst answer = Some r \<Longrightarrow> packet_fits (SearchRes r)"
  shows "handled addr (done_with (answer_search B md5 v addr answer ag))"
  using handled_done [OF answer_search_replies [OF assms(2,4)]] assms(1,3) by simp

lemma handled_publish:
  assumes "agent_ok ag" "\<forall>i. draws_ok (he_sends v i)" "store_ok (snd answer)"
  shows "handled addr (done_with (answer_publish B md5 v addr tgt answer ag))"
  using handled_done [OF answer_publish_replies [OF assms(2)]] assms(1,3) by simp

lemma handled_lookups:
  assumes "agent_ok ag" "\<forall>i. draws_ok (he_sends v i)" "rk_packet rk = BootstrapReq \<or> rk_packet rk = Req req"
  shows "handled (rk_from rk) (handle_unsolicited_packet B md5 H L v rk ag)"
proof -
  have "length (closest_contacts (ag_own_id ag) K ag) < 65536"
    using table_contacts_bound [of "ag_own_id ag" K ag] by (simp add: K_def)
  moreover have "unat (rq_count req) < 2 ^ LENGTH(8)"
    by (rule unsigned_less)
  then have "length (closest_contacts (rq_target req) (unat (rq_count req)) ag) < 256"
    using table_contacts_bound [of "rq_target req" "unat (rq_count req)" ag] by simp
  ultimately show ?thesis
    using assms
    by (auto simp: handle_unsolicited_packet_def Let_def intro!: handled_send split: option.split)
qed

lemma handled_searches:
  assumes ok: "agent_ok ag" and draws: "\<forall>i. draws_ok (he_sends v i)" and ready: "store_wire_ready (ag_store ag)"
    and p: "rk_packet rk = SearchKeyReq kreq \<or> rk_packet rk = SearchSourceReq sreq \<or> rk_packet rk = SearchNotesReq nreq"
  shows "handled (rk_from rk) (handle_unsolicited_packet B md5 H L v rk ag)"
proof -
  have s: "store_ok (ag_store ag)"
    using ok by (simp add: agent_ok_def)
  note snoop = record_snoop_ok [OF ok]
  have answer: "handled a (done_with (answer_search B md5 v a answer (record_snoop_entry a e ag)))"
    if "nid_from_str (en_target e) \<noteq> None" "store_ok (snd answer)"
      "\<And>r. fst answer = Some r \<Longrightarrow> packet_fits (SearchRes r)" for a e answer
    using handled_search [OF _ draws that(2,3)] snoop [OF that(1)] by blast
  note fit = search_responses_fit(1) [OF ready, of 300 L _ kreq] search_responses_fit(2) [OF ready, of 300 _ sreq]
    search_responses_fit(3) [OF ready, of 150 _ nreq]
  note simps = handle_unsolicited_packet_def Let_def LOCAL_KEYWORD_SEARCH_RESPONSE_LIMIT_def
    LOCAL_SOURCE_SEARCH_RESPONSE_LIMIT_def LOCAL_NOTES_SEARCH_RESPONSE_LIMIT_def
    snoop [OF built_targets_parse(1)] snoop [OF built_targets_parse(2)] snoop [OF built_targets_parse(3)]
  have "handled (rk_from rk) (handle_unsolicited_packet B md5 H L v rk ag)" if "rk_packet rk = SearchKeyReq kreq"
    using answer [OF built_targets_parse(1) search_ok(1) [OF s] fit(1)] that by (simp add: simps)
  moreover have "handled (rk_from rk) (handle_unsolicited_packet B md5 H L v rk ag)" if "rk_packet rk = SearchSourceReq sreq"
    using answer [OF built_targets_parse(2) search_ok(2) [OF s] fit(2)] that by (simp add: simps)
  moreover have "handled (rk_from rk) (handle_unsolicited_packet B md5 H L v rk ag)" if "rk_packet rk = SearchNotesReq nreq"
    using answer [OF built_targets_parse(3) search_ok(3) [OF s] fit(3)] that by (simp add: simps)
  ultimately show ?thesis
    using p by blast
qed

text \<open>
  C2. The agent survives every packet. On an agent whose components satisfy their invariants and
  whose stored entries can be written, the packet handler returns for every packet whatsoever, and
  the routing table, the publish store, the snoop queue and the firewall state still satisfy their
  invariants; whatever it sends goes to the sender of the packet and to no one else.
\<close>

theorem handler_total:
  assumes ok: "agent_ok ag" and ready: "store_wire_ready (ag_store ag)" and draws: "\<forall>i. draws_ok (he_sends v i)"
  shows "\<exists>res outs ag'. handle_unsolicited_packet B md5 H L v rk ag = Some (res, outs, ag') \<and> agent_ok ag' \<and>
    (\<forall>a w. Datagram a w \<in> set outs \<longrightarrow> a = rk_from rk)"
proof -
  have s: "store_ok (ag_store ag)"
    using ok by (simp add: agent_ok_def)
  note publish = handled_publish [OF ok draws] and lookups = handled_lookups [OF ok draws]
    and searches = handled_searches [OF ok draws ready]
  have "handled (rk_from rk) (handle_unsolicited_packet B md5 H L v rk ag)"
  proof (cases "rk_packet rk")
    case (FirewallUdp p)
    obtain r fw where "record_firewall_udp_packet (fst (rk_from rk)) (fu_error_code p) (fu_udp_port p)
        (he_utc_now v) (ag_firewall ag) = Some (r, fw)" "firewall_ok fw"
      using udp_packet_result ok unfolding agent_ok_def by blast
    then show ?thesis
      using FirewallUdp ok by (simp add: handle_unsolicited_packet_def)
  next
    case (PublishKeyReq req)
    then show ?thesis
      using publish [of "(Some (fst r), snd r)" "rk_from rk" for r] record_keyword_ok [OF s]
      by (simp add: handle_unsolicited_packet_def case_prod_beta)
  next
    case (PublishSourceReq req)
    then show ?thesis
      using record_source_ok [OF s] s
      by (auto simp: handle_unsolicited_packet_def Let_def intro!: publish split: ip_addr.split)
  next
    case (PublishNotesReq req)
    then show ?thesis
      using record_notes_ok [OF s] s
      by (auto simp: handle_unsolicited_packet_def Let_def intro!: publish split: ip_addr.split)
  next
    case BootstrapReq
    then show ?thesis by (intro lookups) simp
  next
    case (Req req)
    then show ?thesis by (intro lookups) simp
  next
    case (SearchKeyReq req)
    then show ?thesis by (intro searches) simp
  next
    case (SearchSourceReq req)
    then show ?thesis by (intro searches) simp
  next
    case (SearchNotesReq req)
    then show ?thesis by (intro searches) simp
  qed (use ok handled_send [OF ok draws] handle_hello_req_ok [OF ok draws] handle_hello_res_ok [OF ok draws] in
      \<open>simp_all add: handle_unsolicited_packet_def Let_def\<close>)
  then show ?thesis
    by (simp add: handled_def)
qed

text \<open>A freshly started agent.\<close>

definition demo_agent :: agent where
  "demo_agent = \<lparr> ag_own_id = nid_ZERO, ag_bind_port = Some 4672, ag_tcp_port = Some 4662, ag_client_id = None,
     ag_rpc = rpc_new (layer_new nid_ZERO 7 True) \<lparr> rcf_max_inbound_per_ip = 20,
       rcf_max_inbound_search_res_per_ip = 256, rcf_flood_window = 1000000000,
       rcf_request_tracking_window = 60000000000 \<rparr>,
     ag_table = with_max_size nid_ZERO 12000, ag_store = store_new demo_config,
     ag_queue = queue_new \<lparr> dedup_window_secs = 60, general_max_queries_per_600s = 10,
       general_drain_cooldown_secs = 60, source_max_queries_per_600s = 10, source_drain_cooldown_secs = 60,
       source_stop_after_results = 10 \<rparr>,
     ag_observed = [],
     ag_harvest = (let f = \<lparr> hf_observed_requests = 0, hf_unique_shapes_observed = 0, hf_queued_entries = 0,
       hf_last_seen_at = None, hf_last_from = None, hf_last_target = None, hf_last_start_position = None,
       hf_last_size = None, hf_last_restrictive_bytes = None \<rparr> in
       \<lparr> ho_keyword_requests = f, ho_source_requests = f, ho_notes_requests = f \<rparr>),
     ag_firewall = firewall_default \<rparr>"

definition demo_handler_env :: handler_env where
  "demo_handler_env = \<lparr> he_utc_now = 0, he_now = 0, he_sends = (\<lambda>_. \<lparr> sv_now = 0, sv_utc_now = 0,
     sv_wait_millis = 0, sv_random_key_part = 0, sv_marker_bytes = [0] \<rparr>) \<rparr>"

lemma demo_agent_ok: "agent_ok demo_agent" "store_wire_ready (ag_store demo_agent)"
  using store_ok_new [of demo_config]
  by (simp_all add: agent_ok_def demo_agent_def firewall_ok_default queue_ok_def queue_new_def
      store_wire_ready_def store_new_def)

lemma demo_draws_ok: "draws_ok (he_sends demo_handler_env i)"
  by (simp add: draws_ok_def demo_handler_env_def is_plain_protocol_marker_def KAD_MARKER_RECEIVER_KEY_def)

theorem handler_total_witness:
  "\<exists>res outs ag'. handle_unsolicited_packet (le_ext id (\<lambda>_. None)) demo_md5 \<lparr> hex_encode = id, hex_decode = Some \<rparr>
     id demo_handler_env \<lparr> rk_packet = Ping, rk_from = demo_addr, rk_was_obfuscated = False,
       rk_sender_verify_key = None, rk_receiver_verify_key_valid = False \<rparr> demo_agent = Some (res, outs, ag') \<and>
     agent_ok ag'"
  using handler_total [OF demo_agent_ok, of demo_handler_env] demo_draws_ok by blast

subsection \<open>Hello\<close>

lemma wire_round_trip:
  assumes "binrw_ok B" "packet_valid p" "packet_fits p" "packet_canonical p"
  shows "\<exists>s. encode B p = Some (OP_KADEMLIAHEADER # opcode p # s) \<and>
    decode B (OP_KADEMLIAHEADER # opcode p # s) = Inr (packet_norm p)"
  using body_round_trip [OF assms] encode_Some [OF assms(1)] by (auto simp: body_ok_def decode_plain)

lemma misc_options_bits:
  "(misc_options u t a AND 1 \<noteq> 0) = u" "(misc_options u t a AND 2 \<noteq> 0) = t" "(misc_options u t a AND 4 \<noteq> 0) = a"
  by (cases u; cases t; cases a; simp add: misc_options_def)+

lemma hello_response_tags:
  "tags_norm (build_kad_hello_response_tags p u t a) = build_kad_hello_response_tags p u t a"
  "parse_kad_hello_metadata (build_kad_hello_response_tags p u t a) =
     \<lparr> hm_hello_source_udp_port = (if p = 0 then None else Some p), hm_udp_firewalled = u,
       hm_tcp_firewalled = t, hm_requests_hello_res_ack = a \<rparr>"
  by (simp_all add: build_kad_hello_response_tags_def tag_norm_def new_short_def parse_kad_hello_metadata_def
      hello_metadata_step_def tn_SOURCEUPORT_def tn_KADMISCOPTIONS_def hello_metadata_default_def misc_options_bits)

lemma hello_request_tags:
  "tags_norm (build_kad_hello_request_tags p adv u t a) = build_kad_hello_request_tags p adv u t a"
  "parse_kad_hello_metadata (build_kad_hello_request_tags p adv u t a) =
     \<lparr> hm_hello_source_udp_port = (if a \<or> u \<or> t \<or> \<not> adv \<or> p = 0 then None else Some p),
       hm_udp_firewalled = u, hm_tcp_firewalled = t, hm_requests_hello_res_ack = a \<rparr>"
  by (auto simp: build_kad_hello_request_tags_def tag_norm_def new_short_def parse_kad_hello_metadata_def
      hello_metadata_step_def tn_SOURCEUPORT_def tn_KADMISCOPTIONS_def hello_metadata_default_def misc_options_bits)

lemma hello_tags_ok:
  "\<forall>x\<in>set (build_kad_hello_response_tags p u t a). tag_valid x" "tags_fit (build_kad_hello_response_tags p u t a)"
  "\<forall>x\<in>set (build_kad_hello_request_tags p adv u t a). tag_valid x" "tags_fit (build_kad_hello_request_tags p adv u t a)"
  by (simp_all add: build_kad_hello_response_tags_def build_kad_hello_request_tags_def tag_valid_def new_short_def
      tags_fit_def tag_fits_def)

text \<open>
  A peer reads from the agent's hello what the agent knows about itself: the hello response and
  the hello request are written and read back with the agent's identifier and TCP port, and the
  flags the peer then extracts are the firewall verdicts and the acknowledgement request; a
  response always carries the UDP port, a request only when there is no flag to carry.
\<close>

theorem hello_flags_on_wire:
  assumes "binrw_ok B" "build_hello_response ack ag = Inr res" "build_hello_request ack ag = Inr req"
    and "u = (udp_verified (ag_firewall ag) \<and> \<not> udp_open (ag_firewall ag))" "t = current_tcp_firewalled ag"
    and "port = (case ag_bind_port ag of Some p \<Rightarrow> if p = 0 then None else Some p | None \<Rightarrow> None)"
  shows "\<exists>s r s' q. encode B (HelloRes res) = Some s \<and> decode B s = Inr (HelloRes r) \<and>
    encode B (HelloReq req) = Some s' \<and> decode B s' = Inr (HelloReq q) \<and>
    hs_node_id r = ag_own_id ag \<and> hq_node_id q = ag_own_id ag \<and>
    Some (hs_tcp_port r) = ag_tcp_port ag \<and> Some (hq_tcp_port q) = ag_tcp_port ag \<and>
    parse_kad_hello_metadata (hs_tags r) = \<lparr> hm_hello_source_udp_port = port, hm_udp_firewalled = u,
      hm_tcp_firewalled = t, hm_requests_hello_res_ack = ack \<rparr> \<and>
    parse_kad_hello_metadata (hq_tags q) = \<lparr> hm_hello_source_udp_port =
        (if ack \<or> u \<or> t \<or> \<not> (udp_verified (ag_firewall ag) \<and> udp_open (ag_firewall ag)) then None else port),
      hm_udp_firewalled = u, hm_tcp_firewalled = t, hm_requests_hello_res_ack = ack \<rparr>"
proof -
  obtain bp tp where ports: "ag_bind_port ag = Some bp" "ag_tcp_port ag = Some tp"
    using assms(2) by (auto simp: build_hello_response_def split: option.splits)
  let ?v = "udp_verified (ag_firewall ag)" and ?o = "udp_open (ag_firewall ag)"
  have res: "res = \<lparr> hs_node_id = ag_own_id ag, hs_tcp_port = tp, hs_version = KAD_VERSION,
      hs_tags = build_kad_hello_response_tags bp u t ack \<rparr>"
    and req: "req = \<lparr> hq_node_id = ag_own_id ag, hq_tcp_port = tp, hq_version = KAD_VERSION,
      hq_tags = build_kad_hello_request_tags bp (?v \<and> ?o) u t ack \<rparr>"
    using assms(2-5) ports by (simp_all add: build_hello_response_def build_hello_request_def)
  obtain s where s: "encode B (HelloRes res) = Some s" "decode B s = Inr (HelloRes res)"
    using wire_round_trip [OF assms(1), of "HelloRes res"] hello_tags_ok
    by (auto simp: res packet_valid_def hello_response_tags(1))
  obtain s' where s': "encode B (HelloReq req) = Some s'" "decode B s' = Inr (HelloReq req)"
    using wire_round_trip [OF assms(1), of "HelloReq req"] hello_tags_ok
    by (auto simp: req packet_valid_def hello_request_tags(1))
  show ?thesis
    using s s' ports assms(6)
    by (intro exI [of _ s] exI [of _ res] exI [of _ s'] exI [of _ req])
      (auto simp: res req hello_response_tags(2) hello_request_tags(2))
qed

theorem hello_flags_on_wire_witness:
  "\<exists>res req r. build_hello_response True demo_agent = Inr res \<and> build_hello_request True demo_agent = Inr req \<and>
     (\<exists>s. encode (le_ext id (\<lambda>_. None)) (HelloRes res) = Some s \<and> decode (le_ext id (\<lambda>_. None)) s = Inr (HelloRes r)) \<and>
     hm_requests_hello_res_ack (parse_kad_hello_metadata (hs_tags r))"
proof -
  obtain res req where r: "build_hello_response True demo_agent = Inr res" "build_hello_request True demo_agent = Inr req"
    by (simp add: build_hello_response_def build_hello_request_def demo_agent_def)
  obtain s x where "encode (le_ext id (\<lambda>_. None)) (HelloRes res) = Some s"
      "decode (le_ext id (\<lambda>_. None)) s = Inr (HelloRes x)" "hm_requests_hello_res_ack (parse_kad_hello_metadata (hs_tags x))"
    using hello_flags_on_wire [OF le_ext_ok [of id "\<lambda>_. None"] r refl refl refl] by auto
  with r show ?thesis by blast
qed

subsection \<open>A lookup from peer to peer\<close>

text \<open>
  What the agent may already know of the peer at \<open>addr\<close> is right: its identifier and its verify
  key for the agent's own address.
\<close>

definition knows_peer :: "md5_fun \<Rightarrow> obfuscation_layer \<Rightarrow> socket_addr \<Rightarrow> obfuscation_layer \<Rightarrow> ipv4 \<Rightarrow> bool" where
  "knows_peer md5 layer addr peer own_ip \<longleftrightarrow>
     pred_option (\<lambda>i. i = our_node_id peer) (pc_node_id (peer_entry layer addr)) \<and>
     pred_option (\<lambda>k. k = verify_key_for_ip md5 peer own_ip) (receiver_verify_keys layer (fst addr))"

lemma knows_peer_agree:
  "knows_peer md5 layer (V4 pip, pport) peer own_ip \<Longrightarrow>
     keys_agree md5 layer (V4 pip, pport) peer own_ip
       (ei_mode (inspect_outbound md5 layer (V4 pip, pport) opc))"
  by (auto simp: knows_peer_def keys_agree_def inspect_outbound_def peer_state_for_addr_def Let_def
      can_use_node_id_mode_def option.pred_set split: if_splits)

lemma knows_peer_learn:
  "knows_peer md5 layer addr peer own_ip \<Longrightarrow>
     knows_peer md5 (register_peer_key addr (verify_key_for_ip md5 peer own_ip) layer) addr peer own_ip"
  by (simp add: knows_peer_def register_peer_key_def peer_entry_def)

lemma decrypt_data:
  assumes "hd plain = OP_KADEMLIAHEADER" "plain \<noteq> []"
    and "kad_encrypt md5 part markers sender (V4 rip, rp) opc plain = Some dgram"
    and "keys_agree md5 sender (V4 rip, rp) receiver sip (ei_mode (inspect_outbound md5 sender (V4 rip, rp) opc))"
  shows "dr_data (kad_decrypt md5 receiver (V4 sip, sp) dgram) = plain \<and>
    pred_option (\<lambda>k. k = verify_key_for_ip md5 sender rip)
      (dr_sender_verify_key (kad_decrypt md5 receiver (V4 sip, sp) dgram))"
proof (cases "ei_mode (inspect_outbound md5 sender (V4 rip, rp) opc) = Plaintext")
  case True
  then have "dgram = plain"
    using assms(3) by (simp add: kad_encrypt_def Let_def)
  then show ?thesis
    using decrypt_plain [of plain] assms(1,2) by (simp add: plaintext_result_def)
next
  case False
  then show ?thesis
    using decrypt_encrypted [OF _ assms(2,3) refl False assms(4)] assms(1) by simp
qed

lemma send_received:
  assumes "binrw_ok B" "packet_valid p" "packet_fits p" "packet_canonical p" "draws_ok v"
    and "knows_peer md5 (rpc_obfuscation (ag_rpc ag)) (V4 pip, pport) peer own_ip"
  shows "\<exists>wire ag'. dht_send_packet B md5 v (V4 pip, pport) p ag = Some ([Datagram (V4 pip, pport) wire], ag') \<and>
    decode B (dr_data (kad_decrypt md5 peer (V4 own_ip, own_port) wire)) = Inr (packet_norm p)"
proof -
  obtain s where s: "encode B p = Some (OP_KADEMLIAHEADER # opcode p # s)"
      "decode B (OP_KADEMLIAHEADER # opcode p # s) = Inr (packet_norm p)"
    using wire_round_trip [OF assms(1-4)] by blast
  let ?plain = "OP_KADEMLIAHEADER # opcode p # s" and ?layer = "rpc_obfuscation (ag_rpc ag)"
  obtain wire where w: "kad_encrypt md5 (sv_random_key_part v) (sv_marker_bytes v) ?layer (V4 pip, pport)
      (opcode p) ?plain = Some wire"
    using encrypt_defined assms(5) unfolding draws_ok_def by blast
  have "dr_data (kad_decrypt md5 peer (V4 own_ip, own_port) wire) = ?plain"
    using decrypt_data [OF _ _ w knows_peer_agree [OF assms(6)]] by simp
  then show ?thesis
    using s w by (simp add: dht_send_packet_def send_with_class_def Let_def)
qed

text \<open>A lookup request that passes the flood check reaches the handler as it was sent.\<close>

lemma req_received:
  assumes "decode B (dr_data dr) = Inr (Req q)" "dr = kad_decrypt md5 (rpc_obfuscation st) from data"
    and "td_allowed (fst (record_and_check now \<lparr> tk_ip = fst from, tk_bucket = FindNodeReqBucket \<rparr> (rpc_tracker st)))"
    and "match_pending from op_REQ (rpc_pending st) = None"
  shows "\<exists>st'. receive_datagram B md5 now from data st = (Unsolicited \<lparr> rk_packet = Req q, rk_from = from,
      rk_was_obfuscated = dr_was_obfuscated dr, rk_sender_verify_key = dr_sender_verify_key dr,
      rk_receiver_verify_key_valid = dr_receiver_verify_key_valid dr \<rparr> None, st') \<and>
    rpc_obfuscation st' = (case dr_sender_verify_key dr of None \<Rightarrow> rpc_obfuscation st
      | Some k \<Rightarrow> register_peer_key from k (rpc_obfuscation st))"
proof -
  have i: "inspect_inbound_packet (Req q) = \<lparr> ii_tracker_bucket = Some FindNodeReqBucket, ii_peer_id = None,
      ii_kad_version = None \<rparr>"
    by (simp add: inspect_inbound_packet_def tracker_bucket_for_opcode_def opcode_def opcode_defs)
  have l: "learn_from_packet from (Req q) k layer = (case k of None \<Rightarrow> layer | Some k \<Rightarrow> register_peer_key from k layer)"
    for k layer
    by (simp add: learn_from_packet_def i should_learn_sender_verify_key_def opcode_def)
  have t: "tracked_request_opcode_for_response now ip op_REQ ot = (None, ot)" for ip ot
    by (simp add: tracked_request_opcode_for_response_def opcode_defs)
  have r: "\<not> is_tracked_response_opcode op_REQ"
    by (simp add: is_tracked_response_opcode_def opcode_defs)
  show ?thesis
    using assms i l t r
    by (auto simp: receive_datagram_def dispatch_packet_def Let_def opcode_def split: prod.splits option.splits)
qed

text \<open>
  C1. A lookup works from peer to peer. A peer sends a lookup request, obfuscated or not, to an
  agent with which it agrees on the keys of the mode it chose. The agent's routing table is
  consistent, the flood check lets the request through, no request of the agent's own to the same
  address waits for a packet of this kind, and what the agent knows of the peer is right. Then the
  agent answers with one datagram to the peer, and the peer decrypts and decodes it to the response
  with the contacts of the agent's routing table closest to the requested target, as many as
  requested or known. This holds whatever recipient identifier the request carries: contrary to the
  comment on \<open>recipient_id\<close> in \<open>packet/types.rs\<close> and to \<open>docs/kad/WIRE_SEQUENCES.md\<close>, a request meant
  for another identifier is answered as well.
\<close>

theorem lookup_end_to_end:
  assumes B: "binrw_ok B" and ok: "table_ok (ag_table ag)" and draws: "draws_ok (he_sends v 0)"
    and enc: "encode B (Req q) = Some s"
      "kad_encrypt md5 part markers peer (V4 aip, aport) op_REQ s = Some data"
    and keys: "keys_agree md5 peer (V4 aip, aport) (rpc_obfuscation (ag_rpc ag)) pip
      (ei_mode (inspect_outbound md5 peer (V4 aip, aport) op_REQ))"
    and knows: "knows_peer md5 (rpc_obfuscation (ag_rpc ag)) (V4 pip, pport) peer aip"
    and allowed: "td_allowed (fst (record_and_check (he_now v)
      \<lparr> tk_ip = V4 pip, tk_bucket = FindNodeReqBucket \<rparr> (rpc_tracker (ag_rpc ag))))"
    and free: "match_pending (V4 pip, pport) op_REQ (rpc_pending (ag_rpc ag)) = None"
  shows "\<exists>out wire ag' contacts.
    agent_receive B md5 H L v (V4 pip, pport) data ag = Some (out, [Datagram (V4 pip, pport) wire], ag') \<and>
    decode B (dr_data (kad_decrypt md5 peer (V4 aip, aport) wire)) =
      Inr (Res \<lparr> rs_target = rq_target q, rs_contacts = map contact_to_entry contacts \<rparr>) \<and>
    contacts = get_closest (rq_target q) (unat (rq_count q)) (ag_table ag) \<and>
    length contacts = min (unat (rq_count q)) (table_len (ag_table ag))"
proof -
  let ?from = "(V4 pip, pport)" and ?layer = "rpc_obfuscation (ag_rpc ag)"
  let ?dr = "kad_decrypt md5 ?layer ?from data"
  let ?contacts = "get_closest (rq_target q) (unat (rq_count q)) (ag_table ag)"
  let ?res = "Res \<lparr> rs_target = rq_target q, rs_contacts = map contact_to_entry ?contacts \<rparr>"
  obtain s' where s': "s = OP_KADEMLIAHEADER # opcode (Req q) # s'" "decode B s = Inr (Req q)"
    using wire_round_trip [OF B, of "Req q"] enc(1) by (auto simp: packet_valid_def)
  have dr: "dr_data ?dr = s" "pred_option (\<lambda>k. k = verify_key_for_ip md5 peer aip) (dr_sender_verify_key ?dr)"
    using decrypt_data [OF _ _ enc(2) keys, of pport] s'(1) by simp_all
  obtain st where st: "receive_datagram B md5 (he_now v) ?from data (ag_rpc ag) = (Unsolicited
      \<lparr> rk_packet = Req q, rk_from = ?from, rk_was_obfuscated = dr_was_obfuscated ?dr,
        rk_sender_verify_key = dr_sender_verify_key ?dr,
        rk_receiver_verify_key_valid = dr_receiver_verify_key_valid ?dr \<rparr> None, st)"
      "rpc_obfuscation st = (case dr_sender_verify_key ?dr of None \<Rightarrow> ?layer | Some k \<Rightarrow> register_peer_key ?from k ?layer)"
    using req_received [OF _ refl, of B md5 "ag_rpc ag" ?from data q] dr s'(2) allowed free by auto
  have "knows_peer md5 (rpc_obfuscation st) ?from peer aip"
    using st(2) knows dr(2) knows_peer_learn by (auto split: option.splits)
  moreover have "unat (rq_count q) < 2 ^ LENGTH(8)"
    by (rule unsigned_less)
  then have "packet_fits ?res" "length ?contacts = min (unat (rq_count q)) (table_len (ag_table ag))"
    using get_closest_spec(2) [OF ok, of "rq_target q" "unat (rq_count q)"] by simp_all
  ultimately show ?thesis
    using send_received [OF B _ _ _ draws, of ?res md5 "ag\<lparr>ag_rpc := st\<rparr>" pip pport peer aip aport] st(1)
    by (auto simp: agent_receive_def handle_unsolicited_packet_def closest_contacts_def done_with_def
        packet_valid_def)
qed

text \<open>
  A peer that knows the identifier of the fresh agent asks it, obfuscated, for ten contacts, in a
  request that names another recipient.
\<close>

definition demo_peer :: obfuscation_layer where
  "demo_peer = register_peer_identity (V4 (Ipv4 5 6 7 8), 4672) nid_ZERO (layer_new (NodeId (Arr16 (replicate 16 1))) 9 True)"

definition demo_req :: kad_req where
  "demo_req = \<lparr> rq_count = 10, rq_target = nid_ZERO, rq_recipient_id = NodeId (Arr16 (replicate 16 7)) \<rparr>"

lemma demo_lookup:
  "ei_mode (inspect_outbound md5 demo_peer (V4 (Ipv4 5 6 7 8), 4672) op_REQ) = NodeIdEncryption"
  "keys_agree md5 demo_peer (V4 (Ipv4 5 6 7 8), 4672) (rpc_obfuscation (ag_rpc demo_agent)) ip NodeIdEncryption"
  "knows_peer md5 (rpc_obfuscation (ag_rpc demo_agent)) addr demo_peer ip'"
  "td_allowed (fst (record_and_check (he_now demo_handler_env)
    \<lparr> tk_ip = V4 ip, tk_bucket = FindNodeReqBucket \<rparr> (rpc_tracker (ag_rpc demo_agent))))"
  "match_pending addr op_REQ (rpc_pending (ag_rpc demo_agent)) = None"
  by (simp_all add: demo_peer_def demo_agent_def rpc_new_def layer_new_def register_peer_identity_def
      peer_entry_def default_peer_def inspect_outbound_def peer_state_for_addr_def keys_agree_def knows_peer_def
      can_use_node_id_mode_def should_prefer_receiver_verify_key_def opcode_defs Let_def match_pending_def
      record_and_check_def tracker_new_def limit_for_bucket_def limit_new_def action_for_def
      u32_saturating_mul_def demo_handler_env_def)

theorem lookup_end_to_end_witness:
  "rq_recipient_id demo_req \<noteq> ag_own_id demo_agent \<and>
   (\<exists>B s data out wire ag'. encode B (Req demo_req) = Some s \<and>
     kad_encrypt demo_md5 3 [0] demo_peer (V4 (Ipv4 5 6 7 8), 4672) op_REQ s = Some data \<and>
     agent_receive B demo_md5 \<lparr> hex_encode = id, hex_decode = Some \<rparr> id demo_handler_env (V4 (Ipv4 1 2 3 4), 4672) data
       demo_agent = Some (out, [Datagram (V4 (Ipv4 1 2 3 4), 4672) wire], ag') \<and>
     decode B (dr_data (kad_decrypt demo_md5 demo_peer (V4 (Ipv4 5 6 7 8), 4672) wire)) =
       Inr (Res \<lparr> rs_target = nid_ZERO,
         rs_contacts = map contact_to_entry (get_closest nid_ZERO 10 (ag_table demo_agent)) \<rparr>))"
proof -
  let ?B = "le_ext id (\<lambda>_. None)"
  obtain s where s: "encode ?B (Req demo_req) = Some s"
    using encode_fits [of "Req demo_req" ?B] by auto
  obtain data where d: "kad_encrypt demo_md5 3 [0] demo_peer (V4 (Ipv4 5 6 7 8), 4672) op_REQ s = Some data"
    using encrypt_defined [of "[0]" demo_md5 3 demo_peer "(V4 (Ipv4 5 6 7 8), 4672)" op_REQ s]
    by (auto simp: is_plain_protocol_marker_def KAD_MARKER_RECEIVER_KEY_def)
  have "table_ok (ag_table demo_agent)"
    using demo_agent_ok(1) by (simp add: agent_ok_def)
  then have "\<exists>out wire ag' contacts. agent_receive ?B demo_md5 \<lparr> hex_encode = id, hex_decode = Some \<rparr> id demo_handler_env
        (V4 (Ipv4 1 2 3 4), 4672) data demo_agent = Some (out, [Datagram (V4 (Ipv4 1 2 3 4), 4672) wire], ag') \<and>
      decode ?B (dr_data (kad_decrypt demo_md5 demo_peer (V4 (Ipv4 5 6 7 8), 4672) wire)) =
        Inr (Res \<lparr> rs_target = rq_target demo_req, rs_contacts = map contact_to_entry contacts \<rparr>) \<and>
      contacts = get_closest (rq_target demo_req) (unat (rq_count demo_req)) (ag_table demo_agent) \<and>
      length contacts = min (unat (rq_count demo_req)) (table_len (ag_table demo_agent))"
    using demo_lookup(1,2)
    by (intro lookup_end_to_end [OF le_ext_ok _ demo_draws_ok s d _ demo_lookup(3-5)]) simp_all
  moreover have "rq_recipient_id demo_req \<noteq> ag_own_id demo_agent"
    by (simp add: demo_req_def demo_agent_def nid_ZERO_def)
  ultimately show ?thesis
    using s d by (intro conjI exI [of _ ?B] exI [of _ s] exI [of _ data]) (auto simp: demo_req_def)
qed

end
