(* ===== verification/Kad_Traversal.thy ===== *)
theory Kad_Traversal
  imports Routing_Table Kad_Rpc
begin

text \<open>
  The iterative lookup of \<open>crates/overlord-kad-dht/src/traversal.rs\<close>: candidates sorted by distance,
  at most \<open>ALPHA\<close> lookup requests in flight, the termination rules, and the search phase that walks
  the closest responders.

  \<^item> What the asynchronous runtime decides is an argument: per round of the lookup loop whether the
    run is cancelled, the clock, and which of the spawned requests completes next with what result
    (\<open>round_env\<close>); per round of the search loop the packets received before the timeout.
  \<^item> The RPC manager is shared with other tasks; \<open>rd_others\<close> is what they did to it during a wait.
  \<^item> Log lines are not part of the model.
\<close>

unbundle bit_operations_syntax

subsection \<open>Data\<close>

datatype candidate_state = PendingState | Inflight | Responded | Failed

record traversal_contact =
  tc_id :: node_id
  tc_addr :: socket_addr
  tc_version :: u8

record traversal_candidate =
  cd_contact :: traversal_contact
  cd_state :: candidate_state
  cd_distance :: node_id

datatype traversal_kind =
    FindNode
  | StoreLookup
  | KeywordSearch search_key_req
  | SourceSearch search_source_req
  | NotesSearch u64

text \<open>\<open>result_tx\<close> is the flag whether the results are streamed.\<close>

record traversal_config =
  tg_target :: node_id
  tg_search_kind :: traversal_kind
  tg_timeout :: nat
  tg_query_timeout :: nat
  tg_phase2_fanout :: nat
  tg_result_tx :: bool
  tg_work_class :: work_class

type_synonym search_item = "ed2k_hash \<times> tag list"

record traversal_result =
  tr_closest :: "traversal_contact list"
  tr_search_entries :: "search_item list"

datatype net_error =
    IoError
  | ProtoFailure proto_error
  | Timeout socket_addr u64
  | ChannelClosed
  | RateLimited
  | PacketTooShort nat
  | FloodBlocked ip_addr

definition KADEMLIA_FIND_VALUE :: u8 where "KADEMLIA_FIND_VALUE = 0x02"
definition KADEMLIA_FIND_NODE :: u8 where "KADEMLIA_FIND_NODE = 0x0B"
definition KADEMLIA_STORE :: u8 where "KADEMLIA_STORE = 0x04"
definition SEARCHTOLERANCE :: u32 where "SEARCHTOLERANCE = 0x01000000"
definition SEARCH_JUMPSTART_TICK :: nat where "SEARCH_JUMPSTART_TICK = 1000000000"
definition SEARCH_JUMPSTART_IDLE_GRACE :: nat where "SEARCH_JUMPSTART_IDLE_GRACE = 3 * 1000000000"

subsection \<open>Helpers\<close>

definition traversal_closest_limit :: "traversal_kind \<Rightarrow> nat \<Rightarrow> nat" where
  "traversal_closest_limit search_kind phase2_fanout =
     (case search_kind of StoreLookup \<Rightarrow> max phase2_fanout K | _ \<Rightarrow> K)"

definition req_count_for :: "traversal_kind \<Rightarrow> u8" where
  "req_count_for search_kind =
     (case search_kind of FindNode \<Rightarrow> KADEMLIA_FIND_NODE | StoreLookup \<Rightarrow> KADEMLIA_STORE
      | _ \<Rightarrow> KADEMLIA_FIND_VALUE)"

text \<open>\<open>is_private\<close>, \<open>is_loopback\<close> and \<open>is_link_local\<close> of \<open>Ipv4Addr\<close>.\<close>

fun ip_is_private :: "ipv4 \<Rightarrow> bool" where
  "ip_is_private (Ipv4 a b c d) \<longleftrightarrow>
     a = 10 \<or> a = 172 \<and> b \<ge> 16 \<and> b \<le> 31 \<or> a = 192 \<and> b = 168"

fun ip_is_loopback :: "ipv4 \<Rightarrow> bool" where
  "ip_is_loopback (Ipv4 a b c d) \<longleftrightarrow> a = 127"

fun ip_is_link_local :: "ipv4 \<Rightarrow> bool" where
  "ip_is_link_local (Ipv4 a b c d) \<longleftrightarrow> a = 169 \<and> b = 254"

definition traversal_is_lan_ip :: "ipv4 \<Rightarrow> bool" where
  "traversal_is_lan_ip ip \<longleftrightarrow> ip_is_private ip \<or> ip_is_loopback ip \<or> ip_is_link_local ip"

definition distance_high32 :: "node_id \<Rightarrow> u32" where
  "distance_high32 d =
     u32_from_le_bytes (nid_bytes d ! 0) (nid_bytes d ! 1) (nid_bytes d ! 2) (nid_bytes d ! 3)"

fun ipv4_prefix_24 :: "ipv4 \<Rightarrow> u32" where
  "ipv4_prefix_24 (Ipv4 a b c d) = u32_from_le_bytes d c b a AND 0xFFFFFF00"

definition passes_search_tolerance :: "node_id \<Rightarrow> traversal_contact \<Rightarrow> bool" where
  "passes_search_tolerance target contact =
     (case fst (tc_addr contact) of
        V4 ip \<Rightarrow> if traversal_is_lan_ip ip then True
          else distance_high32 (distance target (tc_id contact)) \<le> SEARCHTOLERANCE
      | V6 _ \<Rightarrow> False)"

definition entry_ip :: "contact_entry \<Rightarrow> ipv4" where
  "entry_ip e = (case ce_ip_addr e of (a, b, c, d) \<Rightarrow> Ipv4 a b c d)"

text \<open>The loop of \<open>sanitize_res_contacts\<close>, with the addresses and the /24 prefixes counted so far.\<close>

fun sanitize_loop ::
  "ipv4 set \<Rightarrow> (u32 \<Rightarrow> nat) \<Rightarrow> contact_entry list \<Rightarrow> contact_entry list" where
  "sanitize_loop seen_ips prefix_counts [] = []"
| "sanitize_loop seen_ips prefix_counts (entry # contacts) =
     (if ce_ip entry = 0 \<or> ce_udp_port entry = 0 then sanitize_loop seen_ips prefix_counts contacts
      else
        let ip = entry_ip entry in
        if ip \<in> seen_ips then sanitize_loop seen_ips prefix_counts contacts
        else
          let seen_ips = insert ip seen_ips; prefix = ipv4_prefix_24 ip in
          if prefix_counts prefix \<ge> 2 then sanitize_loop seen_ips prefix_counts contacts
          else entry # sanitize_loop seen_ips (prefix_counts(prefix := prefix_counts prefix + 1)) contacts)"

definition sanitize_res_contacts ::
  "contact_entry list \<Rightarrow> socket_addr \<Rightarrow> nat \<Rightarrow> contact_entry list option" where
  "sanitize_res_contacts contacts responder_addr max_contacts =
     (if length contacts > max_contacts then None
      else Some (case fst responder_addr of
          V4 ip \<Rightarrow> sanitize_loop {ip} ((\<lambda>_. 0)(ipv4_prefix_24 ip := 1)) contacts
        | V6 _ \<Rightarrow> sanitize_loop {} (\<lambda>_. 0) contacts))"

definition select_phase2_contacts ::
  "traversal_contact list \<Rightarrow> node_id \<Rightarrow> nat \<Rightarrow> traversal_contact list" where
  "select_phase2_contacts responded target phase2_fanout =
     take (min phase2_fanout K) (filter (passes_search_tolerance target) responded)"

definition is_open :: "traversal_candidate \<Rightarrow> bool" where
  "is_open c \<longleftrightarrow> cd_state c = PendingState \<or> cd_state c = Inflight"

definition is_responded :: "traversal_candidate \<Rightarrow> bool" where
  "is_responded c \<longleftrightarrow> cd_state c = Responded"

definition find_node_lookup_converged :: "traversal_candidate list \<Rightarrow> bool" where
  "find_node_lookup_converged candidates =
     (let closest_responded = take K (filter is_responded candidates) in
      if closest_responded = [] then False
      else if length closest_responded < K then False
      else \<not> list_ex (\<lambda>c. is_open c \<and> cd_distance c \<le> cd_distance (last closest_responded)) candidates)"

definition register_traversal_identity :: "traversal_contact \<Rightarrow> rpc_state \<Rightarrow> rpc_state" where
  "register_traversal_identity contact st =
     (let layer = (if tc_id contact \<noteq> nid_ZERO
            then register_peer_identity (tc_addr contact) (tc_id contact) (rpc_obfuscation st)
            else rpc_obfuscation st) in
      st\<lparr>rpc_obfuscation := register_peer_version (tc_addr contact) (tc_version contact) layer\<rparr>)"

definition compute_initial_jumpstart_emit_at :: "nat option \<Rightarrow> nat \<Rightarrow> nat \<Rightarrow> nat" where
  "compute_initial_jumpstart_emit_at last_lookup_response_at now jumpstart_idle_grace =
     (case last_lookup_response_at of
        None \<Rightarrow> now
      | Some last_at \<Rightarrow> max (last_at + jumpstart_idle_grace) now)"

subsection \<open>The lookup loop\<close>

text \<open>A spawned request: the contact asked, the packet and the time allowed for the answer.\<close>

record spawned_request =
  sq_contact :: traversal_contact
  sq_packet :: kad_packet
  sq_timeout :: nat

text \<open>\<open>ts_join_set\<close> holds the identifiers of the outstanding tasks, \<open>ts_spawned\<close> all requests so far.\<close>

record traversal_state =
  ts_candidates :: "traversal_candidate list"
  ts_seen :: "node_id set"
  ts_join_set :: "node_id list"
  ts_last_response :: "nat option"
  ts_rpc :: rpc_state
  ts_spawned :: "spawned_request list"

text \<open>
  What ends the wait of a round: the cancellation, the deadline, or the task at some position of
  the join set, which panicked or returned at some time what the contact it asked gave it.
\<close>

datatype join_event =
    WaitCancelled
  | WaitTimedOut
  | TaskPanicked nat
  | TaskFinished nat "node_id \<Rightarrow> net_error + kad_packet" nat

record round_env =
  rd_cancelled :: bool
  rd_now :: nat
  rd_others :: "rpc_state \<Rightarrow> rpc_state"
  rd_event :: join_event

text \<open>Why the lookup loop ended.\<close>

datatype lookup_end = Interrupted | NothingLeft | Converged | GoalDone

fun dedup_by_id :: "traversal_candidate list \<Rightarrow> traversal_candidate list" where
  "dedup_by_id [] = []"
| "dedup_by_id [c] = [c]"
| "dedup_by_id (c # d # cs) =
     (if tc_id (cd_contact d) = tc_id (cd_contact c) then dedup_by_id (c # cs)
      else c # dedup_by_id (d # cs))"

definition make_candidate_for :: "node_id \<Rightarrow> traversal_contact \<Rightarrow> traversal_candidate" where
  "make_candidate_for target c =
     \<lparr> cd_contact = c, cd_state = PendingState, cd_distance = distance target (tc_id c) \<rparr>"

definition initial_state :: "node_id \<Rightarrow> traversal_contact list \<Rightarrow> rpc_state \<Rightarrow> traversal_state" where
  "initial_state target initial_candidates rpc =
     (let candidates = dedup_by_id (sort_key cd_distance
            (map (make_candidate_for target) initial_candidates)) in
      \<lparr> ts_candidates = candidates, ts_seen = (\<lambda>c. tc_id (cd_contact c)) ` set candidates,
        ts_join_set = [], ts_last_response = None, ts_rpc = rpc, ts_spawned = [] \<rparr>)"

definition pending_closest :: "nat \<Rightarrow> traversal_candidate list \<Rightarrow> nat list" where
  "pending_closest to_launch candidates =
     map fst (take to_launch (filter (\<lambda>(_, c). cd_state c = PendingState) (enumerate 0 candidates)))"

definition launch_query :: "traversal_config \<Rightarrow> nat \<Rightarrow> nat \<Rightarrow> traversal_state \<Rightarrow> traversal_state" where
  "launch_query cfg remaining idx ts =
     (let c = ts_candidates ts ! idx; contact = cd_contact c in
      ts\<lparr>ts_candidates := (ts_candidates ts)[idx := c\<lparr>cd_state := Inflight\<rparr>],
         ts_rpc := register_traversal_identity contact (ts_rpc ts),
         ts_join_set := ts_join_set ts @ [tc_id contact],
         ts_spawned := ts_spawned ts @ [\<lparr> sq_contact = contact,
           sq_packet = Req \<lparr> rq_count = req_count_for (tg_search_kind cfg), rq_target = tg_target cfg,
             rq_recipient_id = tc_id contact \<rparr>,
           sq_timeout = min (tg_query_timeout cfg) remaining \<rparr>]\<rparr>)"

definition launch_queries :: "traversal_config \<Rightarrow> nat \<Rightarrow> traversal_state \<Rightarrow> traversal_state" where
  "launch_queries cfg remaining ts =
     (let inflight_count = count_if (\<lambda>c. cd_state c = Inflight) (ts_candidates ts) in
      fold (launch_query cfg remaining)
        (pending_closest (ALPHA - inflight_count) (ts_candidates ts)) ts)"

text \<open>The first candidate with an identifier, and setting its state.\<close>

definition candidate_with :: "node_id \<Rightarrow> traversal_candidate list \<Rightarrow> traversal_candidate option" where
  "candidate_with i candidates = find (\<lambda>c. tc_id (cd_contact c) = i) candidates"

fun set_candidate_state ::
  "node_id \<Rightarrow> candidate_state \<Rightarrow> traversal_candidate list \<Rightarrow> traversal_candidate list" where
  "set_candidate_state i s [] = []"
| "set_candidate_state i s (c # cs) =
     (if tc_id (cd_contact c) = i then c\<lparr>cd_state := s\<rparr> # cs else c # set_candidate_state i s cs)"

text \<open>
  \<open>partition_point\<close> and \<open>insert\<close>: behind the candidates that are closer. On a list sorted by
  distance, which the candidates are, this is the position a binary search finds.
\<close>

definition insert_candidate ::
  "traversal_candidate \<Rightarrow> traversal_candidate list \<Rightarrow> traversal_candidate list" where
  "insert_candidate c candidates =
     takeWhile (\<lambda>x. cd_distance x < cd_distance c) candidates @ c #
     dropWhile (\<lambda>x. cd_distance x < cd_distance c) candidates"

definition entry_contact :: "contact_entry \<Rightarrow> traversal_contact" where
  "entry_contact entry =
     \<lparr> tc_id = ce_node_id entry, tc_addr = (V4 (entry_ip entry), ce_udp_port entry),
       tc_version = ce_version entry \<rparr>"

fun absorb_contacts ::
  "node_id \<Rightarrow> contact_entry list \<Rightarrow> node_id set \<times> traversal_candidate list \<Rightarrow>
     node_id set \<times> traversal_candidate list" where
  "absorb_contacts target [] st = st"
| "absorb_contacts target (entry # entries) (seen, candidates) =
     (if ce_node_id entry \<in> seen then absorb_contacts target entries (seen, candidates)
      else if ce_ip entry = 0 \<or> ce_udp_port entry = 0 then absorb_contacts target entries (seen, candidates)
      else absorb_contacts target entries
        (insert (ce_node_id entry) seen,
         insert_candidate (make_candidate_for target (entry_contact entry)) candidates))"

text \<open>The result of a query; the flag is set when the round ends with \<open>continue\<close>.\<close>

definition apply_query_result ::
  "traversal_config \<Rightarrow> node_id \<Rightarrow> net_error + kad_packet \<Rightarrow> nat \<Rightarrow> traversal_state \<Rightarrow>
     bool \<times> traversal_state" where
  "apply_query_result cfg contact_id query_result now ts =
     (case query_result of
        Inr (Res res) \<Rightarrow>
          let ts = ts\<lparr>ts_last_response := Some now,
                ts_candidates := set_candidate_state contact_id Responded (ts_candidates ts)\<rparr>;
              responder_addr = (case candidate_with contact_id (ts_candidates ts) of
                None \<Rightarrow> (V4 (Ipv4 0 0 0 0), 0) | Some c \<Rightarrow> tc_addr (cd_contact c)) in
          (case sanitize_res_contacts (rs_contacts res) responder_addr
              (unat (req_count_for (tg_search_kind cfg))) of
             None \<Rightarrow> (True, ts)
           | Some sanitized \<Rightarrow>
               let (seen, candidates) = absorb_contacts (tg_target cfg) sanitized
                     (ts_seen ts, ts_candidates ts) in
               (False, ts\<lparr>ts_seen := seen, ts_candidates := candidates\<rparr>))
      | _ \<Rightarrow> (False, ts\<lparr>ts_candidates := set_candidate_state contact_id Failed (ts_candidates ts)\<rparr>))"

definition finish_check :: "traversal_config \<Rightarrow> traversal_candidate list \<Rightarrow> lookup_end option" where
  "finish_check cfg candidates =
     (if tg_search_kind cfg = FindNode \<and> find_node_lookup_converged candidates then Some Converged
      else
        let closest_goal_done = list_all (\<lambda>c. cd_state c = Responded \<or> cd_state c = Failed)
              (take (traversal_closest_limit (tg_search_kind cfg) (tg_phase2_fanout cfg)) candidates);
            any_inflight = list_ex (\<lambda>c. cd_state c = Inflight) candidates in
        if closest_goal_done \<and> \<not> any_inflight then Some GoalDone else None)"

text \<open>One round of the loop; \<open>None\<close> means that the loop goes on.\<close>

definition remove_nth :: "nat \<Rightarrow> 'a list \<Rightarrow> 'a list" where
  "remove_nth k xs = take k xs @ drop (Suc k) xs"

definition lookup_round ::
  "traversal_config \<Rightarrow> nat \<Rightarrow> round_env \<Rightarrow> traversal_state \<Rightarrow> lookup_end option \<times> traversal_state" where
  "lookup_round cfg deadline e ts =
     (if rd_cancelled e then (Some Interrupted, ts)
      else if rd_now e \<ge> deadline then (Some Interrupted, ts)
      else
        let ts = launch_queries cfg (deadline - rd_now e) ts in
        if ts_join_set ts = [] then (Some NothingLeft, ts)
        else
          let ts = ts\<lparr>ts_rpc := rd_others e (ts_rpc ts)\<rparr> in
          case rd_event e of
            WaitCancelled \<Rightarrow> (Some Interrupted, ts)
          | WaitTimedOut \<Rightarrow> (Some Interrupted, ts)
          | TaskPanicked n \<Rightarrow>
              let k = n mod length (ts_join_set ts) in
              (None, ts\<lparr>ts_join_set := remove_nth k (ts_join_set ts)\<rparr>)
          | TaskFinished n answer now \<Rightarrow>
              let k = n mod length (ts_join_set ts);
                  contact_id = ts_join_set ts ! k;
                  (skip, ts) = apply_query_result cfg contact_id (answer contact_id) now
                    (ts\<lparr>ts_join_set := remove_nth k (ts_join_set ts)\<rparr>) in
              (if skip then None else finish_check cfg (ts_candidates ts), ts))"

subsection \<open>The lookup loop ends\<close>

lemma finite_node_id: "finite (UNIV :: node_id set)"
proof (rule finite_imageD)
  have digits: "((a * 2 ^ 32 + b) * 2 ^ 32 + c) * 2 ^ 32 + d < (2 :: nat) ^ 128"
    if "a < 2 ^ 32" "b < 2 ^ 32" "c < 2 ^ 32" "d < 2 ^ 32" for a b c d
    using that by simp
  have "nid_nat x < 2 ^ 128" for x
    unfolding nid_nat_def by (rule digits) simp_all
  then have "range nid_nat \<subseteq> {..<2 ^ 128}" by auto
  then show "finite (range nid_nat)" by (rule finite_subset) simp
  show "inj nid_nat" by (simp add: inj_on_def)
qed

definition pending_of :: "traversal_candidate list \<Rightarrow> nat" where
  "pending_of cs = length (filter (\<lambda>c. cd_state c = PendingState) cs)"

definition lookup_work :: "traversal_state \<Rightarrow> nat" where
  "lookup_work ts = 2 * (card (- ts_seen ts) + pending_of (ts_candidates ts)) + length (ts_join_set ts)"

lemma pending_of_update:
  "i < length cs \<Longrightarrow> cd_state (cs ! i) = PendingState \<Longrightarrow>
     Suc (pending_of (cs[i := (cs ! i)\<lparr>cd_state := Inflight\<rparr>])) = pending_of cs"
  unfolding pending_of_def by (induction cs arbitrary: i) (auto split: nat.splits)

lemma launch_query_frame [simp]:
  "ts_seen (launch_query cfg r i ts) = ts_seen ts"
  "ts_last_response (launch_query cfg r i ts) = ts_last_response ts"
  "length (ts_join_set (launch_query cfg r i ts)) = Suc (length (ts_join_set ts))"
  "length (ts_candidates (launch_query cfg r i ts)) = length (ts_candidates ts)"
  by (simp_all add: launch_query_def Let_def)

lemma launch_query_candidates:
  "ts_candidates (launch_query cfg r i ts) =
     (ts_candidates ts)[i := (ts_candidates ts ! i)\<lparr>cd_state := Inflight\<rparr>]"
  by (simp add: launch_query_def Let_def)

text \<open>The positions of a round are distinct positions of pending candidates.\<close>

definition launchable :: "nat list \<Rightarrow> traversal_candidate list \<Rightarrow> bool" where
  "launchable is cs \<longleftrightarrow> distinct is \<and> (\<forall>i \<in> set is. i < length cs \<and> cd_state (cs ! i) = PendingState)"

lemma launchable_pending_closest: "launchable (pending_closest n cs) cs"
proof -
  let ?ps = "filter (\<lambda>(_, c). cd_state c = PendingState) (enumerate 0 cs)"
  have "distinct (map fst ?ps)" by (intro distinct_map_filter) simp
  then have "distinct (map fst (take n ?ps))" by (simp flip: take_map)
  moreover have "i < length cs \<and> cd_state (cs ! i) = PendingState" if "i \<in> fst ` set (take n ?ps)" for i
    using that set_take_subset [of n ?ps] by (fastforce simp: in_set_enumerate_eq)
  ultimately show ?thesis by (auto simp: launchable_def pending_closest_def)
qed

lemma launchable_step:
  "launchable (i # is) cs \<Longrightarrow> launchable is (cs[i := (cs ! i)\<lparr>cd_state := Inflight\<rparr>])"
  by (auto simp: launchable_def nth_list_update)

lemma launch_fold_work:
  "launchable is (ts_candidates ts) \<Longrightarrow>
     lookup_work (fold (launch_query cfg r) is ts) + length is = lookup_work ts"
proof (induction "is" arbitrary: ts)
  case (Cons i "is")
  let ?ts = "launch_query cfg r i ts"
  have "launchable is (ts_candidates ?ts)"
    using Cons.prems unfolding launch_query_candidates by (rule launchable_step)
  then have "lookup_work (fold (launch_query cfg r) is ?ts) + length is = lookup_work ?ts"
    by (rule Cons.IH)
  moreover have "Suc (pending_of (ts_candidates ?ts)) = pending_of (ts_candidates ts)"
    unfolding launch_query_candidates
    using Cons.prems by (intro pending_of_update) (auto simp: launchable_def)
  ultimately show ?case by (simp add: lookup_work_def)
qed simp

lemma launch_queries_work: "lookup_work (launch_queries cfg r ts) \<le> lookup_work ts"
  unfolding launch_queries_def Let_def
  using launch_fold_work [OF launchable_pending_closest] by (metis le_add1)

lemma pending_of_set_state:
  "s \<noteq> PendingState \<Longrightarrow> pending_of (set_candidate_state i s cs) \<le> pending_of cs"
  unfolding pending_of_def by (induction cs) auto

lemma pending_of_insert: "pending_of (insert_candidate c cs) = pending_of [c] + pending_of cs"
proof -
  let ?P = "\<lambda>x. cd_distance x < cd_distance c"
  have "pending_of cs = pending_of (takeWhile ?P cs) + pending_of (dropWhile ?P cs)"
    unfolding pending_of_def by (metis filter_append length_append takeWhile_dropWhile_id)
  then show ?thesis by (simp add: insert_candidate_def pending_of_def)
qed

lemma pending_of_make [simp]: "pending_of [make_candidate_for target c] = 1"
  by (simp add: pending_of_def make_candidate_for_def)

lemma absorb_contacts_work:
  "absorb_contacts target es (seen, cs) = (seen', cs') \<Longrightarrow>
     card (- seen') + pending_of cs' = card (- seen) + pending_of cs"
proof (induction es arbitrary: seen cs)
  case (Cons e es)
  have "card (- seen) = Suc (card (- insert (ce_node_id e) seen))" if "ce_node_id e \<notin> seen"
  proof -
    have "- seen = insert (ce_node_id e) (- insert (ce_node_id e) seen)" using that by auto
    then show ?thesis
      by (metis Compl_iff card_insert_disjoint finite_node_id insertI1 rev_finite_subset subset_UNIV)
  qed
  then show ?case
    using Cons by (auto simp: pending_of_insert split: if_splits)
qed simp

lemma apply_query_result_work:
  "apply_query_result cfg i res now ts = (skip, ts') \<Longrightarrow> lookup_work ts' \<le> lookup_work ts"
  using pending_of_set_state [of Responded i "ts_candidates ts"]
    pending_of_set_state [of Failed i "ts_candidates ts"]
  by (auto simp: apply_query_result_def Let_def lookup_work_def dest!: absorb_contacts_work
      split: sum.splits kad_packet.splits option.splits prod.splits)

lemma length_remove_nth: "xs \<noteq> [] \<Longrightarrow> length (remove_nth (n mod length xs) xs) < length xs"
proof -
  assume "xs \<noteq> []"
  then have "n mod length xs < length xs" by simp
  moreover have "length (remove_nth k xs) < length xs" if "k < length xs" for k
    using that by (simp add: remove_nth_def)
  ultimately show ?thesis by blast
qed

lemma lookup_round_work:
  assumes "lookup_round cfg deadline e ts = (None, ts')"
  shows "lookup_work ts' < lookup_work ts"
proof -
  let ?ts = "launch_queries cfg (deadline - rd_now e) ts"
  let ?us = "?ts\<lparr>ts_rpc := rd_others e (ts_rpc ?ts)\<rparr>"
  let ?vs = "\<lambda>n. ?us\<lparr>ts_join_set := remove_nth (n mod length (ts_join_set ?ts)) (ts_join_set ?ts)\<rparr>"
  have ne: "ts_join_set ?ts \<noteq> []" using assms by (auto simp: lookup_round_def Let_def split: if_splits)
  then have "lookup_work (?vs n) < lookup_work ?ts" for n
    by (simp add: lookup_work_def length_remove_nth)
  then have less: "lookup_work (?vs n) < lookup_work ts" for n
    by (rule order_less_le_trans) (rule launch_queries_work)
  show ?thesis
  proof (cases "rd_event e")
    case (TaskPanicked n)
    then have "ts' = ?vs n" using assms ne by (auto simp: lookup_round_def Let_def split: if_splits)
    then show ?thesis using less by simp
  next
    case (TaskFinished n answer now)
    let ?i = "ts_join_set ?ts ! (n mod length (ts_join_set ?ts))"
    obtain skip us where a: "apply_query_result cfg ?i (answer ?i) now (?vs n) = (skip, us)"
      by (cases "apply_query_result cfg ?i (answer ?i) now (?vs n)")
    then have "ts' = us"
      using assms ne TaskFinished by (simp add: lookup_round_def Let_def split: if_splits)
    then show ?thesis using apply_query_result_work [OF a] less [of n] by simp
  qed (use assms ne in \<open>auto simp: lookup_round_def Let_def split: if_splits\<close>)
qed

function lookup_loop ::
  "traversal_config \<Rightarrow> nat \<Rightarrow> (nat \<Rightarrow> round_env) \<Rightarrow> nat \<Rightarrow> traversal_state \<Rightarrow> lookup_end \<times> traversal_state" where
  "lookup_loop cfg deadline env i ts =
     (case lookup_round cfg deadline (env i) ts of
        (Some r, ts') \<Rightarrow> (r, ts')
      | (None, ts') \<Rightarrow> lookup_loop cfg deadline env (Suc i) ts')"
  by pat_completeness auto
termination
  by (relation "measure (\<lambda>(_, _, _, _, ts). lookup_work ts)")
    (auto simp: lookup_round_work dest: sym)

declare lookup_loop.simps [simp del]

subsection \<open>The search phase\<close>

text \<open>
  One iteration of the drain: the clock, and what the wait gives. The end of the list of events is
  the end of the time to wait.
\<close>

datatype drain_event =
    DrainCancelled
  | DrainReceived received_packet
  | DrainLagged
  | DrainClosed

record search_state =
  ss_queried_addrs :: "socket_addr set"
  ss_pending_contacts :: "traversal_contact list"
  ss_search_entries :: "search_item list"
  ss_streamed :: "search_item list"
  ss_next_emit_at :: nat
  ss_rpc :: rpc_state
  ss_sent :: "(nat \<times> traversal_contact \<times> bytes) list"

definition take_results :: "bool \<Rightarrow> search_res \<Rightarrow> search_state \<Rightarrow> search_state" where
  "take_results result_tx sr ss =
     (let items = map (\<lambda>entry. (se_entry_id entry, se_tags entry)) (sr_results sr) in
      if result_tx then ss\<lparr>ss_streamed := ss_streamed ss @ items\<rparr>
      else ss\<lparr>ss_search_entries := ss_search_entries ss @ items\<rparr>)"

fun collect_search_results_until ::
  "bool \<Rightarrow> node_id \<Rightarrow> nat \<Rightarrow> (nat \<times> drain_event) list \<Rightarrow> search_state \<Rightarrow> search_state" where
  "collect_search_results_until result_tx target receive_until [] ss = ss"
| "collect_search_results_until result_tx target receive_until ((now, ev) # evs) ss =
     (if now \<ge> receive_until then ss
      else case ev of
          DrainCancelled \<Rightarrow> ss
        | DrainClosed \<Rightarrow> ss
        | DrainLagged \<Rightarrow> collect_search_results_until result_tx target receive_until evs ss
        | DrainReceived rk \<Rightarrow>
            (case rk_packet rk of
               SearchRes sr \<Rightarrow>
                 collect_search_results_until result_tx target receive_until evs
                   (if rk_from rk \<notin> ss_queried_addrs ss then ss
                    else if sr_target sr \<noteq> target then ss
                    else take_results result_tx sr ss)
             | _ \<Rightarrow> collect_search_results_until result_tx target receive_until evs ss))"

text \<open>The packet of a search; \<open>None\<close> is the \<open>unreachable!\<close> of the other kinds.\<close>

fun search_packet :: "traversal_kind \<Rightarrow> node_id \<Rightarrow> kad_packet option" where
  "search_packet (KeywordSearch request) target = Some (SearchKeyReq request)"
| "search_packet (SourceSearch request) target = Some (SearchSourceReq request)"
| "search_packet (NotesSearch file_size) target = Some (SearchNotesReq \<lparr> sn_target = target, sn_size = file_size \<rparr>)"
| "search_packet FindNode target = None"
| "search_packet StoreLookup target = None"

text \<open>
  What the runtime decides in a round: the cancellation and the clock at its start, the drain, the
  clock after it, the send and the clock after the send, and what other tasks did to the manager.
\<close>

record search_env =
  sx_cancelled :: bool
  sx_now :: nat
  sx_drain :: "(nat \<times> drain_event) list"
  sx_now_drained :: nat
  sx_send :: send_env
  sx_now_sent :: nat
  sx_others :: "rpc_state \<Rightarrow> rpc_state"

datatype search_status = StillRunning | SearchDone | SearchPanicked

definition search_round ::
  "ext \<Rightarrow> md5_fun \<Rightarrow> traversal_config \<Rightarrow> nat \<Rightarrow> nat \<Rightarrow> search_env \<Rightarrow> search_state \<Rightarrow>
     search_status \<times> search_state" where
  "search_round B md5 cfg phase_deadline jumpstart_tick e ss =
     (if sx_cancelled e then (SearchDone, ss)
      else if sx_now e \<ge> phase_deadline then (SearchDone, ss)
      else
        let receive_until = (if ss_pending_contacts ss = [] then phase_deadline
              else min (ss_next_emit_at ss) phase_deadline);
            ss = collect_search_results_until (tg_result_tx cfg) (tg_target cfg) receive_until (sx_drain e) ss;
            ss = ss\<lparr>ss_rpc := sx_others e (ss_rpc ss)\<rparr> in
        if sx_now_drained e \<ge> phase_deadline then (SearchDone, ss)
        else case ss_pending_contacts ss of
            [] \<Rightarrow> (StillRunning, ss)
          | contact # rest \<Rightarrow>
              if sx_now_drained e < ss_next_emit_at ss then (StillRunning, ss)
              else
                let ss = ss\<lparr>ss_pending_contacts := rest,
                      ss_rpc := register_traversal_identity contact (ss_rpc ss)\<rparr> in
                case search_packet (tg_search_kind cfg) (tg_target cfg) of
                  None \<Rightarrow> (SearchPanicked, ss)
                | Some packet \<Rightarrow>
                    (case send_with_class B md5 (sx_send e) (tc_addr contact) packet (tg_work_class cfg)
                        (ss_rpc ss) of
                       None \<Rightarrow> (SearchPanicked, ss)
                     | Some (wire, rpc) \<Rightarrow>
                         (StillRunning, ss\<lparr>ss_rpc := rpc,
                            ss_queried_addrs := insert (tc_addr contact) (ss_queried_addrs ss),
                            ss_next_emit_at := sx_now_sent e + jumpstart_tick,
                            ss_sent := ss_sent ss @ [(sx_now_drained e, contact, wire)]\<rparr>)))"

text \<open>The loop over the rounds the runtime has given it so far.\<close>

fun search_loop ::
  "ext \<Rightarrow> md5_fun \<Rightarrow> traversal_config \<Rightarrow> nat \<Rightarrow> nat \<Rightarrow> search_env list \<Rightarrow> search_state \<Rightarrow>
     search_status \<times> search_state" where
  "search_loop B md5 cfg phase_deadline jumpstart_tick [] ss = (StillRunning, ss)"
| "search_loop B md5 cfg phase_deadline jumpstart_tick (e # es) ss =
     (case search_round B md5 cfg phase_deadline jumpstart_tick e ss of
        (StillRunning, ss) \<Rightarrow> search_loop B md5 cfg phase_deadline jumpstart_tick es ss
      | (status, ss) \<Rightarrow> (status, ss))"

text \<open>The clock readings at the start of the phase, and the cancellation.\<close>

record phase_env =
  ph_cancelled :: bool
  ph_now :: nat
  ph_now_deadline :: nat
  ph_now_emit :: nat
  ph_rounds :: "search_env list"

definition search_start :: "rpc_state \<Rightarrow> traversal_contact list \<Rightarrow> nat \<Rightarrow> search_state" where
  "search_start rpc send_to emit_at =
     \<lparr> ss_queried_addrs = {}, ss_pending_contacts = send_to, ss_search_entries = [], ss_streamed = [],
       ss_next_emit_at = emit_at, ss_rpc = rpc, ss_sent = [] \<rparr>"

definition run_search_phase ::
  "ext \<Rightarrow> md5_fun \<Rightarrow> traversal_config \<Rightarrow> phase_env \<Rightarrow> nat \<Rightarrow> nat option \<Rightarrow> traversal_contact list \<Rightarrow> rpc_state \<Rightarrow>
     search_status \<times> search_state" where
  "run_search_phase B md5 cfg e deadline last_lookup_response_at responded rpc =
     (if ph_cancelled e then (SearchDone, search_start rpc [] 0)
      else if ph_now e \<ge> deadline then (SearchDone, search_start rpc [] 0)
      else
        let qt = min (tg_query_timeout cfg) (deadline - ph_now e);
            phase_deadline = ph_now_deadline e + qt;
            send_to = select_phase2_contacts responded (tg_target cfg) (tg_phase2_fanout cfg);
            next_emit_at = compute_initial_jumpstart_emit_at last_lookup_response_at (ph_now_emit e)
              SEARCH_JUMPSTART_IDLE_GRACE in
        search_loop B md5 cfg phase_deadline SEARCH_JUMPSTART_TICK (ph_rounds e)
          (search_start rpc send_to next_emit_at))"

subsection \<open>The whole traversal\<close>

record traversal_env =
  te_now :: nat
  te_rounds :: "nat \<Rightarrow> round_env"
  te_phase2 :: phase_env

definition responded_contacts :: "traversal_candidate list \<Rightarrow> traversal_contact list" where
  "responded_contacts candidates = map cd_contact (filter is_responded candidates)"

definition run_lookup ::
  "traversal_config \<Rightarrow> traversal_env \<Rightarrow> traversal_contact list \<Rightarrow> rpc_state \<Rightarrow> lookup_end \<times> traversal_state" where
  "run_lookup cfg e initial_candidates rpc =
     lookup_loop cfg (te_now e + tg_timeout cfg) (te_rounds e) 0
       (initial_state (tg_target cfg) initial_candidates rpc)"

definition closest_of :: "traversal_config \<Rightarrow> traversal_state \<Rightarrow> traversal_contact list" where
  "closest_of cfg ts =
     take (traversal_closest_limit (tg_search_kind cfg) (tg_phase2_fanout cfg))
       (responded_contacts (ts_candidates ts))"

text \<open>The result and the search state, from which the results streamed and the packets sent are read.\<close>

definition run_traversal ::
  "ext \<Rightarrow> md5_fun \<Rightarrow> traversal_config \<Rightarrow> traversal_env \<Rightarrow> traversal_contact list \<Rightarrow> rpc_state \<Rightarrow>
     search_status \<times> traversal_result \<times> search_state" where
  "run_traversal B md5 cfg e initial_candidates rpc =
     (let (_, ts) = run_lookup cfg e initial_candidates rpc;
          responded = responded_contacts (ts_candidates ts);
          (status, ss) =
            (if tg_search_kind cfg = FindNode \<or> tg_search_kind cfg = StoreLookup
             then (SearchDone, search_start (ts_rpc ts) [] 0)
             else run_search_phase B md5 cfg (te_phase2 e) (te_now e + tg_timeout cfg)
               (ts_last_response ts) responded (ts_rpc ts)) in
      (status, \<lparr> tr_closest = closest_of cfg ts, tr_search_entries = ss_search_entries ss \<rparr>, ss))"

end
