(* ===== verification/Kad_Dht_Ops.thy ===== *)
theory Kad_Dht_Ops
  imports Kad_Traversal Kad_Unsolicited
begin

text \<open>
  What the DHT node offers on top of a traversal, from \<open>crates/overlord-kad-dht/src\<close>: node lookups
  (\<open>node/search.rs\<close>), the three result streams of a search (\<open>search.rs\<close>, with the result types of
  \<open>types.rs\<close>) and the three kinds of publishes (\<open>publish.rs\<close>).

  \<^item> A stream is the list of results its consumer receives; \<open>sent_ok k\<close> says whether the consumer is
    still there for the \<open>k\<close>-th one. A cancellation ends the list of raw results.
  \<^item> The tasks of a publish finish in the order \<open>pb_pick\<close> chooses, each with the result
    \<open>pb_answer\<close> gives for its contact, or none if it panicked.
\<close>

subsection \<open>Trimming\<close>

text \<open>\<open>str::trim\<close>: the encodings of the characters with the Unicode property \<open>White_Space\<close>.\<close>

definition white_space :: "bytes list" where
  "white_space = map (\<lambda>b. [b]) [0x09, 0x0A, 0x0B, 0x0C, 0x0D, 0x20] @
     [[0xC2, 0x85], [0xC2, 0xA0], [0xE1, 0x9A, 0x80]] @
     map (\<lambda>b. [0xE2, 0x80, b])
       [0x80, 0x81, 0x82, 0x83, 0x84, 0x85, 0x86, 0x87, 0x88, 0x89, 0x8A, 0xA8, 0xA9, 0xAF] @
     [[0xE2, 0x81, 0x9F], [0xE3, 0x80, 0x80]]"

lemma white_space_nonempty: "w \<in> set white_space \<Longrightarrow> w \<noteq> []"
  by (auto simp: white_space_def)

function trim_start :: "rstring \<Rightarrow> rstring" where
  "trim_start s =
     (case find (\<lambda>w. take (length w) s = w) white_space of
        None \<Rightarrow> s
      | Some w \<Rightarrow> trim_start (drop (length w) s))"
  by pat_completeness auto
termination
proof (relation "measure length")
  fix s w
  assume "find (\<lambda>w. take (length w) s = w) white_space = Some w"
  then have "take (length w) s = w" "w \<noteq> []"
    using white_space_nonempty by (auto simp: find_Some_iff)
  then show "(drop (length w) s, s) \<in> measure length"
    by (metis drop_eq_Nil diff_less in_measure length_drop length_greater_0_conv take_eq_Nil)
qed simp

declare trim_start.simps [simp del]

function trim_end :: "rstring \<Rightarrow> rstring" where
  "trim_end s =
     (case find (\<lambda>w. length w \<le> length s \<and> drop (length s - length w) s = w) white_space of
        None \<Rightarrow> s
      | Some w \<Rightarrow> trim_end (take (length s - length w) s))"
  by pat_completeness auto
termination
proof (relation "measure length")
  fix s w
  assume "find (\<lambda>w. length w \<le> length s \<and> drop (length s - length w) s = w) white_space = Some w"
  then have "length w \<le> length s" "w \<noteq> []"
    using white_space_nonempty by (auto simp: find_Some_iff)
  then show "(take (length s - length w) s, s) \<in> measure length" by (cases w) auto
qed simp

declare trim_end.simps [simp del]

definition str_trim :: "rstring \<Rightarrow> rstring" where
  "str_trim s = trim_end (trim_start s)"

subsection \<open>Search results\<close>

definition tn_DESCRIPTION :: u8 where "tn_DESCRIPTION = 0x0B"
definition tn_ENCRYPTION :: u8 where "tn_ENCRYPTION = 0xF3"
definition tn_FILERATING :: u8 where "tn_FILERATING = 0xF7"

record search_result =
  res_hash :: ed2k_hash
  res_names :: "rstring list"
  res_size :: "u64 option"
  res_source_count :: "u32 option"
  res_tags :: "tag list"

text \<open>The loop over the tags: names, size, low and high half of the size, source count.\<close>

record result_acc =
  ra_names :: "rstring list"
  ra_size :: "u64 option"
  ra_size_low :: "u32 option"
  ra_size_high :: "u32 option"
  ra_source_count :: "u32 option"

definition result_tag_step :: "result_acc \<Rightarrow> tag \<Rightarrow> result_acc" where
  "result_tag_step acc t =
     (case tg_name t of
        Long _ \<Rightarrow> acc
      | Short n \<Rightarrow>
          if n = tn_FILENAME then
            (case tg_value t of String s \<Rightarrow> acc\<lparr>ra_names := ra_names acc @ [s]\<rparr> | _ \<Rightarrow> acc)
          else if n = tn_FILESIZE then
            (case tg_value t of
               UInt v \<Rightarrow> acc\<lparr>ra_size := Some v\<rparr>
             | U64 v \<Rightarrow> acc\<lparr>ra_size := Some v\<rparr>
             | U32 v \<Rightarrow> acc\<lparr>ra_size_low := Some v\<rparr>
             | U16 v \<Rightarrow> acc\<lparr>ra_size_low := Some (ucast v)\<rparr>
             | U8 v \<Rightarrow> acc\<lparr>ra_size_low := Some (ucast v)\<rparr>
             | _ \<Rightarrow> acc)
          else if n = tn_FILESIZE_HI then
            (case tg_value t of
               UInt v \<Rightarrow> acc\<lparr>ra_size_high := Some (ucast v)\<rparr>
             | U32 v \<Rightarrow> acc\<lparr>ra_size_high := Some v\<rparr>
             | U16 v \<Rightarrow> acc\<lparr>ra_size_high := Some (ucast v)\<rparr>
             | U8 v \<Rightarrow> acc\<lparr>ra_size_high := Some (ucast v)\<rparr>
             | _ \<Rightarrow> acc)
          else if n = tn_SOURCES then
            (case tg_value t of
               UInt v \<Rightarrow> acc\<lparr>ra_source_count := Some (ucast v)\<rparr>
             | U32 v \<Rightarrow> acc\<lparr>ra_source_count := Some v\<rparr>
             | U16 v \<Rightarrow> acc\<lparr>ra_source_count := Some (ucast v)\<rparr>
             | U8 v \<Rightarrow> acc\<lparr>ra_source_count := Some (ucast v)\<rparr>
             | _ \<Rightarrow> acc)
          else acc)"

definition search_result_from_tags :: "ed2k_hash \<Rightarrow> tag list \<Rightarrow> search_result" where
  "search_result_from_tags h tags =
     (let acc = foldl result_tag_step \<lparr> ra_names = [], ra_size = None, ra_size_low = None,
            ra_size_high = None, ra_source_count = None \<rparr> tags;
          sz = (case (ra_size acc, ra_size_low acc) of
              (None, Some lo) \<Rightarrow>
                let hi = (case ra_size_high acc of None \<Rightarrow> 0 | Some hi \<Rightarrow> hi) in
                Some (push_bit 32 (ucast hi) OR ucast lo)
            | (s, _) \<Rightarrow> s) in
      \<lparr> res_hash = h, res_names = ra_names acc, res_size = sz, res_source_count = ra_source_count acc,
        res_tags = tags \<rparr>)"

record source_result_rec =
  srr_file_hash :: ed2k_hash
  srr_source_id :: ed2k_hash
  srr_ip :: ipv4
  srr_tcp_port :: u16
  srr_udp_port :: u16
  srr_obfuscation_options :: "u8 option"

text \<open>\<open>Ipv4Addr::from(v.to_be_bytes())\<close>.\<close>

definition ipv4_of_u32 :: "u32 \<Rightarrow> ipv4" where
  "ipv4_of_u32 v = Ipv4 (ucast (drop_bit 24 v)) (ucast (drop_bit 16 v)) (ucast (drop_bit 8 v)) (ucast v)"

record source_acc_rec =
  sa_ip :: "ipv4 option"
  sa_tcp_port :: u16
  sa_udp_port :: u16
  sa_options :: "u8 option"

definition source_read_step :: "source_acc_rec \<Rightarrow> tag \<Rightarrow> source_acc_rec" where
  "source_read_step acc t =
     (case tg_name t of
        Long _ \<Rightarrow> acc
      | Short n \<Rightarrow>
          if n = tn_SOURCEIP then
            (case tg_value t of
               UInt v \<Rightarrow> if v \<le> 0xFFFFFFFF then acc\<lparr>sa_ip := Some (ipv4_of_u32 (ucast v))\<rparr> else acc
             | U32 v \<Rightarrow> acc\<lparr>sa_ip := Some (ipv4_of_u32 v)\<rparr>
             | _ \<Rightarrow> acc)
          else if n = tn_SOURCEPORT then
            (case tg_value t of
               UInt v \<Rightarrow> acc\<lparr>sa_tcp_port := ucast v\<rparr>
             | U16 v \<Rightarrow> acc\<lparr>sa_tcp_port := v\<rparr>
             | U32 v \<Rightarrow> acc\<lparr>sa_tcp_port := ucast v\<rparr>
             | U8 v \<Rightarrow> acc\<lparr>sa_tcp_port := ucast v\<rparr>
             | _ \<Rightarrow> acc)
          else if n = tn_SOURCEUPORT then
            (case tg_value t of
               UInt v \<Rightarrow> acc\<lparr>sa_udp_port := ucast v\<rparr>
             | U16 v \<Rightarrow> acc\<lparr>sa_udp_port := v\<rparr>
             | U32 v \<Rightarrow> acc\<lparr>sa_udp_port := ucast v\<rparr>
             | U8 v \<Rightarrow> acc\<lparr>sa_udp_port := ucast v\<rparr>
             | _ \<Rightarrow> acc)
          else if n = tn_ENCRYPTION then
            (case tg_value t of
               UInt v \<Rightarrow> if v \<le> 0xFF then acc\<lparr>sa_options := Some (ucast v)\<rparr> else acc
             | U32 v \<Rightarrow> if v \<le> 0xFF then acc\<lparr>sa_options := Some (ucast v)\<rparr> else acc
             | U16 v \<Rightarrow> if v \<le> 0xFF then acc\<lparr>sa_options := Some (ucast v)\<rparr> else acc
             | U8 v \<Rightarrow> acc\<lparr>sa_options := Some v\<rparr>
             | _ \<Rightarrow> acc)
          else acc)"

definition source_result_from_tags ::
  "ed2k_hash \<Rightarrow> ed2k_hash \<Rightarrow> tag list \<Rightarrow> source_result_rec option" where
  "source_result_from_tags file_hash source_id tags =
     (let acc = foldl source_read_step
            \<lparr> sa_ip = None, sa_tcp_port = 0, sa_udp_port = 0, sa_options = None \<rparr> tags in
      case sa_ip acc of
        None \<Rightarrow> None
      | Some ip \<Rightarrow>
          if sa_tcp_port acc = 0 then None
          else Some \<lparr> srr_file_hash = file_hash, srr_source_id = source_id, srr_ip = ip,
            srr_tcp_port = sa_tcp_port acc,
            srr_udp_port = (if sa_udp_port acc = 0 then sa_tcp_port acc else sa_udp_port acc),
            srr_obfuscation_options = sa_options acc \<rparr>)"

definition map_source_search_result ::
  "ed2k_hash \<Rightarrow> ed2k_hash \<Rightarrow> tag list \<Rightarrow> source_result_rec option" where
  "map_source_search_result requested_file_hash source_id tags =
     source_result_from_tags requested_file_hash source_id tags"

record note_result =
  nr_file_hash :: ed2k_hash
  nr_source_id :: ed2k_hash
  nr_rating :: "u8 option"
  nr_comment :: "rstring option"
  nr_source_tags :: "tag list"

definition note_read_step :: "u8 option \<times> rstring option \<Rightarrow> tag \<Rightarrow> u8 option \<times> rstring option" where
  "note_read_step acc t =
     (case tg_name t of
        Long _ \<Rightarrow> acc
      | Short n \<Rightarrow>
          if n = tn_FILERATING then
            (case tg_value t of
               UInt v \<Rightarrow> (Some (ucast v), snd acc)
             | U8 v \<Rightarrow> (Some v, snd acc)
             | U32 v \<Rightarrow> (Some (ucast v), snd acc)
             | U16 v \<Rightarrow> (Some (ucast v), snd acc)
             | _ \<Rightarrow> acc)
          else if n = tn_DESCRIPTION then
            (case tg_value t of String s \<Rightarrow> (fst acc, Some s) | _ \<Rightarrow> acc)
          else acc)"

definition note_result_from_tags :: "ed2k_hash \<Rightarrow> ed2k_hash \<Rightarrow> tag list \<Rightarrow> note_result option" where
  "note_result_from_tags file_hash source_id tags =
     (let (rating, comment) = foldl note_read_step (None, None) tags;
          comment = (case comment of
              None \<Rightarrow> None
            | Some text \<Rightarrow> let trimmed = str_trim text in if trimmed = [] then None else Some trimmed) in
      if rating = None \<and> comment = None then None
      else Some \<lparr> nr_file_hash = file_hash, nr_source_id = source_id, nr_rating = rating,
        nr_comment = comment, nr_source_tags = tags \<rparr>)"

subsection \<open>Result streams\<close>

definition is_acceptable_keyword_result :: "search_result \<Rightarrow> bool" where
  "is_acceptable_keyword_result result \<longleftrightarrow> res_names result \<noteq> [] \<and> res_size result \<noteq> None"

text \<open>The loop of \<open>search_keywords_by_request\<close>, with the hashes seen so far.\<close>

fun keyword_stream ::
  "nat \<Rightarrow> (nat \<Rightarrow> bool) \<Rightarrow> ed2k_hash set \<Rightarrow> search_item list \<Rightarrow> search_result list" where
  "keyword_stream result_cap sent_ok seen [] = []"
| "keyword_stream result_cap sent_ok seen ((h, tags) # items) =
     (if card seen \<ge> result_cap then []
      else
        let result = search_result_from_tags h tags in
        if res_names result = [] then keyword_stream result_cap sent_ok seen items
        else if res_size result = None then keyword_stream result_cap sent_ok seen items
        else if \<not> is_acceptable_keyword_result result then keyword_stream result_cap sent_ok seen items
        else if res_hash result \<in> seen then keyword_stream result_cap sent_ok seen items
        else if \<not> sent_ok (card seen) then []
        else result # keyword_stream result_cap sent_ok (insert (res_hash result) seen) items)"

text \<open>The loop of \<open>search_sources_by_request\<close>, with the endpoints seen so far.\<close>

fun source_stream ::
  "ed2k_hash \<Rightarrow> nat \<Rightarrow> (nat \<Rightarrow> bool) \<Rightarrow> (ipv4 \<times> u16 \<times> u16) set \<Rightarrow> search_item list \<Rightarrow> source_result_rec list" where
  "source_stream requested result_cap sent_ok seen [] = []"
| "source_stream requested result_cap sent_ok seen ((source_id, tags) # items) =
     (if card seen \<ge> result_cap then []
      else case map_source_search_result requested source_id tags of
          None \<Rightarrow> source_stream requested result_cap sent_ok seen items
        | Some source \<Rightarrow>
            let source_key = (srr_ip source, srr_tcp_port source, srr_udp_port source) in
            if source_key \<in> seen then source_stream requested result_cap sent_ok seen items
            else if \<not> sent_ok (card seen) then []
            else source # source_stream requested result_cap sent_ok (insert source_key seen) items)"

text \<open>The loop of \<open>search_notes\<close>, with the sources seen so far.\<close>

fun note_stream ::
  "ed2k_hash \<Rightarrow> nat \<Rightarrow> (nat \<Rightarrow> bool) \<Rightarrow> ed2k_hash set \<Rightarrow> search_item list \<Rightarrow> note_result list" where
  "note_stream file_hash result_cap sent_ok seen [] = []"
| "note_stream file_hash result_cap sent_ok seen ((source_id, tags) # items) =
     (if card seen \<ge> result_cap then []
      else case note_result_from_tags file_hash source_id tags of
          None \<Rightarrow> note_stream file_hash result_cap sent_ok seen items
        | Some note \<Rightarrow>
            if nr_source_id note \<in> seen then note_stream file_hash result_cap sent_ok seen items
            else if \<not> sent_ok (card seen) then []
            else note # note_stream file_hash result_cap sent_ok (insert (nr_source_id note) seen) items)"

definition QUERY_TIMEOUT :: nat where "QUERY_TIMEOUT = 10 * 1000000000"
definition SEARCH_TIMEOUT :: nat where "SEARCH_TIMEOUT = 45 * 1000000000"
definition PUBLISH_TIMEOUT :: nat where "PUBLISH_TIMEOUT = 140 * 1000000000"
definition PUBLISH_RESPONSE_TIMEOUT :: nat where "PUBLISH_RESPONSE_TIMEOUT = 5 * 1000000000"

definition search_config :: "node_id \<Rightarrow> traversal_kind \<Rightarrow> nat \<Rightarrow> work_class \<Rightarrow> traversal_config" where
  "search_config target kind phase2_fanout work_class =
     \<lparr> tg_target = target, tg_search_kind = kind, tg_timeout = SEARCH_TIMEOUT,
       tg_query_timeout = QUERY_TIMEOUT, tg_phase2_fanout = phase2_fanout, tg_result_tx = True,
       tg_work_class = work_class \<rparr>"

text \<open>The raw results a search hands to its stream: those of the traversal, up to a cancellation.\<close>

definition raw_results ::
  "ext \<Rightarrow> md5_fun \<Rightarrow> traversal_config \<Rightarrow> traversal_env \<Rightarrow> nat \<Rightarrow> traversal_contact list \<Rightarrow> rpc_state \<Rightarrow> search_item list" where
  "raw_results B md5 cfg e until_cancel initial rpc =
     take until_cancel (ss_streamed (snd (snd (run_traversal B md5 cfg e initial rpc))))"

definition search_keywords_by_request ::
  "ext \<Rightarrow> md5_fun \<Rightarrow> traversal_env \<Rightarrow> nat \<Rightarrow> (nat \<Rightarrow> bool) \<Rightarrow> traversal_contact list \<Rightarrow> search_key_req \<Rightarrow> nat \<Rightarrow> nat \<Rightarrow>
     work_class \<Rightarrow> rpc_state \<Rightarrow> search_result list" where
  "search_keywords_by_request B md5 e until_cancel sent_ok initial request result_cap phase2_fanout work_class rpc =
     keyword_stream result_cap sent_ok {}
       (raw_results B md5 (search_config (sk_target request) (KeywordSearch request) phase2_fanout work_class)
         e until_cancel initial rpc)"

definition search_keywords ::
  "ext \<Rightarrow> md5_fun \<Rightarrow> traversal_env \<Rightarrow> nat \<Rightarrow> (nat \<Rightarrow> bool) \<Rightarrow> traversal_contact list \<Rightarrow> node_id \<Rightarrow> nat \<Rightarrow> nat \<Rightarrow>
     work_class \<Rightarrow> rpc_state \<Rightarrow> search_result list" where
  "search_keywords B md5 e until_cancel sent_ok initial target result_cap phase2_fanout work_class rpc =
     search_keywords_by_request B md5 e until_cancel sent_ok initial
       \<lparr> sk_target = target, sk_start_position = 0, sk_restrictive_payload = [] \<rparr>
       result_cap phase2_fanout work_class rpc"

definition search_sources_by_request ::
  "ext \<Rightarrow> md5_fun \<Rightarrow> traversal_env \<Rightarrow> nat \<Rightarrow> (nat \<Rightarrow> bool) \<Rightarrow> traversal_contact list \<Rightarrow> search_source_req \<Rightarrow> nat \<Rightarrow> nat \<Rightarrow>
     work_class \<Rightarrow> rpc_state \<Rightarrow> source_result_rec list" where
  "search_sources_by_request B md5 e until_cancel sent_ok initial request result_cap phase2_fanout work_class rpc =
     source_stream (Ed2kHash (to_be_bytes (ss_target request))) result_cap sent_ok {}
       (raw_results B md5 (search_config (ss_target request) (SourceSearch request) phase2_fanout work_class)
         e until_cancel initial rpc)"

definition search_notes ::
  "ext \<Rightarrow> md5_fun \<Rightarrow> traversal_env \<Rightarrow> nat \<Rightarrow> (nat \<Rightarrow> bool) \<Rightarrow> traversal_contact list \<Rightarrow> ed2k_hash \<Rightarrow> u64 \<Rightarrow> nat \<Rightarrow> nat \<Rightarrow>
     work_class \<Rightarrow> rpc_state \<Rightarrow> note_result list" where
  "search_notes B md5 e until_cancel sent_ok initial file_hash file_size result_cap phase2_fanout work_class rpc =
     note_stream file_hash result_cap sent_ok {}
       (raw_results B md5 (search_config (from_be_bytes (ed2k_array file_hash)) (NotesSearch file_size)
         phase2_fanout work_class) e until_cancel initial rpc)"

subsection \<open>Lookups\<close>

definition contact_of_routing :: "contact \<Rightarrow> traversal_contact" where
  "contact_of_routing c = \<lparr> tc_id = c_id c, tc_addr = (V4 (c_ip c), c_udp_port c), tc_version = c_kad_version c \<rparr>"

definition get_initial :: "node_id \<Rightarrow> routing_table \<Rightarrow> traversal_contact list" where
  "get_initial target rt = map contact_of_routing (get_closest target K rt)"

text \<open>\<open>try_lock\<close>: no contacts while another task holds the table.\<close>

definition closest_search_contacts :: "bool \<Rightarrow> node_id \<Rightarrow> routing_table \<Rightarrow> traversal_contact list" where
  "closest_search_contacts locked target rt = (if locked then [] else get_initial target rt)"

text \<open>Adding the contacts found, with \<open>None\<close> for a table that panics.\<close>

fun add_found ::
  "nat \<Rightarrow> traversal_contact list \<Rightarrow> routing_table \<times> rpc_state \<Rightarrow> (routing_table \<times> rpc_state) option" where
  "add_found now [] st = Some st"
| "add_found now (contact # contacts) (rt, rpc) =
     (case fst (tc_addr contact) of
        V6 _ \<Rightarrow> add_found now contacts (rt, rpc)
      | V4 ip \<Rightarrow>
          let port = snd (tc_addr contact);
              c = contact_new (tc_id contact) ip port port (tc_version contact) now;
              rpc = rpc\<lparr>rpc_obfuscation :=
                register_peer_identity (addr_from_contact c) (c_id c) (rpc_obfuscation rpc)\<rparr> in
          case add_contact c rt of
            None \<Rightarrow> None
          | Some (_, rt) \<Rightarrow> add_found now contacts (rt, rpc))"

definition lookup_config :: "node_id \<Rightarrow> nat \<Rightarrow> work_class \<Rightarrow> traversal_config" where
  "lookup_config target phase2_fanout work_class =
     \<lparr> tg_target = target, tg_search_kind = FindNode, tg_timeout = 45 * 1000000000,
       tg_query_timeout = 10 * 1000000000, tg_phase2_fanout = phase2_fanout, tg_result_tx = False,
       tg_work_class = work_class \<rparr>"

text \<open>
  \<open>others\<close> is what other tasks did to the table and the RPC state since the lookup left them.
\<close>

definition lookup_nodes_with_class ::
  "nat \<Rightarrow> nat \<Rightarrow> traversal_env \<Rightarrow> (routing_table \<times> rpc_state \<Rightarrow> routing_table \<times> rpc_state) \<Rightarrow> node_id \<Rightarrow> work_class \<Rightarrow>
     routing_table \<times> rpc_state \<Rightarrow> (traversal_contact list \<times> routing_table \<times> rpc_state) option" where
  "lookup_nodes_with_class phase2_fanout now e others target work_class st =
     (let cfg = lookup_config target phase2_fanout work_class;
          (_, ts) = run_lookup cfg e (get_initial target (fst st)) (snd st);
          closest = closest_of cfg ts in
      map_option (Pair closest) (add_found now closest (others (fst st, ts_rpc ts))))"

subsection \<open>Publishes\<close>

definition KAD_VERSION_AICH_KEYWORD_PUBLISH :: u8 where "KAD_VERSION_AICH_KEYWORD_PUBLISH = 9"

record publish_stats =
  pa_closest_contacts_considered :: u32
  pa_attempted_contacts :: u32
  pa_acked_contacts :: u32
  pa_timed_out_contacts :: u32

definition failed_contacts :: "publish_stats \<Rightarrow> u32" where
  "failed_contacts s = sat_sub (pa_attempted_contacts s) (pa_acked_contacts s)"

definition publish_distance_high32 :: "node_id \<Rightarrow> u32" where
  "publish_distance_high32 d =
     u32_from_le_bytes (nid_bytes d ! 0) (nid_bytes d ! 1) (nid_bytes d ! 2) (nid_bytes d ! 3)"

definition publish_target_is_within_tolerance :: "node_id \<Rightarrow> traversal_contact \<Rightarrow> bool" where
  "publish_target_is_within_tolerance target contact =
     (case fst (tc_addr contact) of
        V4 ip \<Rightarrow> if ip_is_private ip \<or> ip_is_loopback ip \<or> ip_is_link_local ip then True
          else publish_distance_high32 (distance target (tc_id contact)) \<le> SEARCHTOLERANCE
      | V6 _ \<Rightarrow> False)"

definition select_publish_contacts ::
  "node_id \<Rightarrow> traversal_contact list \<Rightarrow> nat \<Rightarrow> traversal_contact list" where
  "select_publish_contacts target contacts publish_contact_fanout =
     take (max publish_contact_fanout 1) (filter (publish_target_is_within_tolerance target) contacts)"

definition register_publish_contact :: "traversal_contact \<Rightarrow> rpc_state \<Rightarrow> rpc_state" where
  "register_publish_contact contact st =
     (let layer = (if tc_id contact \<noteq> nid_ZERO
            then register_peer_identity (tc_addr contact) (tc_id contact) (rpc_obfuscation st)
            else rpc_obfuscation st) in
      st\<lparr>rpc_obfuscation := register_peer_version (tc_addr contact) (tc_version contact) layer\<rparr>)"

record publish_env =
  pb_traversal :: traversal_env
  pb_pick :: "nat \<Rightarrow> nat"
  pb_answer :: "traversal_contact \<Rightarrow> (net_error + kad_packet) option"

text \<open>\<open>join_next\<close> until the set is empty: the tasks in the order in which they finish.\<close>

function join_order :: "(nat \<Rightarrow> nat) \<Rightarrow> nat \<Rightarrow> 'a list \<Rightarrow> 'a list" where
  "join_order pick k xs =
     (if xs = [] then []
      else let n = pick k mod length xs in xs ! n # join_order pick (Suc k) (remove_nth n xs))"
  by pat_completeness auto
termination
  by (relation "measure (\<lambda>(_, _, xs). length xs)") (auto simp: length_remove_nth)

declare join_order.simps [simp del]

text \<open>One request per contact, and the results of the tasks that did not panic.\<close>

definition execute_publish_fanout ::
  "publish_env \<Rightarrow> (traversal_contact \<Rightarrow> kad_packet) \<Rightarrow> traversal_contact list \<Rightarrow>
     spawned_request list \<times> (net_error + kad_packet) list" where
  "execute_publish_fanout e packet_for contacts =
     (map (\<lambda>c. \<lparr> sq_contact = c, sq_packet = packet_for c, sq_timeout = PUBLISH_RESPONSE_TIMEOUT \<rparr>) contacts,
      List.map_filter (pb_answer e) (join_order (pb_pick e) 0 contacts))"

fun count_timeout :: "net_error \<Rightarrow> publish_stats \<Rightarrow> publish_stats" where
  "count_timeout (Timeout _ _) s = s\<lparr>pa_timed_out_contacts := pa_timed_out_contacts s + 1\<rparr>"
| "count_timeout _ s = s"

text \<open>Keyword and source publishes count every answer, notes publishes only publish responses.\<close>

fun tally_any :: "net_error + kad_packet \<Rightarrow> publish_stats \<Rightarrow> publish_stats" where
  "tally_any (Inr _) s = s\<lparr>pa_acked_contacts := pa_acked_contacts s + 1\<rparr>"
| "tally_any (Inl e) s = count_timeout e s"

definition tally_notes :: "net_error + kad_packet \<Rightarrow> publish_stats \<Rightarrow> publish_stats" where
  "tally_notes r s =
     (case r of
        Inr (PublishRes _) \<Rightarrow> s\<lparr>pa_acked_contacts := pa_acked_contacts s + 1\<rparr>
      | Inr _ \<Rightarrow> s
      | Inl e \<Rightarrow> count_timeout e s)"

datatype dht_error =
    DhtNet net_error
  | NoBootstrapNodes
  | BootstrapFailed
  | SearchTimedOut
  | PublishFailed
  | DhtRouting routing_error
  | DhtIo
  | NodesDatParse
  | SemaphoreClosed
  | UnexpectedPacket

definition store_config_for :: "node_id \<Rightarrow> nat \<Rightarrow> work_class \<Rightarrow> traversal_config" where
  "store_config_for target publish_contact_fanout work_class =
     \<lparr> tg_target = target, tg_search_kind = StoreLookup, tg_timeout = PUBLISH_TIMEOUT,
       tg_query_timeout = QUERY_TIMEOUT, tg_phase2_fanout = max publish_contact_fanout K,
       tg_result_tx = False, tg_work_class = work_class \<rparr>"

text \<open>The part the three publishes share: the lookup, the selection, the registration, the fanout.\<close>

definition publish_round ::
  "publish_env \<Rightarrow> (net_error + kad_packet \<Rightarrow> publish_stats \<Rightarrow> publish_stats) \<Rightarrow> node_id \<Rightarrow>
     (traversal_contact \<Rightarrow> kad_packet) \<Rightarrow> nat \<Rightarrow> work_class \<Rightarrow> routing_table \<Rightarrow> rpc_state \<Rightarrow>
     (dht_error + publish_stats) \<times> spawned_request list \<times> rpc_state" where
  "publish_round e tally target packet_for publish_contact_fanout work_class rt rpc =
     (let cfg = store_config_for target publish_contact_fanout work_class;
          (_, ts) = run_lookup cfg (pb_traversal e) (get_initial target rt) rpc;
          closest = closest_of cfg ts in
      if closest = [] then (Inl PublishFailed, [], ts_rpc ts)
      else
        let publish_contacts = select_publish_contacts target closest publish_contact_fanout;
            stats = \<lparr> pa_closest_contacts_considered = of_nat (length closest),
              pa_attempted_contacts = of_nat (length publish_contacts), pa_acked_contacts = 0,
              pa_timed_out_contacts = 0 \<rparr>;
            rpc = fold register_publish_contact publish_contacts (ts_rpc ts);
            (requests, results) = execute_publish_fanout e packet_for publish_contacts in
        (Inr (fold tally results stats), requests, rpc))"

definition build_keyword_publish_packet ::
  "node_id \<Rightarrow> ed2k_hash \<Rightarrow> tag list \<Rightarrow> bytes option \<Rightarrow> u8 \<Rightarrow> kad_packet" where
  "build_keyword_publish_packet target file_hash base_tags aich_hash contact_version =
     (let tags = (case aich_hash of
            Some h \<Rightarrow>
              if contact_version \<ge> KAD_VERSION_AICH_KEYWORD_PUBLISH then base_tags @ [kad_aich_hash_pub h]
              else base_tags
          | None \<Rightarrow> base_tags) in
      PublishKeyReq \<lparr> pk_target = target, pk_entries = [\<lparr> pe_hash = file_hash, pe_tags = tags \<rparr>] \<rparr>)"

definition publish_keyword ::
  "publish_env \<Rightarrow> node_id \<Rightarrow> ed2k_hash \<Rightarrow> tag list \<Rightarrow> bytes option \<Rightarrow> nat \<Rightarrow> work_class \<Rightarrow> routing_table \<Rightarrow> rpc_state \<Rightarrow>
     (dht_error + publish_stats) \<times> spawned_request list \<times> rpc_state" where
  "publish_keyword e keyword_hash file_hash tags aich_hash publish_contact_fanout work_class rt rpc =
     publish_round e tally_any keyword_hash
       (\<lambda>c. build_keyword_publish_packet keyword_hash file_hash tags aich_hash (tc_version c))
       publish_contact_fanout work_class rt rpc"

definition publish_source ::
  "publish_env \<Rightarrow> node_id \<Rightarrow> ed2k_hash \<Rightarrow> tag list \<Rightarrow> nat \<Rightarrow> work_class \<Rightarrow> routing_table \<Rightarrow> rpc_state \<Rightarrow>
     (dht_error + publish_stats) \<times> spawned_request list \<times> rpc_state" where
  "publish_source e publisher_id file_hash tags publish_contact_fanout work_class rt rpc =
     (let target = from_be_bytes (ed2k_array file_hash) in
      publish_round e tally_any target
        (\<lambda>_. PublishSourceReq \<lparr> ps_target = target, ps_publisher_id = publisher_id, ps_tags = tags \<rparr>)
        publish_contact_fanout work_class rt rpc)"

definition publish_notes ::
  "publish_env \<Rightarrow> ed2k_hash \<Rightarrow> node_id \<Rightarrow> tag list \<Rightarrow> nat \<Rightarrow> work_class \<Rightarrow> routing_table \<Rightarrow> rpc_state \<Rightarrow>
     (dht_error + publish_stats) \<times> spawned_request list \<times> rpc_state" where
  "publish_notes e file_hash publisher_id tags publish_contact_fanout work_class rt rpc =
     (let target = from_be_bytes (ed2k_array file_hash) in
      publish_round e tally_notes target
        (\<lambda>_. PublishNotesReq \<lparr> pn_target = target, pn_publisher_id = publisher_id, pn_tags = tags \<rparr>)
        publish_contact_fanout work_class rt rpc)"

end
