(* ===== verification/Kad_Bootstrap.thy ===== *)
theory Kad_Bootstrap
  imports Kad_Dht_Ops Kad_Packet_Codec
begin

text \<open>
  Joining the network, from \<open>crates/overlord-kad-dht/src\<close>: the contact files and the built-in contacts
  of \<open>bootstrap.rs\<close> and the bootstrap procedure of \<open>node/bootstrap.rs\<close>.

  \<^item> A \<open>nodes.dat\<close> is read with the integer readers of \<open>binrw\<close>, the field \<open>ext\<close> of the wire theory.
    Every read error becomes \<open>NodesDatParse\<close>.
  \<^item> \<open>parse_nodes_text\<close> keeps only IPv4 endpoints: what the standard library parses as an IPv6 endpoint
    is skipped like a line it does not parse, so only its IPv4 grammar is modelled.
  \<^item> The answer to the \<open>k\<close>-th bootstrap request, the time at which it is handled and what other tasks
    did to the table and the RPC state while waiting for it are environment arguments.
\<close>

subsection \<open>Contact files\<close>

record nodes_dat_entry =
  nd_node_id :: node_id
  nd_ip :: u32
  nd_udp_port :: u16
  nd_tcp_port :: u16
  nd_version :: u8

record nodes_dat_entry_ext = nodes_dat_entry +
  nd_contact_type :: u8
  nd_last_seen :: u32
  nd_udp_key :: u32

record bootstrap_contact =
  bc_node_id :: node_id
  bc_ip :: ipv4
  bc_udp_port :: u16
  bc_tcp_port :: u16
  bc_version :: u8
  bc_udp_key :: udp_key

definition read_nodes_dat_entry :: "ext \<Rightarrow> nodes_dat_entry reader" where
  "read_nodes_dat_entry B =
     rbind (read_node_id B) (\<lambda>node_id.
     rbind (br_u32 B) (\<lambda>ip.
     rbind (br_u16 B) (\<lambda>udp_port.
     rbind (br_u16 B) (\<lambda>tcp_port.
     rbind (br_u8 B) (\<lambda>version.
     rret \<lparr> nd_node_id = node_id, nd_ip = ip, nd_udp_port = udp_port, nd_tcp_port = tcp_port,
       nd_version = version \<rparr>)))))"

definition read_nodes_dat_entry_ext :: "ext \<Rightarrow> nodes_dat_entry_ext reader" where
  "read_nodes_dat_entry_ext B =
     rbind (read_node_id B) (\<lambda>node_id.
     rbind (br_u32 B) (\<lambda>ip.
     rbind (br_u16 B) (\<lambda>udp_port.
     rbind (br_u16 B) (\<lambda>tcp_port.
     rbind (br_u8 B) (\<lambda>version.
     rbind (br_u8 B) (\<lambda>contact_type.
     rbind (br_u32 B) (\<lambda>last_seen.
     rbind (br_u32 B) (\<lambda>udp_key.
     rret \<lparr> nd_node_id = node_id, nd_ip = ip, nd_udp_port = udp_port, nd_tcp_port = tcp_port,
       nd_version = version, nd_contact_type = contact_type, nd_last_seen = last_seen,
       nd_udp_key = udp_key \<rparr>))))))))"

definition write_nodes_dat_entry :: "ext \<Rightarrow> nodes_dat_entry \<Rightarrow> bytes" where
  "write_nodes_dat_entry B e =
     write_node_id B (nd_node_id e) @ bw_u32 B (nd_ip e) @ bw_u16 B (nd_udp_port e) @
     bw_u16 B (nd_tcp_port e) @ bw_u8 B (nd_version e)"

definition write_nodes_dat_entry_ext :: "ext \<Rightarrow> nodes_dat_entry_ext \<Rightarrow> bytes" where
  "write_nodes_dat_entry_ext B e =
     write_node_id B (nd_node_id e) @ bw_u32 B (nd_ip e) @ bw_u16 B (nd_udp_port e) @
     bw_u16 B (nd_tcp_port e) @ bw_u8 B (nd_version e) @ bw_u8 B (nd_contact_type e) @
     bw_u32 B (nd_last_seen e) @ bw_u32 B (nd_udp_key e)"

text \<open>The header: the number of entries that follow.\<close>

definition read_versioned_count :: "ext \<Rightarrow> u32 \<Rightarrow> u32 reader \<Rightarrow> u32 reader" where
  "read_versioned_count B version otherwise =
     (if version = 2 then br_u32 B
      else if version = 3 then rbind (br_u32 B) (\<lambda>edition. br_u32 B)
      else otherwise)"

definition read_nodes_dat_count :: "ext \<Rightarrow> u32 reader" where
  "read_nodes_dat_count B =
     rbind (br_u32 B) (\<lambda>first.
       if first = 0 then rbind (br_u32 B) (\<lambda>version. read_versioned_count B version (rfail BinIo))
       else read_versioned_count B first (rret first))"

definition bootstrap_contact_of :: "nodes_dat_entry \<Rightarrow> udp_key \<Rightarrow> bootstrap_contact option" where
  "bootstrap_contact_of e udp_key =
     (if nd_ip e = 0 \<or> nd_udp_port e = 0 then None
      else Some \<lparr> bc_node_id = nd_node_id e, bc_ip = ipv4_of_u32 (nd_ip e), bc_udp_port = nd_udp_port e,
        bc_tcp_port = nd_tcp_port e, bc_version = nd_version e, bc_udp_key = udp_key \<rparr>)"

definition read_bootstrap_entry :: "ext \<Rightarrow> bool \<Rightarrow> bootstrap_contact option reader" where
  "read_bootstrap_entry B extended =
     (if extended
      then rbind (read_nodes_dat_entry_ext B) (\<lambda>e.
        rret (bootstrap_contact_of (nodes_dat_entry.truncate e) (KadUdpKey (nd_udp_key e))))
      else rbind (read_nodes_dat_entry B) (\<lambda>e. rret (bootstrap_contact_of e udp_key_ZERO)))"

definition parse_nodes_dat :: "ext \<Rightarrow> bytes \<Rightarrow> dht_error + bootstrap_contact list" where
  "parse_nodes_dat B data =
     (if length data < 8 then Inl NodesDatParse
      else case read_nodes_dat_count B data of
          Inl _ \<Rightarrow> Inl NodesDatParse
        | Inr (entries, rest) \<Rightarrow>
            if entries = 0 \<or> entries > 500000 then Inr []
            else
              let remaining = length rest;
                  entry_size = remaining div unat entries;
                  extended = entry_size \<ge> 34 in
              case read_n (unat entries) (read_bootstrap_entry B extended) rest of
                Inl _ \<Rightarrow> Inl NodesDatParse
              | Inr (contacts, _) \<Rightarrow> Inr (List.map_filter id contacts))"

definition u32_of_ipv4 :: "ipv4 \<Rightarrow> u32" where
  "u32_of_ipv4 ip = (case ip of Ipv4 a b c d \<Rightarrow> u32_from_le_bytes d c b a)"

definition nodes_dat_entry_of :: "bootstrap_contact \<Rightarrow> nodes_dat_entry_ext" where
  "nodes_dat_entry_of contact =
     \<lparr> nd_node_id = bc_node_id contact, nd_ip = u32_of_ipv4 (bc_ip contact), nd_udp_port = bc_udp_port contact,
       nd_tcp_port = bc_tcp_port contact, nd_version = bc_version contact, nd_contact_type = 2,
       nd_last_seen = 0, nd_udp_key = udp_key_value (bc_udp_key contact) \<rparr>"

definition encode_nodes_dat :: "ext \<Rightarrow> bootstrap_contact list \<Rightarrow> bytes" where
  "encode_nodes_dat B contacts =
     bw_u32 B 0 @ bw_u32 B 2 @ bw_u32 B (of_nat (length contacts)) @
     concat (map (\<lambda>c. write_nodes_dat_entry_ext B (nodes_dat_entry_of c)) contacts)"

subsection \<open>Text files\<close>

text \<open>\<open>str::lines\<close>: a line ends with a line feed, after an optional carriage return.\<close>

fun strip_cr :: "rstring \<Rightarrow> rstring" where
  "strip_cr s = (if s \<noteq> [] \<and> last s = 0x0D then butlast s else s)"

function str_lines :: "rstring \<Rightarrow> rstring list" where
  "str_lines s =
     (if s = [] then []
      else
        let line = takeWhile (\<lambda>b. b \<noteq> 0x0A) s in
        case drop (length line) s of
          [] \<Rightarrow> [line]
        | _ # rest \<Rightarrow> strip_cr line # str_lines rest)"
  by pat_completeness auto
termination
proof (relation "measure length")
  fix s line x rest
  assume "line = takeWhile (\<lambda>b. b \<noteq> 0x0A) s" "drop (length line) s = x # rest"
  then have "length (x # rest) \<le> length s" by (metis length_drop diff_le_self)
  then show "(rest, s) \<in> measure length" by simp
qed simp

declare str_lines.simps [simp del]

text \<open>
  \<open>SocketAddrV4::from_str\<close>. A number is a run of decimal digits: an octet has at most three and no
  superfluous leading zero, a port any number of them.
\<close>

definition read_number :: "nat option \<Rightarrow> bool \<Rightarrow> nat \<Rightarrow> bytes \<Rightarrow> (nat \<times> bytes) option" where
  "read_number max_digits allow_zero_prefix maximum s =
     (let digits = takeWhile (\<lambda>b. 48 \<le> b \<and> b < 58) s in
      if digits = [] \<or> (case max_digits of Some n \<Rightarrow> length digits > n | None \<Rightarrow> False) \<or>
        \<not> allow_zero_prefix \<and> hd digits = 48 \<and> length digits > 1 \<or> read_decimal digits > maximum
      then None
      else Some (read_decimal digits, drop (length digits) s))"

fun read_given_char :: "u8 \<Rightarrow> bytes \<Rightarrow> bytes option" where
  "read_given_char c [] = None"
| "read_given_char c (b # s) = (if b = c then Some s else None)"

definition read_octet :: "bytes \<Rightarrow> (u8 \<times> bytes) option" where
  "read_octet s = map_option (\<lambda>(n, r). (of_nat n, r)) (read_number (Some 3) False 255 s)"

definition read_next_octet :: "bytes \<Rightarrow> (u8 \<times> bytes) option" where
  "read_next_octet s = Option.bind (read_given_char 46 s) read_octet"

definition read_ipv4_addr :: "bytes \<Rightarrow> (ipv4 \<times> bytes) option" where
  "read_ipv4_addr s =
     Option.bind (read_octet s) (\<lambda>(a, s).
     Option.bind (read_next_octet s) (\<lambda>(b, s).
     Option.bind (read_next_octet s) (\<lambda>(c, s).
     Option.bind (read_next_octet s) (\<lambda>(d, s). Some (Ipv4 a b c d, s)))))"

definition parse_socket_addr_v4 :: "rstring \<Rightarrow> (ipv4 \<times> u16) option" where
  "parse_socket_addr_v4 s =
     Option.bind (read_ipv4_addr s) (\<lambda>(ip, s).
     Option.bind (read_given_char 58 s) (\<lambda>s.
     Option.bind (read_number None True 65535 s) (\<lambda>(port, s).
       if s = [] then Some (ip, of_nat port) else None)))"

definition text_contact :: "ipv4 \<times> u16 \<Rightarrow> bootstrap_contact" where
  "text_contact addr =
     \<lparr> bc_node_id = nid_ZERO, bc_ip = fst addr, bc_udp_port = snd addr, bc_tcp_port = snd addr,
       bc_version = 9, bc_udp_key = udp_key_ZERO \<rparr>"

definition parse_nodes_line :: "rstring \<Rightarrow> bootstrap_contact option" where
  "parse_nodes_line line =
     (let line = str_trim line in
      if line = [] \<or> hd line = 0x23 then None
      else map_option text_contact (parse_socket_addr_v4 line))"

definition parse_nodes_text :: "rstring \<Rightarrow> bootstrap_contact list" where
  "parse_nodes_text text = List.map_filter parse_nodes_line (str_lines text)"

subsection \<open>Built-in contacts\<close>

definition hardcoded_endpoints :: "(ipv4 \<times> u16 \<times> u16 \<times> u8) list" where
  "hardcoded_endpoints =
     [(Ipv4 37 222 82 145, 46772, 46762, 10), (Ipv4 99 105 56 85, 4672, 4662, 8),
      (Ipv4 87 220 164 19, 6763, 35771, 10), (Ipv4 81 29 181 79, 4672, 4662, 8),
      (Ipv4 81 57 54 56, 4672, 4662, 8), (Ipv4 83 54 4 165, 20000, 10000, 9),
      (Ipv4 93 44 81 49, 17953, 45230, 10), (Ipv4 81 41 182 56, 58226, 58226, 10),
      (Ipv4 50 191 141 58, 6802, 6800, 9), (Ipv4 37 134 60 141, 13795, 19926, 9),
      (Ipv4 86 63 39 150, 50535, 4662, 8), (Ipv4 79 9 95 42, 21000, 21000, 10),
      (Ipv4 83 37 242 162, 63100, 63100, 10), (Ipv4 176 107 153 122, 4672, 4662, 8),
      (Ipv4 95 237 210 130, 47533, 47523, 8), (Ipv4 37 15 139 100, 4663, 4653, 8),
      (Ipv4 151 60 189 25, 4672, 4662, 10), (Ipv4 111 250 66 140, 4672, 4662, 8),
      (Ipv4 85 60 24 134, 4672, 4662, 8), (Ipv4 151 242 30 126, 14672, 14662, 8),
      (Ipv4 82 84 74 202, 9126, 9125, 9), (Ipv4 5 157 122 191, 4672, 4662, 8),
      (Ipv4 79 116 194 103, 9507, 5329, 10), (Ipv4 180 177 59 39, 4672, 4662, 8),
      (Ipv4 81 57 92 93, 46720, 46620, 8), (Ipv4 79 117 36 185, 29881, 28887, 8),
      (Ipv4 88 5 100 118, 6011, 5011, 9), (Ipv4 213 23 236 199, 4672, 4661, 10),
      (Ipv4 87 13 47 77, 4672, 4662, 8), (Ipv4 116 30 129 71, 1030, 5000, 9),
      (Ipv4 109 134 251 8, 54664, 28253, 9), (Ipv4 88 25 142 235, 4672, 4662, 8),
      (Ipv4 87 222 156 134, 4292, 45129, 9), (Ipv4 185 185 198 46, 4672, 4662, 8),
      (Ipv4 27 147 28 182, 14672, 14662, 9), (Ipv4 2 236 249 112, 4672, 4662, 10),
      (Ipv4 118 118 237 130, 4672, 4662, 8), (Ipv4 94 166 10 173, 4672, 4662, 8),
      (Ipv4 88 26 10 158, 7523, 46242, 9), (Ipv4 62 220 83 189, 4672, 4662, 10),
      (Ipv4 109 117 111 98, 46672, 46662, 8), (Ipv4 118 168 40 184, 8181, 8080, 9),
      (Ipv4 128 116 245 196, 4672, 4662, 9), (Ipv4 120 36 84 51, 4672, 4662, 8),
      (Ipv4 79 116 189 91, 8882, 8881, 8), (Ipv4 79 117 24 252, 26899, 26889, 8),
      (Ipv4 82 84 102 19, 4672, 4662, 8), (Ipv4 87 180 171 132, 4672, 4662, 8),
      (Ipv4 88 27 31 76, 4672, 4662, 8), (Ipv4 1 36 40 170, 7762, 59235, 10)]"

definition hardcoded_bootstrap :: "bootstrap_contact list" where
  "hardcoded_bootstrap =
     map (\<lambda>(ip, udp, tcp, ver). \<lparr> bc_node_id = nid_ZERO, bc_ip = ip, bc_udp_port = udp, bc_tcp_port = tcp,
       bc_version = ver, bc_udp_key = udp_key_ZERO \<rparr>) hardcoded_endpoints"

subsection \<open>The bootstrap procedure\<close>

definition load_bootstrap_contacts :: "ext \<Rightarrow> bytes option \<Rightarrow> rstring option \<Rightarrow> bootstrap_contact list" where
  "load_bootstrap_contacts B nodes_dat nodes_text =
     (let contacts = (case nodes_dat of
            None \<Rightarrow> []
          | Some data \<Rightarrow> (case parse_nodes_dat B data of Inr c \<Rightarrow> c | Inl _ \<Rightarrow> []));
          contacts = (case nodes_text of None \<Rightarrow> contacts | Some text \<Rightarrow> contacts @ parse_nodes_text text) in
      if contacts = [] then hardcoded_bootstrap else contacts)"

definition bootstrap_ready_with_contacts :: "nat \<Rightarrow> nat \<Rightarrow> bool" where
  "bootstrap_ready_with_contacts min_ready_contacts routing_contacts \<longleftrightarrow> routing_contacts \<ge> max min_ready_contacts 1"

definition bootstrap_addr :: "bootstrap_contact \<Rightarrow> socket_addr" where
  "bootstrap_addr bc = (V4 (bc_ip bc), bc_udp_port bc)"

definition register_bootstrap_contact :: "bootstrap_contact \<Rightarrow> rpc_state \<Rightarrow> rpc_state" where
  "register_bootstrap_contact bc rpc =
     (let addr = bootstrap_addr bc;
          layer = rpc_obfuscation rpc;
          layer = (if bc_node_id bc \<noteq> nid_ZERO then register_peer_identity addr (bc_node_id bc) layer else layer);
          layer = register_peer_version addr (bc_version bc) layer;
          layer = (if bc_udp_key bc \<noteq> udp_key_ZERO
            then register_peer_key addr (udp_key_value (bc_udp_key bc)) layer else layer) in
      rpc\<lparr>rpc_obfuscation := layer\<rparr>)"

record bootstrap_env =
  be_answer :: "nat \<Rightarrow> net_error + kad_packet"
  be_others :: "nat \<Rightarrow> routing_table \<times> rpc_state \<Rightarrow> routing_table \<times> rpc_state"
  be_now :: "nat \<Rightarrow> nat"

text \<open>The contacts of one response; \<open>None\<close> stands for a panic of the table.\<close>

fun add_bootstrap_entries ::
  "nat \<Rightarrow> contact_entry list \<Rightarrow> routing_table \<times> rpc_state \<Rightarrow> (routing_table \<times> rpc_state) option" where
  "add_bootstrap_entries now [] st = Some st"
| "add_bootstrap_entries now (entry # entries) (rt, rpc) =
     (if ce_ip entry = 0 \<or> ce_udp_port entry = 0 then add_bootstrap_entries now entries (rt, rpc)
      else
        let contact = contact_new (ce_node_id entry) (ipv4_of_u32 (ce_ip entry)) (ce_udp_port entry)
              (ce_tcp_port entry) (ce_version entry) now;
            layer = register_peer_identity (addr_from_contact contact) (c_id contact) (rpc_obfuscation rpc);
            layer = register_peer_version (addr_from_contact contact) (c_kad_version contact) layer in
        case add_contact contact rt of
          None \<Rightarrow> None
        | Some (_, rt) \<Rightarrow> add_bootstrap_entries now entries (rt, rpc\<lparr>rpc_obfuscation := layer\<rparr>))"

definition absorb_bootstrap_res ::
  "nat \<Rightarrow> bootstrap_contact \<Rightarrow> bootstrap_res \<Rightarrow> routing_table \<times> rpc_state \<Rightarrow> (routing_table \<times> rpc_state) option" where
  "absorb_bootstrap_res now bc res st =
     (let sender = contact_new (bsr_sender_id res) (bc_ip bc) (bc_udp_port bc) (bsr_sender_tcp_port res)
            (bsr_sender_version res) now;
          sender = (case receiver_verify_key_for_addr (rpc_obfuscation (snd st)) (bootstrap_addr bc) of
              Some known_udp_key \<Rightarrow> sender\<lparr>c_udp_key := KadUdpKey known_udp_key\<rparr>
            | None \<Rightarrow> sender) in
      case add_contact sender (fst st) of
        None \<Rightarrow> None
      | Some (_, rt) \<Rightarrow> add_bootstrap_entries now (bsr_contacts res) (rt, snd st))"

text \<open>One request after the other; the endpoints asked and the number of responses.\<close>

fun bootstrap_loop ::
  "bootstrap_env \<Rightarrow> nat \<Rightarrow> bootstrap_contact list \<Rightarrow> nat \<times> socket_addr list \<Rightarrow> routing_table \<times> rpc_state \<Rightarrow>
     ((nat \<times> socket_addr list) \<times> routing_table \<times> rpc_state) option" where
  "bootstrap_loop e k [] acc st = Some (acc, st)"
| "bootstrap_loop e k (bc # bcs) (responded, sent) (rt, rpc) =
     (let st = be_others e k (rt, register_bootstrap_contact bc rpc);
          sent = sent @ [bootstrap_addr bc] in
      case be_answer e k of
        Inr (BootstrapRes res) \<Rightarrow>
          (case absorb_bootstrap_res (be_now e k) bc res st of
             None \<Rightarrow> None
           | Some st \<Rightarrow> bootstrap_loop e (Suc k) bcs (Suc responded, sent) st)
      | _ \<Rightarrow> bootstrap_loop e (Suc k) bcs (responded, sent) st)"

record bootstrap_outcome =
  bo_result :: "dht_error + unit"
  bo_state :: "routing_table \<times> rpc_state"
  bo_bootstrapped :: bool
  bo_asked :: "socket_addr list"

text \<open>\<open>lookup\<close> is the lookup of the own identifier, with its environment.\<close>

definition bootstrap_with_class ::
  "ext \<Rightarrow> bootstrap_env \<Rightarrow>
     (node_id \<Rightarrow> routing_table \<times> rpc_state \<Rightarrow> (traversal_contact list \<times> routing_table \<times> rpc_state) option) \<Rightarrow>
     bytes option \<Rightarrow> rstring option \<Rightarrow> nat \<Rightarrow> node_id \<Rightarrow> bool \<Rightarrow> routing_table \<times> rpc_state \<Rightarrow> bootstrap_outcome option" where
  "bootstrap_with_class B e lookup nodes_dat nodes_text min_contacts own_id bootstrapped st =
     (let contacts = load_bootstrap_contacts B nodes_dat nodes_text in
      if contacts = [] then
        Some \<lparr> bo_result = Inl NoBootstrapNodes, bo_state = st, bo_bootstrapped = bootstrapped, bo_asked = [] \<rparr>
      else case bootstrap_loop e 0 (take 10 contacts) (0, []) st of
          None \<Rightarrow> None
        | Some ((responded, asked), st) \<Rightarrow>
            if responded = 0 then
              Some \<lparr> bo_result = Inl BootstrapFailed, bo_state = st, bo_bootstrapped = bootstrapped,
                bo_asked = asked \<rparr>
            else case lookup own_id st of
                None \<Rightarrow> None
              | Some (_, st) \<Rightarrow>
                  Some \<lparr> bo_result = Inr (), bo_state = st,
                    bo_bootstrapped = (bootstrapped \<or>
                      bootstrap_ready_with_contacts min_contacts (table_len (fst st))),
                    bo_asked = asked \<rparr>)"

end
