(* ===== verification/Agent_Publish.thy ===== *)
theory Agent_Publish
  imports Kad_Bootstrap
begin

text \<open>
  The publishing side of the agent, from \<open>crates/overlord-agent-emule/src/agent\<close>: what is published
  and how it is counted (\<open>publish.rs\<close>, \<open>keyword.rs\<close>), one seeding batch (\<open>publish_runtime.rs\<close>) and the
  two background loops that bootstrap and drip synthetic seeds (\<open>background_publish.rs\<close>).

  \<^item> The digests of the \<open>md4\<close> and \<open>sha1\<close> crates and the Unicode tables behind \<open>to_lowercase\<close> and
    \<open>is_alphanumeric\<close> are arguments; so is \<open>hex::encode\<close>.
  \<^item> A published batch threads the store, the publish statistics, the routing table and the RPC state.
    The clock, the networks' answers and what other tasks do in between are the environment \<open>seed_env\<close>.
  \<^item> The activity tracker and log statements are left out. Counters wrap as in a release build.
\<close>

subsection \<open>Statistics\<close>

datatype seed_source = Coordinator | SyntheticFallback | ManualApi

record batch_summary =
  bs_seed_source :: seed_source
  bs_published_items :: u32
  bs_closest_contacts_considered :: u32
  bs_attempted_contacts :: u32
  bs_acked_contacts :: u32
  bs_failed_contacts :: u32
  bs_timed_out_contacts :: u32
  bs_completed_at :: int
  bs_last_success_at :: "int option"

record publish_counters =
  ct_batches :: u64
  ct_published_items :: u64
  ct_closest_contacts_considered :: u64
  ct_attempted_contacts :: u64
  ct_acked_contacts :: u64
  ct_failed_contacts :: u64
  ct_timed_out_contacts :: u64
  ct_last_batch_at :: "int option"
  ct_last_success_at :: "int option"

record publish_observability =
  po_last_seed_source :: "seed_source option"
  po_last_seed_at :: "int option"
  po_latest_keyword_batch :: "batch_summary option"
  po_latest_source_batch :: "batch_summary option"
  po_latest_notes_batch :: "batch_summary option"
  po_keyword_counters :: publish_counters
  po_source_counters :: publish_counters
  po_notes_counters :: publish_counters
  po_synthetic_drip_queue_depth :: "u32 option"

definition build_publish_batch_summary :: "seed_source \<Rightarrow> nat \<Rightarrow> publish_stats \<Rightarrow> int \<Rightarrow> batch_summary" where
  "build_publish_batch_summary source published_items stats completed_at =
     \<lparr> bs_seed_source = source, bs_published_items = of_nat published_items,
       bs_closest_contacts_considered = pa_closest_contacts_considered stats,
       bs_attempted_contacts = pa_attempted_contacts stats, bs_acked_contacts = pa_acked_contacts stats,
       bs_failed_contacts = failed_contacts stats, bs_timed_out_contacts = pa_timed_out_contacts stats,
       bs_completed_at = completed_at,
       bs_last_success_at = (if pa_acked_contacts stats > 0 then Some completed_at else None) \<rparr>"

definition apply_publish_summary :: "publish_counters \<Rightarrow> batch_summary \<Rightarrow> publish_counters" where
  "apply_publish_summary c s =
     \<lparr> ct_batches = ct_batches c + 1,
       ct_published_items = ct_published_items c + ucast (bs_published_items s),
       ct_closest_contacts_considered = ct_closest_contacts_considered c + ucast (bs_closest_contacts_considered s),
       ct_attempted_contacts = ct_attempted_contacts c + ucast (bs_attempted_contacts s),
       ct_acked_contacts = ct_acked_contacts c + ucast (bs_acked_contacts s),
       ct_failed_contacts = ct_failed_contacts c + ucast (bs_failed_contacts s),
       ct_timed_out_contacts = ct_timed_out_contacts c + ucast (bs_timed_out_contacts s),
       ct_last_batch_at = Some (bs_completed_at s),
       ct_last_success_at = (if bs_last_success_at s \<noteq> None then bs_last_success_at s else ct_last_success_at c) \<rparr>"

definition publish_summary_has_progress :: "batch_summary \<Rightarrow> bool" where
  "publish_summary_has_progress s \<longleftrightarrow>
     bs_published_items s > 0 \<or> bs_closest_contacts_considered s > 0 \<or> bs_attempted_contacts s > 0 \<or>
     bs_acked_contacts s > 0 \<or> bs_failed_contacts s > 0 \<or> bs_timed_out_contacts s > 0"

definition effective_publish_counters ::
  "publish_counters \<Rightarrow> batch_summary option \<Rightarrow> int option \<Rightarrow> publish_counters" where
  "effective_publish_counters counters latest_batch last_seed_at =
     (case latest_batch of
        None \<Rightarrow> counters
      | Some summary \<Rightarrow>
          let batch_committed = (ct_last_batch_at counters = Some (bs_completed_at summary));
              batch_in_flight = (case (last_seed_at, ct_last_batch_at counters) of
                  (Some observed_at, Some committed_at) \<Rightarrow> observed_at > committed_at
                | (Some _, None) \<Rightarrow> True
                | (None, _) \<Rightarrow> False) in
          if batch_in_flight \<and> \<not> batch_committed \<and> publish_summary_has_progress summary
          then apply_publish_summary counters summary else counters)"

definition record_publish_summaries ::
  "seed_source \<Rightarrow> nat \<Rightarrow> publish_stats \<Rightarrow> publish_stats \<Rightarrow> publish_stats option \<Rightarrow> int \<Rightarrow>
     publish_observability \<Rightarrow> publish_observability" where
  "record_publish_summaries source published_items keyword_stats source_stats notes_stats completed_at po =
     (let keyword_summary = build_publish_batch_summary source published_items keyword_stats completed_at;
          source_summary = build_publish_batch_summary source published_items source_stats completed_at;
          notes_summary = map_option (\<lambda>stats. build_publish_batch_summary source published_items stats completed_at)
            notes_stats in
      po\<lparr>po_last_seed_source := Some source, po_last_seed_at := Some completed_at,
         po_latest_keyword_batch := Some keyword_summary, po_latest_source_batch := Some source_summary,
         po_latest_notes_batch := notes_summary,
         po_keyword_counters := apply_publish_summary (po_keyword_counters po) keyword_summary,
         po_source_counters := apply_publish_summary (po_source_counters po) source_summary,
         po_notes_counters := (case notes_summary of
             None \<Rightarrow> po_notes_counters po
           | Some summary \<Rightarrow> apply_publish_summary (po_notes_counters po) summary)\<rparr>)"

definition update_publish_progress ::
  "seed_source \<Rightarrow> nat \<Rightarrow> publish_stats \<Rightarrow> publish_stats \<Rightarrow> publish_stats option \<Rightarrow> int \<Rightarrow>
     publish_observability \<Rightarrow> publish_observability" where
  "update_publish_progress source processed_items keyword_stats source_stats notes_stats observed_at po =
     (let po = po\<lparr>po_last_seed_source := Some source, po_last_seed_at := Some observed_at,
         po_latest_keyword_batch := Some (build_publish_batch_summary source processed_items keyword_stats observed_at),
         po_latest_source_batch := Some (build_publish_batch_summary source processed_items source_stats observed_at)\<rparr> in
      case notes_stats of
        None \<Rightarrow> po
      | Some stats \<Rightarrow>
          po\<lparr>po_latest_notes_batch := Some (build_publish_batch_summary source processed_items stats observed_at)\<rparr>)"

definition set_synthetic_publish_queue_depth :: "nat \<Rightarrow> publish_observability \<Rightarrow> publish_observability" where
  "set_synthetic_publish_queue_depth remaining_items po =
     po\<lparr>po_synthetic_drip_queue_depth := Some (of_nat remaining_items)\<rparr>"

subsection \<open>Seeds\<close>

definition ascii :: "string \<Rightarrow> rstring" where
  "ascii s = map of_char s"

record synthetic_seed =
  sy_title :: rstring
  sy_size :: u64
  sy_source_count :: u32

definition seed :: "string \<Rightarrow> u64 \<Rightarrow> u32 \<Rightarrow> synthetic_seed" where
  "seed title sz sources = \<lparr> sy_title = ascii title, sy_size = sz, sy_source_count = sources \<rparr>"

definition SYNTHETIC_POPULAR_SEEDS :: "synthetic_seed list" where
  "SYNTHETIC_POPULAR_SEEDS =
     [seed ''ubuntu linux 24.04 desktop amd64.iso'' 734003200 31,
      seed ''mario paint quorlith orchestra live at the moon.avi'' 1417965568 24,
      seed ''10 hours of nyan cat.mp4'' 92381184 19,
      seed ''laser dolphin documentary 1997.mkv'' 2486124544 16,
      seed ''cat-powered data center walkthrough.iso'' 4597211136 11,
      seed ''unofficial windows 98 vaporwave patch.zip'' 803471360 27,
      seed ''beep test but every beep is a fax machine.flac'' 558366720 14,
      seed ''office 2010 professional plus x86.iso'' 128661504 22,
      seed ''retro hamster workstation benchmark.mov'' 1934155776 17,
      seed ''flying toaster championship finals.mp4'' 1215102976 29,
      seed ''synthwave aquarium screensaver collection.rar'' 677478400 13,
      seed ''ubuntu linux server 24.04 live amd64.iso'' 18456321 18,
      seed ''very long train horn ambience.wav'' 2812747776 12,
      seed ''adobe photoshop cs6 portable.rar'' 943128576 15,
      seed ''windows 7 ultimate sp1 x64 dvd.iso'' 421388288 9,
      seed ''museum of broken gamepads.pdf'' 67210240 21,
      seed ''game of thrones season 1 complete 720p.mkv'' 44992610 10,
      seed ''the office us season 2 dvdrip xvid.avi'' 134742016 8,
      seed ''midnight subway cat rave.mkv'' 3288334336 26,
      seed ''top 100 dance hits 2009.mp3'' 77414400 23,
      seed ''vhs rip of the internet weather channel.ts'' 5188911104 14,
      seed ''ubuntu linux 22.04 desktop amd64.iso'' 1104199680 28,
      seed ''the lord of the rings extended trilogy 1080p.mkv'' 612892672 20,
      seed ''microsoft office 2007 enterprise.iso'' 695205888 17,
      seed ''grand theft auto vice city full rip.iso'' 1544269824 12,
      seed ''breaking bad season 3 complete 720p.mkv'' 88199168 25,
      seed ''ubuntu linux 20.04.6 live server amd64.iso'' 3964108800 16,
      seed ''top gear complete specials collection x264.mp4'' 233308160 13,
      seed ''the beatles abbey road remastered.flac'' 1572864 7,
      seed ''harry potter complete 1080p bluray x264.mkv'' 376877056 11,
      seed ''visual studio 2010 professional.iso'' 190513152 9,
      seed ''ubuntu linux 18.04 desktop amd64.iso'' 1672331264 18,
      seed ''pink floyd the wall remastered.flac'' 49283072 15,
      seed ''friends complete season 5 dvdrip xvid.avi'' 2965983232 19,
      seed ''ubuntu linux handbook 2026.pdf'' 821051392 24,
      seed ''windows xp professional sp3 corporate.iso'' 1281286144 17,
      seed ''portable rave lighthouse screensaver.scr'' 28311552 12,
      seed ''greatest floppy disk solos anthology.flac'' 607518720 20,
      seed ''galactic sandwich emulator setup.exe'' 509607936 14,
      seed ''vintage webcam ghost sightings collection.mkv'' 2118541312 22]"

record popular_hash =
  pop_hash :: rstring
  pop_canonical_name :: rstring
  pop_size :: u64
  pop_source_count :: u32

type_synonym digest_fun = "bytes \<Rightarrow> u8x16"

definition synthetic_file_hash :: "digest_fun \<Rightarrow> nat \<Rightarrow> synthetic_seed \<Rightarrow> ed2k_hash" where
  "synthetic_file_hash md4 index sd =
     Ed2kHash (md4 (ascii ''overlord-synthetic-kad-seed|'' @ show_nat index @ [124] @ sy_title sd @ [124] @
       show_nat (unat (sy_size sd)) @ [124] @ show_nat (unat (sy_source_count sd))))"

definition synthetic_popular_hash :: "digest_fun \<Rightarrow> hex_ext \<Rightarrow> nat \<Rightarrow> synthetic_seed \<Rightarrow> popular_hash" where
  "synthetic_popular_hash md4 H index sd =
     \<lparr> pop_hash = hex_encode H (list16 (ed2k_array (synthetic_file_hash md4 index sd))),
       pop_canonical_name = sy_title sd, pop_size = sy_size sd, pop_source_count = sy_source_count sd \<rparr>"

definition synthetic_popular_hashes :: "digest_fun \<Rightarrow> hex_ext \<Rightarrow> popular_hash list" where
  "synthetic_popular_hashes md4 H =
     map (\<lambda>(index, sd). synthetic_popular_hash md4 H index sd)
       (zip [0..<length SYNTHETIC_POPULAR_SEEDS] SYNTHETIC_POPULAR_SEEDS)"

definition synthetic_publish_queue_depth :: "nat \<Rightarrow> nat" where
  "synthetic_publish_queue_depth cursor =
     (let total = length SYNTHETIC_POPULAR_SEEDS in
      if total = 0 then 0
      else let normalized = cursor mod total in if normalized = 0 then total else total - normalized)"

definition next_synthetic_publish_batch ::
  "digest_fun \<Rightarrow> hex_ext \<Rightarrow> nat \<Rightarrow> nat \<Rightarrow> popular_hash list \<times> nat" where
  "next_synthetic_publish_batch md4 H cursor batch_items =
     (if SYNTHETIC_POPULAR_SEEDS = [] then ([], cursor)
      else
        let total = length SYNTHETIC_POPULAR_SEEDS;
            start = cursor mod total;
            batch_len = min (max batch_items 1) total;
            batch = map (\<lambda>offset. let index = (start + offset) mod total in
                synthetic_popular_hash md4 H index (SYNTHETIC_POPULAR_SEEDS ! index)) [0..<batch_len] in
        (batch, (start + batch_len) mod total))"

subsection \<open>The shared catalog\<close>

record shared_entry =
  sh_file_hash :: rstring
  sh_canonical_name :: rstring
  sh_file_size :: u64
  sh_verified_complete :: bool
  sh_verified_ranges :: "(u64 \<times> u64) list"
  sh_compatibility_hint :: bool
  sh_source_count_hint :: "u32 option"
  sh_aich_root :: "rstring option"

text \<open>The outer \<open>None\<close> is the panic of \<open>from_str\<close>.\<close>

definition from_popular_hash :: "popular_hash \<Rightarrow> shared_entry option option" where
  "from_popular_hash hash =
     (case ed2k_from_str (pop_hash hash) of
        None \<Rightarrow> None
      | Some (Inl _) \<Rightarrow> Some None
      | Some (Inr _) \<Rightarrow>
          Some (Some \<lparr> sh_file_hash = pop_hash hash, sh_canonical_name = pop_canonical_name hash,
            sh_file_size = pop_size hash, sh_verified_complete = False, sh_verified_ranges = [],
            sh_compatibility_hint = True, sh_source_count_hint = Some (pop_source_count hash),
            sh_aich_root = None \<rparr>))"

fun hint_entries :: "popular_hash list \<Rightarrow> shared_entry list option" where
  "hint_entries [] = Some []"
| "hint_entries (h # hs) =
     (case from_popular_hash h of
        None \<Rightarrow> None
      | Some e \<Rightarrow> map_option (append (case e of None \<Rightarrow> [] | Some x \<Rightarrow> [x])) (hint_entries hs))"

definition refresh_ed2k_shared_catalog ::
  "digest_fun \<Rightarrow> hex_ext \<Rightarrow> popular_hash list \<Rightarrow> shared_entry list \<Rightarrow> shared_entry list option" where
  "refresh_ed2k_shared_catalog md4 H hashes catalog =
     (let kept = filter (\<lambda>e. \<not> sh_compatibility_hint e) catalog;
          replacements = (if hashes = [] then synthetic_popular_hashes md4 H else hashes) in
      map_option (append kept) (hint_entries replacements))"

subsection \<open>Keywords\<close>

text \<open>The characters of a string, each with its encoding.\<close>

function str_chars :: "rstring \<Rightarrow> bytes list" where
  "str_chars [] = []"
| "str_chars (b # s) =
     (let n = snd (utf8_char b s) in (b # take n s) # str_chars (drop n s))"
  by pat_completeness auto
termination
  by (relation "measure length") (auto simp: less_Suc_eq_le)

text \<open>\<open>split\<close> at the characters that do not satisfy the predicate.\<close>

fun split_words :: "(bytes \<Rightarrow> bool) \<Rightarrow> bytes list \<Rightarrow> rstring \<Rightarrow> rstring list" where
  "split_words alnum [] word = [word]"
| "split_words alnum (c # cs) word =
     (if alnum c then split_words alnum cs (word @ c) else word # split_words alnum cs [])"

definition significant_keyword_words :: "(bytes \<Rightarrow> bool) \<Rightarrow> (rstring \<Rightarrow> rstring) \<Rightarrow> rstring \<Rightarrow> rstring list" where
  "significant_keyword_words alnum L query =
     (let words = filter (\<lambda>word. length word \<ge> 3)
        (map L (filter (\<lambda>word. word \<noteq> []) (split_words alnum (str_chars query) []))) in
      if words = [] then [L query] else words)"

definition to_ascii_lowercase :: "rstring \<Rightarrow> rstring" where
  "to_ascii_lowercase s = map (\<lambda>b. if 65 \<le> b \<and> b < 91 then b + 32 else b) s"

definition is_ascii_hexdigit :: "u8 \<Rightarrow> bool" where
  "is_ascii_hexdigit b \<longleftrightarrow> 48 \<le> b \<and> b < 58 \<or> 65 \<le> b \<and> b < 71 \<or> 97 \<le> b \<and> b < 103"

definition exact_ed2k_hash_query_token :: "rstring \<Rightarrow> rstring option" where
  "exact_ed2k_hash_query_token query =
     (let trimmed = str_trim query;
          prefix = ascii ''ed2k::'';
          candidate = str_trim (if take (length prefix) trimmed = prefix then drop (length prefix) trimmed else trimmed) in
      if length candidate = 32 \<and> list_all is_ascii_hexdigit candidate then Some (to_ascii_lowercase candidate)
      else None)"

definition keyword_target ::
  "digest_fun \<Rightarrow> (bytes \<Rightarrow> bool) \<Rightarrow> (rstring \<Rightarrow> rstring) \<Rightarrow> rstring \<Rightarrow> node_id" where
  "keyword_target md4 alnum L query =
     (let first_word = (case exact_ed2k_hash_query_token query of
          Some token \<Rightarrow> token
        | None \<Rightarrow> (case significant_keyword_words alnum L query of [] \<Rightarrow> L query | word # _ \<Rightarrow> word)) in
      from_be_bytes (md4 first_word))"

subsection \<open>Tags\<close>

record source_publish_settings =
  sps_tcp_port :: u16
  sps_obfuscation_enabled :: bool

definition EMULE_CRYPT_SUPPORTS :: u8 where "EMULE_CRYPT_SUPPORTS = 0x01"
definition EMULE_CRYPT_REQUESTS :: u8 where "EMULE_CRYPT_REQUESTS = 0x02"
definition EMULE_LARGE_FILE_SIZE_THRESHOLD :: u64 where "EMULE_LARGE_FILE_SIZE_THRESHOLD = 0xFFFFFFFF"

definition emule_connect_options :: "bool \<Rightarrow> u8" where
  "emule_connect_options obfuscation_enabled =
     (if obfuscation_enabled then EMULE_CRYPT_SUPPORTS OR EMULE_CRYPT_REQUESTS else 0)"

definition emule_high_id_source_type :: "u64 \<Rightarrow> u32" where
  "emule_high_id_source_type file_size = (if file_size > EMULE_LARGE_FILE_SIZE_THRESHOLD then 4 else 1)"

definition build_source_publish_tags :: "socket_addr \<Rightarrow> source_publish_settings \<Rightarrow> u64 \<Rightarrow> tag list" where
  "build_source_publish_tags bind_addr settings file_size =
     [new_short tn_SOURCETYPE (UInt (ucast (emule_high_id_source_type file_size))),
      new_short tn_SOURCEPORT (UInt (ucast (sps_tcp_port settings)))] @
     (case fst bind_addr of V4 ip \<Rightarrow> [new_short tn_SOURCEIP (U32 (u32_of_ipv4 ip))] | V6 _ \<Rightarrow> []) @
     [new_short tn_SOURCEUPORT (U16 (snd bind_addr)),
      tag_filesize file_size,
      new_short tn_ENCRYPTION (U8 (emule_connect_options (sps_obfuscation_enabled settings)))]"

definition build_notes_publish_tags :: "rstring \<Rightarrow> u64 \<Rightarrow> tag list" where
  "build_notes_publish_tags canonical_name file_size =
     [tag_filename canonical_name, tag_filesize file_size, new_short tn_FILERATING (U8 4),
      new_short tn_DESCRIPTION (String (ascii ''overlord validation note for '' @ canonical_name))]"

definition file_type_extensions :: "(string list \<times> string) list" where
  "file_type_extensions =
     [([''mp3'', ''aac'', ''ac3'', ''flac'', ''m4a'', ''ogg'', ''wav'', ''wma''], ''Audio''),
      ([''avi'', ''mkv'', ''mov'', ''mp4'', ''mpeg'', ''mpg'', ''wmv''], ''Video''),
      ([''bmp'', ''gif'', ''jpeg'', ''jpg'', ''png'', ''tif'', ''tiff'', ''webp''], ''Image''),
      ([''chm'', ''csv'', ''doc'', ''docx'', ''epub'', ''htm'', ''html'', ''odt'', ''pdf'', ''pps'', ''ppt'', ''pptx'',
        ''rtf'', ''txt'', ''xls'', ''xlsx''], ''Doc''),
      ([''7z'', ''ace'', ''apk'', ''bat'', ''bin'', ''bz2'', ''cab'', ''cmd'', ''com'', ''dll'', ''dmg'', ''exe'', ''gz'',
        ''img'', ''iso'', ''jar'', ''msi'', ''pkg'', ''rar'', ''sh'', ''tar'', ''tgz'', ''xz'', ''zip''], ''Pro''),
      ([''emulecollection''], ''EmuleCollection'')]"

definition ed2k_file_type_search_term :: "rstring \<Rightarrow> rstring option" where
  "ed2k_file_type_search_term file_name =
     (let extension = rev (takeWhile (\<lambda>c. c \<noteq> 46) (rev file_name)) in
      if extension = file_name then None
      else map_option (\<lambda>p. ascii (snd p))
        (find (\<lambda>p. to_ascii_lowercase extension \<in> set (map ascii (fst p))) file_type_extensions))"

definition synthetic_publish_aich_hash :: "(bytes \<Rightarrow> bytes) \<Rightarrow> ed2k_hash \<Rightarrow> rstring \<Rightarrow> u64 \<Rightarrow> bytes" where
  "synthetic_publish_aich_hash sha1 file_hash file_name file_size =
     sha1 (list16 (ed2k_array file_hash) @ le_bytes 8 file_size @ file_name)"

subsection \<open>The user hash\<close>

definition emule_kad_chunk_order :: "u8x16 \<Rightarrow> u8x16" where
  "emule_kad_chunk_order b =
     (let bs = list16 b in
      Arr16 (concat (map (\<lambda>k. [bs ! (4 * k + 3), bs ! (4 * k + 2), bs ! (4 * k + 1), bs ! (4 * k)]) [0..<4])))"

definition source_publish_client_hash :: "u8x16 \<Rightarrow> node_id" where
  "source_publish_client_hash ed2k_user_hash = from_bytes (emule_kad_chunk_order ed2k_user_hash)"

definition normalize_ed2k_user_hash_markers :: "u8x16 \<Rightarrow> u8x16" where
  "normalize_ed2k_user_hash_markers user_hash = Arr16 ((list16 user_hash)[5 := 0x0E, 14 := 0x6F])"

definition ed2k_user_hash_is_bad :: "u8x16 \<Rightarrow> bool" where
  "ed2k_user_hash_is_bad user_hash \<longleftrightarrow>
     (let lo = le_word (take 8 (list16 user_hash)) :: u64;
          hi = le_word (drop 8 (list16 user_hash)) :: u64 in
      lo AND 0xffff00ffffffffff = 0 \<and> hi AND 0xff00ffffffffffff = 0)"

text \<open>The loop of \<open>create_ed2k_user_hash\<close>, over the draws of the random generator.\<close>

partial_function (option) create_ed2k_user_hash :: "(nat \<Rightarrow> u8x16) \<Rightarrow> nat \<Rightarrow> u8x16 option" where
  "create_ed2k_user_hash random k =
     (let user_hash = normalize_ed2k_user_hash_markers (random k) in
      if \<not> ed2k_user_hash_is_bad user_hash then Some user_hash else create_ed2k_user_hash random (Suc k))"

datatype file_error = ReadFailed | WriteFailed

text \<open>
  \<open>load_or_create_ed2k_user_hash\<close> on a file that is absent, unreadable or has a content, with the
  content of the file afterwards; \<open>writable\<close> says whether a write succeeds. A write that fails is taken
  to leave the file as it was.
\<close>

datatype file_state = Absent | Unreadable | Content bytes

definition create_and_write ::
  "(nat \<Rightarrow> u8x16) \<Rightarrow> bool \<Rightarrow> file_state \<Rightarrow> ((file_error + u8x16) \<times> file_state) option" where
  "create_and_write random writable file =
     map_option (\<lambda>user_hash.
       if writable then (Inr user_hash, Content (list16 user_hash)) else (Inl WriteFailed, file))
       (create_ed2k_user_hash random 0)"

definition load_or_create_ed2k_user_hash ::
  "(nat \<Rightarrow> u8x16) \<Rightarrow> bool \<Rightarrow> file_state \<Rightarrow> ((file_error + u8x16) \<times> file_state) option" where
  "load_or_create_ed2k_user_hash random writable file =
     (case file of
        Absent \<Rightarrow> create_and_write random writable file
      | Unreadable \<Rightarrow> Some (Inl ReadFailed, file)
      | Content bs \<Rightarrow>
          if length bs = 16 then
            let user_hash = Arr16 bs;
                normalized = normalize_ed2k_user_hash_markers user_hash in
            if \<not> ed2k_user_hash_is_bad normalized then
              if normalized \<noteq> user_hash then
                if writable then Some (Inr normalized, Content (list16 normalized)) else Some (Inl WriteFailed, file)
              else Some (Inr normalized, file)
            else create_and_write random writable file
          else create_and_write random writable file)"

subsection \<open>One seeding batch\<close>

record seed_context =
  sc_identity :: node_id
  sc_settings :: source_publish_settings
  sc_source :: seed_source
  sc_notes_publish_enabled :: bool
  sc_work_class :: work_class
  sc_publish_contact_fanout :: nat
  sc_own_id :: node_id

datatype publish_family = KeywordFamily | SourceFamily | NotesFamily

text \<open>
  \<open>sd_log\<close> collects the publishes with what they returned and the requests they sent, for statements
  about a batch; nothing reads it.
\<close>

record seed_state =
  sd_store :: kad_store
  sd_obs :: publish_observability
  sd_table :: routing_table
  sd_rpc :: rpc_state
  sd_log :: "(publish_family \<times> (dht_error + publish_stats) \<times> spawned_request list) list"

record seed_env =
  sdv_now :: "nat \<Rightarrow> publish_family \<Rightarrow> int"
  sdv_now_done :: "nat \<Rightarrow> int"
  sdv_publish :: "nat \<Rightarrow> publish_family \<Rightarrow> publish_env"
  sdv_others :: "nat \<Rightarrow> publish_family \<Rightarrow> seed_state \<Rightarrow> seed_state"

record seed_totals =
  tt_keyword :: publish_stats
  tt_source :: publish_stats
  tt_notes :: publish_stats

definition stats_default :: publish_stats where
  "stats_default = \<lparr> pa_closest_contacts_considered = 0, pa_attempted_contacts = 0, pa_acked_contacts = 0,
     pa_timed_out_contacts = 0 \<rparr>"

definition totals_default :: seed_totals where
  "totals_default = \<lparr> tt_keyword = stats_default, tt_source = stats_default, tt_notes = stats_default \<rparr>"

definition add_stats :: "publish_stats \<Rightarrow> dht_error + publish_stats \<Rightarrow> publish_stats" where
  "add_stats totals result =
     (case result of
        Inl _ \<Rightarrow> totals
      | Inr stats \<Rightarrow>
          \<lparr> pa_closest_contacts_considered = pa_closest_contacts_considered totals + pa_closest_contacts_considered stats,
            pa_attempted_contacts = pa_attempted_contacts totals + pa_attempted_contacts stats,
            pa_acked_contacts = pa_acked_contacts totals + pa_acked_contacts stats,
            pa_timed_out_contacts = pa_timed_out_contacts totals + pa_timed_out_contacts stats \<rparr>)"

definition keyword_tags_of :: "popular_hash \<Rightarrow> tag list" where
  "keyword_tags_of hash =
     [tag_filename (pop_canonical_name hash), tag_filesize (pop_size hash), tag_sources (pop_source_count hash)] @
     (case ed2k_file_type_search_term (pop_canonical_name hash) of None \<Rightarrow> [] | Some t \<Rightarrow> [tag_filetype t])"

text \<open>A publish updates the RPC state and sends its requests.\<close>

definition after_publish ::
  "publish_family \<Rightarrow> (dht_error + publish_stats) \<times> spawned_request list \<times> rpc_state \<Rightarrow> seed_state \<Rightarrow> seed_state" where
  "after_publish f out st = st\<lparr>sd_rpc := snd (snd out), sd_log := sd_log st @ [(f, fst out, fst (snd out))]\<rparr>"

definition seed_keyword ::
  "digest_fun \<Rightarrow> (bytes \<Rightarrow> bytes) \<Rightarrow> (bytes \<Rightarrow> bool) \<Rightarrow> (rstring \<Rightarrow> rstring) \<Rightarrow> seed_context \<Rightarrow> seed_env \<Rightarrow> nat \<Rightarrow>
     popular_hash \<Rightarrow> ed2k_hash \<Rightarrow> seed_totals \<times> seed_state \<Rightarrow> seed_totals \<times> seed_state" where
  "seed_keyword md4 sha1 alnum L c e k hash file_hash = (\<lambda>(totals, st).
     let keyword_hash = keyword_target md4 alnum L (pop_canonical_name hash);
         aich_hash = synthetic_publish_aich_hash sha1 file_hash (pop_canonical_name hash) (pop_size hash);
         keyword_tags = keyword_tags_of hash;
         st = st\<lparr>sd_store := snd (record_keyword_publish_batch keyword_hash
           [\<lparr> pe_hash = file_hash, pe_tags = keyword_tags \<rparr>] (sdv_now e k KeywordFamily) (sd_store st))\<rparr>;
         st = sdv_others e k KeywordFamily st;
         out = publish_keyword (sdv_publish e k KeywordFamily) keyword_hash file_hash keyword_tags (Some aich_hash)
           (sc_publish_contact_fanout c) (sc_work_class c) (sd_table st) (sd_rpc st) in
     (totals\<lparr>tt_keyword := add_stats (tt_keyword totals) (fst out)\<rparr>, after_publish KeywordFamily out st))"

definition seed_source_of ::
  "socket_addr \<Rightarrow> seed_context \<Rightarrow> seed_env \<Rightarrow> nat \<Rightarrow> popular_hash \<Rightarrow> ed2k_hash \<Rightarrow> seed_totals \<times> seed_state \<Rightarrow>
     seed_totals \<times> seed_state" where
  "seed_source_of bind_addr c e k hash file_hash = (\<lambda>(totals, st).
     let source_tags = build_source_publish_tags bind_addr (sc_settings c) (pop_size hash);
         st = (case fst bind_addr of
             V4 source_ip \<Rightarrow> st\<lparr>sd_store := snd (record_source_publish (from_be_bytes (ed2k_array file_hash))
               (sc_identity c) source_ip (snd bind_addr) source_tags (sdv_now e k SourceFamily) (sd_store st))\<rparr>
           | V6 _ \<Rightarrow> st);
         st = sdv_others e k SourceFamily st;
         out = publish_source (sdv_publish e k SourceFamily) (sc_identity c) file_hash source_tags
           (sc_publish_contact_fanout c) (sc_work_class c) (sd_table st) (sd_rpc st) in
     (totals\<lparr>tt_source := add_stats (tt_source totals) (fst out)\<rparr>, after_publish SourceFamily out st))"

definition seed_notes ::
  "socket_addr \<Rightarrow> seed_context \<Rightarrow> seed_env \<Rightarrow> nat \<Rightarrow> popular_hash \<Rightarrow> ed2k_hash \<Rightarrow> seed_totals \<times> seed_state \<Rightarrow>
     seed_totals \<times> seed_state" where
  "seed_notes bind_addr c e k hash file_hash = (\<lambda>(totals, st).
     let notes_tags = build_notes_publish_tags (pop_canonical_name hash) (pop_size hash);
         st = (case fst bind_addr of
             V4 notes_ip \<Rightarrow> st\<lparr>sd_store := snd (record_notes_publish (from_be_bytes (ed2k_array file_hash))
               (sc_own_id c) notes_ip notes_tags (sdv_now e k NotesFamily) (sd_store st))\<rparr>
           | V6 _ \<Rightarrow> st);
         st = sdv_others e k NotesFamily st;
         out = publish_notes (sdv_publish e k NotesFamily) file_hash (sc_own_id c) notes_tags
           (sc_publish_contact_fanout c) (sc_work_class c) (sd_table st) (sd_rpc st) in
     (totals\<lparr>tt_notes := add_stats (tt_notes totals) (fst out)\<rparr>, after_publish NotesFamily out st))"

definition notes_totals_of :: "seed_context \<Rightarrow> seed_totals \<Rightarrow> publish_stats option" where
  "notes_totals_of c totals = (if sc_notes_publish_enabled c then Some (tt_notes totals) else None)"

definition seed_item ::
  "digest_fun \<Rightarrow> (bytes \<Rightarrow> bytes) \<Rightarrow> (bytes \<Rightarrow> bool) \<Rightarrow> (rstring \<Rightarrow> rstring) \<Rightarrow> socket_addr \<Rightarrow> seed_context \<Rightarrow> seed_env \<Rightarrow>
     nat \<Rightarrow> popular_hash \<Rightarrow> ed2k_hash \<Rightarrow> seed_totals \<times> seed_state \<Rightarrow> seed_totals \<times> seed_state" where
  "seed_item md4 sha1 alnum L bind_addr c e k hash file_hash acc =
     (let acc = seed_keyword md4 sha1 alnum L c e k hash file_hash acc;
          acc = seed_source_of bind_addr c e k hash file_hash acc;
          (totals, st) =
            (if sc_notes_publish_enabled c then seed_notes bind_addr c e k hash file_hash acc else acc) in
      (totals, st\<lparr>sd_obs := update_publish_progress (sc_source c) (k + 1) (tt_keyword totals) (tt_source totals)
         (notes_totals_of c totals) (sdv_now_done e k) (sd_obs st)\<rparr>))"

datatype seed_error = NotBootstrapped | BindAddrFailed | InvalidEd2kHash rstring

text \<open>The loop over the hashes; \<open>None\<close> is the panic of \<open>Ed2kHash::from_str\<close>.\<close>

fun seed_loop ::
  "digest_fun \<Rightarrow> (bytes \<Rightarrow> bytes) \<Rightarrow> (bytes \<Rightarrow> bool) \<Rightarrow> (rstring \<Rightarrow> rstring) \<Rightarrow> socket_addr \<Rightarrow> seed_context \<Rightarrow> seed_env \<Rightarrow>
     nat \<Rightarrow> popular_hash list \<Rightarrow> seed_totals \<times> seed_state \<Rightarrow> ((seed_error + unit) \<times> seed_totals \<times> seed_state) option" where
  "seed_loop md4 sha1 alnum L bind_addr c e k [] acc = Some (Inr (), acc)"
| "seed_loop md4 sha1 alnum L bind_addr c e k (hash # hashes) acc =
     (case ed2k_from_str (pop_hash hash) of
        None \<Rightarrow> None
      | Some (Inl _) \<Rightarrow> Some (Inl (InvalidEd2kHash (pop_hash hash)), acc)
      | Some (Inr file_hash) \<Rightarrow>
          seed_loop md4 sha1 alnum L bind_addr c e (Suc k) hashes
            (seed_item md4 sha1 alnum L bind_addr c e k hash file_hash acc))"

definition seed_popular_impl ::
  "digest_fun \<Rightarrow> (bytes \<Rightarrow> bytes) \<Rightarrow> (bytes \<Rightarrow> bool) \<Rightarrow> (rstring \<Rightarrow> rstring) \<Rightarrow> bool \<Rightarrow> socket_addr option \<Rightarrow> seed_context \<Rightarrow>
     seed_env \<Rightarrow> int \<Rightarrow> int \<Rightarrow> popular_hash list \<Rightarrow> seed_state \<Rightarrow> ((seed_error + unit) \<times> seed_state) option" where
  "seed_popular_impl md4 sha1 alnum L bootstrapped bind_addr c e now_start now_end hashes st =
     (if \<not> bootstrapped then Some (Inl NotBootstrapped, st)
      else case bind_addr of
          None \<Rightarrow> Some (Inl BindAddrFailed, st)
        | Some bind_addr \<Rightarrow>
            let published_items = length hashes;
                totals = totals_default;
                st = st\<lparr>sd_obs := update_publish_progress (sc_source c) 0 (tt_keyword totals) (tt_source totals)
                  (notes_totals_of c totals) now_start (sd_obs st)\<rparr> in
            (case seed_loop md4 sha1 alnum L bind_addr c e 0 hashes (totals, st) of
               None \<Rightarrow> None
             | Some (Inl err, _, st) \<Rightarrow> Some (Inl err, st)
             | Some (Inr _, totals, st) \<Rightarrow>
                 Some (Inr (), st\<lparr>sd_obs := record_publish_summaries (sc_source c) published_items
                   (tt_keyword totals) (tt_source totals) (notes_totals_of c totals) now_end (sd_obs st)\<rparr>)))"

text \<open>\<open>seed_popular_from_source\<close>, which runs under the batch gate: the catalog first, then the batch.\<close>

definition seed_popular_from_source ::
  "digest_fun \<Rightarrow> (bytes \<Rightarrow> bytes) \<Rightarrow> (bytes \<Rightarrow> bool) \<Rightarrow> (rstring \<Rightarrow> rstring) \<Rightarrow> hex_ext \<Rightarrow> bool \<Rightarrow> socket_addr option \<Rightarrow>
     seed_context \<Rightarrow> seed_env \<Rightarrow> int \<Rightarrow> int \<Rightarrow> popular_hash list \<Rightarrow> shared_entry list \<times> seed_state \<Rightarrow>
     ((seed_error + unit) \<times> shared_entry list \<times> seed_state) option" where
  "seed_popular_from_source md4 sha1 alnum L H bootstrapped bind_addr c e now_start now_end hashes st =
     (case refresh_ed2k_shared_catalog md4 H hashes (fst st) of
        None \<Rightarrow> None
      | Some catalog \<Rightarrow>
          map_option (\<lambda>(r, s). (r, catalog, s))
            (seed_popular_impl md4 sha1 alnum L bootstrapped bind_addr c e now_start now_end hashes (snd st)))"

subsection \<open>Background loops\<close>

definition persisted_contact :: "obfuscation_layer \<Rightarrow> contact \<Rightarrow> bootstrap_contact" where
  "persisted_contact layer contact =
     \<lparr> bc_node_id = c_id contact, bc_ip = c_ip contact, bc_udp_port = c_udp_port contact,
       bc_tcp_port = c_tcp_port contact, bc_version = c_kad_version contact,
       bc_udp_key = (case receiver_verify_key_for_addr layer (addr_from_contact contact) of
           Some key \<Rightarrow> KadUdpKey key | None \<Rightarrow> c_udp_key contact) \<rparr>"

text \<open>The bytes \<open>persist_nodes_dat_for\<close> writes.\<close>

definition persist_nodes_dat_for :: "ext \<Rightarrow> routing_table \<times> rpc_state \<Rightarrow> bytes" where
  "persist_nodes_dat_for B st =
     encode_nodes_dat B (map (persisted_contact (rpc_obfuscation (snd st))) (all_contacts (fst st)))"

datatype task_status = BootRunning | BootShutDown | BootFinished | BootGaveUp | BootPanicked

text \<open>
  The bootstrap loop of \<open>spawn_bootstrap_publish_task\<close>: one element per round, with the shutdown flag
  and the bootstrap attempt of that round on the bootstrapped flag and the state. A round whose
  attempt succeeds ends the loop.
\<close>

type_synonym bootstrap_attempt = "bool \<Rightarrow> routing_table \<times> rpc_state \<Rightarrow> bootstrap_outcome option"

fun bootstrap_task ::
  "(bool \<times> bootstrap_attempt) list \<Rightarrow> bool \<Rightarrow> routing_table \<times> rpc_state \<Rightarrow>
     task_status \<times> bool \<times> routing_table \<times> rpc_state" where
  "bootstrap_task [] bootstrapped st = (BootRunning, bootstrapped, st)"
| "bootstrap_task ((shutdown, attempt) # rounds) bootstrapped st =
     (if shutdown then (BootShutDown, bootstrapped, st)
      else if bootstrapped then (BootFinished, bootstrapped, st)
      else case attempt bootstrapped st of
          None \<Rightarrow> (BootPanicked, bootstrapped, st)
        | Some out \<Rightarrow>
            (case bo_result out of
               Inr _ \<Rightarrow>
                 (if bo_bootstrapped out then BootFinished else BootGaveUp, bo_bootstrapped out, bo_state out)
             | Inl _ \<Rightarrow> bootstrap_task rounds (bo_bootstrapped out) (bo_state out)))"

text \<open>
  One tick of the synthetic drip: the batch to seed, if any, with the cursor and the number of ticks
  deferred because of active downloads.
\<close>

record drip_state =
  dr_cursor :: nat
  dr_deferred :: u8

definition drip_tick ::
  "digest_fun \<Rightarrow> hex_ext \<Rightarrow> nat \<Rightarrow> bool \<Rightarrow> bool \<Rightarrow> bool \<Rightarrow> bool \<Rightarrow> drip_state \<times> publish_observability \<Rightarrow>
     popular_hash list \<times> drip_state \<times> publish_observability" where
  "drip_tick md4 H batch_items shutdown bootstrapped downloads_active coordinator_has_hashes = (\<lambda>(d, po).
     if shutdown \<or> \<not> bootstrapped then ([], d, po)
     else
       let d = (if downloads_active then d\<lparr>dr_deferred := sat_add (dr_deferred d) 1\<rparr> else d\<lparr>dr_deferred := 0\<rparr>) in
       if downloads_active \<and> dr_deferred d < 8 then ([], d, po)
       else if coordinator_has_hashes then
         ([], d, set_synthetic_publish_queue_depth (length SYNTHETIC_POPULAR_SEEDS) po)
       else
         let (batch, cursor) = next_synthetic_publish_batch md4 H (dr_cursor d) batch_items in
         (batch, d\<lparr>dr_cursor := cursor\<rparr>, set_synthetic_publish_queue_depth (synthetic_publish_queue_depth cursor) po))"

end
