(* ===== verification/Kad_Traversal_Props.thy ===== *)
theory Kad_Traversal_Props
  imports Kad_Traversal Kad_Rpc_Props "HOL-Library.Sublist"
begin

text \<open>
  Properties of the iterative lookup: the candidate list stays sorted and free of duplicates, no
  contact is asked twice, at most \<open>ALPHA\<close> requests are in flight; what is settled when the loop
  ends by itself; that a lookup in a network whose members answer finds the member closest to the
  target; what one response can contribute; and the pacing of the search phase.
\<close>

subsection \<open>Candidate lists\<close>

abbreviation cid :: "traversal_candidate \<Rightarrow> node_id" where
  "cid c \<equiv> tc_id (cd_contact c)"

abbreviation ids :: "traversal_candidate list \<Rightarrow> node_id list" where
  "ids cs \<equiv> map (\<lambda>c. tc_id (cd_contact c)) cs"

definition st_ids :: "candidate_state \<Rightarrow> traversal_candidate list \<Rightarrow> node_id set" where
  "st_ids s cs = cid ` {c \<in> set cs. cd_state c = s}"

definition candidates_ok :: "node_id \<Rightarrow> traversal_candidate list \<Rightarrow> bool" where
  "candidates_ok target cs \<longleftrightarrow>
     sorted_wrt (<) (map cd_distance cs) \<and> map cd_distance cs = map (distance target) (ids cs)"

lemma distance_left_cancel [simp]: "distance t x = distance t y \<longleftrightarrow> x = y"
  by (simp add: distance_commute [of t])

lemma candidates_ok_distinct: "candidates_ok target cs \<Longrightarrow> distinct (ids cs)"
  unfolding candidates_ok_def by (metis distinct_map strict_sorted_iff)

lemma candidates_okD:
  "candidates_ok target cs \<Longrightarrow> c \<in> set cs \<Longrightarrow> cd_distance c = distance target (cid c)"
  unfolding candidates_ok_def by (auto simp: map_eq_conv)

lemma set_candidate_state_maps [simp]:
  "ids (set_candidate_state i s cs) = ids cs"
  "map cd_distance (set_candidate_state i s cs) = map cd_distance cs"
  "map cd_contact (set_candidate_state i s cs) = map cd_contact cs"
  by (induction cs) auto

lemma set_candidate_state_contacts [simp]:
  "cd_contact ` set (set_candidate_state i s cs) = cd_contact ` set cs"
  by (metis set_candidate_state_maps(3) set_map)

lemma candidates_ok_set_state [simp]:
  "candidates_ok target (set_candidate_state i s cs) = candidates_ok target cs"
  by (simp add: candidates_ok_def)

lemma set_candidate_state_absent: "i \<notin> set (ids cs) \<Longrightarrow> set_candidate_state i s cs = cs"
  by (induction cs) auto

lemma set_set_candidate_state:
  "distinct (ids cs) \<Longrightarrow> set (set_candidate_state i s cs) =
     {c \<in> set cs. cid c \<noteq> i} \<union> (\<lambda>c. c\<lparr>cd_state := s\<rparr>) ` {c \<in> set cs. cid c = i}"
  by (induction cs) (auto simp: set_candidate_state_absent)

lemma st_ids_set_state:
  assumes "distinct (ids cs)" "i \<in> set (ids cs)"
  shows "st_ids t (set_candidate_state i s cs) = (if t = s then insert i (st_ids t cs) else st_ids t cs - {i})"
proof -
  obtain c where c: "c \<in> set cs" "cid c = i" using assms by auto
  have "d = c" if "d \<in> set cs" "cid d = i" for d
    using assms(1) c that by (auto simp: distinct_map inj_on_def)
  then have "{d \<in> set cs. cid d = i} = {c}" using c by blast
  then have eq: "set (set_candidate_state i s cs) = insert (c\<lparr>cd_state := s\<rparr>) {d \<in> set cs. cid d \<noteq> i}"
    by (simp add: set_set_candidate_state [OF assms(1)])
  have "cid ` {d \<in> set cs. cid d \<noteq> i \<and> cd_state d = t} = st_ids t cs - {i}" by (auto simp: st_ids_def)
  moreover have "{d \<in> insert (c\<lparr>cd_state := s\<rparr>) {d \<in> set cs. cid d \<noteq> i}. cd_state d = t} =
      (if t = s then {c\<lparr>cd_state := s\<rparr>} else {}) \<union> {d \<in> set cs. cid d \<noteq> i \<and> cd_state d = t}"
    by auto
  ultimately show ?thesis using c(2) by (simp add: st_ids_def eq image_Un)
qed

lemma update_is_set_state:
  "distinct (ids cs) \<Longrightarrow> i < length cs \<Longrightarrow>
     cs[i := (cs ! i)\<lparr>cd_state := s\<rparr>] = set_candidate_state (cid (cs ! i)) s cs"
proof (induction cs arbitrary: i)
  case (Cons c cs)
  show ?case
  proof (cases i)
    case (Suc j)
    then have "cid (cs ! j) \<in> set (ids cs)" using Cons.prems by auto
    then show ?thesis using Suc Cons by auto
  qed simp
qed simp

lemma st_ids_cover: "set (ids cs) = st_ids PendingState cs \<union> st_ids Inflight cs \<union> st_ids Responded cs \<union> st_ids Failed cs"
proof -
  have "cd_state c \<in> {PendingState, Inflight, Responded, Failed}" for c :: traversal_candidate
    by (cases "cd_state c") auto
  then have "set cs = {c \<in> set cs. cd_state c = PendingState} \<union> {c \<in> set cs. cd_state c = Inflight}
      \<union> {c \<in> set cs. cd_state c = Responded} \<union> {c \<in> set cs. cd_state c = Failed}"
    by auto
  then have "cid ` set cs = cid ` ({c \<in> set cs. cd_state c = PendingState} \<union> {c \<in> set cs. cd_state c = Inflight}
      \<union> {c \<in> set cs. cd_state c = Responded} \<union> {c \<in> set cs. cd_state c = Failed})"
    by (rule arg_cong)
  then show ?thesis by (simp only: image_Un set_map st_ids_def)
qed

lemma st_ids_disjoint:
  "distinct (ids cs) \<Longrightarrow> s \<noteq> t \<Longrightarrow> st_ids s cs \<inter> st_ids t cs = {}"
  by (fastforce simp: st_ids_def distinct_map inj_on_def)

lemma finite_st_ids [simp]: "finite (st_ids s cs)"
  by (simp add: st_ids_def)

lemma card_st_ids:
  assumes "distinct (ids cs)"
  shows "length (filter (\<lambda>c. cd_state c = s) cs) = card (st_ids s cs)"
proof -
  have "distinct (ids (filter (\<lambda>c. cd_state c = s) cs))"
    using assms by (rule distinct_map_filter)
  then have "card (set (ids (filter (\<lambda>c. cd_state c = s) cs))) = length (filter (\<lambda>c. cd_state c = s) cs)"
    by (subst distinct_card) auto
  then show ?thesis by (simp add: st_ids_def)
qed

lemma insert_candidate_ok:
  assumes "candidates_ok target cs" "i \<notin> set (ids cs)" "c = make_candidate_for target t" "tc_id t = i"
  shows "candidates_ok target (insert_candidate c cs)"
    "set (insert_candidate c cs) = insert c (set cs)"
proof -
  let ?P = "\<lambda>x. cd_distance x < cd_distance c"
  have c: "cd_distance c = distance target i" "cid c = i" using assms by (auto simp: make_candidate_for_def)
  obtain xs ys where xs: "takeWhile ?P cs = xs" and ys: "dropWhile ?P cs = ys" by simp
  then have cs: "cs = xs @ ys" by (metis takeWhile_dropWhile_id)
  have ins: "insert_candidate c cs = xs @ c # ys" by (simp add: insert_candidate_def xs ys)
  then show "set (insert_candidate c cs) = insert c (set cs)" by (simp add: cs)
  have neq: "cd_distance x \<noteq> cd_distance c" if "x \<in> set cs" for x
    using that candidates_okD [OF assms(1) that] assms(2) c by (auto simp: image_iff)
  have lt: "cd_distance x < cd_distance c" if "x \<in> set xs" for x
    using that xs by (auto dest: set_takeWhileD)
  have s: "sorted_wrt (<) (map cd_distance (xs @ ys))"
    using assms(1) unfolding candidates_ok_def cs by (rule conjunct1)
  have gt: "cd_distance c < cd_distance x" if x: "x \<in> set ys" for x
  proof -
    obtain y zs where d: "ys = y # zs" using x by (cases ys) auto
    then have "\<not> ?P y" using ys by (metis dropWhile_eq_Cons_conv)
    moreover have "y \<in> set cs" using d cs by auto
    ultimately have "cd_distance c < cd_distance y" using neq by (meson linorder_neqE)
    moreover have "cd_distance y \<le> cd_distance x"
      using s d x by (auto simp: sorted_wrt_append intro: less_imp_le)
    ultimately show ?thesis by simp
  qed
  have "candidates_ok target (xs @ ys)" using assms(1) cs by simp
  then show "candidates_ok target (insert_candidate c cs)"
    using lt gt c unfolding ins candidates_ok_def
    by (auto simp: sorted_wrt_append intro: less_trans)
qed

subsection \<open>The invariant of the lookup\<close>

definition request_for :: "traversal_config \<Rightarrow> spawned_request \<Rightarrow> bool" where
  "request_for cfg q \<longleftrightarrow> sq_packet q = Req \<lparr> rq_count = req_count_for (tg_search_kind cfg),
     rq_target = tg_target cfg, rq_recipient_id = tc_id (sq_contact q) \<rparr> \<and>
     sq_timeout q \<le> tg_query_timeout cfg"

abbreviation asked :: "traversal_state \<Rightarrow> node_id list" where
  "asked ts \<equiv> map (\<lambda>q. tc_id (sq_contact q)) (ts_spawned ts)"

definition lookup_inv :: "traversal_config \<Rightarrow> traversal_state \<Rightarrow> bool" where
  "lookup_inv cfg ts \<longleftrightarrow>
     candidates_ok (tg_target cfg) (ts_candidates ts) \<and>
     ts_seen ts = set (ids (ts_candidates ts)) \<and>
     distinct (ts_join_set ts) \<and> set (ts_join_set ts) \<subseteq> st_ids Inflight (ts_candidates ts) \<and>
     card (st_ids Inflight (ts_candidates ts)) \<le> ALPHA \<and>
     distinct (asked ts) \<and> set (asked ts) = ts_seen ts - st_ids PendingState (ts_candidates ts) \<and>
     sq_contact ` set (ts_spawned ts) \<subseteq> cd_contact ` set (ts_candidates ts) \<and>
     list_all (request_for cfg) (ts_spawned ts)"

lemma dedup_by_id_subset: "set (dedup_by_id cs) \<subseteq> set cs"
  by (induction cs rule: dedup_by_id.induct) auto

lemma dedup_by_id_ids: "set (ids (dedup_by_id cs)) = set (ids cs)"
  by (induction cs rule: dedup_by_id.induct) (auto simp: image_iff)

lemma dedup_by_id_sorted:
  "sorted (map cd_distance cs) \<Longrightarrow> \<forall>c \<in> set cs. cd_distance c = distance target (cid c) \<Longrightarrow>
     sorted_wrt (<) (map cd_distance (dedup_by_id cs))"
proof (induction cs rule: dedup_by_id.induct)
  case (3 c d cs)
  have "cd_distance c < cd_distance x" if "cid c \<noteq> cid d" "x \<in> set (dedup_by_id (d # cs))" for x
  proof -
    have "x \<in> set (d # cs)" using that(2) dedup_by_id_subset by blast
    then have "cd_distance d \<le> cd_distance x" using 3(3) by auto
    moreover have "cd_distance c < cd_distance d" using 3(3,4) that(1) by (auto simp: order_less_le)
    ultimately show ?thesis by simp
  qed
  then show ?case using 3 by auto
qed auto

lemma initial_state_pending:
  "c \<in> set (ts_candidates (initial_state target cs rpc)) \<Longrightarrow>
     cd_state c = PendingState \<and> cd_distance c = distance target (cid c) \<and> cd_contact c \<in> set cs"
  using dedup_by_id_subset [of "sort_key cd_distance (map (make_candidate_for target) cs)"]
  by (auto simp: initial_state_def Let_def make_candidate_for_def)

lemma initial_state_inv: "lookup_inv cfg (initial_state (tg_target cfg) cs rpc)"
proof -
  let ?cs = "sort_key cd_distance (map (make_candidate_for (tg_target cfg)) cs)"
  let ?ds = "dedup_by_id ?cs"
  have d: "\<forall>c \<in> set ?cs. cd_distance c = distance (tg_target cfg) (cid c) \<and> cd_state c = PendingState"
    by (auto simp: make_candidate_for_def)
  then have "sorted_wrt (<) (map cd_distance ?ds)"
    by (intro dedup_by_id_sorted [of _ "tg_target cfg"]) auto
  moreover have e: "\<forall>c \<in> set ?ds. cd_distance c = distance (tg_target cfg) (cid c) \<and> cd_state c = PendingState"
    using initial_state_pending [of _ "tg_target cfg" cs] by (auto simp: initial_state_def Let_def)
  ultimately have "candidates_ok (tg_target cfg) ?ds" by (simp add: candidates_ok_def)
  moreover have "st_ids Inflight ?ds = {}" "st_ids PendingState ?ds = set (ids ?ds)"
    using e by (auto simp: st_ids_def)
  ultimately show ?thesis by (simp add: lookup_inv_def initial_state_def Let_def)
qed

lemma launch_query_inv:
  fixes r :: nat
  assumes "lookup_inv cfg ts" "i < length (ts_candidates ts)" "cd_state (ts_candidates ts ! i) = PendingState"
    and "card (st_ids Inflight (ts_candidates ts)) < ALPHA"
  defines "ts' \<equiv> launch_query cfg r i ts" and "x \<equiv> cid (ts_candidates ts ! i)"
  shows "lookup_inv cfg ts'"
    "ts_candidates ts' = set_candidate_state x Inflight (ts_candidates ts)"
    "st_ids Inflight (ts_candidates ts') = insert x (st_ids Inflight (ts_candidates ts))"
    "ts_join_set ts' = ts_join_set ts @ [x]"
    "x \<notin> st_ids Inflight (ts_candidates ts)"
proof -
  let ?cs = "ts_candidates ts"
  have ok: "candidates_ok (tg_target cfg) ?cs" using assms(1) by (simp add: lookup_inv_def)
  note dist = candidates_ok_distinct [OF ok]
  have x: "x \<in> set (ids ?cs)" "x \<in> st_ids PendingState ?cs"
    using assms(2,3) by (auto simp: x_def st_ids_def)
  then show fresh: "x \<notin> st_ids Inflight ?cs" using st_ids_disjoint [OF dist, of PendingState Inflight] by auto
  show cs': "ts_candidates ts' = set_candidate_state x Inflight ?cs"
    unfolding ts'_def x_def launch_query_candidates using dist assms(2) by (rule update_is_set_state)
  note st = st_ids_set_state [OF dist x(1)]
  show "st_ids Inflight (ts_candidates ts') = insert x (st_ids Inflight ?cs)" by (simp add: cs' st)
  show join: "ts_join_set ts' = ts_join_set ts @ [x]" by (simp add: ts'_def x_def launch_query_def Let_def)
  have sp: "ts_spawned ts' = ts_spawned ts @ [\<lparr> sq_contact = cd_contact (?cs ! i),
      sq_packet = Req \<lparr> rq_count = req_count_for (tg_search_kind cfg), rq_target = tg_target cfg,
        rq_recipient_id = x \<rparr>, sq_timeout = min (tg_query_timeout cfg) r \<rparr>]"
    by (simp add: ts'_def x_def launch_query_def Let_def)
  have idset: "set (ids (ts_candidates ts')) = set (ids ?cs)" unfolding cs' set_candidate_state_maps ..
  have "set (ids ?cs) - (st_ids PendingState ?cs - {x}) = insert x (set (ids ?cs) - st_ids PendingState ?cs)"
    using x by auto
  moreover have "?cs ! i \<in> set ?cs" using assms(2) by simp
  ultimately show "lookup_inv cfg ts'"
    using assms(1,4) fresh x idset
    by (auto simp: lookup_inv_def cs' st join sp request_for_def x_def [symmetric] ts'_def [symmetric]
        card_insert_if simp del: set_map simp: launch_query_frame(1) [of cfg r i ts, folded ts'_def])
qed

lemma launch_fold_inv:
  fixes r :: nat
  assumes "lookup_inv cfg ts" "launchable is (ts_candidates ts)"
    and "card (st_ids Inflight (ts_candidates ts)) + length is \<le> ALPHA"
  defines "ts' \<equiv> fold (launch_query cfg r) is ts"
  shows "lookup_inv cfg ts' \<and>
    (st_ids Inflight (ts_candidates ts) = set (ts_join_set ts) \<longrightarrow>
       st_ids Inflight (ts_candidates ts') = set (ts_join_set ts')) \<and>
    length (ts_join_set ts') = length (ts_join_set ts) + length is \<and>
    map cd_contact (ts_candidates ts') = map cd_contact (ts_candidates ts) \<and>
    st_ids Responded (ts_candidates ts') = st_ids Responded (ts_candidates ts) \<and>
    st_ids Failed (ts_candidates ts') = st_ids Failed (ts_candidates ts)"
  using assms(1-3) unfolding ts'_def
proof (induction "is" arbitrary: ts)
  case (Cons i "is")
  let ?ts = "launch_query cfg r i ts" and ?x = "cid (ts_candidates ts ! i)"
  have i: "i < length (ts_candidates ts)" "cd_state (ts_candidates ts ! i) = PendingState"
    using Cons.prems(2) by (auto simp: launchable_def)
  have few: "card (st_ids Inflight (ts_candidates ts)) < ALPHA" using Cons.prems(3) by simp
  note l = launch_query_inv(1-4) [OF Cons.prems(1) i few, of r] launch_query_inv(5) [OF Cons.prems(1) i few]
  have "launchable is (ts_candidates ?ts)"
    unfolding launch_query_candidates using Cons.prems(2) by (rule launchable_step)
  note go = this
  have "card (st_ids Inflight (ts_candidates ?ts)) + length is \<le> ALPHA"
    using Cons.prems(3) l(3,5) by simp
  note go = go this
  have ok: "distinct (ids (ts_candidates ts))" "?x \<in> set (ids (ts_candidates ts))"
    using Cons.prems(1) i(1) by (auto simp: lookup_inv_def candidates_ok_distinct)
  have "?x \<in> st_ids PendingState (ts_candidates ts)" using i by (auto simp: st_ids_def)
  then have dis: "?x \<notin> st_ids s (ts_candidates ts)" if "s \<noteq> PendingState" for s
    using st_ids_disjoint [OF ok(1) that] by blast
  have eqs: "map cd_contact (ts_candidates ?ts) = map cd_contact (ts_candidates ts)"
    "st_ids Responded (ts_candidates ?ts) = st_ids Responded (ts_candidates ts)"
    "st_ids Failed (ts_candidates ?ts) = st_ids Failed (ts_candidates ts)"
    using dis by (simp_all add: l(2) st_ids_set_state [OF ok])
  show ?case using Cons.IH [OF l(1) go] l(3,4) eqs by auto
qed simp

lemma launch_queries_inv:
  fixes r :: nat
  assumes "lookup_inv cfg ts"
  defines "ts' \<equiv> launch_queries cfg r ts"
  shows "lookup_inv cfg ts'"
    "st_ids Inflight (ts_candidates ts) = set (ts_join_set ts) \<Longrightarrow>
       st_ids Inflight (ts_candidates ts') = set (ts_join_set ts')"
    "map cd_contact (ts_candidates ts') = map cd_contact (ts_candidates ts)"
    "st_ids Responded (ts_candidates ts') = st_ids Responded (ts_candidates ts)"
    "st_ids Failed (ts_candidates ts') = st_ids Failed (ts_candidates ts)"
    "ts_join_set ts' = [] \<Longrightarrow> ts' = ts \<and> ts_join_set ts = [] \<and>
       (st_ids Inflight (ts_candidates ts) = {} \<longrightarrow> st_ids PendingState (ts_candidates ts) = {})"
proof -
  let ?n = "ALPHA - card (st_ids Inflight (ts_candidates ts))"
  let ?is = "pending_closest ?n (ts_candidates ts)"
  have ok: "distinct (ids (ts_candidates ts))" and le: "card (st_ids Inflight (ts_candidates ts)) \<le> ALPHA"
    using assms by (auto simp: lookup_inv_def candidates_ok_distinct)
  have def: "ts' = fold (launch_query cfg r) ?is ts"
    by (simp add: ts'_def launch_queries_def count_if_def card_st_ids [OF ok])
  have "length ?is \<le> ?n" by (simp add: pending_closest_def)
  then have "card (st_ids Inflight (ts_candidates ts)) + length ?is \<le> ALPHA" using le by simp
  note * = launch_fold_inv [OF assms(1) launchable_pending_closest this, of r, folded def]
  show "lookup_inv cfg ts'"
    "st_ids Inflight (ts_candidates ts) = set (ts_join_set ts) \<Longrightarrow>
       st_ids Inflight (ts_candidates ts') = set (ts_join_set ts')"
    "map cd_contact (ts_candidates ts') = map cd_contact (ts_candidates ts)"
    "st_ids Responded (ts_candidates ts') = st_ids Responded (ts_candidates ts)"
    "st_ids Failed (ts_candidates ts') = st_ids Failed (ts_candidates ts)"
    using * by auto
  assume "ts_join_set ts' = []"
  then have e: "?is = []" "ts_join_set ts = []" using * by auto
  have "st_ids PendingState (ts_candidates ts) = {}" if "st_ids Inflight (ts_candidates ts) = {}"
  proof -
    have "?n = ALPHA" using that by simp
    then have "filter (\<lambda>(_, c). cd_state c = PendingState) (enumerate 0 (ts_candidates ts)) = []"
      using e(1) by (simp add: pending_closest_def ALPHA_def)
    then have "cd_state c \<noteq> PendingState" if "(k, c) \<in> set (enumerate 0 (ts_candidates ts))" for k c
      using that by (auto simp: filter_empty_conv)
    moreover have "snd ` set (enumerate 0 (ts_candidates ts)) = set (ts_candidates ts)"
      by (metis map_snd_enumerate set_map)
    ultimately have "\<forall>c \<in> set (ts_candidates ts). cd_state c \<noteq> PendingState" by force
    then show ?thesis by (auto simp: st_ids_def)
  qed
  then show "ts' = ts \<and> ts_join_set ts = [] \<and>
       (st_ids Inflight (ts_candidates ts) = {} \<longrightarrow> st_ids PendingState (ts_candidates ts) = {})"
    using e by (simp add: def)
qed

lemma absorb_contacts_inv:
  assumes "absorb_contacts target es (seen, cs) = (seen', cs')" "candidates_ok target cs" "seen = set (ids cs)"
  shows "candidates_ok target cs' \<and> seen' = set (ids cs') \<and> set cs \<subseteq> set cs' \<and>
    (\<forall>c \<in> set cs' - set cs. cd_state c = PendingState \<and>
       cd_contact c \<in> entry_contact ` set es) \<and>
    (\<forall>e \<in> set es. ce_ip e \<noteq> 0 \<and> ce_udp_port e \<noteq> 0 \<longrightarrow> ce_node_id e \<in> seen')"
  using assms
proof (induction es arbitrary: seen cs)
  case (Cons e es)
  let ?c = "make_candidate_for target (entry_contact e)"
  show ?case
  proof (cases "ce_node_id e \<in> seen \<or> ce_ip e = 0 \<or> ce_udp_port e = 0")
    case True
    then have "absorb_contacts target es (seen, cs) = (seen', cs')" using Cons.prems(1) by (auto split: if_splits)
    note IH = Cons.IH [OF this Cons.prems(2,3)]
    then have "ce_node_id e \<in> seen'" if "ce_node_id e \<in> seen"
      using that Cons.prems(3) by auto
    then show ?thesis using IH True by auto
  next
    case False
    note ins = insert_candidate_ok [of target cs "ce_node_id e" ?c, OF Cons.prems(2) _ refl]
    have new: "ce_node_id e \<notin> set (ids cs)" using False Cons.prems(3) by simp
    have "absorb_contacts target es (insert (ce_node_id e) seen, insert_candidate ?c cs) = (seen', cs')"
      using Cons.prems(1) False by simp
    moreover have "candidates_ok target (insert_candidate ?c cs)" using ins(1) new by (simp add: entry_contact_def)
    moreover have s: "set (insert_candidate ?c cs) = insert ?c (set cs)" using ins(2) new by (simp add: entry_contact_def)
    then have "insert (ce_node_id e) seen = set (ids (insert_candidate ?c cs))"
      using Cons.prems(3) by (simp add: make_candidate_for_def entry_contact_def)
    ultimately have IH: "candidates_ok target cs' \<and> seen' = set (ids cs') \<and> set (insert_candidate ?c cs) \<subseteq> set cs' \<and>
      (\<forall>c \<in> set cs' - set (insert_candidate ?c cs). cd_state c = PendingState \<and>
         cd_contact c \<in> entry_contact ` set es) \<and>
      (\<forall>e \<in> set es. ce_ip e \<noteq> 0 \<and> ce_udp_port e \<noteq> 0 \<longrightarrow> ce_node_id e \<in> seen')"
      by (rule Cons.IH)
    have c: "cd_state ?c = PendingState" "cid ?c = ce_node_id e" "cd_contact ?c = entry_contact e"
      by (simp_all add: make_candidate_for_def entry_contact_def)
    have "?c \<in> set cs'" using IH s by auto
    then have "ce_node_id e \<in> seen'" using IH c(2) by (metis (no_types) imageI list.set_map)
    then show ?thesis using IH s c by auto
  qed
qed auto

lemma st_ids_pending_grow:
  assumes "set cs \<subseteq> set cs'" "\<forall>c \<in> set cs' - set cs. cd_state c = PendingState" "s \<noteq> PendingState"
  shows "st_ids s cs' = st_ids s cs"
proof -
  have "{c \<in> set cs'. cd_state c = s} = {c \<in> set cs. cd_state c = s}" using assms by auto
  then show ?thesis by (simp add: st_ids_def)
qed

lemma set_remove_nth:
  "distinct xs \<Longrightarrow> k < length xs \<Longrightarrow> set (remove_nth k xs) = set xs - {xs ! k} \<and> distinct (remove_nth k xs)"
proof -
  assume d: "distinct xs" and k: "k < length xs"
  have "distinct (take k xs @ xs ! k # drop (Suc k) xs)" using d k by (simp add: id_take_nth_drop [symmetric])
  moreover have "set xs = set (take k xs @ xs ! k # drop (Suc k) xs)" using k by (simp add: id_take_nth_drop [symmetric])
  ultimately show ?thesis by (auto simp: remove_nth_def)
qed

text \<open>Settling an outstanding request, before the contacts of the answer are absorbed.\<close>

lemma settle_inv:
  assumes inv: "lookup_inv cfg ts" and i: "i \<in> set (ts_join_set ts)"
    and js: "set js = set (ts_join_set ts) - {i}" "distinct js" and s: "s = Responded \<or> s = Failed"
    and ts': "ts_candidates ts' = set_candidate_state i s (ts_candidates ts)" "ts_join_set ts' = js"
      "ts_seen ts' = ts_seen ts" "ts_spawned ts' = ts_spawned ts"
  shows "lookup_inv cfg ts'"
    "st_ids Inflight (ts_candidates ts') = st_ids Inflight (ts_candidates ts) - {i}"
proof -
  let ?cs = "ts_candidates ts"
  have d: "distinct (ids ?cs)" using inv by (auto simp: lookup_inv_def candidates_ok_distinct)
  have infl: "i \<in> st_ids Inflight ?cs" using inv i by (auto simp: lookup_inv_def)
  then have mem: "i \<in> set (ids ?cs)" using st_ids_cover [of ?cs] by blast
  have np: "i \<notin> st_ids PendingState ?cs" using st_ids_disjoint [OF d, of Inflight PendingState] infl by auto
  note st = st_ids_set_state [OF d mem]
  show "st_ids Inflight (ts_candidates ts') = st_ids Inflight ?cs - {i}" using s by (auto simp: ts' st)
  have "card (st_ids Inflight ?cs - {i}) \<le> card (st_ids Inflight ?cs)" by (rule card_mono) auto
  then show "lookup_inv cfg ts'"
    using inv js s np by (auto simp: lookup_inv_def ts' st simp del: set_map)
qed

lemma apply_query_result_failed:
  "\<forall>r. res \<noteq> Inr (Res r) \<Longrightarrow> apply_query_result cfg i res now ts =
     (False, ts\<lparr>ts_candidates := set_candidate_state i Failed (ts_candidates ts)\<rparr>)"
  by (auto simp: apply_query_result_def split: sum.splits kad_packet.splits)

lemma apply_query_result_cases:
  assumes "apply_query_result cfg i res now ts = (skip, ts')"
  obtains (failed) "\<forall>r. res \<noteq> Inr (Res r)" "\<not> skip"
      "ts' = ts\<lparr>ts_candidates := set_candidate_state i Failed (ts_candidates ts)\<rparr>"
  | (dropped) r us where "res = Inr (Res r)" skip "ts' = us"
      "us = ts\<lparr>ts_last_response := Some now, ts_candidates := set_candidate_state i Responded (ts_candidates ts)\<rparr>"
      "sanitize_res_contacts (rs_contacts r) (case candidate_with i (ts_candidates us) of
         None \<Rightarrow> (V4 (Ipv4 0 0 0 0), 0) | Some c \<Rightarrow> tc_addr (cd_contact c))
         (unat (req_count_for (tg_search_kind cfg))) = None"
  | (absorbed) r us es seen cs where "res = Inr (Res r)" "\<not> skip"
      "us = ts\<lparr>ts_last_response := Some now, ts_candidates := set_candidate_state i Responded (ts_candidates ts)\<rparr>"
      "sanitize_res_contacts (rs_contacts r) (case candidate_with i (ts_candidates us) of
         None \<Rightarrow> (V4 (Ipv4 0 0 0 0), 0) | Some c \<Rightarrow> tc_addr (cd_contact c))
         (unat (req_count_for (tg_search_kind cfg))) = Some es"
      "absorb_contacts (tg_target cfg) es (ts_seen us, ts_candidates us) = (seen, cs)"
      "ts' = us\<lparr>ts_seen := seen, ts_candidates := cs\<rparr>"
proof (cases "\<exists>r. res = Inr (Res r)")
  case False
  then show ?thesis using assms failed by (auto simp: apply_query_result_failed)
next
  case True
  then obtain r where r: "res = Inr (Res r)" by blast
  let ?us = "ts\<lparr>ts_last_response := Some now, ts_candidates := set_candidate_state i Responded (ts_candidates ts)\<rparr>"
  let ?san = "sanitize_res_contacts (rs_contacts r) (case candidate_with i (ts_candidates ?us) of
         None \<Rightarrow> (V4 (Ipv4 0 0 0 0), 0) | Some c \<Rightarrow> tc_addr (cd_contact c))
         (unat (req_count_for (tg_search_kind cfg)))"
  show ?thesis
  proof (cases ?san)
    case None
    then have "(skip, ts') = (True, ?us)" using assms r by (simp add: apply_query_result_def)
    then show ?thesis using dropped [OF r _ _ refl None] by simp
  next
    case (Some es)
    obtain seen cs where a: "absorb_contacts (tg_target cfg) es (ts_seen ?us, ts_candidates ?us) = (seen, cs)"
      by (cases "absorb_contacts (tg_target cfg) es (ts_seen ?us, ts_candidates ?us)")
    then have "(skip, ts') = (False, ?us\<lparr>ts_seen := seen, ts_candidates := cs\<rparr>)"
      using assms r Some by (simp add: apply_query_result_def)
    then show ?thesis using absorbed [OF r _ refl Some a] by simp
  qed
qed

lemma apply_query_result_inv:
  assumes inv: "lookup_inv cfg ts" and i: "i \<in> set (ts_join_set ts)"
    and js: "set js = set (ts_join_set ts) - {i}" "distinct js"
    and ap: "apply_query_result cfg i res now (ts\<lparr>ts_join_set := js\<rparr>) = (skip, ts')"
  shows "lookup_inv cfg ts' \<and>
      st_ids Inflight (ts_candidates ts') = st_ids Inflight (ts_candidates ts) - {i} \<and> ts_join_set ts' = js"
  using ap
proof (cases rule: apply_query_result_cases)
  case failed
  then show ?thesis using settle_inv [OF inv i js, of Failed ts'] by simp
next
  case (dropped r us)
  then show ?thesis using settle_inv [OF inv i js, of Responded ts'] by simp
next
  case (absorbed r u es seen cs)
  have u: "lookup_inv cfg u" "st_ids Inflight (ts_candidates u) = st_ids Inflight (ts_candidates ts) - {i}"
    using settle_inv [OF inv i js, of Responded u] absorbed(3) by simp_all
  have a: "candidates_ok (tg_target cfg) cs" "seen = set (ids cs)" "set (ts_candidates u) \<subseteq> set cs"
    "\<forall>c \<in> set cs - set (ts_candidates u). cd_state c = PendingState"
    using absorb_contacts_inv [OF absorbed(5)] u by (auto simp: lookup_inv_def)
  note g = st_ids_pending_grow [OF a(3,4)]
  have settled: "set (ids ds) - st_ids PendingState ds = st_ids Inflight ds \<union> st_ids Responded ds \<union> st_ids Failed ds"
    if "candidates_ok (tg_target cfg) ds" for ds
    using st_ids_cover [of ds] st_ids_disjoint [OF candidates_ok_distinct [OF that], of PendingState] by auto
  have "seen - st_ids PendingState cs = set (ids (ts_candidates u)) - st_ids PendingState (ts_candidates u)"
    using settled [OF a(1)] settled [of "ts_candidates u"] u(1) g a(2) by (simp add: lookup_inv_def)
  moreover have "sq_contact ` set (ts_spawned u) \<subseteq> cd_contact ` set cs"
    using u(1) a(3) unfolding lookup_inv_def by (meson image_mono order_trans)
  moreover have "ts_join_set u = js" using absorbed(3) by simp
  ultimately show ?thesis
    using u a(1,2) g absorbed(6) by (simp add: lookup_inv_def del: set_map)
qed

definition after_launch :: "traversal_config \<Rightarrow> nat \<Rightarrow> round_env \<Rightarrow> traversal_state \<Rightarrow> traversal_state" where
  "after_launch cfg deadline e ts =
     (let ts = launch_queries cfg (deadline - rd_now e) ts in ts\<lparr>ts_rpc := rd_others e (ts_rpc ts)\<rparr>)"

definition drop_task :: "nat \<Rightarrow> traversal_state \<Rightarrow> traversal_state" where
  "drop_task n ts = ts\<lparr>ts_join_set := remove_nth (n mod length (ts_join_set ts)) (ts_join_set ts)\<rparr>"

definition task_at :: "nat \<Rightarrow> traversal_state \<Rightarrow> node_id" where
  "task_at n ts = ts_join_set ts ! (n mod length (ts_join_set ts))"

lemma lookup_round_cases:
  assumes "lookup_round cfg deadline e ts = (r, ts')"
  obtains (stopped) "r = Some Interrupted" "ts' = ts" "rd_cancelled e \<or> deadline \<le> rd_now e"
  | (exhausted) "r = Some NothingLeft" "ts' = launch_queries cfg (deadline - rd_now e) ts" "ts_join_set ts' = []"
  | (interrupted) "r = Some Interrupted" "ts' = after_launch cfg deadline e ts"
      "rd_event e = WaitCancelled \<or> rd_event e = WaitTimedOut"
  | (panicked) n where "r = None" "rd_event e = TaskPanicked n"
      "ts_join_set (after_launch cfg deadline e ts) \<noteq> []" "ts' = drop_task n (after_launch cfg deadline e ts)"
  | (finished) n answer now i skip where "rd_event e = TaskFinished n answer now"
      "ts_join_set (after_launch cfg deadline e ts) \<noteq> []" "i = task_at n (after_launch cfg deadline e ts)"
      "apply_query_result cfg i (answer i) now (drop_task n (after_launch cfg deadline e ts)) = (skip, ts')"
      "r = (if skip then None else finish_check cfg (ts_candidates ts'))"
proof -
  let ?ts = "launch_queries cfg (deadline - rd_now e) ts" and ?us = "after_launch cfg deadline e ts"
  have j: "ts_join_set ?us = ts_join_set ?ts" by (simp add: after_launch_def Let_def)
  consider "rd_cancelled e \<or> deadline \<le> rd_now e" | "\<not> rd_cancelled e" "rd_now e < deadline" "ts_join_set ?ts = []"
    | "\<not> rd_cancelled e" "rd_now e < deadline" "ts_join_set ?ts \<noteq> []"
    by linarith
  then show thesis
  proof cases
    case 1
    then show ?thesis using assms stopped by (cases "rd_cancelled e") (simp_all add: lookup_round_def)
  next
    case 2
    then have "r = Some NothingLeft" "ts' = ?ts" using assms by (simp_all add: lookup_round_def Let_def)
    then show ?thesis using exhausted 2 by blast
  next
    case 3
    then have go: "(r, ts') = (case rd_event e of
        WaitCancelled \<Rightarrow> (Some Interrupted, ?us) | WaitTimedOut \<Rightarrow> (Some Interrupted, ?us)
      | TaskPanicked n \<Rightarrow> (None, drop_task n ?us)
      | TaskFinished n answer now \<Rightarrow>
          let (skip, ts) = apply_query_result cfg (task_at n ?us) (answer (task_at n ?us)) now (drop_task n ?us) in
          (if skip then None else finish_check cfg (ts_candidates ts), ts))"
      using assms by (cases "rd_event e")
        (simp_all add: lookup_round_def Let_def after_launch_def drop_task_def task_at_def)
    show ?thesis
    proof (cases "rd_event e")
      case (TaskFinished n answer now)
      let ?i = "task_at n ?us"
      obtain skip us where "apply_query_result cfg ?i (answer ?i) now (drop_task n ?us) = (skip, us)"
        by (cases "apply_query_result cfg ?i (answer ?i) now (drop_task n ?us)")
      then show ?thesis using finished [OF TaskFinished _ refl] 3 j go TaskFinished by simp
    next
      case (TaskPanicked n)
      then show ?thesis using panicked [OF _ TaskPanicked] 3 j go by simp
    qed (use interrupted go in simp_all)
  qed
qed

lemma after_launch_inv:
  fixes deadline :: nat and e :: round_env
  assumes "lookup_inv cfg ts"
  defines "us \<equiv> after_launch cfg deadline e ts"
  shows "lookup_inv cfg us"
    "st_ids Inflight (ts_candidates ts) = set (ts_join_set ts) \<Longrightarrow>
       st_ids Inflight (ts_candidates us) = set (ts_join_set us)"
    "map cd_contact (ts_candidates us) = map cd_contact (ts_candidates ts)"
    "st_ids Responded (ts_candidates us) = st_ids Responded (ts_candidates ts)"
    "st_ids Failed (ts_candidates us) = st_ids Failed (ts_candidates ts)"
  using launch_queries_inv(1-5) [OF assms(1), of "deadline - rd_now e"]
  unfolding us_def after_launch_def Let_def by (simp_all add: lookup_inv_def)

lemma drop_task_set:
  assumes "lookup_inv cfg ts" "ts_join_set ts \<noteq> []"
  shows "set (ts_join_set (drop_task n ts)) = set (ts_join_set ts) - {task_at n ts}"
    "distinct (ts_join_set (drop_task n ts))" "task_at n ts \<in> set (ts_join_set ts)"
proof -
  have "n mod length (ts_join_set ts) < length (ts_join_set ts)" "distinct (ts_join_set ts)"
    using assms by (auto simp: lookup_inv_def)
  then show "set (ts_join_set (drop_task n ts)) = set (ts_join_set ts) - {task_at n ts}"
    "distinct (ts_join_set (drop_task n ts))" "task_at n ts \<in> set (ts_join_set ts)"
    using set_remove_nth [of "ts_join_set ts" "n mod length (ts_join_set ts)"]
    by (simp_all add: drop_task_def task_at_def)
qed

lemma lookup_round_inv:
  assumes inv: "lookup_inv cfg ts" and rd: "lookup_round cfg deadline e ts = (r, ts')"
  shows "lookup_inv cfg ts'"
  using rd
proof (cases rule: lookup_round_cases)
  case exhausted
  then show ?thesis using launch_queries_inv(1) [OF inv] by simp
next
  case (panicked n)
  let ?us = "after_launch cfg deadline e ts"
  have u: "lookup_inv cfg ?us" by (rule after_launch_inv(1) [OF inv])
  then show ?thesis
    using drop_task_set [OF u panicked(3), of n] panicked(4) by (auto simp: lookup_inv_def drop_task_def)
next
  case (finished n answer now i skip)
  let ?us = "after_launch cfg deadline e ts"
  have u: "lookup_inv cfg ?us" by (rule after_launch_inv(1) [OF inv])
  note d = drop_task_set [OF u finished(2), of n]
  show ?thesis
    using apply_query_result_inv [OF u _ _ d(2), of i "answer i" now skip ts'] d finished(3,4)
    by (simp add: drop_task_def)
qed (use inv after_launch_inv(1) in auto)

lemma lookup_loop_inv:
  "lookup_inv cfg ts \<Longrightarrow> lookup_inv cfg (snd (lookup_loop cfg deadline env i ts))"
proof (induction cfg deadline env i ts rule: lookup_loop.induct)
  case (1 cfg deadline env i ts)
  obtain r ts' where rd: "lookup_round cfg deadline (env i) ts = (r, ts')"
    by (cases "lookup_round cfg deadline (env i) ts")
  have "lookup_inv cfg ts'" by (rule lookup_round_inv [OF 1(2) rd])
  then show ?case
    using 1(1) [OF rd [symmetric]] rd
    by (subst lookup_loop.simps) (simp split: option.split)
qed

lemma lookup_loop_exit:
  assumes "P ts" "lookup_loop cfg deadline env i ts = (r, ts')"
    and "\<And>k us r' us'. P us \<Longrightarrow> lookup_round cfg deadline (env k) us = (r', us') \<Longrightarrow> P us'"
  obtains k us where "P us" "lookup_round cfg deadline (env k) us = (Some r, ts')" "P ts'"
  using assms
proof (induction cfg deadline env i ts arbitrary: thesis rule: lookup_loop.induct)
  case (1 cfg deadline env i ts)
  obtain o' us where rd: "lookup_round cfg deadline (env i) ts = (o', us)"
    by (cases "lookup_round cfg deadline (env i) ts")
  have us: "P us" using 1(3) rd by (rule 1(5))
  show ?case
  proof (cases o')
    case None
    then show ?thesis using 1(1) [OF rd [symmetric] None] 1(2,4,5) rd us
      by (subst (asm) lookup_loop.simps) auto
  next
    case (Some q)
    then show ?thesis using 1(2) [OF 1(3), of i] 1(4) rd us by (subst (asm) lookup_loop.simps) auto
  qed
qed

subsection \<open>No contact is asked twice\<close>

lemma run_lookup_inv: "run_lookup cfg e cs rpc = (r, ts) \<Longrightarrow> lookup_inv cfg ts"
  using lookup_loop_inv [OF initial_state_inv] unfolding run_lookup_def by (metis snd_conv)

lemma responded_contacts_sorted:
  assumes "candidates_ok target cs"
  shows "sorted_wrt (<) (map (\<lambda>c. distance target (tc_id c)) (responded_contacts cs))"
proof -
  have "sorted_wrt (<) (map cd_distance (filter is_responded cs))"
    using assms by (simp add: candidates_ok_def sorted_wrt_map sorted_wrt_filter)
  moreover have "map (\<lambda>c. distance target (tc_id c)) (responded_contacts cs) = map cd_distance (filter is_responded cs)"
    using candidates_okD [OF assms] by (auto simp: responded_contacts_def)
  ultimately show ?thesis by simp
qed

lemma responded_asked:
  assumes "lookup_inv cfg ts" "c \<in> set (responded_contacts (ts_candidates ts))"
  shows "c \<in> sq_contact ` set (ts_spawned ts)"
proof -
  let ?cs = "ts_candidates ts"
  obtain d where d: "d \<in> set ?cs" "cd_state d = Responded" "cd_contact d = c"
    using assms(2) by (auto simp: responded_contacts_def is_responded_def)
  have dist: "distinct (ids ?cs)" using assms(1) by (auto simp: lookup_inv_def candidates_ok_distinct)
  have "cid d \<in> st_ids Responded ?cs" using d by (auto simp: st_ids_def)
  then have "cid d \<notin> st_ids PendingState ?cs" using st_ids_disjoint [OF dist, of Responded PendingState] by auto
  then have "cid d \<in> set (asked ts)" using assms(1) d(1) by (auto simp: lookup_inv_def)
  then obtain q where q: "q \<in> set (ts_spawned ts)" "tc_id (sq_contact q) = cid d" by auto
  then have "sq_contact q \<in> cd_contact ` set ?cs" using assms(1) by (auto simp: lookup_inv_def)
  then obtain d' where "d' \<in> set ?cs" "cd_contact d' = sq_contact q" by auto
  moreover have "d' = d" using dist calculation d(1) q(2) by (auto simp: distinct_map inj_on_def)
  ultimately show ?thesis using q(1) d(3) by auto
qed

text \<open>
  C11. A lookup never asks a contact twice. Whatever the runtime and the network do, the requests of
  a lookup are lookup requests for the target, to distinct identifiers, with at most the configured
  time to answer; at most \<open>ALPHA\<close> are in flight; and the contacts returned were all asked, are at
  most as many as the kind of lookup wants, and come in strictly increasing distance from the target.
\<close>

theorem lookup_asks_once:
  "let ts = snd (run_lookup cfg e initial rpc) in
     distinct (map (\<lambda>q. tc_id (sq_contact q)) (ts_spawned ts)) \<and>
     list_all (request_for cfg) (ts_spawned ts) \<and>
     count_if (\<lambda>c. cd_state c = Inflight) (ts_candidates ts) \<le> ALPHA \<and>
     set (closest_of cfg ts) \<subseteq> sq_contact ` set (ts_spawned ts) \<and>
     length (closest_of cfg ts) \<le> traversal_closest_limit (tg_search_kind cfg) (tg_phase2_fanout cfg) \<and>
     sorted_wrt (<) (map (\<lambda>c. distance (tg_target cfg) (tc_id c)) (closest_of cfg ts))"
proof -
  let ?ts = "snd (run_lookup cfg e initial rpc)"
  have inv: "lookup_inv cfg ?ts" by (rule run_lookup_inv [of _ _ _ _ "fst (run_lookup cfg e initial rpc)"]) simp
  have "count_if (\<lambda>c. cd_state c = Inflight) (ts_candidates ?ts) \<le> ALPHA"
    using inv by (auto simp: lookup_inv_def count_if_def card_st_ids candidates_ok_distinct)
  moreover have "set (closest_of cfg ?ts) \<subseteq> sq_contact ` set (ts_spawned ?ts)"
    using responded_asked [OF inv] by (auto simp: closest_of_def dest: in_set_takeD)
  moreover have "sorted_wrt (<) (map (\<lambda>c. distance (tg_target cfg) (tc_id c)) (closest_of cfg ?ts))"
    using responded_contacts_sorted [of "tg_target cfg" "ts_candidates ?ts"] inv
    unfolding closest_of_def take_map [symmetric] lookup_inv_def by (blast intro: sorted_wrt_take)
  ultimately show ?thesis using inv by (auto simp: Let_def lookup_inv_def closest_of_def)
qed

subsection \<open>What is settled when a lookup ends\<close>

definition no_panics :: "(nat \<Rightarrow> round_env) \<Rightarrow> bool" where
  "no_panics env \<longleftrightarrow> (\<forall>k n. rd_event (env k) \<noteq> TaskPanicked n)"

definition tight_inv :: "traversal_config \<Rightarrow> traversal_state \<Rightarrow> bool" where
  "tight_inv cfg ts \<longleftrightarrow> lookup_inv cfg ts \<and> st_ids Inflight (ts_candidates ts) = set (ts_join_set ts)"

lemma initial_state_tight: "tight_inv cfg (initial_state (tg_target cfg) cs rpc)"
proof -
  have "st_ids Inflight (ts_candidates (initial_state (tg_target cfg) cs rpc)) = {}"
    using initial_state_pending by (fastforce simp: st_ids_def)
  then show ?thesis
    using initial_state_inv [of cfg cs rpc] by (simp add: tight_inv_def) (simp add: initial_state_def Let_def)
qed

lemma lookup_round_tight:
  assumes inv: "tight_inv cfg ts" and rd: "lookup_round cfg deadline e ts = (r, ts')"
    and np: "\<forall>n. rd_event e \<noteq> TaskPanicked n"
  shows "tight_inv cfg ts'"
proof -
  have l: "lookup_inv cfg ts" and t: "st_ids Inflight (ts_candidates ts) = set (ts_join_set ts)"
    using inv by (auto simp: tight_inv_def)
  note al = after_launch_inv(1,2) [OF l, of deadline e]
  have "st_ids Inflight (ts_candidates ts') = set (ts_join_set ts')"
    using rd
  proof (cases rule: lookup_round_cases)
    case exhausted
    then show ?thesis using launch_queries_inv(2) [OF l t] by simp
  next
    case (finished n answer now i skip)
    note d = drop_task_set [OF al(1) finished(2), of n]
    show ?thesis
      using apply_query_result_inv [OF al(1) _ _ d(2), of i "answer i" now skip ts'] d finished(3,4) al(2) [OF t]
      by (simp add: drop_task_def)
  qed (use t al(2) [OF t] np in auto)
  then show ?thesis using lookup_round_inv [OF l rd] by (simp add: tight_inv_def)
qed

definition settled :: "traversal_candidate \<Rightarrow> bool" where
  "settled c \<longleftrightarrow> cd_state c = Responded \<or> cd_state c = Failed"

lemma settled_iff: "settled c \<longleftrightarrow> \<not> is_open c"
  by (cases "cd_state c") (auto simp: settled_def is_open_def)

lemma lookup_round_end:
  assumes inv: "tight_inv cfg ts" and rd: "lookup_round cfg deadline e ts = (Some r, ts')" and "r \<noteq> Interrupted"
  shows "list_all settled (take (traversal_closest_limit (tg_search_kind cfg) (tg_phase2_fanout cfg)) (ts_candidates ts'))
    \<or> tg_search_kind cfg = FindNode \<and> find_node_lookup_converged (ts_candidates ts')"
  using rd
proof (cases rule: lookup_round_cases)
  case exhausted
  have l: "lookup_inv cfg ts" and t: "st_ids Inflight (ts_candidates ts) = set (ts_join_set ts)"
    using inv by (auto simp: tight_inv_def)
  have "ts' = ts" "ts_join_set ts = []"
    "st_ids Inflight (ts_candidates ts) = {} \<longrightarrow> st_ids PendingState (ts_candidates ts) = {}"
    using launch_queries_inv(6) [OF l, of "deadline - rd_now e"] exhausted(2,3) by auto
  then have "\<forall>c \<in> set (ts_candidates ts'). settled c"
    using t by (auto simp: settled_iff is_open_def st_ids_def)
  then show ?thesis by (auto simp: list_all_iff dest: in_set_takeD)
next
  case (finished n answer now i skip)
  then have "finish_check cfg (ts_candidates ts') = Some r" by (auto split: if_splits)
  then show ?thesis by (auto simp: finish_check_def Let_def settled_def [abs_def] split: if_splits)
qed (use assms(3) in auto)

lemma lookup_end_settled:
  assumes "run_lookup cfg e initial rpc = (r, ts)" "no_panics (te_rounds e)" "r \<noteq> Interrupted"
  shows "list_all settled (take (traversal_closest_limit (tg_search_kind cfg) (tg_phase2_fanout cfg)) (ts_candidates ts))
    \<or> tg_search_kind cfg = FindNode \<and> find_node_lookup_converged (ts_candidates ts)"
proof -
  obtain k us where "tight_inv cfg us"
      "lookup_round cfg (te_now e + tg_timeout cfg) (te_rounds e k) us = (Some r, ts)"
  proof (rule lookup_loop_exit [of "tight_inv cfg"])
    show "tight_inv cfg (initial_state (tg_target cfg) initial rpc)" by (rule initial_state_tight)
    show "lookup_loop cfg (te_now e + tg_timeout cfg) (te_rounds e) 0
        (initial_state (tg_target cfg) initial rpc) = (r, ts)"
      using assms(1) by (simp add: run_lookup_def)
  qed (use assms(2) in \<open>auto simp: no_panics_def intro: lookup_round_tight\<close>)
  then show ?thesis using lookup_round_end assms(3) by blast
qed

lemma converged_closest:
  assumes ok: "candidates_ok target cs" and conv: "find_node_lookup_converged cs"
  shows "length (take K (filter is_responded cs)) = K"
    "c \<in> set (take K (filter is_responded cs)) \<Longrightarrow> d \<in> set cs \<Longrightarrow> is_open d \<Longrightarrow> cd_distance c < cd_distance d"
proof -
  let ?rs = "take K (filter is_responded cs)"
  have ne: "?rs \<noteq> []" and len: "\<not> length ?rs < K"
    and open_far: "\<not> list_ex (\<lambda>c. is_open c \<and> cd_distance c \<le> cd_distance (last ?rs)) cs"
    using conv by (auto simp: find_node_lookup_converged_def Let_def split: if_splits)
  show "length ?rs = K" using len by simp
  have "sorted_wrt (<) (map cd_distance ?rs)"
    using ok by (simp add: candidates_ok_def sorted_wrt_map sorted_wrt_filter sorted_wrt_take)
  then have "cd_distance c \<le> cd_distance (last ?rs)" if "c \<in> set ?rs"
    using that ne by (cases ?rs rule: rev_cases) (auto simp: sorted_wrt_append intro: less_imp_le)
  moreover assume "c \<in> set ?rs" "d \<in> set cs" "is_open d"
  ultimately show "cd_distance c < cd_distance d"
    using open_far by (auto simp: list_ex_iff not_le intro: order_le_less_trans)
qed

text \<open>The nearest candidates, as many as the kind of lookup looks at.\<close>

definition nearest_of :: "traversal_config \<Rightarrow> traversal_state \<Rightarrow> traversal_candidate list" where
  "nearest_of cfg ts = take (traversal_closest_limit (tg_search_kind cfg) (tg_phase2_fanout cfg)) (ts_candidates ts)"

lemma nearest_before_open:
  assumes ok: "candidates_ok target (ts_candidates ts)" and near: "list_all settled (nearest_of cfg ts)"
    and "c \<in> set (nearest_of cfg ts)" "d \<in> set (ts_candidates ts)" "\<not> settled d"
  shows "cd_distance c < cd_distance d"
proof -
  let ?n = "traversal_closest_limit (tg_search_kind cfg) (tg_phase2_fanout cfg)"
  have "d \<in> set (drop ?n (ts_candidates ts))"
    using assms(4,5) near unfolding nearest_of_def list_all_iff by (metis append_take_drop_id set_append Un_iff)
  moreover have "sorted_wrt (<) (map cd_distance (take ?n (ts_candidates ts)) @ map cd_distance (drop ?n (ts_candidates ts)))"
    using ok unfolding candidates_ok_def map_append [symmetric] append_take_drop_id by simp
  ultimately show ?thesis using assms(3) by (auto simp: sorted_wrt_append nearest_of_def)
qed

lemma nearest_returned:
  assumes "list_all is_responded (nearest_of cfg ts)"
  shows "closest_of cfg ts = map cd_contact (nearest_of cfg ts)"
proof -
  let ?n = "traversal_closest_limit (tg_search_kind cfg) (tg_phase2_fanout cfg)"
  have "filter is_responded (ts_candidates ts) =
      take ?n (ts_candidates ts) @ filter is_responded (drop ?n (ts_candidates ts))"
    using assms unfolding nearest_of_def
    by (metis append_take_drop_id filter_append filter_id_conv list_all_iff)
  then show ?thesis
    by (cases "length (ts_candidates ts) \<le> ?n")
      (auto simp: closest_of_def responded_contacts_def nearest_of_def take_map)
qed

text \<open>
  C32. What a lookup that is not interrupted leaves unasked. If no request task panics and the lookup
  ends neither by cancellation nor by its deadline, then one of two things holds. Either each of the
  nearest candidates it learned of, as many as the kind of lookup looks at, has answered or failed,
  and every candidate that has not is farther from the target than all of these; if none of them
  failed, they are what is returned. (If some failed, answers from farther contacts fill the result,
  and a candidate nearer than such a contact may not have been asked.) Or the lookup was for nodes, has
  found \<open>K\<close> contacts that answered, and every candidate that has neither answered nor failed is farther
  from the target than all of them.
\<close>

theorem lookup_settled:
  assumes "run_lookup cfg e initial rpc = (r, ts)" "no_panics (te_rounds e)" "r \<noteq> Interrupted"
  shows "list_all settled (nearest_of cfg ts) \<and>
      (\<forall>c \<in> set (nearest_of cfg ts). \<forall>d \<in> set (ts_candidates ts). \<not> settled d \<longrightarrow> cd_distance c < cd_distance d) \<and>
      (list_all is_responded (nearest_of cfg ts) \<longrightarrow> closest_of cfg ts = map cd_contact (nearest_of cfg ts))
    \<or> tg_search_kind cfg = FindNode \<and> length (closest_of cfg ts) = K \<and>
       (\<forall>c \<in> set (closest_of cfg ts). \<forall>d \<in> set (ts_candidates ts). \<not> settled d \<longrightarrow>
          distance (tg_target cfg) (tc_id c) < cd_distance d)"
  using lookup_end_settled [OF assms]
proof (rule disj_forward)
  have ok: "candidates_ok (tg_target cfg) (ts_candidates ts)"
    using run_lookup_inv [OF assms(1)] by (simp add: lookup_inv_def)
  {
    assume "list_all settled (take (traversal_closest_limit (tg_search_kind cfg) (tg_phase2_fanout cfg)) (ts_candidates ts))"
    then have "list_all settled (nearest_of cfg ts)" by (simp add: nearest_of_def)
    then show "list_all settled (nearest_of cfg ts) \<and>
      (\<forall>c \<in> set (nearest_of cfg ts). \<forall>d \<in> set (ts_candidates ts). \<not> settled d \<longrightarrow> cd_distance c < cd_distance d) \<and>
      (list_all is_responded (nearest_of cfg ts) \<longrightarrow> closest_of cfg ts = map cd_contact (nearest_of cfg ts))"
      using nearest_before_open [OF ok] nearest_returned by blast
  }
  assume c: "tg_search_kind cfg = FindNode \<and> find_node_lookup_converged (ts_candidates ts)"
  have cl: "closest_of cfg ts = map cd_contact (take K (filter is_responded (ts_candidates ts)))"
    using c by (simp add: closest_of_def traversal_closest_limit_def responded_contacts_def take_map)
  have "distance (tg_target cfg) (cid c) < cd_distance d"
    if "c \<in> set (take K (filter is_responded (ts_candidates ts)))" "d \<in> set (ts_candidates ts)" "\<not> settled d" for c d
  proof -
    have "cd_distance c < cd_distance d"
      using converged_closest(2) [OF ok] c that by (simp add: settled_iff)
    moreover have "c \<in> set (ts_candidates ts)" using that(1) by (auto dest: in_set_takeD)
    ultimately show ?thesis using candidates_okD [OF ok] by simp
  qed
  then show "tg_search_kind cfg = FindNode \<and> length (closest_of cfg ts) = K \<and>
       (\<forall>c \<in> set (closest_of cfg ts). \<forall>d \<in> set (ts_candidates ts). \<not> settled d \<longrightarrow>
          distance (tg_target cfg) (tc_id c) < cd_distance d)"
    using c converged_closest(1) [OF ok] by (auto simp: cl)
qed

subsection \<open>What one response contributes\<close>

lemma sanitize_loop_sound:
  "xs = sanitize_loop seen pc es \<Longrightarrow>
     subseq xs es \<and> list_all (\<lambda>e. ce_ip e \<noteq> 0 \<and> ce_udp_port e \<noteq> 0) xs \<and>
     distinct (map entry_ip xs) \<and> set (map entry_ip xs) \<inter> seen = {} \<and>
     (\<forall>p. pc p + count_if (\<lambda>e. ipv4_prefix_24 (entry_ip e) = p) xs \<le> max 2 (pc p))"
proof (induction seen pc es arbitrary: xs rule: sanitize_loop.induct)
  case (2 seen pc e es)
  let ?p = "ipv4_prefix_24 (entry_ip e)"
  consider (skip) "xs = sanitize_loop seen pc es" "ce_ip e = 0 \<or> ce_udp_port e = 0 \<or> entry_ip e \<in> seen"
    | (full) "xs = sanitize_loop (insert (entry_ip e) seen) pc es"
        "ce_ip e \<noteq> 0" "ce_udp_port e \<noteq> 0" "entry_ip e \<notin> seen" "2 \<le> pc ?p"
    | (keep) ys where "xs = e # ys" "ys = sanitize_loop (insert (entry_ip e) seen) (pc(?p := pc ?p + 1)) es"
        "ce_ip e \<noteq> 0" "ce_udp_port e \<noteq> 0" "entry_ip e \<notin> seen" "\<not> 2 \<le> pc ?p"
    using 2(5) by (auto simp: Let_def split: if_splits)
  then show ?case
  proof cases
    case skip
    show ?thesis
    proof (cases "ce_ip e = 0 \<or> ce_udp_port e = 0")
      case True
      show ?thesis using 2(1) [OF True skip(1)] by (auto intro: list_emb_Cons)
    next
      case False
      then show ?thesis using 2(2) [OF False refl _ skip(1)] skip(2) by (auto intro: list_emb_Cons)
    qed
  next
    case full
    then have "\<not> (ce_ip e = 0 \<or> ce_udp_port e = 0)" by simp
    from 2(3) [OF this refl full(4) refl refl full(5) full(1)] show ?thesis by (auto intro: list_emb_Cons)
  next
    case (keep ys)
    then have "\<not> (ce_ip e = 0 \<or> ce_udp_port e = 0)" by simp
    from 2(4) [OF this refl keep(5) refl refl keep(6) keep(2)] have
      IH: "subseq ys es" "list_all (\<lambda>e. ce_ip e \<noteq> 0 \<and> ce_udp_port e \<noteq> 0) ys" "distinct (map entry_ip ys)"
        "set (map entry_ip ys) \<inter> insert (entry_ip e) seen = {}"
        "\<And>p. (pc(?p := pc ?p + 1)) p + count_if (\<lambda>e. ipv4_prefix_24 (entry_ip e) = p) ys \<le> max 2 ((pc(?p := pc ?p + 1)) p)"
      by auto
    have "pc p + count_if (\<lambda>e. ipv4_prefix_24 (entry_ip e) = p) xs \<le> max 2 (pc p)" for p
      using IH(5) [of p] keep(1,6) by (auto split: if_splits)
    then show ?thesis using IH(1-4) keep(1,3,4,5) by auto
  qed
qed auto

lemma ipv4_prefix_24_eq: "ipv4_prefix_24 x = ipv4_prefix_24 y \<longleftrightarrow> subnet24 x = subnet24 y"
proof (cases x; cases y)
  fix a b c d a' b' c' d' assume xy: "x = Ipv4 a b c d" "y = Ipv4 a' b' c' d'"
  have byte: "bit (0xFFFFFF00 :: u32) n \<longleftrightarrow> 8 \<le> n \<and> n < 32" for n
  proof -
    have "(0xFFFFFF00 :: u32) = push_bit 8 (mask 24)" by (simp add: mask_eq_exp_minus_1 push_bit_eq_mult)
    then show ?thesis by (simp only: bit_push_bit_iff bit_mask_iff) auto
  qed
  have "bit (ipv4_prefix_24 (Ipv4 p q r s)) n \<longleftrightarrow> 8 \<le> n \<and> n < 32 \<and>
     (if n < 16 then bit r (n - 8) else if n < 24 then bit q (n - 16) else bit p (n - 24))" for p q r s n
    by (simp only: ipv4_prefix_24.simps u32_from_le_bytes_def bit_and_iff bit_or_iff byte)
      (auto simp: bit_push_bit_iff bit_unsigned_iff dest: bit_imp_le_length)
  then have bits: "bit (ipv4_prefix_24 x) n \<longleftrightarrow> 8 \<le> n \<and> n < 32 \<and>
     (if n < 16 then bit c (n - 8) else if n < 24 then bit b (n - 16) else bit a (n - 24))"
    "bit (ipv4_prefix_24 y) n \<longleftrightarrow> 8 \<le> n \<and> n < 32 \<and>
     (if n < 16 then bit c' (n - 8) else if n < 24 then bit b' (n - 16) else bit a' (n - 24))" for n
    by (simp_all add: xy)
  have "a = a' \<and> b = b' \<and> c = c'" if "ipv4_prefix_24 x = ipv4_prefix_24 y"
  proof (intro conjI bit_word_eqI)
    fix n assume n: "n < LENGTH(8)"
    show "bit a n = bit a' n" using bits [of "n + 24"] n that by simp
    show "bit b n = bit b' n" using bits [of "n + 16"] n that by simp
    show "bit c n = bit c' n" using bits [of "n + 8"] n that by simp
  qed
  moreover have "ipv4_prefix_24 x = ipv4_prefix_24 y" if "a = a'" "b = b'" "c = c'"
    using bits that by (intro bit_word_eqI) simp
  ultimately show ?thesis by (auto simp: xy simp del: ipv4_prefix_24.simps)
qed

lemma candidate_with_set_state:
  "map_option cd_contact (candidate_with i (set_candidate_state j s cs)) = map_option cd_contact (candidate_with i cs)"
  by (induction cs) (auto simp: candidate_with_def)

lemma responder_addr_set_state:
  assumes "candidate_with i cs = Some c"
  shows "(case candidate_with i (set_candidate_state i s cs) of
     None \<Rightarrow> (V4 (Ipv4 0 0 0 0), 0) | Some c \<Rightarrow> tc_addr (cd_contact c)) = tc_addr (cd_contact c)"
  using candidate_with_set_state [of i i s cs] assms
  by (cases "candidate_with i (set_candidate_state i s cs)") auto

lemma sanitize_res_contacts_sound:
  assumes "sanitize_res_contacts es (V4 ip, port) n = Some xs"
  shows "length es \<le> n" "subseq xs es" "list_all (\<lambda>e. ce_ip e \<noteq> 0 \<and> ce_udp_port e \<noteq> 0) xs"
    "distinct (map entry_ip xs)" "ip \<notin> set (map entry_ip xs)"
    "count_if (\<lambda>e. subnet24 (entry_ip e) = s) xs \<le> 2"
proof -
  have xs: "xs = sanitize_loop {ip} ((\<lambda>_. 0)(ipv4_prefix_24 ip := 1)) es" and "length es \<le> n"
    using assms by (auto simp: sanitize_res_contacts_def split: if_splits)
  then show "length es \<le> n" by simp
  note sl = sanitize_loop_sound [OF xs]
  show "subseq xs es" "list_all (\<lambda>e. ce_ip e \<noteq> 0 \<and> ce_udp_port e \<noteq> 0) xs"
    "distinct (map entry_ip xs)" "ip \<notin> set (map entry_ip xs)"
    using sl by auto
  obtain a b c where s: "s = (a, b, c)" by (cases s)
  have "count_if (\<lambda>e. subnet24 (entry_ip e) = s) xs =
      count_if (\<lambda>e. ipv4_prefix_24 (entry_ip e) = ipv4_prefix_24 (Ipv4 a b c 0)) xs"
    by (simp add: ipv4_prefix_24_eq s del: ipv4_prefix_24.simps)
  also have "\<dots> \<le> 2" using sl [THEN conjunct2, THEN conjunct2, THEN conjunct2, THEN conjunct2, rule_format,
      of "ipv4_prefix_24 (Ipv4 a b c 0)"] by (auto split: if_splits)
  finally show "count_if (\<lambda>e. subnet24 (entry_ip e) = s) xs \<le> 2" .
qed

lemma sanitize_res_contacts_subset:
  assumes "sanitize_res_contacts es addr n = Some xs"
  shows "set xs \<subseteq> set es" "list_all (\<lambda>e. ce_ip e \<noteq> 0 \<and> ce_udp_port e \<noteq> 0) xs"
proof -
  obtain seen pc where "xs = sanitize_loop seen pc es"
    using assms by (auto simp: sanitize_res_contacts_def split: if_splits ip_addr.splits)
  from sanitize_loop_sound [OF this]
  show "set xs \<subseteq> set es" "list_all (\<lambda>e. ce_ip e \<noteq> 0 \<and> ce_udp_port e \<noteq> 0) xs"
    by (auto dest: list_emb_set)
qed

definition new_contacts :: "traversal_state \<Rightarrow> traversal_state \<Rightarrow> traversal_contact set" where
  "new_contacts ts ts' = cd_contact ` set (ts_candidates ts') - cd_contact ` set (ts_candidates ts)"

lemma new_contacts_bound:
  assumes san: "sanitize_res_contacts es (V4 ip, port) n = Some xs" and "N \<subseteq> entry_contact ` set xs"
  shows "card N \<le> n" "card {c \<in> N. \<exists>a. fst (tc_addr c) = V4 a \<and> subnet24 a = s} \<le> 2"
    "\<forall>c \<in> N. fst (tc_addr c) \<noteq> V4 ip"
proof -
  note sl = sanitize_res_contacts_sound [OF san]
  have len: "length xs \<le> n" using list_emb_length [OF sl(2)] sl(1) by simp
  have "card N \<le> card (entry_contact ` set xs)" using assms(2) by (intro card_mono) auto
  also have "\<dots> \<le> length xs" by (meson card_image_le card_length finite_set le_trans)
  finally show "card N \<le> n" using len by simp
  let ?xs = "filter (\<lambda>e. subnet24 (entry_ip e) = s) xs"
  have addr [simp]: "tc_addr (entry_contact e) = (V4 (entry_ip e), ce_udp_port e)" for e
    by (simp add: entry_contact_def)
  have "{c \<in> N. \<exists>a. fst (tc_addr c) = V4 a \<and> subnet24 a = s} \<subseteq>
      {c \<in> entry_contact ` set xs. \<exists>a. fst (tc_addr c) = V4 a \<and> subnet24 a = s}"
    using assms(2) by blast
  also have "\<dots> = entry_contact ` set ?xs" by auto
  finally have "{c \<in> N. \<exists>a. fst (tc_addr c) = V4 a \<and> subnet24 a = s} \<subseteq> entry_contact ` set ?xs" .
  then have "card {c \<in> N. \<exists>a. fst (tc_addr c) = V4 a \<and> subnet24 a = s} \<le> card (entry_contact ` set ?xs)"
    by (intro card_mono) auto
  also have "\<dots> \<le> length ?xs" by (meson card_image_le card_length finite_set le_trans)
  finally show "card {c \<in> N. \<exists>a. fst (tc_addr c) = V4 a \<and> subnet24 a = s} \<le> 2"
    using sl(6) [of s] by (simp add: count_if_def)
  show "\<forall>c \<in> N. fst (tc_addr c) \<noteq> V4 ip"
  proof
    fix c assume "c \<in> N"
    then obtain e where "e \<in> set xs" "c = entry_contact e" using assms(2) by blast
    then show "fst (tc_addr c) \<noteq> V4 ip" using sl(5) by auto
  qed
qed

lemma response_contribution_facts:
  assumes inv: "lookup_inv cfg ts" and c: "candidate_with i (ts_candidates ts) = Some c"
    and addr: "tc_addr (cd_contact c) = (V4 ip, port)"
    and ap: "apply_query_result cfg i answer now ts = (skip, ts')"
  shows "card (new_contacts ts ts') \<le> unat (req_count_for (tg_search_kind cfg))"
    and "card {c \<in> new_contacts ts ts'. \<exists>a. fst (tc_addr c) = V4 a \<and> subnet24 a = s} \<le> 2"
    and "\<forall>c \<in> new_contacts ts ts'. fst (tc_addr c) \<noteq> V4 ip"
    and "cd_contact ` set (ts_candidates ts) \<subseteq> cd_contact ` set (ts_candidates ts')"
proof -
  have "cd_contact ` set (ts_candidates ts) \<subseteq> cd_contact ` set (ts_candidates ts') \<and>
    (new_contacts ts ts' = {} \<or> (\<exists>es xs. sanitize_res_contacts es (V4 ip, port)
       (unat (req_count_for (tg_search_kind cfg))) = Some xs \<and> new_contacts ts ts' \<subseteq> entry_contact ` set xs))"
    using ap
  proof (cases rule: apply_query_result_cases)
    case (absorbed r us es seen cs)
    have ok: "candidates_ok (tg_target cfg) (ts_candidates us)" "ts_seen us = set (ids (ts_candidates us))"
      using inv absorbed(3) by (auto simp: lookup_inv_def simp del: set_map)
    note a = absorb_contacts_inv [OF absorbed(5) ok]
    have u: "cd_contact ` set (ts_candidates us) = cd_contact ` set (ts_candidates ts)"
      using absorbed(3) by simp
    have "sanitize_res_contacts (rs_contacts r) (V4 ip, port) (unat (req_count_for (tg_search_kind cfg))) = Some es"
      using absorbed(3,4) responder_addr_set_state [OF c] addr by simp
    moreover have "cd_contact c \<in> cd_contact ` set (ts_candidates us) \<union> entry_contact ` set es" if "c \<in> set cs" for c
      using a that by (cases "c \<in> set (ts_candidates us)") auto
    then have "new_contacts ts ts' \<subseteq> entry_contact ` set es"
      using absorbed(6) u by (auto simp: new_contacts_def)
    moreover have "cd_contact ` set (ts_candidates us) \<subseteq> cd_contact ` set cs" using a by auto
    ultimately show ?thesis using u absorbed(6) by auto
  qed (auto simp: new_contacts_def)
  then show "card (new_contacts ts ts') \<le> unat (req_count_for (tg_search_kind cfg))"
    "card {c \<in> new_contacts ts ts'. \<exists>a. fst (tc_addr c) = V4 a \<and> subnet24 a = s} \<le> 2"
    "\<forall>c \<in> new_contacts ts ts'. fst (tc_addr c) \<noteq> V4 ip"
    "cd_contact ` set (ts_candidates ts) \<subseteq> cd_contact ` set (ts_candidates ts')"
    using new_contacts_bound(1,3) [of _ ip port] new_contacts_bound(2) [of _ ip port _ _ _ s] by auto
qed

text \<open>
  C33. One response cannot take over a lookup. Whatever a contact answers, a lookup learns from its
  answer at most as many contacts as it asked for, at most two of them in one /24 network and none
  with the address of the contact that answered; and no candidate is forgotten.
\<close>

theorem response_contribution:
  assumes inv: "lookup_inv cfg ts" and c: "candidate_with i (ts_candidates ts) = Some c"
    and addr: "tc_addr (cd_contact c) = (V4 ip, port)"
    and ap: "apply_query_result cfg i answer now ts = (skip, ts')"
  shows "card (new_contacts ts ts') \<le> unat (req_count_for (tg_search_kind cfg)) \<and>
    card {c \<in> new_contacts ts ts'. \<exists>a. fst (tc_addr c) = V4 a \<and> subnet24 a = s} \<le> 2 \<and>
    (\<forall>c \<in> new_contacts ts ts'. fst (tc_addr c) \<noteq> V4 ip) \<and>
    cd_contact ` set (ts_candidates ts) \<subseteq> cd_contact ` set (ts_candidates ts')"
  using response_contribution_facts [OF assms] by blast

subsection \<open>A lookup finds the closest member of a network\<close>

text \<open>
  A network in which contacts answer: every request is answered by what \<open>net\<close> holds for the
  identifier asked, before the deadline and without a cancellation.
\<close>

definition responsive :: "traversal_config \<Rightarrow> traversal_env \<Rightarrow> (node_id \<Rightarrow> kad_res) \<Rightarrow> bool" where
  "responsive cfg e net \<longleftrightarrow> (\<forall>k. \<not> rd_cancelled (te_rounds e k) \<and>
     rd_now (te_rounds e k) < te_now e + tg_timeout cfg \<and>
     (\<exists>n now. rd_event (te_rounds e k) = TaskFinished n (\<lambda>i. Inr (Res (net i))) now))"

lemma responsive_no_panics: "responsive cfg e net \<Longrightarrow> no_panics (te_rounds e)"
  unfolding responsive_def no_panics_def by (metis join_event.distinct(11))

lemma responsive_ends:
  assumes "responsive cfg e net" "run_lookup cfg e initial rpc = (r, ts)"
  shows "r \<noteq> Interrupted"
proof -
  obtain k us where "lookup_round cfg (te_now e + tg_timeout cfg) (te_rounds e k) us = (Some r, ts)"
    by (rule lookup_loop_exit [of "\<lambda>_. True"]) (use assms(2) in \<open>auto simp: run_lookup_def\<close>)
  moreover obtain n now where "\<not> rd_cancelled (te_rounds e k)" "rd_now (te_rounds e k) < te_now e + tg_timeout cfg"
      "rd_event (te_rounds e k) = TaskFinished n (\<lambda>i. Inr (Res (net i))) now"
    using assms(1) unfolding responsive_def by meson
  note live = this
  ultimately show ?thesis
  proof (cases rule: lookup_round_cases)
    case (finished n answer now i skip)
    then have "finish_check cfg (ts_candidates ts) = Some r" by (auto split: if_splits)
    then show ?thesis by (auto simp: finish_check_def Let_def split: if_splits)
  qed (use live in auto)
qed

definition knows_closer ::
  "traversal_config \<Rightarrow> (node_id \<Rightarrow> kad_res) \<Rightarrow> traversal_contact set \<Rightarrow> node_id \<Rightarrow> bool" where
  "knows_closer cfg net members best \<longleftrightarrow>
     (\<forall>c \<in> members. entry_contact ` set (rs_contacts (net (tc_id c))) \<subseteq> members \<and>
        (tc_id c = best \<or> (\<exists>xs e. sanitize_res_contacts (rs_contacts (net (tc_id c))) (tc_addr c)
             (unat (req_count_for (tg_search_kind cfg))) = Some xs \<and> e \<in> set xs \<and>
           distance (tg_target cfg) (ce_node_id e) < distance (tg_target cfg) (tc_id c))))"

text \<open>Besides the invariant: every candidate but the best that has answered is not the closest.\<close>

definition net_inv :: "traversal_config \<Rightarrow> traversal_contact set \<Rightarrow> node_id \<Rightarrow> traversal_state \<Rightarrow> bool" where
  "net_inv cfg members best ts \<longleftrightarrow> lookup_inv cfg ts \<and> ts_candidates ts \<noteq> [] \<and>
     cd_contact ` set (ts_candidates ts) \<subseteq> members \<and> st_ids Failed (ts_candidates ts) = {} \<and>
     (\<forall>i \<in> st_ids Responded (ts_candidates ts). i = best \<or>
        (\<exists>j \<in> set (ids (ts_candidates ts)). distance (tg_target cfg) j < distance (tg_target cfg) i))"

lemma net_inv_launch:
  assumes "net_inv cfg members best ts" "lookup_inv cfg us"
    and "map cd_contact (ts_candidates us) = map cd_contact (ts_candidates ts)"
      "st_ids Responded (ts_candidates us) = st_ids Responded (ts_candidates ts)"
      "st_ids Failed (ts_candidates us) = st_ids Failed (ts_candidates ts)"
  shows "net_inv cfg members best us"
proof -
  have "ids (ts_candidates us) = map tc_id (map cd_contact (ts_candidates us))" by simp
  also have "\<dots> = ids (ts_candidates ts)" unfolding assms(3) by simp
  finally have "ids (ts_candidates us) = ids (ts_candidates ts)" .
  moreover have "cd_contact ` set (ts_candidates us) = cd_contact ` set (ts_candidates ts)"
    using assms(3) by (metis set_map)
  moreover have "ts_candidates us \<noteq> [] \<longleftrightarrow> ts_candidates ts \<noteq> []" using assms(3) by (metis map_is_Nil_conv)
  ultimately show ?thesis using assms(1,2,4,5) by (simp add: net_inv_def del: set_map)
qed

lemma net_inv_answer:
  assumes inv: "net_inv cfg members best ts" and net: "knows_closer cfg net members best"
    and i: "i \<in> set (ts_join_set ts)" and js: "set js = set (ts_join_set ts) - {i}" "distinct js"
    and ap: "apply_query_result cfg i (Inr (Res (net i))) now (ts\<lparr>ts_join_set := js\<rparr>) = (skip, ts')"
  shows "net_inv cfg members best ts'"
proof -
  let ?cs = "set_candidate_state i Responded (ts_candidates ts)"
  have l: "lookup_inv cfg ts" using inv by (simp add: net_inv_def)
  have ok: "candidates_ok (tg_target cfg) (ts_candidates ts)" "ts_seen ts = set (ids (ts_candidates ts))"
    using l by (auto simp: lookup_inv_def simp del: set_map)
  note dist = candidates_ok_distinct [OF ok(1)]
  have "i \<in> st_ids Inflight (ts_candidates ts)" using l i by (auto simp: lookup_inv_def)
  then obtain c where c: "c \<in> set (ts_candidates ts)" "cid c = i" by (auto simp: st_ids_def)
  then have mem: "i \<in> set (ids (ts_candidates ts))" by auto
  have "candidate_with i (ts_candidates ts) = Some c"
  proof -
    obtain d where "candidate_with i (ts_candidates ts) = Some d"
      using c by (cases "candidate_with i (ts_candidates ts)") (auto simp: candidate_with_def find_None_iff)
    moreover from this have "d \<in> set (ts_candidates ts)" "cid d = i"
      by (auto simp: candidate_with_def find_Some_iff)
    then have "d = c" using dist c by (auto simp: distinct_map inj_on_def)
    ultimately show ?thesis by simp
  qed
  note addr = responder_addr_set_state [OF this, of Responded]
  have cm: "cd_contact c \<in> members" using inv c(1) by (auto simp: net_inv_def)
  have base: "?cs \<noteq> []" "cd_contact ` set ?cs \<subseteq> members" "st_ids Failed ?cs = {}"
    "st_ids Responded ?cs = insert i (st_ids Responded (ts_candidates ts))"
    subgoal using mem by (cases "ts_candidates ts") auto
    subgoal using inv by (simp add: net_inv_def)
    subgoal using inv by (simp add: net_inv_def st_ids_set_state [OF dist mem])
    subgoal by (simp add: st_ids_set_state [OF dist mem])
    done
  have l': "lookup_inv cfg ts'" using apply_query_result_inv [OF l i js ap] by simp
  show ?thesis
    using ap
  proof (cases rule: apply_query_result_cases)
    case (dropped r us)
    then have "i = best" using net cm c(2) addr by (auto simp: knows_closer_def)
    then show ?thesis using l' inv base dropped by (simp add: net_inv_def)
  next
    case (absorbed r us es seen cs)
    have es: "sanitize_res_contacts (rs_contacts (net i)) (tc_addr (cd_contact c))
        (unat (req_count_for (tg_search_kind cfg))) = Some es"
      using absorbed(1,3,4) addr by simp
    have a: "absorb_contacts (tg_target cfg) es (set (ids ?cs), ?cs) = (seen, cs)"
      using absorbed(3,5) ok(2) by simp
    note g = absorb_contacts_inv [OF a _ refl]
    have g: "set ?cs \<subseteq> set cs" "seen = set (ids cs)"
      "\<forall>c \<in> set cs - set ?cs. cd_state c = PendingState \<and> cd_contact c \<in> entry_contact ` set es"
      "\<forall>e \<in> set es. ce_ip e \<noteq> 0 \<and> ce_udp_port e \<noteq> 0 \<longrightarrow> ce_node_id e \<in> seen"
      using g ok(1) by auto
    have "set (ids ?cs) \<subseteq> set (ids cs)" unfolding set_map by (rule image_mono [OF g(1)])
    then have gc: "set (ids (ts_candidates ts)) \<subseteq> set (ids cs)" by (simp only: set_candidate_state_maps)
    have st: "st_ids Failed cs = {}" "st_ids Responded cs = insert i (st_ids Responded (ts_candidates ts))"
      using st_ids_pending_grow [OF g(1), of Failed] st_ids_pending_grow [OF g(1), of Responded] g(3) base(3,4)
      by auto
    note sub = sanitize_res_contacts_subset [OF es]
    have "entry_contact ` set (rs_contacts (net i)) \<subseteq> members" using net cm c(2) unfolding knows_closer_def by blast
    then have "entry_contact ` set es \<subseteq> members" using image_mono [OF sub(1)] by (rule subset_trans [rotated])
    then have "cd_contact ` set cs \<subseteq> members" using g(3) base(2) by blast
    moreover have "i = best \<or> (\<exists>j \<in> set (ids cs). distance (tg_target cfg) j < distance (tg_target cfg) i)"
    proof -
      have "i = best \<or> (\<exists>e \<in> set es. distance (tg_target cfg) (ce_node_id e) < distance (tg_target cfg) i)"
        using net cm c(2) es by (fastforce simp: knows_closer_def)
      moreover have "ce_node_id e \<in> set (ids cs)" if "e \<in> set es" for e
        using g(2,4) sub(2) that by (auto simp: list_all_iff)
      ultimately show ?thesis by blast
    qed
    moreover have "x = best \<or> (\<exists>j \<in> set (ids cs). distance (tg_target cfg) j < distance (tg_target cfg) x)"
      if "x \<in> st_ids Responded (ts_candidates ts)" for x
      using inv that gc unfolding net_inv_def by blast
    moreover have "cs \<noteq> []" using g(1) base(1) by auto
    ultimately show ?thesis
      using l' st absorbed(6) by (simp add: net_inv_def del: set_map)
  qed simp
qed

lemma net_inv_round:
  assumes inv: "net_inv cfg members best ts" and net: "knows_closer cfg net members best"
    and rd: "lookup_round cfg deadline e ts = (r, ts')"
    and ev: "rd_event e = TaskFinished n (\<lambda>i. Inr (Res (net i))) now"
  shows "net_inv cfg members best ts'"
proof -
  have l: "lookup_inv cfg ts" using inv by (simp add: net_inv_def)
  let ?us = "after_launch cfg deadline e ts"
  have u: "net_inv cfg members best ?us"
    by (rule net_inv_launch [OF inv]) (rule after_launch_inv [OF l])+
  show ?thesis
    using rd
  proof (cases rule: lookup_round_cases)
    case exhausted
    then show ?thesis using launch_queries_inv(1,3,4,5) [OF l] by (auto intro: net_inv_launch [OF inv])
  next
    case (finished m answer now' i skip)
    have lu: "lookup_inv cfg ?us" by (rule after_launch_inv(1) [OF l])
    note d = drop_task_set [OF lu finished(2), of m]
    have "answer i = Inr (Res (net i))" using finished(1) ev by auto
    then show ?thesis
      using net_inv_answer [OF u net _ _ d(2), of i now' skip ts'] d finished(3,4)
      by (simp add: drop_task_def)
  qed (use inv u ev in auto)
qed

lemma net_inv_closest:
  assumes inv: "net_inv cfg members best ts" and "is_open (hd (ts_candidates ts)) \<Longrightarrow> False"
  shows "\<exists>c cs. closest_of cfg ts = c # cs \<and> tc_id c = best"
proof -
  obtain c cs where cs: "ts_candidates ts = c # cs" using inv by (cases "ts_candidates ts") (auto simp: net_inv_def)
  have ok: "candidates_ok (tg_target cfg) (ts_candidates ts)" using inv by (auto simp: net_inv_def lookup_inv_def)
  have "cd_state c \<noteq> Failed" using inv cs by (auto simp: net_inv_def st_ids_def)
  then have resp: "cd_state c = Responded" using assms(2) cs by (cases "cd_state c") (auto simp: is_open_def)
  have "\<not> distance (tg_target cfg) j < distance (tg_target cfg) (cid c)" if j: "j \<in> set (ids (ts_candidates ts))" for j
  proof -
    obtain d where d: "d \<in> set (ts_candidates ts)" "cid d = j" using j by auto
    then have "cd_distance c \<le> cd_distance d"
      using ok cs by (auto simp: candidates_ok_def intro: less_imp_le)
    then show ?thesis using candidates_okD [OF ok] d cs by (simp add: not_less)
  qed
  moreover have "cid c \<in> st_ids Responded (ts_candidates ts)" using resp cs by (auto simp: st_ids_def)
  ultimately have "cid c = best" using inv by (auto simp: net_inv_def simp del: set_map)
  moreover have "0 < traversal_closest_limit (tg_search_kind cfg) (tg_phase2_fanout cfg)"
    by (auto simp: traversal_closest_limit_def K_def split: traversal_kind.splits)
  ultimately show ?thesis
    using resp cs by (auto simp: closest_of_def responded_contacts_def is_responded_def gr0_conv_Suc)
qed

lemma lookup_finds_closest_facts:
  assumes "responsive cfg e net" "knows_closer cfg net members best"
    and "initial \<noteq> []" "set initial \<subseteq> members" "run_lookup cfg e initial rpc = (r, ts)"
  shows "r \<noteq> Interrupted" and "\<exists>c cs. closest_of cfg ts = c # cs \<and> tc_id c = best"
proof -
  show r: "r \<noteq> Interrupted" by (rule responsive_ends [OF assms(1,5)])
  let ?start = "initial_state (tg_target cfg) initial rpc"
  have "ts_candidates ?start \<noteq> []"
    using dedup_by_id_ids [of "sort_key cd_distance (map (make_candidate_for (tg_target cfg)) initial)"] assms(3)
    by (auto simp: initial_state_def Let_def)
  moreover have "cd_contact ` set (ts_candidates ?start) \<subseteq> members"
    using initial_state_pending assms(4) by blast
  moreover have "st_ids Failed (ts_candidates ?start) = {}" "st_ids Responded (ts_candidates ?start) = {}"
    using initial_state_pending [of _ "tg_target cfg" initial rpc] by (fastforce simp: st_ids_def)+
  ultimately have "net_inv cfg members best ?start" by (simp add: net_inv_def initial_state_inv)
  then obtain k us where inv: "net_inv cfg members best ts"
  proof (rule lookup_loop_exit)
    show "lookup_loop cfg (te_now e + tg_timeout cfg) (te_rounds e) 0 ?start = (r, ts)"
      using assms(5) by (simp add: run_lookup_def)
    fix k us r' us'
    assume "net_inv cfg members best us"
      "lookup_round cfg (te_now e + tg_timeout cfg) (te_rounds e k) us = (r', us')"
    moreover obtain n now where "rd_event (te_rounds e k) = TaskFinished n (\<lambda>i. Inr (Res (net i))) now"
      using assms(1) unfolding responsive_def by meson
    ultimately show "net_inv cfg members best us'" using net_inv_round [OF _ assms(2)] by blast
  qed auto
  have ok: "candidates_ok (tg_target cfg) (ts_candidates ts)" "ts_candidates ts \<noteq> []"
    using inv by (auto simp: net_inv_def lookup_inv_def)
  have "\<not> is_open (hd (ts_candidates ts))"
    using lookup_end_settled [OF assms(5) responsive_no_panics [OF assms(1)] r]
  proof
    let ?n = "traversal_closest_limit (tg_search_kind cfg) (tg_phase2_fanout cfg)"
    assume "list_all settled (take ?n (ts_candidates ts))"
    moreover have "?n \<noteq> 0" by (auto simp: traversal_closest_limit_def K_def split: traversal_kind.splits)
    ultimately show ?thesis using ok(2) by (cases "ts_candidates ts"; cases ?n) (auto simp: settled_iff)
  next
    assume conv: "tg_search_kind cfg = FindNode \<and> find_node_lookup_converged (ts_candidates ts)"
    then obtain c where c: "c \<in> set (take K (filter is_responded (ts_candidates ts)))"
      using converged_closest(1) [OF ok(1)] by (cases "take K (filter is_responded (ts_candidates ts))") (auto simp: K_def)
    have "c \<in> set (ts_candidates ts)" using in_set_takeD [OF c] by simp
    then have "cd_distance (hd (ts_candidates ts)) \<le> cd_distance c"
      using ok by (cases "ts_candidates ts") (auto simp: candidates_ok_def intro: less_imp_le)
    then show ?thesis
      using converged_closest(2) [OF ok(1) _ c, of "hd (ts_candidates ts)"] conv ok(2) by auto
  qed
  then show "\<exists>c cs. closest_of cfg ts = c # cs \<and> tc_id c = best" using net_inv_closest [OF inv] by simp
qed

text \<open>
  C5. A lookup finds the closest member. In a network whose members answer before the deadline, and
  in which every member but one knows a contact closer to the target than itself and lists it, at
  most as many contacts as asked for, so that it passes the checks on a response, every lookup that
  starts from at least one member ends by itself, and the first contact it returns is that one
  member, in whatever order the requests are answered.
\<close>

theorem lookup_finds_closest:
  assumes "responsive cfg e net" "knows_closer cfg net members best"
    and "initial \<noteq> []" "set initial \<subseteq> members" "run_lookup cfg e initial rpc = (r, ts)"
  shows "r \<noteq> Interrupted \<and> (\<exists>c cs. closest_of cfg ts = c # cs \<and> tc_id c = best)"
  using lookup_finds_closest_facts [OF assms] by blast

subsection \<open>A network of two contacts\<close>

definition demo_id :: "u8 \<Rightarrow> node_id" where
  "demo_id x = NodeId (Arr16 [0, 0, 0, 0, 0, 0, 0, 0, 0, 0, 0, 0, x, 0, 0, 0])"

definition demo_contact :: "u8 \<Rightarrow> traversal_contact" where
  "demo_contact x = \<lparr> tc_id = demo_id x, tc_addr = (V4 (Ipv4 1 2 x 4), 4672), tc_version = 9 \<rparr>"

definition demo_entry :: contact_entry where
  "demo_entry = \<lparr> ce_node_id = demo_id 1, ce_ip = 0x01020104, ce_udp_port = 4672, ce_tcp_port = 4662, ce_version = 9 \<rparr>"

definition demo_net :: "node_id \<Rightarrow> kad_res" where
  "demo_net i = \<lparr> rs_target = nid_ZERO, rs_contacts = (if i = demo_id 2 then [demo_entry] else []) \<rparr>"

definition demo_lookup :: traversal_config where
  "demo_lookup = \<lparr> tg_target = nid_ZERO, tg_search_kind = FindNode, tg_timeout = 45, tg_query_timeout = 10,
     tg_phase2_fanout = 10, tg_result_tx = False, tg_work_class = Interactive \<rparr>"

definition demo_rounds :: traversal_env where
  "demo_rounds = \<lparr> te_now = 0,
     te_rounds = (\<lambda>k. \<lparr> rd_cancelled = False, rd_now = 1, rd_others = id,
       rd_event = TaskFinished k (\<lambda>i. Inr (Res (demo_net i))) 2 \<rparr>),
     te_phase2 = \<lparr> ph_cancelled = False, ph_now = 3, ph_now_deadline = 3, ph_now_emit = 3, ph_rounds = [] \<rparr> \<rparr>"

lemma demo_responsive: "responsive demo_lookup demo_rounds demo_net"
  by (auto simp: responsive_def demo_rounds_def demo_lookup_def)

lemma demo_id_inject [simp]: "demo_id x = demo_id y \<longleftrightarrow> x = y"
  by (simp add: demo_id_def Arr16_inject)

lemma demo_id_less: "distance nid_ZERO (demo_id 1) < distance nid_ZERO (demo_id 2)"
proof -
  have "nid_nat nid_ZERO = 0" "nid_nat (demo_id 1) = 1" "nid_nat (demo_id 2) = 2"
    by (simp_all add: nid_nat_def chunk_u32_def nid_ZERO_def demo_id_def nid_bytes_def u32_from_le_bytes_def)
  then show ?thesis by (simp add: less_node_id_def nid_cmp_nat nid_nat_distance compare_def)
qed

lemma demo_entry_contact: "entry_contact demo_entry = demo_contact 1"
  by (simp add: entry_contact_def demo_entry_def demo_contact_def entry_ip_def ce_ip_addr_def)

lemma demo_knows_closer: "knows_closer demo_lookup demo_net {demo_contact 1, demo_contact 2} (demo_id 1)"
proof -
  have ip: "entry_ip demo_entry = Ipv4 1 2 1 4" by (simp add: demo_entry_def entry_ip_def ce_ip_addr_def)
  have "ipv4_prefix_24 (Ipv4 1 2 1 4) \<noteq> ipv4_prefix_24 (Ipv4 1 2 2 4)"
    by (simp add: ipv4_prefix_24_eq del: ipv4_prefix_24.simps)
  then have "sanitize_res_contacts [demo_entry] (tc_addr (demo_contact 2)) 11 = Some [demo_entry]"
    using ip by (simp add: sanitize_res_contacts_def demo_contact_def demo_entry_def del: ipv4_prefix_24.simps)
  then have "\<exists>xs e. sanitize_res_contacts [demo_entry] (tc_addr (demo_contact 2)) 11 = Some xs \<and> e \<in> set xs \<and>
      distance nid_ZERO (ce_node_id e) < distance nid_ZERO (demo_id 2)"
    using demo_id_less by (intro exI [of _ "[demo_entry]"] exI [of _ demo_entry]) (simp add: demo_entry_def)
  then show ?thesis
    using demo_entry_contact
    by (simp add: knows_closer_def demo_net_def demo_contact_def demo_lookup_def req_count_for_def KADEMLIA_FIND_NODE_def)
qed

theorem lookup_settled_witness:
  "\<exists>r ts. run_lookup demo_lookup demo_rounds [demo_contact 2] demo_rpc = (r, ts) \<and>
     no_panics (te_rounds demo_rounds) \<and> r \<noteq> Interrupted \<and>
     (list_all settled (nearest_of demo_lookup ts) \<or> length (closest_of demo_lookup ts) = K)"
proof -
  obtain r ts where run: "run_lookup demo_lookup demo_rounds [demo_contact 2] demo_rpc = (r, ts)"
    by (cases "run_lookup demo_lookup demo_rounds [demo_contact 2] demo_rpc")
  show ?thesis
    using lookup_settled [OF run responsive_no_panics responsive_ends] run demo_responsive
      responsive_no_panics [OF demo_responsive] responsive_ends [OF demo_responsive run]
    by blast
qed

theorem lookup_finds_closest_witness:
  "responsive demo_lookup demo_rounds demo_net \<and>
   knows_closer demo_lookup demo_net {demo_contact 1, demo_contact 2} (demo_id 1) \<and>
   (\<exists>r ts. run_lookup demo_lookup demo_rounds [demo_contact 2] demo_rpc = (r, ts) \<and> r \<noteq> Interrupted \<and>
     (\<exists>c cs. closest_of demo_lookup ts = c # cs \<and> tc_id c = demo_id 1))"
proof -
  obtain r ts where run: "run_lookup demo_lookup demo_rounds [demo_contact 2] demo_rpc = (r, ts)"
    by (cases "run_lookup demo_lookup demo_rounds [demo_contact 2] demo_rpc")
  show ?thesis
    using lookup_finds_closest [OF demo_responsive demo_knows_closer _ _ run] demo_responsive
      demo_knows_closer run by simp
qed

theorem response_contribution_witness:
  "\<exists>skip ts'. apply_query_result demo_lookup (demo_id 2) (Inr (Res (demo_net (demo_id 2)))) 2
       (initial_state nid_ZERO [demo_contact 2] demo_rpc) = (skip, ts') \<and>
     card (new_contacts (initial_state nid_ZERO [demo_contact 2] demo_rpc) ts') \<le> 11 \<and>
     card {c \<in> new_contacts (initial_state nid_ZERO [demo_contact 2] demo_rpc) ts'.
       \<exists>a. fst (tc_addr c) = V4 a \<and> subnet24 a = (1, 2, 1)} \<le> 2"
proof -
  let ?ts = "initial_state nid_ZERO [demo_contact 2] demo_rpc"
  have inv: "lookup_inv demo_lookup ?ts"
    using initial_state_inv [of demo_lookup] by (simp add: demo_lookup_def)
  have c: "candidate_with (demo_id 2) (ts_candidates ?ts) = Some (make_candidate_for nid_ZERO (demo_contact 2))"
    by (simp add: candidate_with_def initial_state_def make_candidate_for_def demo_contact_def)
  obtain skip ts' where ap: "apply_query_result demo_lookup (demo_id 2) (Inr (Res (demo_net (demo_id 2)))) 2 ?ts
      = (skip, ts')"
    by (cases "apply_query_result demo_lookup (demo_id 2) (Inr (Res (demo_net (demo_id 2)))) 2 ?ts")
  show ?thesis
    using response_contribution [OF inv c _ ap, of _ _ "(1, 2, 1)"] ap
    by (simp add: make_candidate_for_def demo_contact_def demo_lookup_def req_count_for_def KADEMLIA_FIND_NODE_def)
qed

subsection \<open>The search phase\<close>

definition result_item :: "node_id \<Rightarrow> socket_addr set \<Rightarrow> search_env list \<Rightarrow> search_item \<Rightarrow> bool" where
  "result_item target queried rounds item \<longleftrightarrow>
     (\<exists>e \<in> set rounds. \<exists>now rk sr entry. (now, DrainReceived rk) \<in> set (sx_drain e) \<and> rk_packet rk = SearchRes sr \<and>
        rk_from rk \<in> queried \<and> sr_target sr = target \<and> entry \<in> set (sr_results sr) \<and>
        item = (se_entry_id entry, se_tags entry))"

abbreviation sent_contacts :: "search_state \<Rightarrow> traversal_contact list" where
  "sent_contacts ss \<equiv> map (\<lambda>s. fst (snd s)) (ss_sent ss)"

definition items :: "search_state \<Rightarrow> search_item set" where
  "items ss = set (ss_search_entries ss) \<union> set (ss_streamed ss)"

definition walk_inv ::
  "node_id \<Rightarrow> nat \<Rightarrow> nat \<Rightarrow> nat \<Rightarrow> search_env list \<Rightarrow> traversal_contact list \<Rightarrow> search_state \<Rightarrow> bool" where
  "walk_inv target emit_at phase_deadline tick rounds send_to ss \<longleftrightarrow>
     prefix (sent_contacts ss) send_to \<and>
     ss_queried_addrs ss = tc_addr ` set (sent_contacts ss) \<and>
     sorted_wrt (\<lambda>s t. fst s + tick \<le> fst t) (ss_sent ss) \<and>
     (\<forall>s \<in> set (ss_sent ss). fst s + tick \<le> ss_next_emit_at ss \<and> emit_at \<le> fst s \<and> fst s < phase_deadline) \<and>
     (ss_pending_contacts ss \<noteq> [] \<longrightarrow> emit_at \<le> ss_next_emit_at ss) \<and>
     (\<forall>item \<in> items ss. result_item target (ss_queried_addrs ss) rounds item)"

lemma result_item_mono:
  "result_item target queried rounds item \<Longrightarrow> queried \<subseteq> queried' \<Longrightarrow> result_item target queried' rounds item"
  unfolding result_item_def by blast

text \<open>The response a step of the drain takes results from.\<close>

fun accepted :: "node_id \<Rightarrow> search_state \<Rightarrow> drain_event \<Rightarrow> search_res option" where
  "accepted target ss (DrainReceived rk) =
     (case rk_packet rk of
        SearchRes sr \<Rightarrow> if rk_from rk \<in> ss_queried_addrs ss \<and> sr_target sr = target then Some sr else None
      | _ \<Rightarrow> None)"
| "accepted target ss _ = None"

definition drain_step :: "bool \<Rightarrow> node_id \<Rightarrow> drain_event \<Rightarrow> search_state \<Rightarrow> search_state" where
  "drain_step tx target ev ss = (case accepted target ss ev of None \<Rightarrow> ss | Some sr \<Rightarrow> take_results tx sr ss)"

lemma collect_Cons:
  "collect_search_results_until tx target until ((now, ev) # evs) ss =
     (if until \<le> now \<or> ev = DrainCancelled \<or> ev = DrainClosed then ss
      else collect_search_results_until tx target until evs (drain_step tx target ev ss))"
proof (cases ev)
  case (DrainReceived rk)
  then show ?thesis by (cases "rk_packet rk") (simp_all add: drain_step_def)
qed (simp_all add: drain_step_def)

lemma drain_step_frame:
  "ss_queried_addrs (drain_step tx target ev ss) = ss_queried_addrs ss \<and>
   ss_pending_contacts (drain_step tx target ev ss) = ss_pending_contacts ss \<and>
   ss_sent (drain_step tx target ev ss) = ss_sent ss \<and>
   ss_next_emit_at (drain_step tx target ev ss) = ss_next_emit_at ss"
  by (simp add: drain_step_def take_results_def Let_def split: option.split)

lemma collect_frame:
  "ss_queried_addrs (collect_search_results_until tx target until evs ss) = ss_queried_addrs ss \<and>
   ss_pending_contacts (collect_search_results_until tx target until evs ss) = ss_pending_contacts ss \<and>
   ss_sent (collect_search_results_until tx target until evs ss) = ss_sent ss \<and>
   ss_next_emit_at (collect_search_results_until tx target until evs ss) = ss_next_emit_at ss"
proof (induction evs arbitrary: ss)
  case (Cons p evs)
  then show ?case
    by (cases p) (simp add: collect_Cons drain_step_frame del: collect_search_results_until.simps(2))
qed simp

lemma accepted_Some:
  "accepted target ss ev = Some sr \<Longrightarrow> \<exists>rk. ev = DrainReceived rk \<and> rk_packet rk = SearchRes sr \<and>
     rk_from rk \<in> ss_queried_addrs ss \<and> sr_target sr = target"
proof (cases ev)
  case (DrainReceived rk)
  then show "accepted target ss ev = Some sr \<Longrightarrow> ?thesis" by (cases "rk_packet rk") (auto split: if_splits)
qed simp_all

lemma drain_step_items:
  assumes "\<forall>item \<in> items ss. result_item target (ss_queried_addrs ss) rounds item"
    and "e \<in> set rounds" "(now, ev) \<in> set (sx_drain e)"
  shows "\<forall>item \<in> items (drain_step tx target ev ss). result_item target (ss_queried_addrs ss) rounds item"
proof (cases "accepted target ss ev")
  case None
  then show ?thesis using assms(1) by (simp add: drain_step_def)
next
  case (Some sr)
  obtain rk where rk: "ev = DrainReceived rk" "rk_packet rk = SearchRes sr" "rk_from rk \<in> ss_queried_addrs ss"
      "sr_target sr = target"
    using accepted_Some [OF Some] by blast
  have "result_item target (ss_queried_addrs ss) rounds (se_entry_id x, se_tags x)" if "x \<in> set (sr_results sr)" for x
    unfolding result_item_def using assms(2,3) rk that by blast
  then show ?thesis using assms(1) Some by (auto simp: drain_step_def take_results_def Let_def items_def)
qed

lemma collect_items:
  "\<forall>item \<in> items ss. result_item target (ss_queried_addrs ss) rounds item \<Longrightarrow>
   e \<in> set rounds \<Longrightarrow> set evs \<subseteq> set (sx_drain e) \<Longrightarrow>
   \<forall>item \<in> items (collect_search_results_until tx target until evs ss).
     result_item target (ss_queried_addrs ss) rounds item"
proof (induction evs arbitrary: ss)
  case (Cons p evs)
  obtain now ev where p: "p = (now, ev)" by (cases p)
  have "\<forall>item \<in> items (drain_step tx target ev ss). result_item target (ss_queried_addrs ss) rounds item"
    using Cons.prems p by (intro drain_step_items) auto
  then have "\<forall>item \<in> items (collect_search_results_until tx target until evs (drain_step tx target ev ss)).
      result_item target (ss_queried_addrs ss) rounds item"
    using Cons.IH [of "drain_step tx target ev ss"] Cons.prems(2,3) drain_step_frame by simp
  then show ?case
    using Cons.prems(1) p by (simp add: collect_Cons del: collect_search_results_until.simps(2))
qed simp

definition drained :: "traversal_config \<Rightarrow> nat \<Rightarrow> search_env \<Rightarrow> search_state \<Rightarrow> search_state" where
  "drained cfg pd e ss =
     (let ss = collect_search_results_until (tg_result_tx cfg) (tg_target cfg)
            (if ss_pending_contacts ss = [] then pd else min (ss_next_emit_at ss) pd) (sx_drain e) ss in
      ss\<lparr>ss_rpc := sx_others e (ss_rpc ss)\<rparr>)"

lemma search_round_cases:
  assumes "search_round B md5 cfg pd tick e ss = (status, ss')"
  obtains (finished) "status = SearchDone" "ss' = ss"
  | (waited) "status \<noteq> SearchPanicked" "ss' = drained cfg pd e ss"
  | (panicked) rest rpc where "status = SearchPanicked" "ss_pending_contacts (drained cfg pd e ss) \<noteq> []"
      "ss' = (drained cfg pd e ss)\<lparr>ss_pending_contacts := rest, ss_rpc := rpc\<rparr>"
  | (sent) contact rest wire rpc where "status = StillRunning"
      "ss_pending_contacts (drained cfg pd e ss) = contact # rest" "sx_now_drained e < pd"
      "ss_next_emit_at (drained cfg pd e ss) \<le> sx_now_drained e"
      "ss' = (drained cfg pd e ss)\<lparr>ss_pending_contacts := rest, ss_rpc := rpc,
         ss_queried_addrs := insert (tc_addr contact) (ss_queried_addrs (drained cfg pd e ss)),
         ss_next_emit_at := sx_now_sent e + tick,
         ss_sent := ss_sent (drained cfg pd e ss) @ [(sx_now_drained e, contact, wire)]\<rparr>"
proof -
  let ?ds = "drained cfg pd e ss"
  consider "sx_cancelled e \<or> pd \<le> sx_now e" | "\<not> (sx_cancelled e \<or> pd \<le> sx_now e)" by blast
  then show thesis
  proof cases
    case 1
    then show ?thesis using assms finished by (cases "sx_cancelled e") (simp_all add: search_round_def)
  next
    case 2
    then have rd: "(status, ss') = (if sx_now_drained e \<ge> pd then (SearchDone, ?ds)
        else case ss_pending_contacts ?ds of
            [] \<Rightarrow> (StillRunning, ?ds)
          | contact # rest \<Rightarrow>
              if sx_now_drained e < ss_next_emit_at ?ds then (StillRunning, ?ds)
              else
                let ss = ?ds\<lparr>ss_pending_contacts := rest,
                      ss_rpc := register_traversal_identity contact (ss_rpc ?ds)\<rparr> in
                case search_packet (tg_search_kind cfg) (tg_target cfg) of
                  None \<Rightarrow> (SearchPanicked, ss)
                | Some packet \<Rightarrow>
                    (case send_with_class B md5 (sx_send e) (tc_addr contact) packet (tg_work_class cfg)
                        (ss_rpc ss) of
                       None \<Rightarrow> (SearchPanicked, ss)
                     | Some (wire, rpc) \<Rightarrow>
                         (StillRunning, ss\<lparr>ss_rpc := rpc,
                            ss_queried_addrs := insert (tc_addr contact) (ss_queried_addrs ss),
                            ss_next_emit_at := sx_now_sent e + tick,
                            ss_sent := ss_sent ss @ [(sx_now_drained e, contact, wire)]\<rparr>)))"
      using assms by (simp only: search_round_def drained_def Let_def de_Morgan_disj if_False)
    show ?thesis
    proof (cases "sx_now_drained e \<ge> pd \<or> ss_pending_contacts ?ds = [] \<or> sx_now_drained e < ss_next_emit_at ?ds")
      case True
      then show ?thesis using rd waited by (auto split: list.splits if_splits)
    next
      case False
      then obtain c rest where p: "ss_pending_contacts ?ds = c # rest" by (cases "ss_pending_contacts ?ds") auto
      show ?thesis
        using rd False p panicked sent [OF _ p]
        by (simp add: Let_def split: option.splits prod.splits)
    qed
  qed
qed

lemma search_round_inv:
  assumes inv: "walk_inv target emit_at pd tick rounds send_to ss" "sent_contacts ss @ ss_pending_contacts ss = send_to"
    and e: "e \<in> set rounds" "sx_now_drained e \<le> sx_now_sent e" and target: "target = tg_target cfg"
    and rd: "search_round B md5 cfg pd tick e ss = (status, ss')"
  shows "walk_inv target emit_at pd tick rounds send_to ss' \<and>
    (status = StillRunning \<longrightarrow> sent_contacts ss' @ ss_pending_contacts ss' = send_to)"
proof -
  let ?ds = "drained cfg pd e ss"
  have fr: "ss_queried_addrs ?ds = ss_queried_addrs ss" "ss_pending_contacts ?ds = ss_pending_contacts ss"
    "ss_sent ?ds = ss_sent ss" "ss_next_emit_at ?ds = ss_next_emit_at ss"
    by (simp_all add: drained_def Let_def collect_frame)
  obtain until where "items ?ds = items (collect_search_results_until (tg_result_tx cfg) target until (sx_drain e) ss)"
    by (simp add: drained_def Let_def items_def target)
  moreover have "\<forall>item \<in> items ss. result_item target (ss_queried_addrs ss) rounds item"
    using inv(1) unfolding walk_inv_def by blast
  ultimately have "\<forall>item \<in> items ?ds. result_item target (ss_queried_addrs ss) rounds item"
    using collect_items [OF _ e(1) subset_refl] by simp
  then have d: "walk_inv target emit_at pd tick rounds send_to ?ds"
    using inv by (simp add: walk_inv_def fr)
  show ?thesis
    using rd
  proof (cases rule: search_round_cases)
    case (panicked rest rpc)
    then show ?thesis using d by (auto simp: walk_inv_def items_def fr)
  next
    case (sent contact rest wire rpc)
    have "items ss' = items ?ds" using sent(5) by (simp add: items_def)
    moreover have "prefix (sent_contacts ss @ [contact]) send_to"
      using inv(2) sent(2) fr(2) by (auto simp: prefix_def)
    moreover have "\<forall>s \<in> set (ss_sent ss). fst s + tick \<le> sx_now_drained e"
      using d sent(4) fr by (auto simp: walk_inv_def)
    moreover have "fst s + tick \<le> sx_now_sent e + tick" if "s \<in> set (ss_sent ss)" for s
      using calculation(3) that e(2) by fastforce
    ultimately show ?thesis
      using d sent e(2) inv(2)
      by (auto simp: walk_inv_def fr sorted_wrt_append intro: result_item_mono)
  qed (use inv d fr in auto)
qed

lemma search_loop_inv:
  assumes "walk_inv target emit_at pd tick rounds send_to ss" "sent_contacts ss @ ss_pending_contacts ss = send_to"
    and "set es \<subseteq> set rounds" "\<forall>e \<in> set rounds. sx_now_drained e \<le> sx_now_sent e" "target = tg_target cfg"
    and "search_loop B md5 cfg pd tick es ss = (status, ss')"
  shows "walk_inv target emit_at pd tick rounds send_to ss'"
  using assms
proof (induction es arbitrary: ss)
  case (Cons e es)
  obtain st us where rd: "search_round B md5 cfg pd tick e ss = (st, us)"
    by (cases "search_round B md5 cfg pd tick e ss")
  have *: "walk_inv target emit_at pd tick rounds send_to us \<and>
      (st = StillRunning \<longrightarrow> sent_contacts us @ ss_pending_contacts us = send_to)"
    using Cons.prems by (intro search_round_inv [OF _ _ _ _ _ rd]) auto
  then show ?case using Cons rd by (cases st) auto
qed simp

lemma search_loop_ends:
  "\<exists>e \<in> set es. pd \<le> sx_now e \<Longrightarrow> fst (search_loop B md5 cfg pd tick es ss) \<noteq> StillRunning"
proof (induction es arbitrary: ss)
  case (Cons e es)
  obtain st us where rd: "search_round B md5 cfg pd tick e ss = (st, us)"
    by (cases "search_round B md5 cfg pd tick e ss")
  have "st = SearchDone" if "pd \<le> sx_now e" using rd that by (auto simp: search_round_def split: if_splits)
  then show ?case using Cons rd by (cases st) auto
qed simp

lemma walk_inv_start:
  "walk_inv target emit_at pd tick rounds send_to (search_start rpc send_to emit_at)"
  by (simp add: walk_inv_def search_start_def items_def)

lemma search_phase_walk:
  assumes run: "run_search_phase B md5 cfg e deadline last_at responded rpc = (status, ss)"
    and clock: "\<forall>r \<in> set (ph_rounds e). sx_now_drained r \<le> sx_now_sent r"
  defines "pd \<equiv> ph_now_deadline e + min (tg_query_timeout cfg) (deadline - ph_now e)"
  shows "walk_inv (tg_target cfg)
      (compute_initial_jumpstart_emit_at last_at (ph_now_emit e) SEARCH_JUMPSTART_IDLE_GRACE) pd
      SEARCH_JUMPSTART_TICK (ph_rounds e)
      (select_phase2_contacts responded (tg_target cfg) (tg_phase2_fanout cfg)) ss \<and>
    ((\<exists>r \<in> set (ph_rounds e). pd \<le> sx_now r) \<longrightarrow> status \<noteq> StillRunning)"
proof (cases "ph_cancelled e \<or> ph_now e \<ge> deadline")
  case True
  then have "status = SearchDone" "ss = search_start rpc [] 0"
    using run by (cases "ph_cancelled e"; simp add: run_search_phase_def)+
  then show ?thesis by (simp add: walk_inv_def search_start_def items_def)
next
  case False
  let ?start = "search_start rpc (select_phase2_contacts responded (tg_target cfg) (tg_phase2_fanout cfg))
    (compute_initial_jumpstart_emit_at last_at (ph_now_emit e) SEARCH_JUMPSTART_IDLE_GRACE)"
  have loop: "search_loop B md5 cfg pd SEARCH_JUMPSTART_TICK (ph_rounds e) ?start = (status, ss)"
    using run False by (simp add: run_search_phase_def pd_def)
  then show ?thesis
    using search_loop_inv [OF walk_inv_start _ subset_refl clock refl loop]
      search_loop_ends [of "ph_rounds e" pd B md5 cfg SEARCH_JUMPSTART_TICK ?start]
    by (simp add: search_start_def)
qed

lemma search_walk_facts:
  assumes run: "run_search_phase B md5 cfg e deadline last_at responded rpc = (status, ss)"
    and clock: "\<forall>r \<in> set (ph_rounds e). sx_now_drained r \<le> sx_now_sent r"
  shows "prefix (map (\<lambda>s. fst (snd s)) (ss_sent ss))
      (take (min (tg_phase2_fanout cfg) K) (filter (passes_search_tolerance (tg_target cfg)) responded))"
    and "sorted_wrt (\<lambda>s t. fst s + SEARCH_JUMPSTART_TICK \<le> fst t) (ss_sent ss)"
    and "\<forall>s \<in> set (ss_sent ss). fst s < ph_now_deadline e + tg_query_timeout cfg \<and>
      (\<forall>t. last_at = Some t \<longrightarrow> t + SEARCH_JUMPSTART_IDLE_GRACE \<le> fst s)"
    and "\<forall>item \<in> set (ss_search_entries ss) \<union> set (ss_streamed ss).
      result_item (tg_target cfg) (tc_addr ` set (map (\<lambda>s. fst (snd s)) (ss_sent ss))) (ph_rounds e) item"
    and "\<exists>r \<in> set (ph_rounds e). ph_now_deadline e + tg_query_timeout cfg \<le> sx_now r \<Longrightarrow> status \<noteq> StillRunning"
proof -
  let ?to = "select_phase2_contacts responded (tg_target cfg) (tg_phase2_fanout cfg)"
  let ?pd = "ph_now_deadline e + min (tg_query_timeout cfg) (deadline - ph_now e)"
  let ?at = "compute_initial_jumpstart_emit_at last_at (ph_now_emit e) SEARCH_JUMPSTART_IDLE_GRACE"
  note main = search_phase_walk [OF run clock]
  have at: "t + SEARCH_JUMPSTART_IDLE_GRACE \<le> ?at" if "last_at = Some t" for t
    using that by (simp add: compute_initial_jumpstart_emit_at_def)
  show "prefix (map (\<lambda>s. fst (snd s)) (ss_sent ss))
      (take (min (tg_phase2_fanout cfg) K) (filter (passes_search_tolerance (tg_target cfg)) responded))"
    using main by (simp add: walk_inv_def select_phase2_contacts_def)
  show "sorted_wrt (\<lambda>s t. fst s + SEARCH_JUMPSTART_TICK \<le> fst t) (ss_sent ss)"
    using main by (simp add: walk_inv_def)
  show "\<forall>s \<in> set (ss_sent ss). fst s < ph_now_deadline e + tg_query_timeout cfg \<and>
      (\<forall>t. last_at = Some t \<longrightarrow> t + SEARCH_JUMPSTART_IDLE_GRACE \<le> fst s)"
  proof
    fix s assume "s \<in> set (ss_sent ss)"
    then have "?at \<le> fst s" "fst s < ?pd" using main unfolding walk_inv_def by blast+
    then show "fst s < ph_now_deadline e + tg_query_timeout cfg \<and>
        (\<forall>t. last_at = Some t \<longrightarrow> t + SEARCH_JUMPSTART_IDLE_GRACE \<le> fst s)"
      using at by (auto intro: order_trans)
  qed
  show "\<forall>item \<in> set (ss_search_entries ss) \<union> set (ss_streamed ss).
      result_item (tg_target cfg) (tc_addr ` set (map (\<lambda>s. fst (snd s)) (ss_sent ss))) (ph_rounds e) item"
    using main unfolding walk_inv_def items_def by metis
  assume "\<exists>r \<in> set (ph_rounds e). ph_now_deadline e + tg_query_timeout cfg \<le> sx_now r"
  moreover have "?pd \<le> ph_now_deadline e + tg_query_timeout cfg" by simp
  ultimately have "\<exists>r \<in> set (ph_rounds e). ?pd \<le> sx_now r" by (meson order_trans)
  then show "status \<noteq> StillRunning" using main by blast
qed

text \<open>
  C31. The search phase is paced and takes no results from strangers. If the clock does not go
  backwards during a send, search packets go, in order, to contacts that answered the lookup and
  are close enough to the target, at most \<open>K\<close> and at most as many as configured; the first one at
  least three seconds after the last answer of the lookup, each at least one second after the one
  before, and none after the time allowed for the phase; every result collected or streamed comes
  from a search response for the target that a contact that was asked sent; and the phase ends once
  the time allowed is over.
\<close>

theorem search_walk:
  assumes run: "run_search_phase B md5 cfg e deadline last_at responded rpc = (status, ss)"
    and clock: "\<forall>r \<in> set (ph_rounds e). sx_now_drained r \<le> sx_now_sent r"
  shows "prefix (map (\<lambda>s. fst (snd s)) (ss_sent ss))
      (take (min (tg_phase2_fanout cfg) K) (filter (passes_search_tolerance (tg_target cfg)) responded)) \<and>
    sorted_wrt (\<lambda>s t. fst s + SEARCH_JUMPSTART_TICK \<le> fst t) (ss_sent ss) \<and>
    (\<forall>s \<in> set (ss_sent ss). fst s < ph_now_deadline e + tg_query_timeout cfg \<and>
      (\<forall>t. last_at = Some t \<longrightarrow> t + SEARCH_JUMPSTART_IDLE_GRACE \<le> fst s)) \<and>
    (\<forall>item \<in> set (ss_search_entries ss) \<union> set (ss_streamed ss).
      result_item (tg_target cfg) (tc_addr ` set (map (\<lambda>s. fst (snd s)) (ss_sent ss))) (ph_rounds e) item) \<and>
    ((\<exists>r \<in> set (ph_rounds e). ph_now_deadline e + tg_query_timeout cfg \<le> sx_now r) \<longrightarrow> status \<noteq> StillRunning)"
  using search_walk_facts [OF assms] by blast

definition demo_search :: traversal_config where
  "demo_search = \<lparr> tg_target = nid_ZERO, tg_search_kind = NotesSearch 7, tg_timeout = 45000000000,
     tg_query_timeout = 10000000000, tg_phase2_fanout = 10, tg_result_tx = False, tg_work_class = Interactive \<rparr>"

definition demo_phase :: phase_env where
  "demo_phase = \<lparr> ph_cancelled = False, ph_now = 2, ph_now_deadline = 2, ph_now_emit = 2,
     ph_rounds = [\<lparr> sx_cancelled = False, sx_now = 2, sx_drain = [], sx_now_drained = 3000000002,
       sx_send = demo_env, sx_now_sent = 3000000003, sx_others = id \<rparr>] \<rparr>"

theorem search_walk_witness:
  "\<exists>status ss. run_search_phase (le_ext id (\<lambda>_. None)) demo_md5 demo_search demo_phase 45000000000 (Some 1)
       [demo_contact 2] demo_rpc = (status, ss) \<and>
     (\<forall>r \<in> set (ph_rounds demo_phase). sx_now_drained r \<le> sx_now_sent r) \<and>
     prefix (map (\<lambda>s. fst (snd s)) (ss_sent ss)) [demo_contact 2] \<and>
     sorted_wrt (\<lambda>s t. fst s + SEARCH_JUMPSTART_TICK \<le> fst t) (ss_sent ss) \<and>
     (\<forall>s \<in> set (ss_sent ss). 1 + SEARCH_JUMPSTART_IDLE_GRACE \<le> fst s)"
proof -
  obtain status ss where run: "run_search_phase (le_ext id (\<lambda>_. None)) demo_md5 demo_search demo_phase
      45000000000 (Some 1) [demo_contact 2] demo_rpc = (status, ss)"
    by (cases "run_search_phase (le_ext id (\<lambda>_. None)) demo_md5 demo_search demo_phase
      45000000000 (Some 1) [demo_contact 2] demo_rpc")
  have clock: "\<forall>r \<in> set (ph_rounds demo_phase). sx_now_drained r \<le> sx_now_sent r"
    by (simp add: demo_phase_def)
  have "passes_search_tolerance nid_ZERO (demo_contact 2)"
    by (simp add: passes_search_tolerance_def demo_contact_def distance_high32_def SEARCHTOLERANCE_def
        demo_id_def nid_ZERO_def nid_bytes_def distance_def u32_from_le_bytes_def traversal_is_lan_ip_def)
  then show ?thesis
    using search_walk [OF run clock] run clock by (simp add: demo_search_def K_def)
qed

end
