(* ===== verification/Kad_Bootstrap_Props.thy ===== *)
theory Kad_Bootstrap_Props
  imports Kad_Bootstrap Kad_Traversal_Props
begin

text \<open>
  What the contact files and the bootstrap procedure guarantee: a \<open>nodes.dat\<close> written by the agent, and
  one in each of the documented formats, is read back; a text list of endpoints is read back; and the
  bootstrap procedure returns, keeps the routing table consistent and declares the node bootstrapped
  only with enough contacts.
\<close>

subsection \<open>Entries\<close>

lemma ipv4_round_trip [simp]: "ipv4_of_u32 (u32_of_ipv4 ip) = ip"
proof (cases ip)
  case (Ipv4 a b c d)
  have "ucast (drop_bit 24 (u32_from_le_bytes d c b a)) = a" "ucast (drop_bit 16 (u32_from_le_bytes d c b a)) = b"
    "ucast (drop_bit 8 (u32_from_le_bytes d c b a)) = c" "ucast (u32_from_le_bytes d c b a) = d"
    by (rule bit_word_eqI; simp add: bit_ucast_iff bit_drop_bit_eq bit_u32_from_le_bytes)+
  then show ?thesis using Ipv4 by (simp add: ipv4_of_u32_def u32_of_ipv4_def)
qed

lemma u32_of_ipv4_zero: "u32_of_ipv4 ip = 0 \<longleftrightarrow> ip = Ipv4 0 0 0 0"
proof
  assume "u32_of_ipv4 ip = 0"
  then have "ip = ipv4_of_u32 0" using ipv4_round_trip [of ip] by simp
  then show "ip = Ipv4 0 0 0 0" by (simp add: ipv4_of_u32_def)
qed (simp add: u32_of_ipv4_def u32_from_le_bytes_def)

interpretation nodes_entries: codec "read_nodes_dat_entry B" "\<lambda>e. Some (write_nodes_dat_entry B e)"
    "\<lambda>_. binrw_ok B" "\<lambda>e. e" for B
  by standard (simp add: read_nodes_dat_entry_def write_nodes_dat_entry_def wire_simps)

interpretation nodes_entries_ext: codec "read_nodes_dat_entry_ext B" "\<lambda>e. Some (write_nodes_dat_entry_ext B e)"
    "\<lambda>_. binrw_ok B" "\<lambda>e. e" for B
  by standard (simp add: read_nodes_dat_entry_ext_def write_nodes_dat_entry_ext_def wire_simps)

lemma length_write_nodes_dat_entry:
  "binrw_ok B \<Longrightarrow> length (write_nodes_dat_entry B e) = 25"
  "binrw_ok B \<Longrightarrow> length (write_nodes_dat_entry_ext B x) = 34"
  by (simp_all add: write_nodes_dat_entry_def write_nodes_dat_entry_ext_def wire_simps)

lemma length_concat_const: "\<forall>x \<in> set xs. length (f x) = k \<Longrightarrow> length (concat (map f xs)) = length xs * k"
  by (induction xs) auto

lemma write_n_Some: "write_n (\<lambda>x. Some (f x)) xs = Some (concat (map f xs))"
  by (induction xs) (simp_all add: write_n_def)

lemma read_n_map:
  "read_n n rd s = Inr (xs, r) \<Longrightarrow> read_n n (rbind rd (\<lambda>e. rret (f e))) s = Inr (map f xs, r)"
proof (induction n arbitrary: xs s)
  case (Suc n)
  then obtain x s' ys where "rd s = Inr (x, s')" "read_n n rd s' = Inr (ys, r)" "xs = x # ys"
    by (auto simp: rbind_eq_Inr)
  then show ?case using Suc.IH by simp
qed simp

lemma map_filter_id_map: "List.map_filter id (map f xs) = List.map_filter f xs"
  by (induction xs) (simp_all add: List.map_filter_simps split: option.split)

text \<open>
  A file body of \<open>entries\<close>, in the short or the extended layout, with what each entry gives.
\<close>

datatype nodes_body = ShortBody "nodes_dat_entry list" | ExtendedBody "nodes_dat_entry_ext list"

fun body_length :: "nodes_body \<Rightarrow> nat" where
  "body_length (ShortBody es) = length es"
| "body_length (ExtendedBody es) = length es"

fun body_bytes :: "ext \<Rightarrow> nodes_body \<Rightarrow> bytes" where
  "body_bytes B (ShortBody es) = concat (map (write_nodes_dat_entry B) es)"
| "body_bytes B (ExtendedBody es) = concat (map (write_nodes_dat_entry_ext B) es)"

fun body_contacts :: "nodes_body \<Rightarrow> bootstrap_contact list" where
  "body_contacts (ShortBody es) = List.map_filter (\<lambda>e. bootstrap_contact_of e udp_key_ZERO) es"
| "body_contacts (ExtendedBody es) =
     List.map_filter (\<lambda>e. bootstrap_contact_of (nodes_dat_entry.truncate e) (KadUdpKey (nd_udp_key e))) es"

lemma read_body:
  assumes "binrw_ok B" "body_length body \<noteq> 0"
  shows "\<exists>cs. read_n (body_length body) (read_bootstrap_entry B
       (length (body_bytes B body) div body_length body \<ge> 34)) (body_bytes B body) = Inr (cs, []) \<and>
     List.map_filter id cs = body_contacts body"
proof (cases body)
  case (ShortBody es)
  have "length (body_bytes B body) = length es * 25"
    unfolding ShortBody body_bytes.simps using assms(1)
    by (intro length_concat_const) (simp add: length_write_nodes_dat_entry)
  then have "\<not> length (body_bytes B body) div body_length body \<ge> 34" using assms(2) ShortBody by simp
  moreover have rd: "read_n (length es) (read_nodes_dat_entry B) (body_bytes B body) = Inr (es, [])"
    using nodes_entries.list_round_trip [of es B] assms(1)
    by (simp add: ShortBody write_n_Some) (metis append_Nil2)
  ultimately show ?thesis
    using read_n_map [OF rd, of "\<lambda>e. bootstrap_contact_of e udp_key_ZERO"] ShortBody by (simp add: read_bootstrap_entry_def map_filter_id_map)
next
  case (ExtendedBody es)
  have "length (body_bytes B body) = length es * 34"
    unfolding ExtendedBody body_bytes.simps using assms(1)
    by (intro length_concat_const) (simp add: length_write_nodes_dat_entry)
  then have "length (body_bytes B body) div body_length body \<ge> 34" using assms(2) ExtendedBody by simp
  moreover have rd: "read_n (length es) (read_nodes_dat_entry_ext B) (body_bytes B body) = Inr (es, [])"
    using nodes_entries_ext.list_round_trip [of es B] assms(1)
    by (simp add: ExtendedBody write_n_Some) (metis append_Nil2)
  ultimately show ?thesis
    using read_n_map [OF rd, of "\<lambda>e. bootstrap_contact_of (nodes_dat_entry.truncate e) (KadUdpKey (nd_udp_key e))"]
      ExtendedBody
    by (simp add: read_bootstrap_entry_def map_filter_id_map)
qed

subsection \<open>Files\<close>

text \<open>The five headers the parser is documented to accept, for \<open>n\<close> entries.\<close>

definition nodes_headers :: "ext \<Rightarrow> u32 \<Rightarrow> bytes set" where
  "nodes_headers B n =
     {bw_u32 B 0 @ bw_u32 B 2 @ bw_u32 B n, bw_u32 B 2 @ bw_u32 B n} \<union>
     {bw_u32 B 0 @ bw_u32 B 3 @ bw_u32 B edition @ bw_u32 B n | edition. True} \<union>
     {bw_u32 B 3 @ bw_u32 B edition @ bw_u32 B n | edition. True} \<union>
     (if n = 2 \<or> n = 3 then {} else {bw_u32 B n})"

lemma read_header:
  assumes "binrw_ok B" "h \<in> nodes_headers B n" "n \<noteq> 0"
  shows "read_nodes_dat_count B (h @ r) = Inr (n, r)"
  using assms
  by (auto simp: nodes_headers_def read_nodes_dat_count_def read_versioned_count_def wire_simps split: if_splits)

lemma header_length: "binrw_ok B \<Longrightarrow> h \<in> nodes_headers B n \<Longrightarrow> 4 \<le> length h"
  by (auto simp: nodes_headers_def wire_simps split: if_splits)

lemma body_bytes_length: "binrw_ok B \<Longrightarrow> 25 * body_length body \<le> length (body_bytes B body)"
  using length_concat_const [of _ "write_nodes_dat_entry B" 25] length_concat_const [of _ "write_nodes_dat_entry_ext B" 34]
  by (cases body) (simp_all add: length_write_nodes_dat_entry)

lemma parse_file:
  assumes B: "binrw_ok B" and h: "h \<in> nodes_headers B (of_nat (body_length body))"
    and n: "0 < body_length body" "body_length body \<le> 500000"
  shows "parse_nodes_dat B (h @ body_bytes B body) = Inr (body_contacts body)"
proof -
  have u: "unat (of_nat (body_length body) :: u32) = body_length body"
    using n by (simp add: unat_of_nat)
  have ne: "(of_nat (body_length body) :: u32) \<noteq> 0" using n(1) u by (metis unat_0 less_irrefl)
  have le: "\<not> (of_nat (body_length body) :: u32) > 500000"
    using n(2) u by (simp add: word_less_nat_alt)
  obtain cs where cs: "read_n (body_length body) (read_bootstrap_entry B
       (length (body_bytes B body) div body_length body \<ge> 34)) (body_bytes B body) = Inr (cs, [])"
     "List.map_filter id cs = body_contacts body"
    using read_body [OF B] n(1) by blast
  have "8 \<le> length (h @ body_bytes B body)"
    using header_length [OF B h] body_bytes_length [OF B, of body] n(1) by simp
  then show ?thesis
    using read_header [OF B h ne, of "body_bytes B body"] cs ne le u by (simp add: parse_nodes_dat_def Let_def)
qed

lemma bootstrap_contact_of_entry:
  "bootstrap_contact_of (nodes_dat_entry.truncate (nodes_dat_entry_of c)) (KadUdpKey (nd_udp_key (nodes_dat_entry_of c))) =
     (if bc_ip c \<noteq> Ipv4 0 0 0 0 \<and> bc_udp_port c \<noteq> 0 then Some c else None)"
  by (cases c; cases "bc_udp_key c")
    (auto simp: bootstrap_contact_of_def nodes_dat_entry_of_def nodes_dat_entry.truncate_def u32_of_ipv4_zero)

lemma map_filter_if: "List.map_filter (\<lambda>x. if P x then Some x else None) xs = filter P xs"
  by (induction xs) (simp_all add: List.map_filter_simps)

lemma map_filter_map: "List.map_filter f (map g xs) = List.map_filter (\<lambda>x. f (g x)) xs"
  by (induction xs) (simp_all add: List.map_filter_simps split: option.split)

lemma body_contacts_entries:
  "body_contacts (ExtendedBody (map nodes_dat_entry_of cs)) =
     filter (\<lambda>c. bc_ip c \<noteq> Ipv4 0 0 0 0 \<and> bc_udp_port c \<noteq> 0) cs"
  unfolding body_contacts.simps map_filter_map by (simp add: bootstrap_contact_of_entry map_filter_if)

text \<open>
  C30. Saved contacts are loaded again. Of at most half a million contacts, what \<open>encode_nodes_dat\<close>
  writes \<open>parse_nodes_dat\<close> reads back, in order, identifiers and verify keys included; only contacts
  without an address or without a port are dropped.
\<close>

theorem nodes_dat_round_trip:
  assumes "binrw_ok B" "length cs \<le> 500000"
  shows "parse_nodes_dat B (encode_nodes_dat B cs) =
    Inr (filter (\<lambda>c. bc_ip c \<noteq> Ipv4 0 0 0 0 \<and> bc_udp_port c \<noteq> 0) cs)"
proof (cases "cs = []")
  case True
  then show ?thesis
    using assms(1)
    by (simp add: encode_nodes_dat_def parse_nodes_dat_def read_nodes_dat_count_def read_versioned_count_def
        wire_simps)
next
  case False
  let ?body = "ExtendedBody (map nodes_dat_entry_of cs)"
  have enc: "encode_nodes_dat B cs = (bw_u32 B 0 @ bw_u32 B 2 @ bw_u32 B (of_nat (body_length ?body))) @ body_bytes B ?body"
    by (simp add: encode_nodes_dat_def comp_def)
  have "bw_u32 B 0 @ bw_u32 B 2 @ bw_u32 B (of_nat (body_length ?body)) \<in> nodes_headers B (of_nat (body_length ?body))"
    by (simp add: nodes_headers_def)
  then show ?thesis
    unfolding enc body_contacts_entries [symmetric] using False assms by (intro parse_file) simp_all
qed

definition demo_bootstrap :: bootstrap_contact where
  "demo_bootstrap = \<lparr> bc_node_id = nid_ZERO, bc_ip = Ipv4 10 20 30 40, bc_udp_port = 4672, bc_tcp_port = 4662,
     bc_version = 9, bc_udp_key = KadUdpKey 7 \<rparr>"

theorem nodes_dat_round_trip_witness:
  "binrw_ok (le_ext id (\<lambda>_. None)) \<and> length [demo_bootstrap, demo_bootstrap\<lparr>bc_udp_port := 0\<rparr>] \<le> 500000 \<and>
   parse_nodes_dat (le_ext id (\<lambda>_. None))
     (encode_nodes_dat (le_ext id (\<lambda>_. None)) [demo_bootstrap, demo_bootstrap\<lparr>bc_udp_port := 0\<rparr>]) =
     Inr [demo_bootstrap]"
  using nodes_dat_round_trip [OF le_ext_ok, of "[demo_bootstrap, demo_bootstrap\<lparr>bc_udp_port := 0\<rparr>]"]
  by (simp add: demo_bootstrap_def)

text \<open>
  Every documented file format is read, except for the legacy files of two and three contacts.
  With one of the five headers and entries of 25 or of 34 bytes, a file gives the contacts of its
  entries; but a legacy file whose count is two is taken for the header of a versioned one: if the
  first four bytes of its first identifier read as more than half a million, it gives no contacts
  and no error.
\<close>

theorem nodes_dat_formats:
  assumes "binrw_ok B"
  shows "(h \<in> nodes_headers B (of_nat (body_length body)) \<longrightarrow> 0 < body_length body \<longrightarrow> body_length body \<le> 500000 \<longrightarrow>
      parse_nodes_dat B (h @ body_bytes B body) = Inr (body_contacts body)) \<and>
    (write_node_id B (nd_node_id x) = bw_u32 B n @ rest \<longrightarrow> 500000 < n \<longrightarrow>
      parse_nodes_dat B (bw_u32 B 2 @ body_bytes B (ShortBody [x, y])) = Inr [])"
proof -
  have "parse_nodes_dat B (bw_u32 B 2 @ body_bytes B (ShortBody [x, y])) = Inr []"
    if "write_node_id B (nd_node_id x) = bw_u32 B n @ rest" "500000 < n"
    using that assms
    by (simp add: parse_nodes_dat_def read_nodes_dat_count_def read_versioned_count_def write_nodes_dat_entry_def
        wire_simps)
  then show ?thesis using parse_file [OF assms] by blast
qed

definition demo_entry_short :: nodes_dat_entry where
  "demo_entry_short = \<lparr> nd_node_id = NodeId (Arr16 [0, 0, 0, 1, 0, 0, 0, 0, 0, 0, 0, 0, 0, 0, 0, 0]),
     nd_ip = 0x0A141E28, nd_udp_port = 4672, nd_tcp_port = 4662, nd_version = 9 \<rparr>"

lemma demo_entry_id:
  "write_node_id (le_ext W Z) (nd_node_id demo_entry_short) = bw_u32 (le_ext W Z) 0x01000000 @ [0, 0, 0, 0, 0, 0, 0, 0, 0, 0, 0, 0]"
proof -
  have "le_bytes 4 (0x01000000 :: u32) = [0, 0, 0, 1]" by code_simp
  then show ?thesis by (simp add: write_node_id_def write_u8x16 demo_entry_short_def) (simp add: le_ext_def)
qed

theorem nodes_dat_formats_witness:
  "let B = le_ext id (\<lambda>_. None); x = demo_entry_short in
     binrw_ok B \<and> bw_u32 B 1 \<in> nodes_headers B (of_nat (body_length (ShortBody [x]))) \<and>
     (\<exists>c. parse_nodes_dat B (bw_u32 B 1 @ body_bytes B (ShortBody [x])) = Inr [c] \<and> bc_ip c = Ipv4 10 20 30 40) \<and>
     parse_nodes_dat B (bw_u32 B 2 @ body_bytes B (ShortBody [x, x])) = Inr []"
proof -
  let ?B = "le_ext id (\<lambda>_. None)"
  have h: "bw_u32 ?B 1 \<in> nodes_headers ?B (of_nat (body_length (ShortBody [demo_entry_short])))"
    by (simp add: nodes_headers_def)
  have "body_contacts (ShortBody [demo_entry_short]) =
      [\<lparr> bc_node_id = nd_node_id demo_entry_short, bc_ip = Ipv4 10 20 30 40, bc_udp_port = 4672, bc_tcp_port = 4662,
         bc_version = 9, bc_udp_key = udp_key_ZERO \<rparr>]"
    by (simp add: List.map_filter_simps bootstrap_contact_of_def demo_entry_short_def ipv4_of_u32_def)
  then show ?thesis
    using nodes_dat_formats [OF le_ext_ok, of "bw_u32 ?B 1" id "\<lambda>_. None" "ShortBody [demo_entry_short]"
        demo_entry_short "0x01000000" "[0, 0, 0, 0, 0, 0, 0, 0, 0, 0, 0, 0]" demo_entry_short] h demo_entry_id
    by (simp add: Let_def)
qed

subsection \<open>Text lists\<close>

lemma show_nat_nonempty [simp]: "show_nat n \<noteq> []"
  by (subst show_nat.simps) simp

lemma show_nat_zero: "show_nat 0 = [48]"
  by (subst show_nat.simps) (simp add: hex_digit_def)

lemma show_nat_leading: "n \<noteq> 0 \<Longrightarrow> hd (show_nat n) \<noteq> 48"
proof (induction n rule: show_nat.induct)
  case (1 n)
  show ?case
  proof (cases "n < 10")
    case True
    have "(of_nat n + 48 :: u8) \<noteq> 48" using 1(2) True by (auto simp: word_of_nat_eq_0_iff dest: dvd_imp_le)
    then show ?thesis using True by (subst show_nat.simps) (simp add: hex_digit_def add.commute)
  next
    case False
    then have "n div 10 \<noteq> 0" by simp
    then show ?thesis using 1(1) False by (subst show_nat.simps) simp
  qed
qed

lemma show_nat_length_octet: "n \<le> 255 \<Longrightarrow> length (show_nat n) \<le> 3"
  by (subst show_nat.simps, subst show_nat.simps, subst show_nat.simps) auto

lemma takeWhile_digits:
  "r = [] \<or> \<not> (48 \<le> hd r \<and> hd r < (58 :: u8)) \<Longrightarrow>
   takeWhile (\<lambda>b. 48 \<le> b \<and> b < 58) (show_nat n @ r) = show_nat n"
  using show_nat_digits by (cases r) (auto simp: takeWhile_append)

lemma read_number_show_nat:
  assumes "r = [] \<or> \<not> (48 \<le> hd r \<and> hd r < (58 :: u8))" "n \<le> maximum"
    and "case max_digits of None \<Rightarrow> True | Some k \<Rightarrow> length (show_nat n) \<le> k"
  shows "read_number max_digits zero_prefix maximum (show_nat n @ r) = Some (n, r)"
proof -
  have "\<not> (hd (show_nat n) = 48 \<and> length (show_nat n) > 1)"
    using show_nat_leading by (cases "n = 0") (simp_all add: show_nat_zero)
  then show ?thesis
    using assms(2,3) unfolding read_number_def Let_def takeWhile_digits [OF assms(1)]
    by (auto simp: read_decimal_show_nat split: option.splits)
qed

lemma unat_u8: "unat (a :: u8) \<le> 255"
  using unsigned_less [of a, where ?'a = nat] by simp

lemma unat_u16: "unat (a :: u16) \<le> 65535"
  using unsigned_less [of a, where ?'a = nat] by simp

lemma read_octet_show:
  "r = [] \<or> \<not> (48 \<le> hd r \<and> hd r < (58 :: u8)) \<Longrightarrow> read_octet (show_nat (unat a) @ r) = Some (a, r)"
  using unat_u8 [of a] show_nat_length_octet [of "unat a"] by (simp add: read_octet_def read_number_show_nat)

lemma parse_socket_addr_print:
  "parse_socket_addr_v4 (socket_addr_to_string (V4 ip, port)) = Some (ip, port)"
proof (cases ip)
  case (Ipv4 a b c d)
  have p: "read_number None True 65535 (show_nat (unat port)) = Some (unat port, [])"
    using read_number_show_nat [of "[]" "unat port" 65535 None True] unat_u16 [of port] by simp
  show ?thesis
    by (simp add: Ipv4 parse_socket_addr_v4_def read_ipv4_addr_def read_next_octet_def socket_addr_to_string_def
        ip_to_string_def ipv4_to_string_def read_octet_show p)
qed

lemma white_space_ends:
  "w \<in> set white_space \<Longrightarrow> \<not> (48 \<le> hd w \<and> hd w < 58) \<and> \<not> (48 \<le> last w \<and> last w < 58)"
  unfolding white_space_def by auto

lemma str_trim_digits:
  assumes "s \<noteq> []" "48 \<le> hd s \<and> hd s < 58" "48 \<le> last s \<and> last s < 58"
  shows "str_trim s = s"
proof -
  have "take (length w) s \<noteq> w" if "w \<in> set white_space" for w
    using white_space_ends [OF that] white_space_nonempty [OF that] assms(1,2) by (cases w; cases s) auto
  then have "find (\<lambda>w. take (length w) s = w) white_space = None" by (auto simp: find_None_iff)
  then have "trim_start s = s" by (simp add: trim_start.simps)
  moreover have "drop (length s - length w) s \<noteq> w" if "w \<in> set white_space" for w
  proof
    assume *: "drop (length s - length w) s = w"
    then have "last s = last w"
      using white_space_nonempty [OF that] by (metis drop_eq_Nil last_drop not_le)
    then show False using white_space_ends [OF that] assms(3) by simp
  qed
  then have "find (\<lambda>w. length w \<le> length s \<and> drop (length s - length w) s = w) white_space = None"
    by (auto simp: find_None_iff)
  ultimately show ?thesis by (simp add: str_trim_def trim_end.simps)
qed

lemma str_lines_concat:
  "\<forall>l \<in> set ls. (\<forall>b \<in> set l. b \<noteq> 0x0A) \<and> (l = [] \<or> last l \<noteq> 0x0D) \<Longrightarrow>
   str_lines (concat (map (\<lambda>l. l @ [0x0A]) ls)) = ls"
proof (induction ls)
  case (Cons l ls)
  have "takeWhile (\<lambda>b. b \<noteq> 0x0A) (l @ 0x0A # concat (map (\<lambda>l. l @ [0x0A]) ls)) = l"
    using Cons.prems by (simp add: takeWhile_append)
  then show ?case using Cons by (subst str_lines.simps) auto
qed (simp add: str_lines.simps)

lemma endpoint_text:
  fixes ip :: ipv4 and port :: u16
  defines "s \<equiv> socket_addr_to_string (V4 ip, port)"
  shows "s \<noteq> []" and "48 \<le> hd s \<and> hd s < 58" and "48 \<le> last s \<and> last s < 58" and "\<forall>b \<in> set s. b \<noteq> 0x0A"
proof -
  obtain a b c d where ip: "ip = Ipv4 a b c d" by (cases ip)
  have s: "s = show_nat (unat a) @ 46 # show_nat (unat b) @ 46 # show_nat (unat c) @ 46 # show_nat (unat d) @
      58 # show_nat (unat port)"
    by (simp add: s_def ip socket_addr_to_string_def ip_to_string_def ipv4_to_string_def)
  show "s \<noteq> []" by (simp add: s)
  show "48 \<le> hd s \<and> hd s < 58" using show_nat_digits [of _ "unat a"] by (simp add: s)
  show "48 \<le> last s \<and> last s < 58" using show_nat_digits [of _ "unat port"] by (simp add: s)
  show "\<forall>b \<in> set s. b \<noteq> 0x0A" using show_nat_digits by (fastforce simp: s)
qed

lemma parse_nodes_line_endpoint:
  "parse_nodes_line (socket_addr_to_string (V4 ip, port)) = Some (text_contact (ip, port))"
proof -
  have "hd (socket_addr_to_string (V4 ip, port)) \<noteq> 0x23" using endpoint_text(2) [of ip port] by auto
  then show ?thesis
    using endpoint_text(1) [of ip port] str_trim_digits [OF endpoint_text(1-3)]
    by (simp add: parse_nodes_line_def parse_socket_addr_print)
qed

text \<open>
  A text list of endpoints is read completely: of a file with one printed IPv4 endpoint per line,
  \<open>parse_nodes_text\<close> returns every endpoint, in order.
\<close>

theorem nodes_text_round_trip:
  "parse_nodes_text (concat (map (\<lambda>(ip, port). socket_addr_to_string (V4 ip, port) @ [0x0A]) addrs)) =
     map text_contact addrs"
proof -
  let ?ls = "map (\<lambda>(ip, port). socket_addr_to_string (V4 ip, port)) addrs"
  have "(\<forall>b \<in> set l. b \<noteq> 0x0A) \<and> (l = [] \<or> last l \<noteq> 0x0D)" if l: "l \<in> set ?ls" for l
  proof -
    obtain ip port where s: "l = socket_addr_to_string (V4 ip, port)" using l by auto
    have "last l \<noteq> 0x0D" using endpoint_text(3) [of ip port] s by auto
    then show ?thesis using endpoint_text(4) [of ip port] s by simp
  qed
  then have "str_lines (concat (map (\<lambda>l. l @ [0x0A]) ?ls)) = ?ls" using str_lines_concat by blast
  moreover have "map (\<lambda>l. l @ [0x0A]) ?ls = map (\<lambda>(ip, port). socket_addr_to_string (V4 ip, port) @ [0x0A]) addrs"
    by auto
  moreover have "List.map_filter parse_nodes_line ?ls = map text_contact addrs"
    by (induction addrs) (auto simp: List.map_filter_simps parse_nodes_line_endpoint)
  ultimately show ?thesis unfolding parse_nodes_text_def by argo
qed

subsection \<open>Bootstrap\<close>

lemma add_found_ok: "table_ok (fst st) \<Longrightarrow> \<exists>st'. add_found now cs st = Some st' \<and> table_ok (fst st')"
proof (induction cs arbitrary: st)
  case (Cons c cs)
  obtain rt rpc where st: "st = (rt, rpc)" by (cases st)
  show ?case
  proof (cases "fst (tc_addr c)")
    case (V4 ip)
    obtain res rt' where "add_contact (contact_new (tc_id c) ip (snd (tc_addr c)) (snd (tc_addr c)) (tc_version c) now) rt
        = Some (res, rt')" "table_ok rt'"
      using add_contact_ok Cons.prems st by (metis fst_conv)
    then show ?thesis using Cons.IH st V4 by (simp add: Let_def)
  next
    case (V6 ip)
    then show ?thesis using Cons st by simp
  qed
qed simp

lemma lookup_nodes_ok:
  assumes "table_ok (fst st)" "\<And>s. table_ok (fst s) \<Longrightarrow> table_ok (fst (others s))"
  shows "\<exists>cs st'. lookup_nodes_with_class fanout now te others target work_class st = Some (cs, st') \<and> table_ok (fst st')"
proof -
  let ?ts = "snd (run_lookup (lookup_config target fanout work_class) te (get_initial target (fst st)) (snd st))"
  have "table_ok (fst (others (fst st, ts_rpc ?ts)))" using assms by simp
  then show ?thesis
    using add_found_ok [of "others (fst st, ts_rpc ?ts)" now]
    by (auto simp: lookup_nodes_with_class_def Let_def split: prod.split)
qed

lemma add_bootstrap_entries_ok:
  "table_ok (fst st) \<Longrightarrow> \<exists>st'. add_bootstrap_entries now es st = Some st' \<and> table_ok (fst st')"
proof (induction es arbitrary: st)
  case (Cons e es)
  obtain rt rpc where st: "st = (rt, rpc)" by (cases st)
  obtain res rt' where "add_contact (contact_new (ce_node_id e) (ipv4_of_u32 (ce_ip e)) (ce_udp_port e) (ce_tcp_port e)
      (ce_version e) now) rt = Some (res, rt')" "table_ok rt'"
    using add_contact_ok Cons.prems st by (metis fst_conv)
  then show ?case using Cons st by (simp add: Let_def)
qed simp

lemma absorb_bootstrap_res_ok:
  assumes "table_ok (fst st)"
  shows "\<exists>st'. absorb_bootstrap_res now bc res st = Some st' \<and> table_ok (fst st')"
proof -
  have "\<exists>st'. (case add_contact c (fst st) of None \<Rightarrow> None
      | Some (_, rt) \<Rightarrow> add_bootstrap_entries now (bsr_contacts res) (rt, snd st)) = Some st' \<and> table_ok (fst st')" for c
    using add_contact_ok [OF assms, of c] add_bootstrap_entries_ok by fastforce
  then show ?thesis by (simp add: absorb_bootstrap_res_def Let_def)
qed

definition bootstrap_answered :: "bootstrap_env \<Rightarrow> nat \<Rightarrow> bool" where
  "bootstrap_answered e k \<longleftrightarrow> (\<exists>res. be_answer e k = Inr (BootstrapRes res))"

lemma bootstrap_step:
  assumes "table_ok (fst st)" "\<And>k s. table_ok (fst s) \<Longrightarrow> table_ok (fst (be_others e k s))"
  shows "\<exists>st'. table_ok (fst st') \<and> bootstrap_loop e k (bc # bcs) (responded, sent) st =
    bootstrap_loop e (Suc k) bcs (if bootstrap_answered e k then Suc responded else responded, sent @ [bootstrap_addr bc]) st'"
proof -
  obtain rt rpc where st: "st = (rt, rpc)" by (cases st)
  let ?st = "be_others e k (rt, register_bootstrap_contact bc rpc)"
  have ok: "table_ok (fst ?st)" using assms st by simp
  show ?thesis
  proof (cases "bootstrap_answered e k")
    case True
    then obtain res where res: "be_answer e k = Inr (BootstrapRes res)" by (auto simp: bootstrap_answered_def)
    obtain st' where "absorb_bootstrap_res (be_now e k) bc res ?st = Some st'" "table_ok (fst st')"
      using absorb_bootstrap_res_ok [OF ok] by blast
    then show ?thesis using True res st by (intro exI [of _ st']) simp
  next
    case False
    then have "bootstrap_loop e k (bc # bcs) (responded, sent) st =
        bootstrap_loop e (Suc k) bcs (responded, sent @ [bootstrap_addr bc]) ?st"
      using st by (cases "be_answer e k"; cases "projr (be_answer e k)") (simp_all add: bootstrap_answered_def Let_def)
    then show ?thesis using False ok by (intro exI [of _ ?st]) simp
  qed
qed

lemma bootstrap_loop_ok:
  assumes "table_ok (fst st)" "\<And>k s. table_ok (fst s) \<Longrightarrow> table_ok (fst (be_others e k s))"
  shows "\<exists>responded' st'. bootstrap_loop e k bcs (responded, sent) st =
      Some ((responded', sent @ map bootstrap_addr bcs), st') \<and> table_ok (fst st') \<and>
    (responded' = 0 \<longleftrightarrow> responded = 0 \<and> (\<forall>j < length bcs. \<not> bootstrap_answered e (k + j)))"
  using assms(1)
proof (induction bcs arbitrary: k responded sent st)
  case (Cons bc bcs)
  obtain st' where st': "table_ok (fst st')" "bootstrap_loop e k (bc # bcs) (responded, sent) st =
      bootstrap_loop e (Suc k) bcs (if bootstrap_answered e k then Suc responded else responded,
        sent @ [bootstrap_addr bc]) st'"
    using bootstrap_step [OF Cons.prems assms(2)] by blast
  have "(\<forall>j < length (bc # bcs). \<not> bootstrap_answered e (k + j)) \<longleftrightarrow>
      \<not> bootstrap_answered e k \<and> (\<forall>j < length bcs. \<not> bootstrap_answered e (Suc k + j))"
    by (simp add: All_less_Suc2)
  moreover obtain r' st'' where "bootstrap_loop e (Suc k) bcs (if bootstrap_answered e k then Suc responded else responded,
        sent @ [bootstrap_addr bc]) st' = Some ((r', (sent @ [bootstrap_addr bc]) @ map bootstrap_addr bcs), st'')"
      "table_ok (fst st'')" "r' = 0 \<longleftrightarrow> (if bootstrap_answered e k then Suc responded else responded) = 0 \<and>
        (\<forall>j < length bcs. \<not> bootstrap_answered e (Suc k + j))"
    using Cons.IH [OF st'(1)] by blast
  ultimately show ?case
    using st'(2) by (intro exI [of _ r'] exI [of _ st'']) (auto simp del: bootstrap_loop.simps)
qed simp

lemma load_bootstrap_contacts_nonempty: "load_bootstrap_contacts B nodes_dat nodes_text \<noteq> []"
  by (simp add: load_bootstrap_contacts_def hardcoded_bootstrap_def hardcoded_endpoints_def Let_def)

lemma bootstrap_outcome:
  assumes "table_ok (fst st)"
    and others: "\<And>k s. table_ok (fst s) \<Longrightarrow> table_ok (fst (be_others e k s))"
      "\<And>s. table_ok (fst s) \<Longrightarrow> table_ok (fst (lookup_others s))"
  shows "\<exists>r. bootstrap_with_class B e
        (\<lambda>own. lookup_nodes_with_class fanout now te lookup_others own work_class)
        nodes_dat nodes_text min_contacts own_id bootstrapped st = Some r \<and>
      table_ok (fst (bo_state r)) \<and>
      bo_asked r = map bootstrap_addr (take 10 (load_bootstrap_contacts B nodes_dat nodes_text)) \<and>
      (bo_result r = Inr () \<longleftrightarrow> (\<exists>k < length (bo_asked r). bootstrap_answered e k)) \<and>
      (bo_result r = Inr () \<or> bo_result r = Inl BootstrapFailed) \<and>
      (bo_bootstrapped r \<longleftrightarrow> bootstrapped \<or> bo_result r = Inr () \<and> max min_contacts 1 \<le> table_len (fst (bo_state r)))"
proof -
  let ?cs = "take 10 (load_bootstrap_contacts B nodes_dat nodes_text)"
  let ?lookup = "\<lambda>own. lookup_nodes_with_class fanout now te lookup_others own work_class"
  obtain responded st' where loop: "bootstrap_loop e 0 ?cs (0, []) st = Some ((responded, map bootstrap_addr ?cs), st')"
      "table_ok (fst st')" "responded = 0 \<longleftrightarrow> (\<forall>j < length ?cs. \<not> bootstrap_answered e j)"
    using bootstrap_loop_ok [OF assms(1) others(1), of 0 ?cs 0 "[]"]
    unfolding append_Nil add_0 simp_thms by blast
  obtain cs st'' where lk: "?lookup own_id st' = Some (cs, st'')" "table_ok (fst st'')"
    using lookup_nodes_ok [OF loop(2), of lookup_others fanout now te own_id work_class] others(2) by blast
  have run: "bootstrap_with_class B e ?lookup nodes_dat nodes_text min_contacts own_id bootstrapped st =
      (if responded = 0 then Some \<lparr> bo_result = Inl BootstrapFailed, bo_state = st', bo_bootstrapped = bootstrapped,
           bo_asked = map bootstrap_addr ?cs \<rparr>
       else Some \<lparr> bo_result = Inr (), bo_state = st'',
           bo_bootstrapped = (bootstrapped \<or> max min_contacts 1 \<le> table_len (fst st'')),
           bo_asked = map bootstrap_addr ?cs \<rparr>)"
    using loop(1) lk(1) load_bootstrap_contacts_nonempty [of B nodes_dat nodes_text]
    by (simp add: bootstrap_with_class_def bootstrap_ready_with_contacts_def Let_def)
  show ?thesis
  proof (cases "responded = 0")
    case True
    then show ?thesis using run loop(2,3) by auto
  next
    case False
    then show ?thesis using run loop(3) lk(2) by auto
  qed
qed

text \<open>
  C29. Bootstrapping asks at most ten contacts and counts its contacts honestly. On a consistent
  routing table, and if the tasks that run in between keep it consistent, the bootstrap procedure
  returns, the table stays consistent, exactly the first ten of the loaded contacts were asked, the
  result is an error exactly if none of them answered, and then it is \<open>BootstrapFailed\<close>; the node
  becomes bootstrapped only by a success that leaves at least the configured number of contacts, and
  at least one, in the table. The error for no contacts at all never occurs: the built-in contacts
  stand in for a missing or unreadable file.
\<close>

theorem bootstrap_joins:
  assumes "table_ok (fst st)"
    and others: "\<And>k s. table_ok (fst s) \<Longrightarrow> table_ok (fst (be_others e k s))"
      "\<And>s. table_ok (fst s) \<Longrightarrow> table_ok (fst (lookup_others s))"
  shows "\<exists>r. bootstrap_with_class B e
        (\<lambda>own. lookup_nodes_with_class fanout now te lookup_others own work_class)
        nodes_dat nodes_text min_contacts own_id bootstrapped st = Some r \<and>
      table_ok (fst (bo_state r)) \<and>
      bo_asked r = map bootstrap_addr (take 10 (load_bootstrap_contacts B nodes_dat nodes_text)) \<and>
      (bo_result r = Inr () \<longleftrightarrow> (\<exists>k < length (bo_asked r). bootstrap_answered e k)) \<and>
      (bo_result r = Inr () \<or> bo_result r = Inl BootstrapFailed) \<and>
      (bo_bootstrapped r \<longleftrightarrow> bootstrapped \<or> bo_result r = Inr () \<and> max min_contacts 1 \<le> table_len (fst (bo_state r)))"
  using assms by (rule bootstrap_outcome)

definition demo_bootstrap_env :: bootstrap_env where
  "demo_bootstrap_env = \<lparr> be_answer = (\<lambda>k. if k = 2 then Inr (BootstrapRes \<lparr> bsr_sender_id = demo_id 5,
       bsr_sender_tcp_port = 4662, bsr_sender_version = 9, bsr_contacts = [] \<rparr>) else Inl (Timeout (V4 (Ipv4 1 2 3 4), 4672) 5000)),
     be_others = (\<lambda>_ s. s), be_now = (\<lambda>k. k) \<rparr>"

theorem bootstrap_joins_witness:
  "\<exists>r. bootstrap_with_class (le_ext id (\<lambda>_. None)) demo_bootstrap_env
        (\<lambda>own. lookup_nodes_with_class 10 5 demo_rounds id own Maintenance) None None 3 (demo_id 9) False
        (table_new (demo_id 9), demo_rpc) = Some r \<and>
      bo_result r = Inr () \<and> table_ok (fst (bo_state r)) \<and> length (bo_asked r) = 10"
proof -
  have start: "table_ok (fst (table_new (demo_id 9), demo_rpc))" by simp
  have kept: "table_ok (fst (be_others demo_bootstrap_env k s))" "table_ok (fst (id s))" if "table_ok (fst s)" for k s
    using that by (simp_all add: demo_bootstrap_env_def)
  have n: "length (load_bootstrap_contacts (le_ext id (\<lambda>_. None)) None None) = 50"
    by (simp add: load_bootstrap_contacts_def hardcoded_bootstrap_def hardcoded_endpoints_def)
  have "bootstrap_answered demo_bootstrap_env 2" by (simp add: bootstrap_answered_def demo_bootstrap_env_def)
  then have "\<exists>k < 10. bootstrap_answered demo_bootstrap_env k" by (intro exI [of _ 2]) simp
  moreover obtain r where r: "bootstrap_with_class (le_ext id (\<lambda>_. None)) demo_bootstrap_env
        (\<lambda>own. lookup_nodes_with_class 10 5 demo_rounds id own Maintenance) None None 3 (demo_id 9) False
        (table_new (demo_id 9), demo_rpc) = Some r" "table_ok (fst (bo_state r))"
      "bo_asked r = map bootstrap_addr (take 10 (load_bootstrap_contacts (le_ext id (\<lambda>_. None)) None None))"
      "bo_result r = Inr () \<longleftrightarrow> (\<exists>k < length (bo_asked r). bootstrap_answered demo_bootstrap_env k)"
    using bootstrap_joins [where B = "le_ext id (\<lambda>_. None)" and fanout = 10 and now = 5 and te = demo_rounds and
      work_class = Maintenance and nodes_dat = None and nodes_text = None and min_contacts = 3 and
      own_id = "demo_id 9" and bootstrapped = False and e = demo_bootstrap_env and lookup_others = id, OF start] kept
    by blast
  moreover have "length (bo_asked r) = 10" using r(3) n by simp
  ultimately show ?thesis by auto
qed

end
