(* ===== verification/Kad_Dht_Props.thy ===== *)
theory Kad_Dht_Props
  imports Kad_Dht_Ops Kad_Traversal_Props
begin

text \<open>
  What searches and publishes guarantee. The three result streams have one contract, the locale
  \<open>result_stream\<close>, interpreted on each of them: no result twice, at most the cap, only results the
  parser accepts and, while the consumer listens and the cap is not reached, all of them. With the
  search phase of the traversal, every result stems from a contact that was asked. A publish goes to
  the nearest contacts found that are near enough to the target, and its counters are exact.
\<close>

subsection \<open>Result streams\<close>







subsection \<open>Where results come from\<close>





subsection \<open>Publishes\<close>

lemma closest_of_spawned:
  assumes "lookup_inv cfg ts"
  shows "set (closest_of cfg ts) \<subseteq> sq_contact ` set (ts_spawned ts)"
    and "distinct (map tc_id (closest_of cfg ts))"
proof -
  show "set (closest_of cfg ts) \<subseteq> sq_contact ` set (ts_spawned ts)"
    using responded_asked [OF assms] by (auto simp: closest_of_def dest: in_set_takeD)
  have "sorted_wrt (<) (map (\<lambda>c. distance (tg_target cfg) (tc_id c)) (closest_of cfg ts))"
    using responded_contacts_sorted [of "tg_target cfg" "ts_candidates ts"] assms
    unfolding closest_of_def take_map [symmetric] lookup_inv_def by (blast intro: sorted_wrt_take)
  then have "distinct (map (distance (tg_target cfg)) (map tc_id (closest_of cfg ts)))"
    by (simp add: strict_sorted_iff comp_def)
  then show "distinct (map tc_id (closest_of cfg ts))" using distinct_map by blast
qed

lemma mset_remove_nth: "n < length xs \<Longrightarrow> mset (xs ! n # remove_nth n xs) = mset xs"
  by (metis id_take_nth_drop mset.simps(2) remove_nth_def union_code mset_append add_mset_add_single union_commute union_mset_add_mset_right)

lemma mset_join_order: "mset (join_order pick k xs) = mset xs"
proof (induction pick k xs rule: join_order.induct)
  case (1 pick k xs)
  show ?case
  proof (cases "xs = []")
    case False
    let ?n = "pick k mod length xs"
    have n: "?n < length xs" using False by simp
    have "join_order pick k xs = xs ! ?n # join_order pick (Suc k) (remove_nth ?n xs)"
      using False by (subst join_order.simps) (simp add: Let_def)
    then show ?thesis using 1 [OF False refl] mset_remove_nth [OF n] by simp
  qed (simp add: join_order.simps)
qed

lemma length_join_order [simp]: "length (join_order pick k xs) = length xs"
  using mset_join_order by (rule mset_eq_length)

text \<open>What the answer to a publish request counts as.\<close>

fun any_ack :: "net_error + kad_packet \<Rightarrow> bool" where
  "any_ack (Inr _) \<longleftrightarrow> True"
| "any_ack (Inl _) \<longleftrightarrow> False"

fun publish_ack :: "net_error + kad_packet \<Rightarrow> bool" where
  "publish_ack (Inr (PublishRes _)) \<longleftrightarrow> True"
| "publish_ack _ \<longleftrightarrow> False"

fun no_answer :: "net_error + kad_packet \<Rightarrow> bool" where
  "no_answer (Inl (Timeout _ _)) \<longleftrightarrow> True"
| "no_answer _ \<longleftrightarrow> False"

definition counts_as ::
  "(net_error + kad_packet \<Rightarrow> bool) \<Rightarrow> (net_error + kad_packet \<Rightarrow> publish_stats \<Rightarrow> publish_stats) \<Rightarrow> bool" where
  "counts_as ack tally \<longleftrightarrow> (\<forall>r s. tally r s =
     s\<lparr>pa_acked_contacts := pa_acked_contacts s + of_bool (ack r),
       pa_timed_out_contacts := pa_timed_out_contacts s + of_bool (no_answer r)\<rparr>)"

lemma tally_counts: "counts_as any_ack tally_any" "counts_as publish_ack tally_notes"
proof -
  have t: "count_timeout e s = s\<lparr>pa_timed_out_contacts := pa_timed_out_contacts s + of_bool (no_answer (Inl e))\<rparr>" for e s
    by (cases e) simp_all
  have "tally_any r s = s\<lparr>pa_acked_contacts := pa_acked_contacts s + of_bool (any_ack r),
      pa_timed_out_contacts := pa_timed_out_contacts s + of_bool (no_answer r)\<rparr>" for r s
    using t by (cases r) simp_all
  then show "counts_as any_ack tally_any" unfolding counts_as_def by blast
  have "tally_notes r s = s\<lparr>pa_acked_contacts := pa_acked_contacts s + of_bool (publish_ack r),
      pa_timed_out_contacts := pa_timed_out_contacts s + of_bool (no_answer r)\<rparr>" for r s
  proof (cases r)
    case (Inr p)
    then show ?thesis by (cases p) (simp_all add: tally_notes_def)
  qed (use t in \<open>simp add: tally_notes_def\<close>)
  then show "counts_as publish_ack tally_notes" unfolding counts_as_def by blast
qed

lemma fold_tally:
  assumes "counts_as ack tally"
  shows "fold tally rs s = s\<lparr>pa_acked_contacts := pa_acked_contacts s + of_nat (count_if ack rs),
     pa_timed_out_contacts := pa_timed_out_contacts s + of_nat (count_if no_answer rs)\<rparr>"
proof (induction rs arbitrary: s)
  case (Cons r rs)
  have "tally r s = s\<lparr>pa_acked_contacts := pa_acked_contacts s + of_bool (ack r),
      pa_timed_out_contacts := pa_timed_out_contacts s + of_bool (no_answer r)\<rparr>"
    using assms unfolding counts_as_def by blast
  then show ?case using Cons.IH [of "tally r s"] by (simp add: algebra_simps)
qed simp

text \<open>Whether the task that asked a contact finished with a result of a kind.\<close>

definition ended :: "('c \<Rightarrow> 'r option) \<Rightarrow> ('r \<Rightarrow> bool) \<Rightarrow> 'c \<Rightarrow> bool" where
  "ended answer P c = (case answer c of None \<Rightarrow> False | Some r \<Rightarrow> P r)"

lemma count_if_map_filter: "count_if P (List.map_filter f xs) = count_if (ended f P) xs"
  by (induction xs) (auto simp: List.map_filter_simps ended_def split: option.split)

lemma count_results:
  "count_if P (List.map_filter f (join_order pick 0 xs)) = count_if (ended f P) xs"
  unfolding count_if_map_filter by (rule count_if_perm) (rule mset_join_order)

definition option_to_list :: "'a option \<Rightarrow> 'a list" where
  "option_to_list x = (case x of None \<Rightarrow> [] | Some y \<Rightarrow> [y])"

text \<open>The state its lookup leaves a publish with.\<close>

definition publish_lookup :: "publish_env \<Rightarrow> node_id \<Rightarrow> nat \<Rightarrow> work_class \<Rightarrow> routing_table \<Rightarrow> rpc_state \<Rightarrow> traversal_state" where
  "publish_lookup e target fanout work_class rt rpc =
     snd (run_lookup (store_config_for target fanout work_class) (pb_traversal e) (get_initial target rt) rpc)"

text \<open>
  What a publish reports and whom it asked, given the state of its lookup: the requests go to the
  nearest contacts of the lookup that are near enough, and every counter is the number it names.
\<close>

definition publish_report ::
  "(traversal_contact \<Rightarrow> (net_error + kad_packet) option) \<Rightarrow> (net_error + kad_packet \<Rightarrow> bool) \<Rightarrow> node_id \<Rightarrow> nat \<Rightarrow>
     (traversal_contact \<Rightarrow> kad_packet) \<Rightarrow> traversal_contact list \<Rightarrow> traversal_contact set \<Rightarrow>
     (dht_error + publish_stats) \<times> spawned_request list \<times> rpc_state \<Rightarrow> bool" where
  "publish_report answer ack target fanout packet_for closest known out \<longleftrightarrow>
     (let contacts = map sq_contact (fst (snd out)) in
      distinct (map tc_id contacts) \<and> set contacts \<subseteq> known \<and>
      contacts = take (max fanout 1) (filter (publish_target_is_within_tolerance target) closest) \<and>
      (\<forall>q \<in> set (fst (snd out)). sq_packet q = packet_for (sq_contact q)) \<and>
      (case fst out of
         Inl err \<Rightarrow> err = PublishFailed \<and> closest = []
       | Inr s \<Rightarrow> closest \<noteq> [] \<and>
           unat (pa_closest_contacts_considered s) = length closest \<and>
           unat (pa_attempted_contacts s) = length contacts \<and>
           unat (pa_acked_contacts s) = count_if (ended answer ack) contacts \<and>
           unat (pa_timed_out_contacts s) = count_if (ended answer no_answer) contacts))"

lemma publish_round_report:
  fixes target :: node_id and work_class :: work_class
  assumes tally: "counts_as ack tally" and fanout: "fanout < 2 ^ 32"
  defines "cfg \<equiv> store_config_for target fanout work_class"
  shows "publish_report (pb_answer e) ack target fanout packet_for
    (closest_of cfg (publish_lookup e target fanout work_class rt rpc))
    (sq_contact ` set (ts_spawned (publish_lookup e target fanout work_class rt rpc)))
    (publish_round e tally target packet_for fanout work_class rt rpc)"
proof -
  obtain r ts where lk: "run_lookup cfg (pb_traversal e) (get_initial target rt) rpc = (r, ts)"
    by (cases "run_lookup cfg (pb_traversal e) (get_initial target rt) rpc")
  then have ts: "publish_lookup e target fanout work_class rt rpc = ts"
    by (simp add: publish_lookup_def cfg_def)
  let ?closest = "closest_of cfg ts"
  let ?to = "select_publish_contacts target ?closest fanout"
  note cl = closest_of_spawned [OF run_lookup_inv [OF lk]]
  have to: "?to = take (max fanout 1) (filter (publish_target_is_within_tolerance target) ?closest)"
    by (simp add: select_publish_contacts_def)
  have sub: "set ?to \<subseteq> set ?closest" unfolding to by (auto dest: in_set_takeD)
  have dist: "distinct (map tc_id ?to)"
    unfolding to take_map [symmetric] using cl(2) by (simp add: distinct_map_filter)
  show ?thesis
  proof (cases "?closest = []")
    case True
    then show ?thesis
      using lk by (simp add: publish_round_def ts publish_report_def Let_def cfg_def [symmetric])
  next
    case False
    let ?rs = "List.map_filter (pb_answer e) (join_order (pb_pick e) 0 ?to)"
    let ?stats = "\<lparr> pa_closest_contacts_considered = of_nat (length ?closest),
      pa_attempted_contacts = of_nat (length ?to), pa_acked_contacts = 0, pa_timed_out_contacts = 0 \<rparr>"
    have out: "publish_round e tally target packet_for fanout work_class rt rpc = (Inr (fold tally ?rs ?stats),
        map (\<lambda>c. \<lparr> sq_contact = c, sq_packet = packet_for c, sq_timeout = PUBLISH_RESPONSE_TIMEOUT \<rparr>) ?to,
        fold register_publish_contact ?to (ts_rpc ts))"
      using False lk by (simp add: publish_round_def execute_publish_fanout_def Let_def cfg_def [symmetric])
    have "length ?closest \<le> max fanout K"
      by (simp add: closest_of_def cfg_def store_config_for_def traversal_closest_limit_def)
    then have n: "length ?closest < 2 ^ 32" using fanout by (auto simp: K_def)
    have "length ?to \<le> length ?closest"
      unfolding to length_take by (rule order_trans [OF min.cobounded1]) (rule length_filter_le)
    then have m: "length ?to < 2 ^ 32" using n by simp
    have c: "count_if P ?to < 2 ^ 32" for P using m count_if_le_length [of P ?to] by simp
    show ?thesis
      unfolding ts out using False n m c dist cl(1) sub
      by (auto simp: publish_report_def Let_def fold_tally [OF tally] count_results comp_def to [unfolded One_nat_def, symmetric]
          unat_of_nat)
  qed
qed

text \<open>
  C17. Publishes go to the right contacts and are counted. A keyword, source or notes publish looks up
  the target and sends its packet to the nearest of the contacts found that are near enough to the
  target, to distinct identifiers, as many as the fanout allows, where a fanout of zero counts as one.
  It fails, with \<open>PublishFailed\<close>, exactly if the lookup found nobody. Otherwise the counters are exact:
  the contacts found, the requests sent, those answered (by a publish response, for notes) and those
  that timed out. The AICH hash of a keyword publish goes only to contacts of a version that
  understands it.
\<close>

theorem publishes_accounted:
  assumes "fanout < 2 ^ 32"
  shows "(let ts = publish_lookup e keyword fanout work_class rt rpc in
      publish_report (pb_answer e) any_ack keyword fanout
        (\<lambda>c. PublishKeyReq \<lparr> pk_target = keyword, pk_entries = [\<lparr> pe_hash = file_hash,
           pe_tags = tags @ (if tc_version c \<ge> 9 then map kad_aich_hash_pub (option_to_list aich) else []) \<rparr>] \<rparr>)
        (closest_of (store_config_for keyword fanout work_class) ts) (sq_contact ` set (ts_spawned ts))
        (publish_keyword e keyword file_hash tags aich fanout work_class rt rpc)) \<and>
    (let target = from_be_bytes (ed2k_array file_hash); ts = publish_lookup e target fanout work_class rt rpc in
      publish_report (pb_answer e) any_ack target fanout
        (\<lambda>_. PublishSourceReq \<lparr> ps_target = target, ps_publisher_id = publisher, ps_tags = tags \<rparr>)
        (closest_of (store_config_for target fanout work_class) ts) (sq_contact ` set (ts_spawned ts))
        (publish_source e publisher file_hash tags fanout work_class rt rpc) \<and>
      publish_report (pb_answer e) publish_ack target fanout
        (\<lambda>_. PublishNotesReq \<lparr> pn_target = target, pn_publisher_id = publisher, pn_tags = tags \<rparr>)
        (closest_of (store_config_for target fanout work_class) ts) (sq_contact ` set (ts_spawned ts))
        (publish_notes e file_hash publisher tags fanout work_class rt rpc))"
proof -
  have "build_keyword_publish_packet keyword file_hash tags aich v = PublishKeyReq \<lparr> pk_target = keyword,
      pk_entries = [\<lparr> pe_hash = file_hash,
        pe_tags = tags @ (if v \<ge> 9 then map kad_aich_hash_pub (option_to_list aich) else []) \<rparr>] \<rparr>" for v
    by (cases aich) (simp_all add: build_keyword_publish_packet_def KAD_VERSION_AICH_KEYWORD_PUBLISH_def option_to_list_def)
  then show ?thesis
    using publish_round_report [OF tally_counts(1) assms] publish_round_report [OF tally_counts(2) assms]
    by (simp add: publish_keyword_def publish_source_def publish_notes_def Let_def)
qed

subsection \<open>A network of one LAN contact\<close>

text \<open>
  A contact on the local network, which is near enough to every target. It answers every lookup
  request, knowing nobody else, and every publish, and it answers a keyword search with one file
  that it reports twice.
\<close>

definition lan_contact :: traversal_contact where
  "lan_contact = \<lparr> tc_id = demo_id 5, tc_addr = (V4 (Ipv4 10 0 0 5), 4672), tc_version = 9 \<rparr>"

definition lan_env :: "search_env list \<Rightarrow> traversal_env" where
  "lan_env rounds = \<lparr> te_now = 0,
     te_rounds = (\<lambda>_. \<lparr> rd_cancelled = False, rd_now = 1, rd_others = id,
       rd_event = TaskFinished 0 (\<lambda>_. Inr (Res \<lparr> rs_target = nid_ZERO, rs_contacts = [] \<rparr>)) 2 \<rparr>),
     te_phase2 = \<lparr> ph_cancelled = False, ph_now = 3, ph_now_deadline = 3, ph_now_emit = 3, ph_rounds = rounds \<rparr> \<rparr>"

definition lan_state :: "traversal_config \<Rightarrow> rpc_state \<Rightarrow> traversal_state" where
  "lan_state cfg rpc =
     \<lparr> ts_candidates = [(make_candidate_for (tg_target cfg) lan_contact)\<lparr>cd_state := Responded\<rparr>],
       ts_seen = {tc_id lan_contact}, ts_join_set = [], ts_last_response = Some 2,
       ts_rpc = register_traversal_identity lan_contact rpc,
       ts_spawned = [\<lparr> sq_contact = lan_contact, sq_packet = Req \<lparr> rq_count = req_count_for (tg_search_kind cfg),
           rq_target = tg_target cfg, rq_recipient_id = tc_id lan_contact \<rparr>,
         sq_timeout = min (tg_query_timeout cfg) (tg_timeout cfg - 1) \<rparr>] \<rparr>"

lemma lan_lookup:
  assumes "1 < tg_timeout cfg"
  shows "run_lookup cfg (lan_env rounds) [lan_contact] rpc = (GoalDone, lan_state cfg rpc)"
proof -
  have conv: "\<not> find_node_lookup_converged [c]" for c
    by (simp add: find_node_lookup_converged_def K_def Let_def)
  have "traversal_closest_limit (tg_search_kind cfg) (tg_phase2_fanout cfg) \<noteq> 0"
    by (auto simp: traversal_closest_limit_def K_def split: traversal_kind.splits)
  then obtain n where n: "traversal_closest_limit (tg_search_kind cfg) (tg_phase2_fanout cfg) = Suc n"
    using not0_implies_Suc by blast
  have sane: "sanitize_res_contacts [] addr n = Some []" for addr n
    by (auto simp: sanitize_res_contacts_def split: ip_addr.split)
  show ?thesis
    unfolding run_lookup_def
    by (subst lookup_loop.simps)
      (use assms conv n sane in \<open>simp add: lookup_round_def launch_queries_def pending_closest_def
        initial_state_def make_candidate_for_def lan_env_def ALPHA_def launch_query_def apply_query_result_def finish_check_def
        remove_nth_def lan_state_def candidate_with_def Let_def\<close>)
qed

lemma lan_closest [simp]: "closest_of cfg (lan_state cfg rpc) = [lan_contact]"
  by (cases "traversal_closest_limit (tg_search_kind cfg) (tg_phase2_fanout cfg)")
    (auto simp: closest_of_def lan_state_def responded_contacts_def is_responded_def make_candidate_for_def
      traversal_closest_limit_def K_def split: traversal_kind.splits)

lemma lan_near [simp]: "passes_search_tolerance target lan_contact"
  by (simp add: passes_search_tolerance_def lan_contact_def traversal_is_lan_ip_def)

lemma lan_publish_near [simp]: "publish_target_is_within_tolerance target lan_contact"
  by (simp add: publish_target_is_within_tolerance_def lan_contact_def)

text \<open>A routing table with that contact.\<close>

definition lan_routing :: contact where
  "lan_routing = contact_new (demo_id 5) (Ipv4 10 0 0 5) 4672 4662 9 0"

definition lan_table :: routing_table where
  "lan_table = snd (the (add_contact lan_routing (table_new (demo_id 9))))"

lemma lan_root: "rt_root lan_table = Leaf 0 0 \<lparr>bin_contacts = [lan_routing]\<rparr>"
proof -
  have fuel: "ADD_FUEL = Suc 255" by (simp add: ADD_FUEL_def)
  have "zone_add ADD_FUEL 0 12000 lan_routing zone_new_root =
      Some (Inr True, Leaf 0 0 \<lparr>bin_contacts = [lan_routing]\<rparr>)"
    unfolding fuel zone_add.simps
    by (simp add: zone_new_root_def bin_new_def try_add_def lan_routing_def contact_new_def
        K_def MAX_PER_BIN_SUBNET24_def)
  then show ?thesis
    by (simp add: lan_table_def add_contact_def table_new_def with_max_size_def DEFAULT_MAX_SIZE_def
        GLOBAL_MAX_PER_SUBNET24_def add_commit_def Let_def)
qed

lemma lan_initial [simp]: "get_initial target lan_table = [lan_contact]"
  by (simp add: get_initial_def get_closest_def lan_root contact_of_routing_def lan_routing_def contact_new_def
      lan_contact_def K_def)

definition lan_publish :: publish_env where
  "lan_publish = \<lparr> pb_traversal = lan_env [], pb_pick = (\<lambda>_. 0),
     pb_answer = (\<lambda>_. Some (Inr (PublishRes \<lparr> pr_target = nid_ZERO, pr_load = 0, pr_options = None \<rparr>))) \<rparr>"

lemma lan_publish_lookup [simp]:
  "publish_lookup lan_publish target fanout work_class lan_table rpc =
     lan_state (store_config_for target fanout work_class) rpc"
  using lan_lookup [of "store_config_for target fanout work_class" "[]"]
  by (simp add: publish_lookup_def lan_publish_def store_config_for_def PUBLISH_TIMEOUT_def)








theorem publishes_accounted_witness:
  "(4 :: nat) < 2 ^ 32 \<and>
   (let out = publish_source lan_publish (demo_id 3) ed2k_ZERO [] 4 Publish lan_table demo_rpc in
    map sq_contact (fst (snd out)) = [lan_contact] \<and>
    (\<exists>s. fst out = Inr s \<and> unat (pa_closest_contacts_considered s) = 1 \<and> unat (pa_attempted_contacts s) = 1 \<and>
      unat (pa_acked_contacts s) = 1 \<and> unat (pa_timed_out_contacts s) = 0))"
proof -
  let ?out = "publish_source lan_publish (demo_id 3) ed2k_ZERO [] 4 Publish lan_table demo_rpc"
  let ?target = "from_be_bytes (ed2k_array ed2k_ZERO)"
  have "publish_report (pb_answer lan_publish) any_ack ?target 4
      (\<lambda>_. PublishSourceReq \<lparr> ps_target = ?target, ps_publisher_id = demo_id 3, ps_tags = [] \<rparr>)
      [lan_contact] (sq_contact ` set (ts_spawned (lan_state (store_config_for ?target 4 Publish) demo_rpc))) ?out"
    using publishes_accounted [where fanout = 4 and e = lan_publish and publisher = "demo_id 3"
        and file_hash = ed2k_ZERO and tags = "[]" and work_class = Publish and rt = lan_table and rpc = demo_rpc]
    by (simp add: Let_def)
  then show ?thesis
    by (cases "fst ?out")
      (auto simp: publish_report_def Let_def ended_def lan_publish_def count_if_def)
qed

end
