(* ===== verification/Agent_Publish_Props.thy ===== *)
theory Agent_Publish_Props
  imports Agent_Publish Kad_Bootstrap_Props Kad_Dht_Props Kad_Store_Search
begin

text \<open>
  What the publishing side guarantees: a published source is found with the publisher's identity and
  ports, the synthetic seeds are published in turn, batches are counted once, the user hash survives
  restarts, and what the bootstrap loop does not retry.
\<close>

subsection \<open>Published sources\<close>

lemma source_publish_client_hash_eq: "source_publish_client_hash h = from_be_bytes h"
  by (simp add: source_publish_client_hash_def emule_kad_chunk_order_def from_be_bytes_def from_bytes_def
      swap_chunks_def Let_def mult.commute)

lemma client_hash_round_trip: "source_entry_id (source_publish_client_hash h) = Ed2kHash h"
  by (simp add: source_publish_client_hash_eq source_entry_id_def to_be_bytes_from_be_bytes)

lemma ucast_ucast_u16: "(ucast (ucast (p :: u16) :: u64) :: u16) = p" "(ucast (ucast (ucast (p :: u16) :: u64) :: u32) :: u16) = p"
  by (rule bit_word_eqI; simp add: bit_ucast_iff; fail)+

lemma unat_ucast_u16: "unat (ucast (p :: u16) :: u64) = unat p"
proof -
  have "unat p < 2 ^ 64" using unat_u16 [of p] by simp
  then show ?thesis by (simp add: unsigned_ucast_eq take_bit_nat_eq_self)
qed

lemma u16_le_u32: "ucast (p :: u16) \<le> (0xFFFFFFFF :: u64)"
  using unat_u16 [of p] by (simp add: word_le_nat_alt unat_ucast_u16)

lemma source_ip_tag_eq: "source_ip_tag ip = new_short tn_SOURCEIP (U32 (u32_of_ipv4 ip))"
  by (cases ip) (simp add: source_ip_tag_def u32_of_ipv4_def)

lemma published_source_read:
  assumes "sp_tags e = stock_stored_source_publish_tags
      (build_source_publish_tags (V4 bind_ip, port) settings file_size)"
    and "sps_tcp_port settings \<noteq> 0"
  shows "source_result_from_tags file_hash source_id (source_result_tags e) =
    Some \<lparr> srr_file_hash = file_hash, srr_source_id = source_id, srr_ip = bind_ip,
      srr_tcp_port = sps_tcp_port settings,
      srr_udp_port = (if port = 0 then sps_tcp_port settings else port),
      srr_obfuscation_options = Some (emule_connect_options (sps_obfuscation_enabled settings)) \<rparr>"
  using assms(2)
  by (cases "port = 0"; cases "stock_first_keyword_source_file_size (sp_tags e)")
    (simp_all add: source_result_tags_def assms(1) build_source_publish_tags_def stock_stored_source_publish_tags_def
      stock_stored_publish_tags_def new_short_def tag_filesize_def tn_defs tn_ENCRYPTION_def source_ip_tag_eq
      normalized_source_port_tag_def normalized_source_udp_port_tag_def u16_le_u32 source_result_from_tags_def
      source_read_step_def ucast_ucast_u16 opt_tag_def Let_def)

lemma published_tcp_port:
  "stock_source_tcp_port (build_source_publish_tags addr settings file_size) =
     (if sps_tcp_port settings = 0 then None else Some (sps_tcp_port settings))"
proof -
  have "try_port (ucast (sps_tcp_port settings) :: u64) = Some (sps_tcp_port settings)"
    using unat_u16 [of "sps_tcp_port settings"]
    by (simp add: try_port_def ucast_ucast_u16 unat_ucast_u16)
  then show ?thesis
    by (cases "fst addr") (simp_all add: build_source_publish_tags_def stock_source_tcp_port_def new_short_def
        tag_filesize_def tn_defs tn_ENCRYPTION_def positive_port_def word_gt_0)
qed

lemma published_file_size:
  "stock_first_file_size_impl (stock_stored_source_publish_tags (build_source_publish_tags (V4 bind_ip, port) settings n)) True =
     Some n"
proof -
  have "(ucast (ucast n :: u32) :: u64) = n" if "n \<le> 0xFFFFFFFF"
  proof -
    have "unat n < 2 ^ 32" using that by (simp add: word_le_nat_alt)
    then have "unat (ucast (ucast n :: u32) :: u64) = unat n"
      by (simp add: unsigned_ucast_eq unsigned_take_bit_eq take_bit_nat_eq_self)
    then show ?thesis by (rule unsigned_word_eqI)
  qed
  then show ?thesis
    by (simp add: build_source_publish_tags_def stock_stored_source_publish_tags_def stock_stored_publish_tags_def
        stock_first_file_size_impl_def new_short_def tag_filesize_def tn_defs tn_ENCRYPTION_def get_or_insert_def)
qed

text \<open>
  C18. A published source is found. If a node accepts the source publish of an agent with an IPv4
  bind address, then until it expires, and while the node stores nothing else, a search of that node
  for the file, with its size or with size 0, returns an entry that the searcher reads as a source of
  the file with the agent's user hash, its eD2k port, its Kad port and its connection options. The
  node returns 300 sources per search: a new source is in the answer to the search from the start; one
  the node knew already keeps its place, and is in the answer to the search from one of the first
  thousand start positions. The address the searcher reads is the bind address the agent put in its
  tags, not the address the node has seen the publish come from.
\<close>

theorem published_source_found:
  assumes "store_reach c st" "now \<le> now'" "now' < now + int (source_ttl c)" "sz = 0 \<or> sz = file_size"
    and "fst (record_source_publish target (source_publish_client_hash user_hash) observed_ip observed_port
      (build_source_publish_tags (V4 bind_ip, port) settings file_size) now st) = Some ld"
  shows "\<exists>start r entry. unat start \<le> 1000 \<and>
    (\<not> source_replacement_matches (purge_expired sp_observed_at (source_ttl c) now (source_entries st)) target
        observed_ip (sps_tcp_port settings) observed_port \<longrightarrow> start = 0) \<and>
    fst (source_search_response me \<lparr> ss_target = target, ss_start_position = start, ss_size = sz \<rparr>
        LOCAL_SOURCE_SEARCH_RESPONSE_LIMIT now'
      (snd (record_source_publish target (source_publish_client_hash user_hash) observed_ip observed_port
        (build_source_publish_tags (V4 bind_ip, port) settings file_size) now st))) = Some r \<and>
    entry \<in> set (sr_results r) \<and>
    map_source_search_result file_hash (se_entry_id entry) (se_tags entry) =
      Some \<lparr> srr_file_hash = file_hash, srr_source_id = Ed2kHash user_hash, srr_ip = bind_ip,
        srr_tcp_port = sps_tcp_port settings,
        srr_udp_port = (if port = 0 then sps_tcp_port settings else port),
        srr_obfuscation_options = Some (emule_connect_options (sps_obfuscation_enabled settings)) \<rparr>"
proof -
  let ?tags = "build_source_publish_tags (V4 bind_ip, port) settings file_size"
  have sz: "stock_source_file_size_matches_request (stock_stored_source_publish_tags ?tags) sz"
    using assms(4) by (auto simp: stock_source_file_size_matches_request_def stock_file_size_matches_request_def
        published_file_size)
  have limit: "0 < LOCAL_SOURCE_SEARCH_RESPONSE_LIMIT" by (simp add: LOCAL_SOURCE_SEARCH_RESPONSE_LIMIT_def)
  obtain tcp start r e where r: "stock_source_tcp_port ?tags = Some tcp" "unat start \<le> 1000"
    "\<not> source_replacement_matches (purge_expired sp_observed_at (source_ttl c) now (source_entries st)) target
       observed_ip tcp observed_port \<longrightarrow> start = 0"
    "fst (source_search_response me \<lparr> ss_target = target, ss_start_position = start, ss_size = sz \<rparr>
       LOCAL_SOURCE_SEARCH_RESPONSE_LIMIT now'
       (snd (record_source_publish target (source_publish_client_hash user_hash) observed_ip observed_port ?tags now st))) = Some r"
    "source_result e \<in> set (sr_results r)" "sp_publisher_id e = source_publish_client_hash user_hash"
    "sp_tags e = stock_stored_source_publish_tags ?tags"
    using source_publish_found [OF assms(1,5,2,3) limit sz, of me] by blast
  have tcp: "sps_tcp_port settings \<noteq> 0" "tcp = sps_tcp_port settings"
    using r(1) by (auto simp: published_tcp_port split: if_splits)
  have "map_source_search_result file_hash (se_entry_id (source_result e)) (se_tags (source_result e)) =
      Some \<lparr> srr_file_hash = file_hash, srr_source_id = Ed2kHash user_hash, srr_ip = bind_ip,
        srr_tcp_port = sps_tcp_port settings,
        srr_udp_port = (if port = 0 then sps_tcp_port settings else port),
        srr_obfuscation_options = Some (emule_connect_options (sps_obfuscation_enabled settings)) \<rparr>"
    using published_source_read [OF r(7) tcp(1)] r(6)
    by (simp add: source_result_def map_source_search_result_def client_hash_round_trip)
  then show ?thesis using r(2-5) unfolding tcp(2) by blast
qed

text \<open>The file has reached the limit of 1001 sources; a new source is published and found.\<close>

theorem published_source_found_witness:
  "let tags = build_source_publish_tags (V4 (Ipv4 0 0 0 0), 4672) \<lparr> sps_tcp_port = 4662, sps_obfuscation_enabled = True \<rparr> 9;
       st = snd (record_source_publish nid_ZERO (source_publish_client_hash (ed2k_array ed2k_ZERO)) (Ipv4 9 2 3 4) 4672
         tags 0 (crowd_store 1500)) in
   \<exists>r entry s. fst (source_search_response nid_ZERO \<lparr> ss_target = nid_ZERO, ss_start_position = 0, ss_size = 9 \<rparr>
        300 5 st) = Some r \<and> entry \<in> set (sr_results r) \<and>
      map_source_search_result ed2k_ZERO (se_entry_id entry) (se_tags entry) = Some s \<and> srr_ip s = Ipv4 0 0 0 0"
proof -
  let ?s = "\<lparr> sps_tcp_port = 4662, sps_obfuscation_enabled = True \<rparr>"
  let ?tags = "build_source_publish_tags (V4 (Ipv4 0 0 0 0), 4672) ?s 9"
  define st where "st = crowd_store 1500"
  have reach: "store_reach crowd_config st" unfolding st_def by (rule crowd_store_reach)
  have st: "st = (store_new crowd_config)\<lparr>source_entries := map crowd_entry [499..<1500]\<rparr>"
    unfolding st_def by (subst crowd_store_eq) simp_all
  have ttl: "source_ttl crowd_config = 10000000000"
    by (simp add: crowd_config_def demo_config_def from_kad_config_def)
  have new: "\<not> source_replacement_matches (purge_expired sp_observed_at (source_ttl crowd_config) 0 (source_entries st)) nid_ZERO
      (Ipv4 9 2 3 4) (sps_tcp_port ?s) 4672"
    by (auto simp: source_replacement_matches_def list_ex_iff st purge_expired_def same_source_def crowd_entry_def crowd_ip_def
        simp del: upt_rec_numeral)
  have "enabled (st_config st)" by (simp add: st store_new_def crowd_config_def demo_config_def from_kad_config_def)
  then obtain ld where acc: "fst (record_source_publish nid_ZERO (source_publish_client_hash (ed2k_array ed2k_ZERO))
      (Ipv4 9 2 3 4) 4672 ?tags 0 st) = Some ld"
    using published_tcp_port [of "(V4 (Ipv4 0 0 0 0), 4672)" ?s 9]
    by (simp add: record_source_publish_def Let_def is_stock_source_publish_def build_source_publish_tags_def new_short_def)
  obtain start r entry where r: "start = 0" "fst (source_search_response nid_ZERO
      \<lparr> ss_target = nid_ZERO, ss_start_position = start, ss_size = 9 \<rparr> LOCAL_SOURCE_SEARCH_RESPONSE_LIMIT 5
      (snd (record_source_publish nid_ZERO (source_publish_client_hash (ed2k_array ed2k_ZERO)) (Ipv4 9 2 3 4) 4672
        ?tags 0 st))) = Some r" "entry \<in> set (sr_results r)"
      "map_source_search_result ed2k_ZERO (se_entry_id entry) (se_tags entry) =
        Some \<lparr> srr_file_hash = ed2k_ZERO, srr_source_id = Ed2kHash (ed2k_array ed2k_ZERO), srr_ip = Ipv4 0 0 0 0,
          srr_tcp_port = sps_tcp_port ?s, srr_udp_port = (if 4672 = (0 :: u16) then sps_tcp_port ?s else 4672),
          srr_obfuscation_options = Some (emule_connect_options (sps_obfuscation_enabled ?s)) \<rparr>"
    using published_source_found [OF reach, of 0 5 9 9 nid_ZERO "ed2k_array ed2k_ZERO" "Ipv4 9 2 3 4" 4672 "Ipv4 0 0 0 0" 4672
        ?s ld nid_ZERO ed2k_ZERO] ttl acc new by auto
  then show ?thesis
    unfolding Let_def st_def [symmetric] LOCAL_SOURCE_SEARCH_RESPONSE_LIMIT_def
    by (intro exI [of _ r] exI [of _ entry]) (auto simp del: upt_rec_numeral)
qed

subsection \<open>The synthetic drip\<close>

lemma length_seeds [simp]: "length SYNTHETIC_POPULAR_SEEDS = 40"
  by (simp add: SYNTHETIC_POPULAR_SEEDS_def)

lemma seeds_nonempty [simp]: "SYNTHETIC_POPULAR_SEEDS \<noteq> []"
  using length_seeds by (metis list.size(3) zero_neq_numeral)

text \<open>The seeds repeated for ever.\<close>

definition drip_item :: "digest_fun \<Rightarrow> hex_ext \<Rightarrow> nat \<Rightarrow> popular_hash" where
  "drip_item md4 H i = synthetic_popular_hash md4 H (i mod 40) (SYNTHETIC_POPULAR_SEEDS ! (i mod 40))"

lemma drip_item_mod: "i mod 40 = j mod 40 \<Longrightarrow> drip_item md4 H i = drip_item md4 H j"
  by (simp add: drip_item_def)

definition drip_len :: "nat \<Rightarrow> nat" where
  "drip_len batch_items = min (max batch_items 1) 40"

lemma next_batch:
  "next_synthetic_publish_batch md4 H cursor batch_items =
     (map (drip_item md4 H) [cursor..<cursor + drip_len batch_items], (cursor + drip_len batch_items) mod 40)"
proof -
  have "map (drip_item md4 H) [cursor..<cursor + n] = map (\<lambda>k. drip_item md4 H (cursor mod 40 + k)) [0..<n]" for n
    by (rule nth_equalityI) (auto intro: drip_item_mod simp: mod_add_left_eq)
  then show ?thesis
    by (simp add: next_synthetic_publish_batch_def drip_len_def drip_item_def Let_def mod_add_left_eq)
qed

text \<open>Ticks one after the other, with everything they hand out for publishing.\<close>

type_synonym drip_flags = "bool \<times> bool \<times> bool \<times> bool"

fun drip_run ::
  "digest_fun \<Rightarrow> hex_ext \<Rightarrow> nat \<Rightarrow> drip_flags list \<Rightarrow> drip_state \<times> publish_observability \<Rightarrow>
     popular_hash list \<times> drip_state \<times> publish_observability" where
  "drip_run md4 H b [] st = ([], st)"
| "drip_run md4 H b ((shutdown, bootstrapped, downloads, coordinator) # ticks) st =
     (let (batch, st) = drip_tick md4 H b shutdown bootstrapped downloads coordinator st;
          (more, st) = drip_run md4 H b ticks st in
      (batch @ more, st))"

lemma drip_tick_cases:
  assumes "drip_tick md4 H b shutdown bootstrapped downloads coordinator (d, po) = (batch, d', po')"
  shows "batch = [] \<and> dr_cursor d' = dr_cursor d \<and> (shutdown \<or> \<not> bootstrapped \<or> downloads \<or> coordinator) \<or>
    batch = map (drip_item md4 H) [dr_cursor d..<dr_cursor d + drip_len b] \<and>
      dr_cursor d' = (dr_cursor d + drip_len b) mod 40"
  using assms by (auto simp: drip_tick_def next_batch Let_def split: if_splits)

lemma drip_run_items:
  "\<exists>k. fst (drip_run md4 H b ticks (d, po)) = map (drip_item md4 H) [dr_cursor d..<dr_cursor d + k * drip_len b] \<and>
     k \<le> length ticks \<and> ((\<forall>t \<in> set ticks. t = (False, True, False, False)) \<longrightarrow> k = length ticks)"
proof (induction ticks arbitrary: d po)
  case Nil
  show ?case by (intro exI [of _ 0]) simp
next
  case (Cons t ticks)
  obtain s bt dl co where t: "t = (s, bt, dl, co)" by (cases t)
  obtain batch d' po' where tick: "drip_tick md4 H b s bt dl co (d, po) = (batch, d', po')"
    by (cases "drip_tick md4 H b s bt dl co (d, po)")
  obtain k where k: "fst (drip_run md4 H b ticks (d', po')) =
      map (drip_item md4 H) [dr_cursor d'..<dr_cursor d' + k * drip_len b]" "k \<le> length ticks"
      "(\<forall>t \<in> set ticks. t = (False, True, False, False)) \<longrightarrow> k = length ticks"
    using Cons.IH by blast
  have run: "fst (drip_run md4 H b (t # ticks) (d, po)) = batch @ fst (drip_run md4 H b ticks (d', po'))"
    by (simp add: t tick split: prod.split)
  from drip_tick_cases [OF tick] show ?case
  proof
    assume a: "batch = [] \<and> dr_cursor d' = dr_cursor d \<and> (s \<or> \<not> bt \<or> dl \<or> co)"
    then show ?thesis using k run t by (intro exI [of _ k]) auto
  next
    assume a: "batch = map (drip_item md4 H) [dr_cursor d..<dr_cursor d + drip_len b] \<and>
      dr_cursor d' = (dr_cursor d + drip_len b) mod 40"
    have "map (drip_item md4 H) [dr_cursor d'..<dr_cursor d' + k * drip_len b] =
        map (drip_item md4 H) [dr_cursor d + drip_len b..<dr_cursor d + drip_len b + k * drip_len b]"
      by (rule nth_equalityI) (auto intro: drip_item_mod simp: a mod_add_left_eq)
    moreover have "[dr_cursor d..<dr_cursor d + Suc k * drip_len b] =
        [dr_cursor d..<dr_cursor d + drip_len b] @ [dr_cursor d + drip_len b..<dr_cursor d + drip_len b + k * drip_len b]"
      using upt_add_eq_append [of "dr_cursor d" "dr_cursor d + drip_len b" "k * drip_len b"] by (simp add: add.assoc)
    ultimately show ?thesis using a k run by (intro exI [of _ "Suc k"]) auto
  qed
qed

text \<open>
  C20. The synthetic drip publishes the seeds in turn. Whatever ticks are skipped, the batches handed
  out are, one after the other, the seeds in their order from the cursor on, starting over after the
  last, with nothing left out and nothing repeated; if no tick is skipped, each tick hands out the
  configured number, at least one and at most all of them, so every seed comes up once there were
  enough ticks.
\<close>

theorem drip_round_robin:
  "\<exists>k \<le> length ticks. fst (drip_run md4 H b ticks (d, po)) =
       map (drip_item md4 H) [dr_cursor d..<dr_cursor d + k * drip_len b] \<and>
     (list_all (\<lambda>t. t = (False, True, False, False)) ticks \<longrightarrow> k = length ticks) \<and>
     (40 \<le> k * drip_len b \<longrightarrow> set (synthetic_popular_hashes md4 H) \<subseteq> set (fst (drip_run md4 H b ticks (d, po))))"
proof -
  obtain k where k: "fst (drip_run md4 H b ticks (d, po)) =
      map (drip_item md4 H) [dr_cursor d..<dr_cursor d + k * drip_len b]" "k \<le> length ticks"
      "(\<forall>t \<in> set ticks. t = (False, True, False, False)) \<longrightarrow> k = length ticks"
    using drip_run_items by blast
  have "set (synthetic_popular_hashes md4 H) \<subseteq> drip_item md4 H ` {dr_cursor d..<dr_cursor d + n}" if "40 \<le> n" for n
  proof
    fix h assume "h \<in> set (synthetic_popular_hashes md4 H)"
    then obtain i where i: "i < 40" "h = drip_item md4 H i"
      by (auto simp: synthetic_popular_hashes_def in_set_zip drip_item_def)
    let ?j = "dr_cursor d + (i + 40 - dr_cursor d mod 40) mod 40"
    have "?j mod 40 = i mod 40"
    proof -
      have "?j mod 40 = (dr_cursor d mod 40 + (i + 40 - dr_cursor d mod 40)) mod 40"
        by (metis mod_add_eq mod_mod_trivial)
      also have "dr_cursor d mod 40 + (i + 40 - dr_cursor d mod 40) = i + 40"
        using mod_less_divisor [of 40 "dr_cursor d"] by simp
      finally show ?thesis by simp
    qed
    then have "h = drip_item md4 H ?j" using i(2) by (metis drip_item_mod)
    moreover have "(i + 40 - dr_cursor d mod 40) mod 40 < 40" by simp
    then have "?j \<in> {dr_cursor d..<dr_cursor d + n}" using that unfolding atLeastLessThan_iff by linarith
    ultimately show "h \<in> drip_item md4 H ` {dr_cursor d..<dr_cursor d + n}" by blast
  qed
  then show ?thesis using k by (intro exI [of _ k]) (simp add: list_all_iff)
qed

definition demo_md4 :: digest_fun where
  "demo_md4 bs = Arr16 (replicate 16 (of_nat (length bs)))"

definition demo_hex :: hex_ext where
  "demo_hex = \<lparr> hex_encode = (\<lambda>bs. concat (map (\<lambda>b. to_hex 2 (unat b)) bs)), hex_decode = (\<lambda>_. None) \<rparr>"

definition demo_counters :: publish_counters where
  "demo_counters = \<lparr> ct_batches = 0, ct_published_items = 0, ct_closest_contacts_considered = 0,
     ct_attempted_contacts = 0, ct_acked_contacts = 0, ct_failed_contacts = 0, ct_timed_out_contacts = 0,
     ct_last_batch_at = None, ct_last_success_at = None \<rparr>"

definition demo_obs :: publish_observability where
  "demo_obs = \<lparr> po_last_seed_source = None, po_last_seed_at = None, po_latest_keyword_batch = None,
     po_latest_source_batch = None, po_latest_notes_batch = None, po_keyword_counters = demo_counters,
     po_source_counters = demo_counters, po_notes_counters = demo_counters, po_synthetic_drip_queue_depth = None \<rparr>"

theorem drip_round_robin_witness:
  "set (synthetic_popular_hashes demo_md4 demo_hex) \<subseteq>
     set (fst (drip_run demo_md4 demo_hex 30 [(False, True, False, False), (False, True, False, False)]
       (\<lparr> dr_cursor = 7, dr_deferred = 0 \<rparr>, demo_obs)))"
proof -
  have len: "drip_len 30 = 30" by (simp add: drip_len_def)
  obtain k where "k = length [(False, True, False, False), (False, True, False, False)]"
      "40 \<le> k * drip_len 30 \<longrightarrow> set (synthetic_popular_hashes demo_md4 demo_hex) \<subseteq>
         set (fst (drip_run demo_md4 demo_hex 30 [(False, True, False, False), (False, True, False, False)]
           (\<lparr> dr_cursor = 7, dr_deferred = 0 \<rparr>, demo_obs)))"
    using drip_round_robin [of "[(False, True, False, False), (False, True, False, False)]" demo_md4 demo_hex 30
        "\<lparr> dr_cursor = 7, dr_deferred = 0 \<rparr>" demo_obs]
    by (auto simp del: drip_run.simps)
  then show ?thesis unfolding len by (simp del: drip_run.simps)
qed

subsection \<open>Counting\<close>

definition counters_of :: "publish_observability \<Rightarrow> publish_counters \<times> publish_counters \<times> publish_counters" where
  "counters_of po = (po_keyword_counters po, po_source_counters po, po_notes_counters po)"

lemma update_publish_progress_counters [simp]:
  "counters_of (update_publish_progress src n ks ss ns t po) = counters_of po"
  by (simp add: update_publish_progress_def counters_of_def Let_def split: option.split)

text \<open>
  What a batch has to publish: every hash in every family. Each entry of the log is checked against
  its item: the packets carry the hash in that family, and the outcome counts the requests, those
  answered and those that timed out.
\<close>

definition families :: "seed_context \<Rightarrow> publish_family list" where
  "families c = [KeywordFamily, SourceFamily] @ (if sc_notes_publish_enabled c then [NotesFamily] else [])"

definition batch_items :: "seed_context \<Rightarrow> nat \<Rightarrow> popular_hash list \<Rightarrow> (nat \<times> popular_hash \<times> publish_family) list" where
  "batch_items c k hashes = concat (map (\<lambda>(i, h). map (\<lambda>f. (i, h, f)) (families c)) (enumerate k hashes))"

fun publishes ::
  "digest_fun \<Rightarrow> (bytes \<Rightarrow> bool) \<Rightarrow> (rstring \<Rightarrow> rstring) \<Rightarrow> seed_context \<Rightarrow> popular_hash \<Rightarrow> ed2k_hash \<Rightarrow> publish_family \<Rightarrow>
     kad_packet \<Rightarrow> bool" where
  "publishes md4 alnum L c hash h KeywordFamily p \<longleftrightarrow>
     (\<exists>aich. p = PublishKeyReq \<lparr> pk_target = keyword_target md4 alnum L (pop_canonical_name hash),
        pk_entries = [\<lparr> pe_hash = h, pe_tags = keyword_tags_of hash @ aich \<rparr>] \<rparr>)"
| "publishes md4 alnum L c hash h SourceFamily p \<longleftrightarrow>
     (\<exists>tags. p = PublishSourceReq \<lparr> ps_target = from_be_bytes (ed2k_array h), ps_publisher_id = sc_identity c, ps_tags = tags \<rparr>)"
| "publishes md4 alnum L c hash h NotesFamily p \<longleftrightarrow>
     p = PublishNotesReq \<lparr> pn_target = from_be_bytes (ed2k_array h), pn_publisher_id = sc_own_id c,
       pn_tags = build_notes_publish_tags (pop_canonical_name hash) (pop_size hash) \<rparr>"

fun ack_of :: "publish_family \<Rightarrow> net_error + kad_packet \<Rightarrow> bool" where
  "ack_of NotesFamily r \<longleftrightarrow> publish_ack r"
| "ack_of _ r \<longleftrightarrow> any_ack r"

definition outcome_counts ::
  "(traversal_contact \<Rightarrow> (net_error + kad_packet) option) \<Rightarrow> (net_error + kad_packet \<Rightarrow> bool) \<Rightarrow> dht_error + publish_stats \<Rightarrow>
     spawned_request list \<Rightarrow> bool" where
  "outcome_counts answer ack out requests \<longleftrightarrow>
     (case out of
        Inl err \<Rightarrow> err = PublishFailed \<and> requests = []
      | Inr s \<Rightarrow> unat (pa_attempted_contacts s) = length requests \<and>
          unat (pa_acked_contacts s) = count_if (ended answer ack) (map sq_contact requests) \<and>
          unat (pa_timed_out_contacts s) = count_if (ended answer no_answer) (map sq_contact requests))"

fun logged_for ::
  "digest_fun \<Rightarrow> (bytes \<Rightarrow> bool) \<Rightarrow> (rstring \<Rightarrow> rstring) \<Rightarrow> seed_context \<Rightarrow> seed_env \<Rightarrow> nat \<times> popular_hash \<times> publish_family \<Rightarrow>
     publish_family \<times> (dht_error + publish_stats) \<times> spawned_request list \<Rightarrow> bool" where
  "logged_for md4 alnum L c e (k, hash, f) (f', out, requests) \<longleftrightarrow> f' = f \<and>
     (\<exists>h. ed2k_from_str (pop_hash hash) = Some (Inr h) \<and> (\<forall>q \<in> set requests. publishes md4 alnum L c hash h f (sq_packet q))) \<and>
     outcome_counts (pb_answer (sdv_publish e k f)) (ack_of f) out requests"

text \<open>The sums over the publishes of a family that returned statistics.\<close>

definition family_stats ::
  "publish_family \<Rightarrow> (publish_family \<times> (dht_error + publish_stats) \<times> spawned_request list) list \<Rightarrow> publish_stats list" where
  "family_stats f log = concat (map (\<lambda>(g, out, _). if g = f then case out of Inl _ \<Rightarrow> [] | Inr s \<Rightarrow> [s] else []) log)"

definition sum_stats :: "publish_stats list \<Rightarrow> publish_stats" where
  "sum_stats xs =
     \<lparr> pa_closest_contacts_considered = sum_list (map pa_closest_contacts_considered xs),
       pa_attempted_contacts = sum_list (map pa_attempted_contacts xs),
       pa_acked_contacts = sum_list (map pa_acked_contacts xs),
       pa_timed_out_contacts = sum_list (map pa_timed_out_contacts xs) \<rparr>"

definition totals_of :: "(publish_family \<times> (dht_error + publish_stats) \<times> spawned_request list) list \<Rightarrow> seed_totals" where
  "totals_of log = \<lparr> tt_keyword = sum_stats (family_stats KeywordFamily log),
     tt_source = sum_stats (family_stats SourceFamily log), tt_notes = sum_stats (family_stats NotesFamily log) \<rparr>"

lemma totals_of_Nil: "totals_of [] = totals_default"
  by (simp add: totals_of_def totals_default_def family_stats_def sum_stats_def stats_default_def)

lemma sum_stats_snoc:
  "sum_stats (family_stats f (log @ [(g, out, rs)])) =
     (if g = f then add_stats (sum_stats (family_stats f log)) out else sum_stats (family_stats f log))"
  by (cases out) (simp_all add: family_stats_def sum_stats_def add_stats_def)

lemma publish_round_counts:
  assumes "counts_as ack tally" "fanout < 2 ^ 32"
    and out: "publish_round e tally target packet_for fanout wc rt rpc = out"
  shows "outcome_counts (pb_answer e) ack (fst out) (fst (snd out))"
    "q \<in> set (fst (snd out)) \<Longrightarrow> sq_packet q = packet_for (sq_contact q)"
proof -
  note r = publish_round_report [OF assms(1,2), of e target packet_for wc rt rpc, unfolded out publish_report_def Let_def]
  show "outcome_counts (pb_answer e) ack (fst out) (fst (snd out))"
  proof (cases "fst out")
    case (Inl err)
    then have "map sq_contact (fst (snd out)) = []" "err = PublishFailed" using r by simp_all
    then show ?thesis using Inl by (simp add: outcome_counts_def)
  next
    case (Inr s)
    then have "unat (pa_attempted_contacts s) = length (map sq_contact (fst (snd out)))"
      "unat (pa_acked_contacts s) = count_if (ended (pb_answer e) ack) (map sq_contact (fst (snd out)))"
      "unat (pa_timed_out_contacts s) = count_if (ended (pb_answer e) no_answer) (map sq_contact (fst (snd out)))"
      using r [unfolded Inr sum.case] by blast+
    then show ?thesis using Inr by (simp add: outcome_counts_def)
  qed
  show "q \<in> set (fst (snd out)) \<Longrightarrow> sq_packet q = packet_for (sq_contact q)" using r by blast
qed

text \<open>What the loop keeps: the log answers to the items so far, and the totals are its sums.\<close>

definition batch_inv ::
  "digest_fun \<Rightarrow> (bytes \<Rightarrow> bool) \<Rightarrow> (rstring \<Rightarrow> rstring) \<Rightarrow> seed_context \<Rightarrow> seed_env \<Rightarrow> seed_state \<Rightarrow>
     (nat \<times> popular_hash \<times> publish_family) list \<Rightarrow> seed_totals \<times> seed_state \<Rightarrow> bool" where
  "batch_inv md4 alnum L c e st0 done_items acc \<longleftrightarrow>
     (\<exists>log. sd_log (snd acc) = sd_log st0 @ log \<and> list_all2 (logged_for md4 alnum L c e) done_items log \<and>
        fst acc = totals_of log \<and> counters_of (sd_obs (snd acc)) = counters_of (sd_obs st0))"

definition quiet :: "seed_env \<Rightarrow> bool" where
  "quiet e \<longleftrightarrow> (\<forall>k f s. sd_obs (sdv_others e k f s) = sd_obs s \<and> sd_log (sdv_others e k f s) = sd_log s)"

lemma batch_inv_log:
  assumes "batch_inv md4 alnum L c e st0 done_items (totals, st)"
    and "sd_log st' = sd_log st" "sd_obs st' = sd_obs st"
    and "logged_for md4 alnum L c e (k, hash, f) (f, fst out, fst (snd out))"
    and "totals' = (case f of
        KeywordFamily \<Rightarrow> totals\<lparr>tt_keyword := add_stats (tt_keyword totals) (fst out)\<rparr>
      | SourceFamily \<Rightarrow> totals\<lparr>tt_source := add_stats (tt_source totals) (fst out)\<rparr>
      | NotesFamily \<Rightarrow> totals\<lparr>tt_notes := add_stats (tt_notes totals) (fst out)\<rparr>)"
  shows "batch_inv md4 alnum L c e st0 (done_items @ [(k, hash, f)]) (totals', after_publish f out st')"
proof -
  obtain log where log: "sd_log st = sd_log st0 @ log" "list_all2 (logged_for md4 alnum L c e) done_items log"
      "totals = totals_of log" "counters_of (sd_obs st) = counters_of (sd_obs st0)"
    using assms(1) by (auto simp: batch_inv_def)
  let ?entry = "(f, fst out, fst (snd out))"
  have "totals' = totals_of (log @ [?entry])"
    unfolding assms(5) log(3) by (cases f) (simp_all add: totals_of_def sum_stats_snoc)
  moreover have "list_all2 (logged_for md4 alnum L c e) (done_items @ [(k, hash, f)]) (log @ [?entry])"
    using log(2) assms(4) by (intro list_all2_appendI) simp_all
  ultimately show ?thesis
    using log(1,4) assms(2,3) unfolding batch_inv_def by (intro exI [of _ "log @ [?entry]"]) (simp add: after_publish_def)
qed

lemma quiet_others [simp]:
  "quiet e \<Longrightarrow> sd_obs (sdv_others e k f s) = sd_obs s" "quiet e \<Longrightarrow> sd_log (sdv_others e k f s) = sd_log s"
  by (simp_all add: quiet_def)

lemma seed_keyword_inv:
  assumes "batch_inv md4 alnum L c e st0 xs acc" "quiet e" "sc_publish_contact_fanout c < 2 ^ 32"
    and "ed2k_from_str (pop_hash hash) = Some (Inr h)"
  shows "batch_inv md4 alnum L c e st0 (xs @ [(k, hash, KeywordFamily)]) (seed_keyword md4 sha1 alnum L c e k hash h acc)"
proof -
  obtain totals st where acc: "acc = (totals, st)" by (cases acc)
  have pk: "publishes md4 alnum L c hash h KeywordFamily
      (build_keyword_publish_packet (keyword_target md4 alnum L (pop_canonical_name hash)) h (keyword_tags_of hash) a v)" for a v
    by (cases a) (auto simp: build_keyword_publish_packet_def)
  have "ack_of KeywordFamily = any_ack" by (simp add: fun_eq_iff)
  then have logged: "logged_for md4 alnum L c e (k, hash, KeywordFamily) (KeywordFamily, fst out, fst (snd out))"
    if "publish_keyword (sdv_publish e k KeywordFamily) (keyword_target md4 alnum L (pop_canonical_name hash)) h
      (keyword_tags_of hash) aich (sc_publish_contact_fanout c) (sc_work_class c) rt rpc = out" for aich rt rpc out
    using publish_round_counts [OF tally_counts(1) assms(3) that [unfolded publish_keyword_def]] pk assms(4)
    by (simp del: publishes.simps)
  show ?thesis
    unfolding seed_keyword_def acc Let_def prod.case
    by (rule batch_inv_log [OF assms(1) [unfolded acc] _ _ logged [OF refl]]) (use assms(2) in simp_all)
qed

lemma seed_source_inv:
  assumes "batch_inv md4 alnum L c e st0 xs acc" "quiet e" "sc_publish_contact_fanout c < 2 ^ 32"
    and "ed2k_from_str (pop_hash hash) = Some (Inr h)"
  shows "batch_inv md4 alnum L c e st0 (xs @ [(k, hash, SourceFamily)]) (seed_source_of addr c e k hash h acc)"
proof -
  obtain totals st where acc: "acc = (totals, st)" by (cases acc)
  have "ack_of SourceFamily = any_ack" by (simp add: fun_eq_iff)
  then have logged: "logged_for md4 alnum L c e (k, hash, SourceFamily) (SourceFamily, fst out, fst (snd out))"
    if "publish_source (sdv_publish e k SourceFamily) (sc_identity c) h tags (sc_publish_contact_fanout c)
      (sc_work_class c) rt rpc = out" for tags rt rpc out
    using publish_round_counts [OF tally_counts(1) assms(3) that [unfolded publish_source_def Let_def]] assms(4) by simp
  show ?thesis
    unfolding seed_source_of_def acc Let_def prod.case
    by (rule batch_inv_log [OF assms(1) [unfolded acc] _ _ logged [OF refl]])
      (use assms(2) in \<open>simp_all split: ip_addr.split\<close>)
qed

lemma seed_notes_inv:
  assumes "batch_inv md4 alnum L c e st0 xs acc" "quiet e" "sc_publish_contact_fanout c < 2 ^ 32"
    and "ed2k_from_str (pop_hash hash) = Some (Inr h)"
  shows "batch_inv md4 alnum L c e st0 (xs @ [(k, hash, NotesFamily)]) (seed_notes addr c e k hash h acc)"
proof -
  obtain totals st where acc: "acc = (totals, st)" by (cases acc)
  have "ack_of NotesFamily = publish_ack" by (simp add: fun_eq_iff)
  then have logged: "logged_for md4 alnum L c e (k, hash, NotesFamily) (NotesFamily, fst out, fst (snd out))"
    if "publish_notes (sdv_publish e k NotesFamily) h (sc_own_id c)
      (build_notes_publish_tags (pop_canonical_name hash) (pop_size hash)) (sc_publish_contact_fanout c)
      (sc_work_class c) rt rpc = out" for rt rpc out
    using publish_round_counts [OF tally_counts(2) assms(3) that [unfolded publish_notes_def Let_def]] assms(4) by simp
  show ?thesis
    unfolding seed_notes_def acc Let_def prod.case
    by (rule batch_inv_log [OF assms(1) [unfolded acc] _ _ logged [OF refl]])
      (use assms(2) in \<open>simp_all split: ip_addr.split\<close>)
qed

lemma seed_item_inv:
  assumes "batch_inv md4 alnum L c e st0 xs acc" "quiet e" "sc_publish_contact_fanout c < 2 ^ 32"
    and "ed2k_from_str (pop_hash hash) = Some (Inr h)"
  shows "batch_inv md4 alnum L c e st0 (xs @ map (\<lambda>f. (k, hash, f)) (families c))
    (seed_item md4 sha1 alnum L addr c e k hash h acc)"
proof -
  let ?a = "seed_source_of addr c e k hash h (seed_keyword md4 sha1 alnum L c e k hash h acc)"
  let ?b = "if sc_notes_publish_enabled c then seed_notes addr c e k hash h ?a else ?a"
  have "batch_inv md4 alnum L c e st0 ((xs @ [(k, hash, KeywordFamily)]) @ [(k, hash, SourceFamily)]) ?a"
    by (rule seed_source_inv [OF seed_keyword_inv [OF assms] assms(2-4)])
  then have "batch_inv md4 alnum L c e st0 (xs @ map (\<lambda>f. (k, hash, f)) (families c)) ?b"
    using seed_notes_inv [OF _ assms(2-4), of md4 alnum L st0 "(xs @ [(k, hash, KeywordFamily)]) @ [(k, hash, SourceFamily)]" ?a k addr]
    by (simp add: families_def)
  then show ?thesis
    unfolding seed_item_def Let_def by (cases ?b) (simp add: batch_inv_def)
qed

lemma seed_loop_inv:
  assumes "quiet e" "sc_publish_contact_fanout c < 2 ^ 32"
    and "seed_loop md4 sha1 alnum L addr c e k hashes acc = Some (r, acc')"
    and "batch_inv md4 alnum L c e st0 xs acc"
  shows "\<exists>n \<le> length hashes. batch_inv md4 alnum L c e st0 (xs @ batch_items c k (take n hashes)) acc' \<and>
    (case r of
       Inr _ \<Rightarrow> n = length hashes
     | Inl err \<Rightarrow> n < length hashes \<and> err = InvalidEd2kHash (pop_hash (hashes ! n)) \<and>
         (\<exists>x. ed2k_from_str (pop_hash (hashes ! n)) = Some (Inl x)))"
  using assms(3,4)
proof (induction hashes arbitrary: k acc xs)
  case Nil
  then show ?case by (auto simp: batch_items_def)
next
  case (Cons hash hashes)
  show ?case
  proof (cases "\<exists>h. ed2k_from_str (pop_hash hash) = Some (Inr h)")
    case True
    then obtain h where h: "ed2k_from_str (pop_hash hash) = Some (Inr h)" by blast
    then have rec: "seed_loop md4 sha1 alnum L addr c e (Suc k) hashes
        (seed_item md4 sha1 alnum L addr c e k hash h acc) = Some (r, acc')"
      using Cons.prems by simp
    obtain n where n: "n \<le> length hashes"
      "batch_inv md4 alnum L c e st0 ((xs @ map (\<lambda>f. (k, hash, f)) (families c)) @ batch_items c (Suc k) (take n hashes)) acc'"
      "case r of Inr _ \<Rightarrow> n = length hashes
       | Inl err \<Rightarrow> n < length hashes \<and> err = InvalidEd2kHash (pop_hash (hashes ! n)) \<and>
           (\<exists>x. ed2k_from_str (pop_hash (hashes ! n)) = Some (Inl x))"
      using Cons.IH [OF rec seed_item_inv [OF Cons.prems(2) assms(1,2) h]] by blast
    show ?thesis
      using n by (intro exI [of _ "Suc n"]) (auto simp: batch_items_def split: sum.splits)
  next
    case False
    then have "acc' = acc" "r = Inl (InvalidEd2kHash (pop_hash hash))"
      "\<exists>x. ed2k_from_str (pop_hash hash) = Some (Inl x)"
      using Cons.prems by (auto split: option.splits sum.splits)
    then show ?thesis using Cons.prems(2) by (intro exI [of _ 0]) (simp add: batch_items_def)
  qed
qed

lemma record_counters:
  "counters_of (record_publish_summaries src n ks ss ns t po) =
     (let summary = (\<lambda>stats. build_publish_batch_summary src n stats t); (kc, sc, nc) = counters_of po in
      (apply_publish_summary kc (summary ks), apply_publish_summary sc (summary ss),
       case ns of None \<Rightarrow> nc | Some stats \<Rightarrow> apply_publish_summary nc (summary stats)))"
  by (cases ns) (simp_all add: record_publish_summaries_def counters_of_def Let_def)

lemma apply_summary_time: "ct_last_batch_at (apply_publish_summary c s) = Some (bs_completed_at s)"
  by (simp add: apply_publish_summary_def)

lemma effective_after_record:
  "let po' = record_publish_summaries src n ks ss ns t po in
   effective_publish_counters (po_keyword_counters po') (po_latest_keyword_batch po') (po_last_seed_at po') =
     po_keyword_counters po' \<and>
   effective_publish_counters (po_source_counters po') (po_latest_source_batch po') (po_last_seed_at po') =
     po_source_counters po' \<and>
   effective_publish_counters (po_notes_counters po') (po_latest_notes_batch po') (po_last_seed_at po') =
     po_notes_counters po'"
  by (cases ns) (simp_all add: record_publish_summaries_def Let_def effective_publish_counters_def apply_summary_time
      build_publish_batch_summary_def)

definition counters_shown :: "publish_observability \<Rightarrow> publish_counters \<times> publish_counters \<times> publish_counters" where
  "counters_shown po =
     (effective_publish_counters (po_keyword_counters po) (po_latest_keyword_batch po) (po_last_seed_at po),
      effective_publish_counters (po_source_counters po) (po_latest_source_batch po) (po_last_seed_at po),
      effective_publish_counters (po_notes_counters po) (po_latest_notes_batch po) (po_last_seed_at po))"

lemma batch_recorded:
  fixes c :: seed_context and n :: nat and t :: int
  defines "summary \<equiv> \<lambda>log f. build_publish_batch_summary (sc_source c) n (sum_stats (family_stats f log)) t"
  assumes "counters_of po = (kc, sc, nc)"
    and "po' = record_publish_summaries (sc_source c) n (tt_keyword (totals_of log)) (tt_source (totals_of log))
      (notes_totals_of c (totals_of log)) t po"
  shows "counters_of po' = (apply_publish_summary kc (summary log KeywordFamily),
      apply_publish_summary sc (summary log SourceFamily),
      if sc_notes_publish_enabled c then apply_publish_summary nc (summary log NotesFamily) else nc)"
    "counters_shown po' = counters_of po'"
proof -
  show "counters_of po' = (apply_publish_summary kc (summary log KeywordFamily),
      apply_publish_summary sc (summary log SourceFamily),
      if sc_notes_publish_enabled c then apply_publish_summary nc (summary log NotesFamily) else nc)"
    unfolding assms(3) record_counters assms(2) by (simp add: notes_totals_of_def totals_of_def summary_def)
  show "counters_shown po' = counters_of po'"
    unfolding assms(3) using effective_after_record unfolding counters_shown_def counters_of_def Let_def by simp
qed

text \<open>
  C19. A batch is counted once, and only if it completes. If no other task touches the statistics
  while a batch runs, it publishes its hashes in order, up to some hash, each as keyword, as source
  and, if enabled, as notes; every publish carries its hash, and its result counts its requests,
  those answered and those that timed out. A batch that succeeds has published all its hashes, each
  of which parses, and adds one summary per family to the counters: the number of hashes, and the
  sums of the results of that family; notes are counted only if enabled, and the counters shown are
  then the counters stored. A batch that fails leaves the counters as they were; it fails without
  publishing if the node is not bootstrapped or has no address, and otherwise exactly at its first
  hash that does not parse, with all the hashes before it published.
\<close>

theorem batch_counted_once:
  assumes "quiet e" "sc_publish_contact_fanout c < 2 ^ 32"
    and "seed_popular_impl md4 sha1 alnum L bootstrapped addr c e now_start now_end hashes st = Some (r, st')"
  shows "\<exists>n log. n \<le> length hashes \<and> sd_log st' = sd_log st @ log \<and>
    list_all2 (logged_for md4 alnum L c e) (batch_items c 0 (take n hashes)) log \<and>
    (case r of
       Inr _ \<Rightarrow> bootstrapped \<and> addr \<noteq> None \<and> n = length hashes \<and> counters_shown (sd_obs st') = counters_of (sd_obs st') \<and>
         (let (kc, sc, nc) = counters_of (sd_obs st);
              summary = (\<lambda>f. build_publish_batch_summary (sc_source c) (length hashes) (sum_stats (family_stats f log)) now_end) in
          counters_of (sd_obs st') = (apply_publish_summary kc (summary KeywordFamily),
            apply_publish_summary sc (summary SourceFamily),
            if sc_notes_publish_enabled c then apply_publish_summary nc (summary NotesFamily) else nc))
     | Inl err \<Rightarrow> counters_of (sd_obs st') = counters_of (sd_obs st) \<and>
         (if \<not> bootstrapped then err = NotBootstrapped \<and> n = 0
          else if addr = None then err = BindAddrFailed \<and> n = 0
          else n < length hashes \<and> err = InvalidEd2kHash (pop_hash (hashes ! n)) \<and>
            (\<exists>x. ed2k_from_str (pop_hash (hashes ! n)) = Some (Inl x))))"
proof (cases "bootstrapped \<and> addr \<noteq> None")
  case False
  then show ?thesis
    using assms(3)
    by (intro exI [of _ 0] exI [of _ "[]"]) (auto simp: seed_popular_impl_def batch_items_def split: if_splits option.splits)
next
  case True
  then obtain a where a: "addr = Some a" by blast
  let ?st = "st\<lparr>sd_obs := update_publish_progress (sc_source c) 0 (tt_keyword totals_default) (tt_source totals_default)
    (notes_totals_of c totals_default) now_start (sd_obs st)\<rparr>"
  obtain r' totals st1 where loop: "seed_loop md4 sha1 alnum L a c e 0 hashes (totals_default, ?st) = Some (r', totals, st1)"
    using assms(3) True a by (cases "seed_loop md4 sha1 alnum L a c e 0 hashes (totals_default, ?st)")
      (auto simp: seed_popular_impl_def Let_def)
  have "batch_inv md4 alnum L c e st [] (totals_default, ?st)"
    by (simp add: batch_inv_def totals_of_Nil)
  from seed_loop_inv [OF assms(1,2) loop this] obtain n log where n: "n \<le> length hashes"
      "sd_log st1 = sd_log st @ log" "list_all2 (logged_for md4 alnum L c e) (batch_items c 0 (take n hashes)) log"
      "totals = totals_of log" "counters_of (sd_obs st1) = counters_of (sd_obs st)"
      "case r' of Inr _ \<Rightarrow> n = length hashes
       | Inl err \<Rightarrow> n < length hashes \<and> err = InvalidEd2kHash (pop_hash (hashes ! n)) \<and>
           (\<exists>x. ed2k_from_str (pop_hash (hashes ! n)) = Some (Inl x))"
    by (auto simp: batch_inv_def)
  show ?thesis
  proof (cases r')
    case (Inl err)
    then have "r = Inl err" "st' = st1" using assms(3) True a loop by (auto simp: seed_popular_impl_def Let_def)
    then show ?thesis using n True Inl by (intro exI [of _ n] exI [of _ log]) simp
  next
    case (Inr u)
    then have r: "r = Inr ()" and st': "sd_log st' = sd_log st1" "sd_obs st' = record_publish_summaries (sc_source c)
        (length hashes) (tt_keyword totals) (tt_source totals) (notes_totals_of c totals) now_end (sd_obs st1)"
      using assms(3) True a loop by (auto simp: seed_popular_impl_def Let_def)
    obtain kc sc nc where cs: "counters_of (sd_obs st) = (kc, sc, nc)" by (cases "counters_of (sd_obs st)")
    show ?thesis
      using batch_recorded [OF n(5) [unfolded cs] st'(2) [unfolded n(4)]] n(1-3,6) True Inr st'(1) unfolding r cs
      by (intro exI [of _ n] exI [of _ log]) simp
  qed
qed

text \<open>One hash, published in all three families to the LAN contact, which acknowledges each.\<close>

definition demo_seed_context :: seed_context where
  "demo_seed_context = \<lparr> sc_identity = demo_id 3, sc_settings = \<lparr> sps_tcp_port = 4662, sps_obfuscation_enabled = True \<rparr>,
     sc_source = ManualApi, sc_notes_publish_enabled = True, sc_work_class = Publish, sc_publish_contact_fanout = 4,
     sc_own_id = demo_id 9 \<rparr>"

definition demo_seed_env :: seed_env where
  "demo_seed_env = \<lparr> sdv_now = (\<lambda>_ _. 1), sdv_now_done = (\<lambda>_. 2), sdv_publish = (\<lambda>_ _. lan_publish),
     sdv_others = (\<lambda>_ _ s. s) \<rparr>"

definition demo_seed_state :: seed_state where
  "demo_seed_state = \<lparr> sd_store = store_new demo_config, sd_obs = demo_obs, sd_table = lan_table,
     sd_rpc = demo_rpc, sd_log = [] \<rparr>"

definition demo_popular :: popular_hash where
  "demo_popular = \<lparr> pop_hash = ed2k_display ed2k_ZERO, pop_canonical_name = [97, 98, 99], pop_size = 1, pop_source_count = 1 \<rparr>"

lemma lan_publish_round:
  assumes "counts_as ack tally" "ack (Inr (PublishRes \<lparr> pr_target = nid_ZERO, pr_load = 0, pr_options = None \<rparr>))"
  shows "fst (publish_round lan_publish tally target packet_for 4 wc lan_table rpc) =
    Inr \<lparr> pa_closest_contacts_considered = 1, pa_attempted_contacts = 1, pa_acked_contacts = 1, pa_timed_out_contacts = 0 \<rparr>"
proof -
  have "run_lookup (store_config_for target 4 wc) (pb_traversal lan_publish) [lan_contact] rpc =
      (GoalDone, lan_state (store_config_for target 4 wc) rpc)"
    unfolding lan_publish_def by (simp add: lan_lookup store_config_for_def PUBLISH_TIMEOUT_def)
  then show ?thesis
    using assms
    by (simp add: publish_round_def Let_def execute_publish_fanout_def select_publish_contacts_def fold_tally [OF assms(1)]
        count_results) (simp add: count_if_def ended_def lan_publish_def)
qed

theorem batch_counted_once_witness:
  "\<exists>st'. quiet demo_seed_env \<and>
     seed_popular_impl demo_md4 id (\<lambda>_. True) id True (Some (V4 (Ipv4 10 0 0 1), 4672)) demo_seed_context demo_seed_env
       0 3 [demo_popular] demo_seed_state = Some (Inr (), st') \<and>
     length (sd_log st') = 3 \<and>
     (\<forall>c \<in> {po_keyword_counters (sd_obs st'), po_source_counters (sd_obs st'), po_notes_counters (sd_obs st')}.
        ct_batches c = 1 \<and> ct_published_items c = 1 \<and> ct_attempted_contacts c = 1 \<and> ct_acked_contacts c = 1 \<and>
        ct_failed_contacts c = 0 \<and> ct_last_success_at c = Some 3)"
proof -
  let ?run = "seed_popular_impl demo_md4 id (\<lambda>_. True) id True (Some (V4 (Ipv4 10 0 0 1), 4672)) demo_seed_context
    demo_seed_env 0 3 [demo_popular] demo_seed_state"
  let ?one = "\<lparr> pa_closest_contacts_considered = 1, pa_attempted_contacts = 1, pa_acked_contacts = 1, pa_timed_out_contacts = 0 \<rparr>"
  have quiet: "quiet demo_seed_env" by (simp add: quiet_def demo_seed_env_def)
  have fanout: "sc_publish_contact_fanout demo_seed_context < 2 ^ 32" by (simp add: demo_seed_context_def)
  have "fst (publish_keyword lan_publish kw h tags a 4 wc lan_table rpc) = Inr ?one"
    "fst (publish_source lan_publish i h tags 4 wc lan_table rpc) = Inr ?one"
    "fst (publish_notes lan_publish h i tags 4 wc lan_table rpc) = Inr ?one" for kw h tags a i wc rpc
    by (simp_all add: publish_keyword_def publish_source_def publish_notes_def Let_def lan_publish_round [OF tally_counts(1)]
        lan_publish_round [OF tally_counts(2)])
  then have "\<exists>st' ks ss ns. ?run = Some (Inr (), st') \<and>
      sd_log st' = [(KeywordFamily, Inr ?one, ks), (SourceFamily, Inr ?one, ss), (NotesFamily, Inr ?one, ns)]"
    by (simp add: seed_popular_impl_def demo_seed_state_def demo_popular_def ed2k_from_str_display seed_item_def seed_keyword_def
        seed_source_of_def seed_notes_def after_publish_def demo_seed_env_def demo_seed_context_def Let_def)
  then obtain st' ks ss ns where run: "?run = Some (Inr (), st')"
      and log: "sd_log st' = [(KeywordFamily, Inr ?one, ks), (SourceFamily, Inr ?one, ss), (NotesFamily, Inr ?one, ns)]"
    by blast
  have sums: "sum_stats (family_stats f (sd_log st')) = ?one" for f
    unfolding log by (cases f) (simp_all add: family_stats_def sum_stats_def)
  have "sd_log demo_seed_state = []" "counters_of (sd_obs demo_seed_state) = (demo_counters, demo_counters, demo_counters)"
    "sc_notes_publish_enabled demo_seed_context"
    by (simp_all add: demo_seed_state_def demo_obs_def counters_of_def demo_seed_context_def)
  then have "counters_of (sd_obs st') = (let c = apply_publish_summary demo_counters
      (build_publish_batch_summary (sc_source demo_seed_context) 1 ?one 3) in (c, c, c))"
    using batch_counted_once [OF quiet fanout run] sums by (auto simp: Let_def)
  then show ?thesis
    using quiet run log
    by (intro exI [of _ st']) (simp add: counters_of_def apply_publish_summary_def build_publish_batch_summary_def
        demo_counters_def failed_contacts_def sat_sub_def Let_def)
qed

subsection \<open>The user hash\<close>

lemma normalize_idem [simp]:
  "normalize_ed2k_user_hash_markers (normalize_ed2k_user_hash_markers h) = normalize_ed2k_user_hash_markers h"
  by (simp add: normalize_ed2k_user_hash_markers_def list_update_swap)

lemma create_ed2k_user_hash_sound:
  assumes "create_ed2k_user_hash random k = Some h"
  shows "normalize_ed2k_user_hash_markers h = h \<and> \<not> ed2k_user_hash_is_bad h"
proof (rule create_ed2k_user_hash.raw_induct [where P = "\<lambda>_ _ h. normalize_ed2k_user_hash_markers h = h \<and> \<not> ed2k_user_hash_is_bad h", OF _ assms])
  fix create :: "(nat \<Rightarrow> u8x16) \<Rightarrow> nat \<Rightarrow> u8x16 option" and random k h
  assume "\<And>random k h. create random k = Some h \<Longrightarrow> normalize_ed2k_user_hash_markers h = h \<and> \<not> ed2k_user_hash_is_bad h"
    and "(let user_hash = normalize_ed2k_user_hash_markers (random k) in
      if \<not> ed2k_user_hash_is_bad user_hash then Some user_hash else create random (Suc k)) = Some h"
  then show "normalize_ed2k_user_hash_markers h = h \<and> \<not> ed2k_user_hash_is_bad h"
    by (auto simp: Let_def split: if_splits)
qed

lemma create_ed2k_user_hash_returns:
  "\<not> ed2k_user_hash_is_bad (normalize_ed2k_user_hash_markers (random (k + j))) \<Longrightarrow>
     \<exists>h. create_ed2k_user_hash random k = Some h"
proof (induction j arbitrary: k)
  case 0
  then show ?case by (subst create_ed2k_user_hash.simps) (simp add: Let_def)
next
  case (Suc j)
  then have "\<exists>h. create_ed2k_user_hash random (Suc k) = Some h" by simp
  then show ?case by (subst create_ed2k_user_hash.simps) (auto simp: Let_def)
qed

lemma create_and_write_facts:
  assumes "create_and_write random writable file = Some (Inr h, file')"
  shows "normalize_ed2k_user_hash_markers h = h \<and> \<not> ed2k_user_hash_is_bad h \<and> file' = Content (list16 h)"
  using assms create_ed2k_user_hash_sound [of random 0 h]
  by (auto simp: create_and_write_def split: if_splits)

lemma load_or_create_facts:
  assumes "load_or_create_ed2k_user_hash random writable file = Some (Inr h, file')"
  shows "normalize_ed2k_user_hash_markers h = h \<and> \<not> ed2k_user_hash_is_bad h \<and> file' = Content (list16 h)"
proof (cases "file")
  case Absent
  then show ?thesis using assms create_and_write_facts by (simp add: load_or_create_ed2k_user_hash_def)
next
  case (Content bs)
  show ?thesis
  proof (cases "length bs = 16 \<and> \<not> ed2k_user_hash_is_bad (normalize_ed2k_user_hash_markers (Arr16 bs))")
    case True
    then have "h = normalize_ed2k_user_hash_markers (Arr16 bs) \<and> file' = Content (list16 h)"
      using assms Content by (auto simp: load_or_create_ed2k_user_hash_def Let_def split: if_splits)
    then show ?thesis using True by simp
  next
    case False
    then have "create_and_write random writable file = Some (Inr h, file')"
      using assms Content by (auto simp: load_or_create_ed2k_user_hash_def Let_def split: if_splits)
    then show ?thesis by (rule create_and_write_facts)
  qed
qed (use assms in \<open>simp add: load_or_create_ed2k_user_hash_def\<close>)

text \<open>
  C22. The user hash is stable. If the random generator ever draws something but zeros, loading the
  user hash returns; if it returns a hash, the hash has the two marker bytes, is not one that other
  clients reject, and is in the file afterwards; and every later start, whatever it would draw and
  whether or not the file can be written, returns the same hash and leaves the file as it is.
\<close>

theorem user_hash_stable:
  assumes "\<not> ed2k_user_hash_is_bad (normalize_ed2k_user_hash_markers (random j))"
  shows "\<exists>r file'. load_or_create_ed2k_user_hash random writable file = Some (r, file') \<and>
    (\<forall>h. r = Inr h \<longrightarrow> list16 h ! 5 = 0x0E \<and> list16 h ! 14 = 0x6F \<and> \<not> ed2k_user_hash_is_bad h \<and>
       file' = Content (list16 h) \<and> load_or_create_ed2k_user_hash random' writable' file' = Some (Inr h, file'))"
proof -
  have "\<exists>h. create_ed2k_user_hash random 0 = Some h" using create_ed2k_user_hash_returns [of random 0 j] assms by simp
  then have cw: "\<exists>r f. create_and_write random writable file = Some (r, f)" by (cases writable) (auto simp: create_and_write_def)
  have "\<exists>r f. load_or_create_ed2k_user_hash random writable file = Some (r, f)"
    using cw by (cases "file") (auto simp: load_or_create_ed2k_user_hash_def Let_def)
  then obtain r file' where run: "load_or_create_ed2k_user_hash random writable file = Some (r, file')" by blast
  have "list16 h ! 5 = 0x0E \<and> list16 h ! 14 = 0x6F \<and> \<not> ed2k_user_hash_is_bad h \<and>
       file' = Content (list16 h) \<and> load_or_create_ed2k_user_hash random' writable' file' = Some (Inr h, file')"
    if h: "r = Inr h" for h
  proof -
    have f: "normalize_ed2k_user_hash_markers h = h" "\<not> ed2k_user_hash_is_bad h" "file' = Content (list16 h)"
      using load_or_create_facts run h by blast+
    have "list16 h = (list16 h)[5 := 0x0E, 14 := 0x6F]"
      using f(1) by (metis length_list16 length_list_update list16_Arr16 normalize_ed2k_user_hash_markers_def)
    then have "list16 h ! 5 = 0x0E" "list16 h ! 14 = 0x6F"
      by (metis length_list16 nth_list_update_eq nth_list_update_neq length_list_update numeral_eq_iff
          num.distinct(3) num.inject rel_simps)+
    then show ?thesis using f by (simp add: load_or_create_ed2k_user_hash_def)
  qed
  then show ?thesis using run by blast
qed

lemma ones_not_bad: "\<not> ed2k_user_hash_is_bad (normalize_ed2k_user_hash_markers (Arr16 [1, 1, 1, 1, 1, 1, 1, 1, 1, 1, 1, 1, 1, 1, 1, 1]))"
  by (simp add: ed2k_user_hash_is_bad_def normalize_ed2k_user_hash_markers_def)

theorem user_hash_stable_witness:
  "let random = (\<lambda>_. Arr16 [1, 1, 1, 1, 1, 1, 1, 1, 1, 1, 1, 1, 1, 1, 1, 1]) in
   \<exists>h file. load_or_create_ed2k_user_hash random True Absent = Some (Inr h, file) \<and>
     list16 h ! 5 = 0x0E \<and> load_or_create_ed2k_user_hash random False file = Some (Inr h, file)"
proof -
  let ?random = "\<lambda>_ :: nat. Arr16 [1, 1, 1, 1, 1, 1, 1, 1, 1, 1, 1, 1, 1, 1, 1, 1]"
  have "create_ed2k_user_hash ?random 0 = Some (normalize_ed2k_user_hash_markers (?random 0))"
    using ones_not_bad by (subst create_ed2k_user_hash.simps) (simp add: Let_def)
  then have "load_or_create_ed2k_user_hash ?random True Absent =
      Some (Inr (normalize_ed2k_user_hash_markers (?random 0)), Content (list16 (normalize_ed2k_user_hash_markers (?random 0))))"
    by (simp add: load_or_create_ed2k_user_hash_def create_and_write_def)
  then show ?thesis
    using user_hash_stable [of ?random 0 True Absent ?random False, OF ones_not_bad] by (auto simp: Let_def)
qed

subsection \<open>The bootstrap task\<close>

text \<open>A round of the task: its shutdown flag and the environment of its bootstrap attempt.\<close>

record boot_round =
  br_shutdown :: bool
  br_env :: bootstrap_env
  br_lookup :: traversal_env
  br_lookup_others :: "routing_table \<times> rpc_state \<Rightarrow> routing_table \<times> rpc_state"
  br_now :: nat

record boot_config =
  bg_nodes_dat :: "bytes option"
  bg_nodes_text :: "rstring option"
  bg_min_contacts :: nat
  bg_fanout :: nat
  bg_own_id :: node_id

definition boot_attempt :: "ext \<Rightarrow> boot_config \<Rightarrow> boot_round \<Rightarrow> bool \<times> bootstrap_attempt" where
  "boot_attempt B g r = (br_shutdown r, bootstrap_with_class B (br_env r)
     (\<lambda>own. lookup_nodes_with_class (bg_fanout g) (br_now r) (br_lookup r) (br_lookup_others r) own Maintenance)
     (bg_nodes_dat g) (bg_nodes_text g) (bg_min_contacts g) (bg_own_id g))"

definition keeps_table :: "boot_round \<Rightarrow> bool" where
  "keeps_table r \<longleftrightarrow> (\<forall>k s. table_ok (fst s) \<longrightarrow> table_ok (fst (be_others (br_env r) k s))) \<and>
     (\<forall>s. table_ok (fst s) \<longrightarrow> table_ok (fst (br_lookup_others r s)))"

definition enough_contacts :: "boot_config \<Rightarrow> routing_table \<Rightarrow> bool" where
  "enough_contacts g t \<longleftrightarrow> max (bg_min_contacts g) 1 \<le> table_len t"

text \<open>Whether one of the contacts a round asks answers it, and whether the round is the last one.\<close>

definition round_answered :: "ext \<Rightarrow> boot_config \<Rightarrow> boot_round \<Rightarrow> bool" where
  "round_answered B g r \<longleftrightarrow>
     (\<exists>k < min 10 (length (load_bootstrap_contacts B (bg_nodes_dat g) (bg_nodes_text g))). bootstrap_answered (br_env r) k)"

definition last_round :: "ext \<Rightarrow> boot_config \<Rightarrow> boot_round \<Rightarrow> bool" where
  "last_round B g r \<longleftrightarrow> br_shutdown r \<or> round_answered B g r"

lemma boot_attempt_outcome:
  assumes "table_ok (fst st)" "keeps_table r"
  obtains out where "snd (boot_attempt B g r) False st = Some out" "table_ok (fst (bo_state out))"
    "bo_result out = (if round_answered B g r then Inr () else Inl BootstrapFailed)"
    "bo_bootstrapped out \<longleftrightarrow> round_answered B g r \<and> enough_contacts g (fst (bo_state out))"
proof -
  have others: "table_ok (fst (be_others (br_env r) k s))" "table_ok (fst (br_lookup_others r s))"
    if "table_ok (fst s)" for k s
    using assms(2) that unfolding keeps_table_def by blast+
  obtain out where out: "snd (boot_attempt B g r) False st = Some out" "table_ok (fst (bo_state out))"
      "bo_asked out = map bootstrap_addr (take 10 (load_bootstrap_contacts B (bg_nodes_dat g) (bg_nodes_text g)))"
      "bo_result out = Inr () \<longleftrightarrow> (\<exists>k < length (bo_asked out). bootstrap_answered (br_env r) k)"
      "bo_result out = Inr () \<or> bo_result out = Inl BootstrapFailed"
      "bo_bootstrapped out \<longleftrightarrow> bo_result out = Inr () \<and> enough_contacts g (fst (bo_state out))"
    using bootstrap_outcome [OF assms(1), of "br_env r" "br_lookup_others r" B "bg_fanout g" "br_now r" "br_lookup r" Maintenance
        "bg_nodes_dat g" "bg_nodes_text g" "bg_min_contacts g" "bg_own_id g" False, OF others]
    unfolding boot_attempt_def enough_contacts_def snd_conv simp_thms by blast
  have "bo_result out = Inr () \<longleftrightarrow> round_answered B g r"
    using out(3,4) by (simp add: round_answered_def min.commute)
  then show ?thesis using that [OF out(1,2)] out(5,6) by auto
qed

lemma bootstrap_task_round:
  assumes "table_ok (fst st)" "keeps_table r" "\<not> br_shutdown r"
  obtains st' where "table_ok (fst st')"
    "\<And>rounds. bootstrap_task (map (boot_attempt B g) (r # rounds)) False st =
       (if round_answered B g r then (if enough_contacts g (fst st') then BootFinished else BootGaveUp,
          enough_contacts g (fst st'), st')
        else bootstrap_task (map (boot_attempt B g) rounds) False st')"
proof -
  obtain out where out: "snd (boot_attempt B g r) False st = Some out" "table_ok (fst (bo_state out))"
    "bo_result out = (if round_answered B g r then Inr () else Inl BootstrapFailed)"
    "bo_bootstrapped out \<longleftrightarrow> round_answered B g r \<and> enough_contacts g (fst (bo_state out))"
    using boot_attempt_outcome [OF assms(1,2)] .
  have att: "boot_attempt B g r = (False, snd (boot_attempt B g r))" using assms(3) by (simp add: boot_attempt_def)
  have "bootstrap_task (map (boot_attempt B g) (r # rounds)) False st =
       (if round_answered B g r then (if enough_contacts g (fst (bo_state out)) then BootFinished else BootGaveUp,
          enough_contacts g (fst (bo_state out)), bo_state out)
        else bootstrap_task (map (boot_attempt B g) rounds) False (bo_state out))" for rounds
    using out by (subst list.map, subst att) (auto simp: bootstrap_task.simps)
  then show ?thesis using that out(2) by blast
qed

text \<open>How the task stands, given its rounds from the last one on.\<close>

definition task_decided ::
  "ext \<Rightarrow> boot_config \<Rightarrow> boot_round list \<Rightarrow> routing_table \<times> rpc_state \<Rightarrow> task_status \<times> bool \<times> routing_table \<times> rpc_state \<Rightarrow> bool" where
  "task_decided B g rounds st = (\<lambda>(status, flag, st').
     table_ok (fst st') \<and>
     (case dropWhile (\<lambda>r. \<not> last_round B g r) rounds of
        [] \<Rightarrow> status = BootRunning \<and> \<not> flag
      | r # _ \<Rightarrow>
          (if br_shutdown r then status = BootShutDown \<and> \<not> flag
           else if enough_contacts g (fst st') then status = BootFinished \<and> flag
           else status = BootGaveUp \<and> \<not> flag) \<and>
          (\<forall>later. bootstrap_task (map (boot_attempt B g) (takeWhile (\<lambda>r. \<not> last_round B g r) rounds @ r # later)) False st =
             (status, flag, st'))))"

lemma bootstrap_task_decided:
  assumes "table_ok (fst st)" "\<forall>r \<in> set rounds. keeps_table r"
  shows "task_decided B g rounds st (bootstrap_task (map (boot_attempt B g) rounds) False st)"
  using assms
proof (induction rounds arbitrary: st)
  case (Cons r rounds)
  show ?case
  proof (cases "br_shutdown r")
    case True
    then show ?thesis using Cons.prems by (simp add: task_decided_def last_round_def boot_attempt_def)
  next
    case False
    obtain st1 where st1: "table_ok (fst st1)"
      "\<And>rounds. bootstrap_task (map (boot_attempt B g) (r # rounds)) False st =
         (if round_answered B g r then (if enough_contacts g (fst st1) then BootFinished else BootGaveUp,
            enough_contacts g (fst st1), st1)
          else bootstrap_task (map (boot_attempt B g) rounds) False st1)"
      using bootstrap_task_round [of st r B g] Cons.prems False by auto
    show ?thesis
    proof (cases "round_answered B g r")
      case True
      then show ?thesis using st1 False by (simp add: task_decided_def last_round_def)
    next
      case unanswered: False
      then have more: "\<not> last_round B g r" using False by (simp add: last_round_def)
      have next_round: "bootstrap_task (map (boot_attempt B g) (r # rounds)) False st =
          bootstrap_task (map (boot_attempt B g) rounds) False st1" for rounds
        unfolding st1(2) by (simp only: unanswered if_False)
      have "task_decided B g rounds st1 (bootstrap_task (map (boot_attempt B g) rounds) False st1)"
        using Cons st1(1) by simp
      then show ?thesis
        unfolding next_round task_decided_def takeWhile.simps dropWhile.simps
        by (simp only: more not_False_eq_True if_True append_Cons next_round)
    qed
  qed
qed (simp add: task_decided_def)

text \<open>
  C21. The bootstrap task ends with the first round that is answered, for good or for bad. On a
  consistent table, and if the tasks in between keep it consistent, the task never panics; rounds in
  which none of the contacts asked answers are followed by another; and the first round that is
  shut down or answered is the last one, whatever rounds could follow. If it is shut down, the node
  is left not bootstrapped. If it is answered, the node is marked bootstrapped exactly if the table
  then has enough contacts; with too few of them the task gives up and never tries again.
\<close>

theorem bootstrap_task_outcome:
  assumes "table_ok (fst st)" "\<forall>r \<in> set rounds. keeps_table r"
    and "bootstrap_task (map (boot_attempt B g) rounds) False st = (status, flag, st')"
  shows "table_ok (fst st') \<and>
     (case dropWhile (\<lambda>r. \<not> last_round B g r) rounds of
        [] \<Rightarrow> status = BootRunning \<and> \<not> flag
      | r # _ \<Rightarrow>
          (if br_shutdown r then status = BootShutDown \<and> \<not> flag
           else if enough_contacts g (fst st') then status = BootFinished \<and> flag
           else status = BootGaveUp \<and> \<not> flag) \<and>
          (\<forall>later. bootstrap_task (map (boot_attempt B g)
             (takeWhile (\<lambda>r. \<not> last_round B g r) rounds @ r # later)) False st = (status, flag, st')))"
  using bootstrap_task_decided [OF assms(1,2), of B g] unfolding assms(3) task_decided_def prod.case .

text \<open>One contact is configured; it answers and knows nobody, and the lookup is cancelled.\<close>

definition lonely_config :: boot_config where
  "lonely_config = \<lparr> bg_nodes_dat = None, bg_nodes_text = Some (socket_addr_to_string (V4 (Ipv4 5 6 7 8), 4672) @ [0x0A]),
     bg_min_contacts = 10, bg_fanout = 10, bg_own_id = nid_ZERO \<rparr>"

definition lonely_round :: boot_round where
  "lonely_round = \<lparr> br_shutdown = False,
     br_env = \<lparr> be_answer = (\<lambda>_. Inr (BootstrapRes \<lparr> bsr_sender_id = c_id sample_contact, bsr_sender_tcp_port = 4662,
       bsr_sender_version = 9, bsr_contacts = [] \<rparr>)), be_others = (\<lambda>_ s. s), be_now = (\<lambda>_. 0) \<rparr>,
     br_lookup = demo_rounds\<lparr>te_rounds := (\<lambda>_. (te_rounds demo_rounds 0)\<lparr>rd_cancelled := True\<rparr>)\<rparr>,
     br_lookup_others = (\<lambda>s. s), br_now = 5 \<rparr>"

lemma sample_table_len: "table_len sample_table = 1"
proof -
  have "zone_add ADD_FUEL 0 12000 sample_contact zone_new_root =
      Some (Inr True, Leaf 0 0 \<lparr>bin_contacts = [sample_contact]\<rparr>)"
  proof -
    have fuel: "ADD_FUEL = Suc 255" by (simp add: ADD_FUEL_def)
    show ?thesis
      unfolding fuel zone_add.simps
      by (simp add: zone_new_root_def bin_new_def try_add_def sample_contact_def contact_new_def K_def MAX_PER_BIN_SUBNET24_def)
  qed
  then show ?thesis
    by (simp add: table_len_def sample_table_def add_contact_def table_new_def with_max_size_def DEFAULT_MAX_SIZE_def
        GLOBAL_MAX_PER_SUBNET24_def add_commit_def Let_def)
qed

lemma lonely_contacts:
  "load_bootstrap_contacts B None (bg_nodes_text lonely_config) = [text_contact (Ipv4 5 6 7 8, 4672)]"
  using nodes_text_round_trip [of "[(Ipv4 5 6 7 8, 4672)]"] by (simp add: load_bootstrap_contacts_def lonely_config_def)

lemma lonely_lookup:
  "\<exists>rpc'. lookup_nodes_with_class 10 5 (br_lookup lonely_round) (\<lambda>s. s) own Maintenance (sample_table, rpc) =
     Some ([], sample_table, rpc')"
proof -
  let ?cfg = "lookup_config own 10 Maintenance"
  let ?ts = "initial_state (tg_target ?cfg) (get_initial own sample_table) rpc"
  have "run_lookup ?cfg (br_lookup lonely_round) (get_initial own sample_table) rpc = (Interrupted, ?ts)"
    unfolding run_lookup_def by (subst lookup_loop.simps) (simp add: lookup_round_def lonely_round_def)
  moreover have "closest_of ?cfg ?ts = []"
    using initial_state_pending [of _ "tg_target ?cfg" "get_initial own sample_table" rpc]
    by (fastforce simp: closest_of_def responded_contacts_def is_responded_def filter_empty_conv)
  ultimately show ?thesis by (simp add: lookup_nodes_with_class_def)
qed

lemma lonely_attempt:
  "\<exists>out. snd (boot_attempt B lonely_config lonely_round) False (table_new nid_ZERO, demo_rpc) = Some out \<and>
     bo_result out = Inr () \<and> fst (bo_state out) = sample_table \<and> \<not> bo_bootstrapped out"
proof -
  let ?bc = "text_contact (Ipv4 5 6 7 8, 4672)"
  let ?rpc = "register_bootstrap_contact ?bc demo_rpc"
  have key: "receiver_verify_key_for_addr (rpc_obfuscation ?rpc) (bootstrap_addr ?bc) = None"
    by (simp add: register_bootstrap_contact_def text_contact_def receiver_verify_key_for_addr_def demo_rpc_def rpc_new_def
        layer_new_def register_peer_version_def bootstrap_addr_def Let_def)
  have "contact_new (c_id sample_contact) (bc_ip ?bc) (bc_udp_port ?bc) 4662 9 0 = sample_contact"
    by (simp add: sample_contact_def text_contact_def contact_new_def)
  then have loop: "bootstrap_loop (br_env lonely_round) 0 [?bc] (0, []) (table_new nid_ZERO, demo_rpc) =
      Some ((1, [bootstrap_addr ?bc]), sample_table, ?rpc)"
    using key sample_add by (simp add: lonely_round_def absorb_bootstrap_res_def)
  obtain rpc' where lk: "lookup_nodes_with_class 10 5 (br_lookup lonely_round) (\<lambda>s. s) nid_ZERO Maintenance
      (sample_table, ?rpc) = Some ([], sample_table, rpc')"
    using lonely_lookup by blast
  show ?thesis
    unfolding boot_attempt_def snd_conv bootstrap_with_class_def
    using loop lk lonely_contacts [of B] sample_table_len
    by (simp add: lonely_config_def bootstrap_ready_with_contacts_def) (simp add: lonely_round_def lonely_config_def bootstrap_ready_with_contacts_def)
qed

theorem bootstrap_task_outcome_witness:
  "\<exists>st'. table_ok (fst st') \<and> \<not> enough_contacts lonely_config (fst st') \<and>
     (\<forall>later. bootstrap_task (map (boot_attempt (le_ext id (\<lambda>_. None)) lonely_config) (lonely_round # later))
        False (table_new nid_ZERO, demo_rpc) = (BootGaveUp, False, st'))"
proof -
  let ?B = "le_ext id (\<lambda>_. None)" and ?rounds = "[lonely_round, lonely_round]"
  have kept: "\<forall>r \<in> set ?rounds. keeps_table r" by (simp add: keeps_table_def lonely_round_def)
  have ans: "\<not> br_shutdown lonely_round" "round_answered ?B lonely_config lonely_round"
    using lonely_contacts [of ?B]
    by (simp_all add: lonely_round_def round_answered_def bootstrap_answered_def lonely_config_def)
  obtain out where out: "snd (boot_attempt ?B lonely_config lonely_round) False (table_new nid_ZERO, demo_rpc) = Some out"
      "bo_result out = Inr ()" "\<not> bo_bootstrapped out"
    using lonely_attempt by blast
  have att: "boot_attempt ?B lonely_config lonely_round = (False, snd (boot_attempt ?B lonely_config lonely_round))"
    by (simp add: boot_attempt_def lonely_round_def)
  have run: "bootstrap_task (map (boot_attempt ?B lonely_config) ?rounds) False (table_new nid_ZERO, demo_rpc) =
      (BootGaveUp, False, bo_state out)"
    unfolding list.map by (subst att) (simp add: out)
  show ?thesis
    using bootstrap_task_outcome [OF _ kept run] ans
    by (intro exI [of _ "bo_state out"]) (simp add: last_round_def split: if_splits)
qed

end
