(* ===== verification/Ed2k_Upload_Queue.thy ===== *)
theory Ed2k_Upload_Queue
  imports Rust_Std
begin

text \<open>
  The queue of inbound upload sessions, from \<open>ed2k_transfer/upload_queue.rs\<close> and
  \<open>ed2k_transfer/upload.rs\<close> of \<open>crates/overlord-agent-emule/src\<close>.

  \<^item> The equality of peers, and with it that of keys, ignores the friend slot, as the hand-written
    \<open>PartialEq\<close> and \<open>Hash\<close> do; \<open>key_id\<close> is what is compared.
  \<^item> The session map is a list of keys and entries; inserting under a key that is present keeps the
    old key, as \<open>HashMap::insert\<close> does.
  \<^item> Instants are nanoseconds, \<open>duration_since\<close> saturates at zero. Scores are \<open>i128\<close>, large
    enough for the product of a 64-bit number of seconds with the priority.
  \<^item> \<open>None\<close> is the panic of the \<open>unreachable!\<close> in \<open>begin_session\<close>.
\<close>

definition DEFAULT_FILE_PRIORITY_SCORE :: int where "DEFAULT_FILE_PRIORITY_SCORE = 7"
definition FRIEND_SLOT_SCORE_BONUS :: int where "FRIEND_SLOT_SCORE_BONUS = 1000000000"

record upload_queue_config =
  uc_active_slots :: nat
  uc_waiting_capacity :: nat
  uc_waiting_timeout :: nat
  uc_granted_timeout :: nat
  uc_upload_timeout :: nat

definition upload_config_default :: upload_queue_config where
  "upload_config_default = \<lparr> uc_active_slots = 3, uc_waiting_capacity = 512,
     uc_waiting_timeout = 180 * 1000000000, uc_granted_timeout = 30 * 1000000000,
     uc_upload_timeout = 90 * 1000000000 \<rparr>"

record upload_peer =
  up_ip :: ip_addr
  up_tcp_port :: u16
  up_user_hash :: "u8x16 option"
  up_client_id :: "u32 option"
  up_friend_slot :: bool

definition peer_id :: "upload_peer \<Rightarrow> ip_addr \<times> u16 \<times> u8x16 option \<times> u32 option" where
  "peer_id p = (up_ip p, up_tcp_port p, up_user_hash p, up_client_id p)"

record session_key =
  sk_peer :: upload_peer
  sk_file_hash :: rstring

definition key_id :: "session_key \<Rightarrow> (ip_addr \<times> u16 \<times> u8x16 option \<times> u32 option) \<times> rstring" where
  "key_id k = (peer_id (sk_peer k), sk_file_hash k)"

record session_handle =
  uh_key :: session_key
  uh_connection_id :: u64

datatype session_status = WaitingRank u16 | GrantedSlot | StaleSession

datatype session_phase = Waiting | Granted | Uploading

record session_entry =
  se_phase :: session_phase
  se_connection_id :: u64
  se_queued_at :: nat
  se_last_activity :: nat
  se_waiting_sequence :: u64

record upload_queue =
  uq_config :: upload_queue_config
  uq_sessions :: "(session_key \<times> session_entry) list"
  uq_waiting_order :: "session_key list"
  uq_next_sequence :: u64

definition upload_queue_new :: "upload_queue_config \<Rightarrow> upload_queue" where
  "upload_queue_new config =
     \<lparr> uq_config = config, uq_sessions = [], uq_waiting_order = [], uq_next_sequence = 1 \<rparr>"

subsection \<open>The session map\<close>

definition session_get :: "session_key \<Rightarrow> (session_key \<times> session_entry) list \<Rightarrow> session_entry option" where
  "session_get k ss = map_option snd (find (\<lambda>(k', _). key_id k' = key_id k) ss)"

definition session_remove ::
  "session_key \<Rightarrow> (session_key \<times> session_entry) list \<Rightarrow> (session_key \<times> session_entry) list" where
  "session_remove k ss = filter (\<lambda>(k', _). key_id k' \<noteq> key_id k) ss"

definition session_update ::
  "session_key \<Rightarrow> (session_entry \<Rightarrow> session_entry) \<Rightarrow> (session_key \<times> session_entry) list \<Rightarrow>
     (session_key \<times> session_entry) list" where
  "session_update k f ss = map (\<lambda>(k', s). (k', if key_id k' = key_id k then f s else s)) ss"

definition session_insert ::
  "session_key \<Rightarrow> session_entry \<Rightarrow> (session_key \<times> session_entry) list \<Rightarrow> (session_key \<times> session_entry) list" where
  "session_insert k s ss =
     (if session_get k ss = None then ss @ [(k, s)] else session_update k (\<lambda>_. s) ss)"

definition retain_other :: "session_key \<Rightarrow> session_key list \<Rightarrow> session_key list" where
  "retain_other k ks = filter (\<lambda>q. key_id q \<noteq> key_id k) ks"

subsection \<open>Scores and ranks\<close>

definition friend_slot_score :: "bool \<Rightarrow> int" where
  "friend_slot_score friend_slot = (if friend_slot then FRIEND_SLOT_SCORE_BONUS else 0)"

definition file_priority_score :: "session_key \<Rightarrow> int" where
  "file_priority_score key = DEFAULT_FILE_PRIORITY_SCORE"

definition is_low_id_client_id :: "u32 \<Rightarrow> bool" where
  "is_low_id_client_id client_id \<longleftrightarrow> client_id \<noteq> 0 \<and> client_id < 0x01000000"

definition has_friend_slot :: "session_key \<Rightarrow> bool" where
  "has_friend_slot key \<longleftrightarrow> up_friend_slot (sk_peer key) \<and>
     \<not> (case up_client_id (sk_peer key) of None \<Rightarrow> False | Some c \<Rightarrow> is_low_id_client_id c)"

definition waiting_score :: "session_key \<Rightarrow> session_entry \<Rightarrow> nat \<Rightarrow> int" where
  "waiting_score key session now =
     int ((now - se_queued_at session) div 1000000000) * file_priority_score key +
     friend_slot_score (has_friend_slot key)"

definition waiting_session :: "upload_queue \<Rightarrow> session_key \<Rightarrow> (session_key \<times> session_entry) option" where
  "waiting_session q key =
     (case session_get key (uq_sessions q) of
        None \<Rightarrow> None
      | Some session \<Rightarrow> if se_phase session = Waiting then Some (key, session) else None)"

definition compare_waiters ::
  "nat \<Rightarrow> session_key \<times> session_entry \<Rightarrow> session_key \<times> session_entry \<Rightarrow> ordering" where
  "compare_waiters now left right =
     then_with (compare (waiting_score (fst right) (snd right) now) (waiting_score (fst left) (snd left) now))
       (compare (se_waiting_sequence (snd left)) (se_waiting_sequence (snd right)))"

definition ranked_waiters :: "nat \<Rightarrow> upload_queue \<Rightarrow> (session_key \<times> session_entry) list" where
  "ranked_waiters now q =
     sort_by (compare_waiters now) (List.map_filter (waiting_session q) (uq_waiting_order q))"

definition ranked_waiting_keys :: "nat \<Rightarrow> upload_queue \<Rightarrow> session_key list" where
  "ranked_waiting_keys now q = map fst (ranked_waiters now q)"

definition best_waiting_key :: "nat \<Rightarrow> upload_queue \<Rightarrow> session_key option" where
  "best_waiting_key now q = (case ranked_waiting_keys now q of [] \<Rightarrow> None | k # _ \<Rightarrow> Some k)"

definition worst_waiting_key :: "nat \<Rightarrow> upload_queue \<Rightarrow> session_key option" where
  "worst_waiting_key now q =
     (if ranked_waiting_keys now q = [] then None else Some (last (ranked_waiting_keys now q)))"

definition rank_for_key :: "session_key \<Rightarrow> nat \<Rightarrow> upload_queue \<Rightarrow> u16" where
  "rank_for_key key now q =
     (case find_pos (\<lambda>queued. key_id queued = key_id key) (ranked_waiting_keys now q) of
        None \<Rightarrow> 0
      | Some position \<Rightarrow> if position + 1 < 2 ^ 16 then of_nat (position + 1) else 0xFFFF)"

definition status_for_key :: "session_key \<Rightarrow> nat \<Rightarrow> upload_queue \<Rightarrow> session_status" where
  "status_for_key key now q =
     (case map_option se_phase (session_get key (uq_sessions q)) of
        Some Waiting \<Rightarrow> WaitingRank (rank_for_key key now q)
      | Some _ \<Rightarrow> GrantedSlot
      | None \<Rightarrow> StaleSession)"

definition is_active :: "session_entry \<Rightarrow> bool" where
  "is_active s \<longleftrightarrow> se_phase s = Granted \<or> se_phase s = Uploading"

definition active_session_count :: "upload_queue \<Rightarrow> nat" where
  "active_session_count q = count_if (\<lambda>(_, s). is_active s) (uq_sessions q)"

subsection \<open>Promotion, expiry and eviction\<close>

lemma filter_map_keys: "map fst (List.map_filter (waiting_session q) ks) =
    filter (\<lambda>k. waiting_session q k \<noteq> None) ks"
  by (induction ks) (auto simp: List.map_filter_simps waiting_session_def split: option.splits if_splits)

lemma set_insert_by [simp]: "set (insert_by cmp x ys) = insert x (set ys)"
  by (induction ys) auto

lemma set_sort_by [simp]: "set (sort_by cmp xs) = set xs"
  by (induction xs) (auto simp: sort_by_def)

lemma ranked_waiting_keys_set:
  "set (ranked_waiting_keys now q) = {k \<in> set (uq_waiting_order q). waiting_session q k \<noteq> None}"
  unfolding ranked_waiting_keys_def ranked_waiters_def
  using arg_cong [OF filter_map_keys, of set q "uq_waiting_order q"] by simp

lemma best_waiting_keyD: "best_waiting_key now q = Some k \<Longrightarrow> k \<in> set (uq_waiting_order q)"
  using ranked_waiting_keys_set [of now q] by (auto simp: best_waiting_key_def split: list.splits)

lemma worst_waiting_keyD: "worst_waiting_key now q = Some k \<Longrightarrow> k \<in> set (uq_waiting_order q)"
  using ranked_waiting_keys_set [of now q] last_in_set [of "ranked_waiting_keys now q"]
  by (auto simp: worst_waiting_key_def split: if_splits)

lemma retain_other_less: "k \<in> set ks \<Longrightarrow> length (retain_other k ks) < length ks"
  unfolding retain_other_def by (rule length_filter_less [where x = k]) simp_all

definition grant_session :: "nat \<Rightarrow> session_entry \<Rightarrow> session_entry" where
  "grant_session now s = s\<lparr>se_phase := Granted, se_last_activity := now\<rparr>"

function promote_waiters :: "nat \<Rightarrow> upload_queue \<Rightarrow> upload_queue" where
  "promote_waiters now q =
     (if active_session_count q < uc_active_slots (uq_config q) then
        (case best_waiting_key now q of
           None \<Rightarrow> q
         | Some next_key \<Rightarrow> promote_waiters now
             (q\<lparr>uq_waiting_order := retain_other next_key (uq_waiting_order q),
                uq_sessions := session_update next_key (grant_session now) (uq_sessions q)\<rparr>))
      else q)"
  by pat_completeness auto
termination
  by (relation "measure (\<lambda>(_, q). length (uq_waiting_order q))")
    (auto intro: retain_other_less dest: best_waiting_keyD)

declare promote_waiters.simps [simp del]

definition remove_waiting_key :: "session_key \<Rightarrow> upload_queue \<Rightarrow> upload_queue" where
  "remove_waiting_key key q =
     q\<lparr>uq_sessions := session_remove key (uq_sessions q),
       uq_waiting_order := retain_other key (uq_waiting_order q)\<rparr>"

function trim_waiting_queue :: "nat \<Rightarrow> upload_queue \<Rightarrow> upload_queue" where
  "trim_waiting_queue now q =
     (if length (uq_waiting_order q) > uc_waiting_capacity (uq_config q) then
        (case worst_waiting_key now q of
           None \<Rightarrow> q
         | Some evicted \<Rightarrow> trim_waiting_queue now (remove_waiting_key evicted q))
      else q)"
  by pat_completeness auto
termination
  by (relation "measure (\<lambda>(_, q). length (uq_waiting_order q))")
    (auto simp: remove_waiting_key_def intro: retain_other_less dest: worst_waiting_keyD)

declare trim_waiting_queue.simps [simp del]

definition phase_timeout :: "upload_queue_config \<Rightarrow> session_phase \<Rightarrow> nat" where
  "phase_timeout c phase =
     (case phase of Waiting \<Rightarrow> uc_waiting_timeout c | Granted \<Rightarrow> uc_granted_timeout c
      | Uploading \<Rightarrow> uc_upload_timeout c)"

definition session_expired :: "upload_queue_config \<Rightarrow> nat \<Rightarrow> session_entry \<Rightarrow> bool" where
  "session_expired c now s \<longleftrightarrow> now - se_last_activity s > phase_timeout c (se_phase s)"

definition reap_expired_sessions :: "nat \<Rightarrow> upload_queue \<Rightarrow> upload_queue" where
  "reap_expired_sessions now q =
     (let expired = map fst (filter (\<lambda>(_, s). session_expired (uq_config q) now s) (uq_sessions q)) in
      promote_waiters now (fold remove_waiting_key expired q))"

subsection \<open>The operations\<close>

definition session_key_for_peer :: "upload_peer \<Rightarrow> upload_queue \<Rightarrow> session_key option" where
  "session_key_for_peer p q =
     map_option fst (find (\<lambda>(k, _). peer_id (sk_peer k) = peer_id p) (uq_sessions q))"

fun replace_waiting_key :: "session_key \<Rightarrow> session_key \<Rightarrow> session_key list \<Rightarrow> session_key list" where
  "replace_waiting_key existing_key new_key [] = []"
| "replace_waiting_key existing_key new_key (queued # ks) =
     (if key_id queued = key_id existing_key then new_key # ks
      else queued # replace_waiting_key existing_key new_key ks)"

definition take_waiting_sequence :: "upload_queue \<Rightarrow> u64 \<times> upload_queue" where
  "take_waiting_sequence q =
     (uq_next_sequence q, q\<lparr>uq_next_sequence := sat_add (uq_next_sequence q) 1\<rparr>)"

definition admit_session :: "session_key \<Rightarrow> u64 \<Rightarrow> nat \<Rightarrow> upload_queue \<Rightarrow> upload_queue" where
  "admit_session key connection_id now q =
     (let (phase, q) =
        (if active_session_count q < uc_active_slots (uq_config q) then (Granted, q)
         else (Waiting, q\<lparr>uq_waiting_order := uq_waiting_order q @ [key]\<rparr>));
          (waiting_sequence, q) = take_waiting_sequence q in
      trim_waiting_queue now (q\<lparr>uq_sessions := session_insert key
        \<lparr> se_phase = phase, se_connection_id = connection_id, se_queued_at = now,
          se_last_activity = now, se_waiting_sequence = waiting_sequence \<rparr> (uq_sessions q)\<rparr>))"

definition rejoin_session ::
  "session_key \<Rightarrow> session_key \<Rightarrow> session_entry \<Rightarrow> u64 \<Rightarrow> nat \<Rightarrow> upload_queue \<Rightarrow> upload_queue" where
  "rejoin_session existing_key key session connection_id now q =
     q\<lparr>uq_waiting_order := (if se_phase session = Waiting
          then replace_waiting_key existing_key key (uq_waiting_order q) else uq_waiting_order q),
       uq_sessions := session_insert key
          (session\<lparr>se_connection_id := connection_id, se_last_activity := now\<rparr>)
          (session_remove existing_key (uq_sessions q))\<rparr>"

definition begin_session ::
  "session_key \<Rightarrow> u64 \<Rightarrow> nat \<Rightarrow> upload_queue \<Rightarrow> (session_status \<times> upload_queue) option" where
  "begin_session key connection_id now q =
     (let q = reap_expired_sessions now q in
      case session_key_for_peer (sk_peer key) q of
        Some existing_key \<Rightarrow>
          (case session_get existing_key (uq_sessions q) of
             None \<Rightarrow> None
           | Some session \<Rightarrow>
               let q = rejoin_session existing_key key session connection_id now q in
               Some (status_for_key key now q, q))
      | None \<Rightarrow>
          let q = admit_session key connection_id now q in
          Some (status_for_key key now q, q))"

definition poll_session ::
  "session_handle \<Rightarrow> nat \<Rightarrow> bool \<Rightarrow> upload_queue \<Rightarrow> session_status \<times> upload_queue" where
  "poll_session handle now refresh_activity q =
     (let q = reap_expired_sessions now q in
      case session_get (uh_key handle) (uq_sessions q) of
        None \<Rightarrow> (StaleSession, q)
      | Some session \<Rightarrow>
          if se_connection_id session \<noteq> uh_connection_id handle then (StaleSession, q)
          else
            let q = (if refresh_activity
                  then q\<lparr>uq_sessions := session_update (uh_key handle)
                    (\<lambda>s. s\<lparr>se_last_activity := now\<rparr>) (uq_sessions q)\<rparr>
                  else q) in
            (status_for_key (uh_key handle) now q, q))"

definition note_request_parts ::
  "session_handle \<Rightarrow> nat \<Rightarrow> upload_queue \<Rightarrow> session_status \<times> upload_queue" where
  "note_request_parts handle now q =
     (let q = reap_expired_sessions now q in
      case session_get (uh_key handle) (uq_sessions q) of
        None \<Rightarrow> (StaleSession, q)
      | Some session \<Rightarrow>
          if se_connection_id session \<noteq> uh_connection_id handle then (StaleSession, q)
          else if is_active session then
            (GrantedSlot, q\<lparr>uq_sessions := session_update (uh_key handle)
               (\<lambda>s. s\<lparr>se_last_activity := now, se_phase := Uploading\<rparr>) (uq_sessions q)\<rparr>)
          else
            let q = q\<lparr>uq_sessions := session_update (uh_key handle)
                  (\<lambda>s. s\<lparr>se_last_activity := now\<rparr>) (uq_sessions q)\<rparr> in
            (status_for_key (uh_key handle) now q, q))"

definition release_session :: "session_handle \<Rightarrow> nat \<Rightarrow> upload_queue \<Rightarrow> upload_queue" where
  "release_session handle now q =
     (case session_get (uh_key handle) (uq_sessions q) of
        None \<Rightarrow> q
      | Some session \<Rightarrow>
          if se_connection_id session \<noteq> uh_connection_id handle then q
          else
            let q = q\<lparr>uq_sessions := session_remove (uh_key handle) (uq_sessions q),
                  uq_waiting_order := (if se_phase session = Waiting
                    then retain_other (uh_key handle) (uq_waiting_order q) else uq_waiting_order q)\<rparr> in
            promote_waiters now (reap_expired_sessions now q))"

subsection \<open>The runtime methods\<close>

record upload_runtime =
  ur_queue :: upload_queue
  ur_next_connection_id :: u64

definition begin_upload_session ::
  "upload_peer \<Rightarrow> ed2k_hash \<Rightarrow> nat \<Rightarrow> upload_runtime \<Rightarrow>
     ((session_handle \<times> session_status) \<times> upload_runtime) option" where
  "begin_upload_session p file_hash now r =
     (let connection_id = ur_next_connection_id r;
          handle = \<lparr> uh_key = \<lparr> sk_peer = p, sk_file_hash = ed2k_display file_hash \<rparr>,
            uh_connection_id = connection_id \<rparr> in
      case begin_session (uh_key handle) connection_id now (ur_queue r) of
        None \<Rightarrow> None
      | Some (status, q) \<Rightarrow>
          Some ((handle, status), r\<lparr>ur_queue := q, ur_next_connection_id := connection_id + 1\<rparr>))"

end
