(* ===== verification/Ed2k_Upload_Props.thy ===== *)
theory Ed2k_Upload_Props
  imports Ed2k_Upload_Queue
begin

text \<open>
  What the upload queue guarantees: the bounds on slots and waiters, that no slot is idle while
  somebody waits, one session per peer, and that waiters are served in the order of their ranks.
\<close>

subsection \<open>The shape of a queue\<close>

definition session_peer :: "session_key \<times> session_entry \<Rightarrow> ip_addr \<times> u16 \<times> u8x16 option \<times> u32 option" where
  "session_peer x = peer_id (sk_peer (fst x))"

definition is_waiting :: "session_key \<times> session_entry \<Rightarrow> bool" where
  "is_waiting x \<longleftrightarrow> se_phase (snd x) = Waiting"

definition queue_shape :: "upload_queue \<Rightarrow> bool" where
  "queue_shape q \<longleftrightarrow> distinct (map session_peer (uq_sessions q)) \<and> distinct (uq_waiting_order q) \<and>
     set (uq_waiting_order q) = fst ` {x \<in> set (uq_sessions q). is_waiting x}"

lemma shapeD:
  assumes "queue_shape q"
  shows "distinct (map session_peer (uq_sessions q))" "distinct (uq_waiting_order q)"
    "set (uq_waiting_order q) = fst ` {x \<in> set (uq_sessions q). is_waiting x}"
  using assms by (simp_all add: queue_shape_def)

lemma key_id_peer: "key_id (fst x) = key_id (fst y) \<Longrightarrow> session_peer x = session_peer y"
  by (simp add: key_id_def session_peer_def)

lemma same_peer: "distinct (map session_peer xs) \<Longrightarrow> x \<in> set xs \<Longrightarrow> y \<in> set xs \<Longrightarrow> session_peer x = session_peer y \<Longrightarrow> x = y"
  by (auto simp: distinct_map dest: inj_onD)

lemma session_get_Some:
  assumes "distinct (map session_peer xs)"
  shows "session_get k xs = Some s \<longleftrightarrow> (\<exists>k'. (k', s) \<in> set xs \<and> key_id k' = key_id k)"
proof
  assume "session_get k xs = Some s"
  then show "\<exists>k'. (k', s) \<in> set xs \<and> key_id k' = key_id k"
    by (auto simp: session_get_def dest!: find_SomeD)
next
  assume "\<exists>k'. (k', s) \<in> set xs \<and> key_id k' = key_id k"
  then obtain k' where k: "(k', s) \<in> set xs" "key_id k' = key_id k" by blast
  obtain y where y: "find (\<lambda>(k', _). key_id k' = key_id k) xs = Some y"
    using k by (cases "find (\<lambda>(k', _). key_id k' = key_id k) xs") (auto simp: find_None_conv)
  have "y \<in> set xs" "key_id (fst y) = key_id k" using find_SomeD [OF y] by auto
  then have "y = (k', s)"
    using same_peer [OF assms _ k(1)] key_id_peer [of y "(k', s)"] k(2) by simp
  then show "session_get k xs = Some s" by (simp add: session_get_def y)
qed

lemma session_get_in:
  "distinct (map session_peer xs) \<Longrightarrow> (k, s) \<in> set xs \<Longrightarrow> session_get k xs = Some s"
  by (auto simp: session_get_Some)

lemma session_get_None: "session_get k xs = None \<longleftrightarrow> (\<forall>x \<in> set xs. key_id (fst x) \<noteq> key_id k)"
  by (auto simp: session_get_def find_None_conv)

text \<open>In a queue of the right shape the waiters are the waiting sessions.\<close>

lemma shape_key_inj:
  assumes "queue_shape q" "k \<in> set (uq_waiting_order q)" "(k', s) \<in> set (uq_sessions q)" "key_id k' = key_id k"
  shows "k' = k"
proof -
  obtain s2 where s2: "(k, s2) \<in> set (uq_sessions q)" using assms(1,2) by (auto simp: queue_shape_def)
  show ?thesis
    using same_peer [OF _ assms(3) s2] key_id_peer [of "(k', s)" "(k, s2)"] assms(1,4) by (simp add: queue_shape_def)
qed

lemma waiting_session_shape:
  assumes "queue_shape q" "k \<in> set (uq_waiting_order q)"
  shows "waiting_session q k = Some (k, s) \<longleftrightarrow> (k, s) \<in> set (uq_sessions q)"
proof -
  obtain s' where s': "(k, s') \<in> set (uq_sessions q)" "se_phase s' = Waiting"
    using assms by (auto simp: queue_shape_def is_waiting_def)
  have d: "distinct (map session_peer (uq_sessions q))" using assms(1) by (simp add: queue_shape_def)
  show ?thesis
    using s' session_get_in [OF d s'(1)] session_get_in [OF d, of k s] by (auto simp: waiting_session_def)
qed

lemma waiting_session_defined: "queue_shape q \<Longrightarrow> k \<in> set (uq_waiting_order q) \<Longrightarrow> waiting_session q k \<noteq> None"
  using waiting_session_shape [of q k] shapeD(3) [of q] by force

lemma waiting_session_fst: "waiting_session q k = Some x \<Longrightarrow> fst x = k"
  by (auto simp: waiting_session_def split: option.splits if_splits)

lemma set_map_filter: "set (List.map_filter f xs) = {y. \<exists>x \<in> set xs. f x = Some y}"
  by (induction xs) (auto simp: List.map_filter_simps split: option.splits)

definition waiters :: "upload_queue \<Rightarrow> (session_key \<times> session_entry) list" where
  "waiters q = List.map_filter (waiting_session q) (uq_waiting_order q)"

lemma waiters_keys: "queue_shape q \<Longrightarrow> map fst (waiters q) = uq_waiting_order q"
  unfolding waiters_def filter_map_keys filter_id_conv using waiting_session_defined by blast

lemma in_waiters:
  assumes q: "queue_shape q"
  shows "(k, s) \<in> set (waiters q) \<longleftrightarrow> (k, s) \<in> set (uq_sessions q) \<and> se_phase s = Waiting"
proof
  assume "(k, s) \<in> set (waiters q)"
  then obtain k' where k': "k' \<in> set (uq_waiting_order q)" "waiting_session q k' = Some (k, s)"
    by (auto simp: waiters_def set_map_filter)
  have "k' = k" using waiting_session_fst [OF k'(2)] by simp
  then have "(k, s) \<in> set (uq_sessions q)" using waiting_session_shape [OF q, of k s] k' by simp
  moreover have "se_phase s = Waiting"
    using k'(2) by (auto simp: waiting_session_def split: option.splits if_splits)
  ultimately show "(k, s) \<in> set (uq_sessions q) \<and> se_phase s = Waiting" by simp
next
  assume s: "(k, s) \<in> set (uq_sessions q) \<and> se_phase s = Waiting"
  then have k: "k \<in> set (uq_waiting_order q)" using shapeD(3) [OF q] by (force simp: is_waiting_def)
  then have "waiting_session q k = Some (k, s)" using waiting_session_shape [OF q k, of s] s by simp
  with k show "(k, s) \<in> set (waiters q)" by (auto simp: waiters_def set_map_filter)
qed

lemma set_waiters: "queue_shape q \<Longrightarrow> set (waiters q) = {x \<in> set (uq_sessions q). is_waiting x}"
  using in_waiters [of q] by (auto simp: is_waiting_def)

subsection \<open>Ranks\<close>

definition rank_key :: "nat \<Rightarrow> session_key \<times> session_entry \<Rightarrow> int \<times> u64" where
  "rank_key now x = (- waiting_score (fst x) (snd x) now, se_waiting_sequence (snd x))"

lemma ranked_waiters_sort: "ranked_waiters now q = sort_key (rank_key now) (waiters q)"
proof -
  have "compare_waiters now = (\<lambda>x y. compare (rank_key now x) (rank_key now y))"
    unfolding compare_waiters_def rank_key_def compare_prod by (intro ext, subst compare_rev) (rule refl)
  then show ?thesis by (simp add: ranked_waiters_def waiters_def sort_by_key)
qed

lemma set_ranked: "queue_shape q \<Longrightarrow> set (ranked_waiters now q) = {x \<in> set (uq_sessions q). is_waiting x}"
  by (simp add: ranked_waiters_sort set_waiters)

lemma ranked_length: "queue_shape q \<Longrightarrow> length (ranked_waiters now q) = length (uq_waiting_order q)"
  using arg_cong [OF waiters_keys, of q length] by (simp add: ranked_waiters_sort)

lemma ranked_is_waiting: "queue_shape q \<Longrightarrow> x \<in> set (ranked_waiters now q) \<Longrightarrow> is_waiting x \<and> x \<in> set (uq_sessions q)"
  by (simp add: set_ranked)

lemma distinct_ranked: "queue_shape q \<Longrightarrow> distinct (map fst (ranked_waiters now q))"
proof -
  assume q: "queue_shape q"
  have m: "mset (map fst (ranked_waiters now q)) = mset (map fst (waiters q))"
    by (simp add: ranked_waiters_sort mset_map)
  show ?thesis
    unfolding mset_eq_imp_distinct_iff [OF m] waiters_keys [OF q] using q by (simp add: queue_shape_def)
qed

lemma best_ranked: "best_waiting_key now q = (case ranked_waiters now q of [] \<Rightarrow> None | x # _ \<Rightarrow> Some (fst x))"
  by (auto simp: best_waiting_key_def ranked_waiting_keys_def split: list.splits)

subsection \<open>Promotion\<close>

definition grant_key :: "nat \<Rightarrow> session_key \<Rightarrow> upload_queue \<Rightarrow> upload_queue" where
  "grant_key now k q =
     q\<lparr>uq_waiting_order := retain_other k (uq_waiting_order q),
       uq_sessions := session_update k (grant_session now) (uq_sessions q)\<rparr>"

lemma grant_key_simps [simp]:
  "uq_config (grant_key now k q) = uq_config q" "uq_next_sequence (grant_key now k q) = uq_next_sequence q"
  by (simp_all add: grant_key_def)

lemma grant_session_simps [simp]:
  "se_phase (grant_session now s) = Granted" "se_last_activity (grant_session now s) = now"
  "se_queued_at (grant_session now s) = se_queued_at s" "se_waiting_sequence (grant_session now s) = se_waiting_sequence s"
  by (simp_all add: grant_session_def)

lemma promote_unfold:
  "promote_waiters now q =
     (if active_session_count q < uc_active_slots (uq_config q) then
        (case ranked_waiters now q of [] \<Rightarrow> q | x # _ \<Rightarrow> promote_waiters now (grant_key now (fst x) q))
      else q)"
  by (subst promote_waiters.simps) (simp add: best_ranked grant_key_def split: list.splits)

lemma retain_other_shape:
  assumes "queue_shape q" "k \<in> set (uq_waiting_order q)"
  shows "retain_other k (uq_waiting_order q) = filter (\<lambda>k'. k' \<noteq> k) (uq_waiting_order q)"
  unfolding retain_other_def
proof (rule filter_cong)
  fix k' assume "k' \<in> set (uq_waiting_order q)"
  then obtain s where "(k', s) \<in> set (uq_sessions q)" using shapeD(3) [OF assms(1)] by auto
  from shape_key_inj [OF assms this] show "(key_id k' \<noteq> key_id k) = (k' \<noteq> k)" by auto
qed simp

lemma session_update_at:
  assumes "distinct (map session_peer xs)" "(k, s) \<in> set xs"
  shows "session_update k f xs = map (\<lambda>x. if x = (k, s) then (k, f s) else x) xs"
  unfolding session_update_def
proof (rule map_cong)
  fix x assume x: "x \<in> set xs"
  have "x = (k, s)" if "key_id (fst x) = key_id k"
    using same_peer [OF assms(1) x assms(2)] key_id_peer [of x "(k, s)"] that by simp
  then show "(case x of (k', s) \<Rightarrow> (k', if key_id k' = key_id k then f s else s)) = (if x = (k, s) then (k, f s) else x)"
    by (cases x) auto
qed simp

lemma map_filter_filter:
  "(\<And>k x. k \<in> set ks \<Longrightarrow> f k = Some x \<Longrightarrow> fst x = k) \<Longrightarrow> (\<And>k. k \<in> set ks \<Longrightarrow> P k \<Longrightarrow> g k = f k) \<Longrightarrow>
     List.map_filter g (filter P ks) = filter (\<lambda>x. P (fst x)) (List.map_filter f ks)"
proof (induction ks)
  case (Cons k ks)
  have IH: "List.map_filter g (filter P ks) = filter (\<lambda>x. P (fst x)) (List.map_filter f ks)"
    using Cons by simp
  show ?case
  proof (cases "f k")
    case None
    then show ?thesis using IH Cons.prems(2) [of k] by (simp add: List.map_filter_simps)
  next
    case (Some x)
    then have "fst x = k" using Cons.prems(1) [of k x] by simp
    then show ?thesis using IH Some Cons.prems(2) [of k] by (simp add: List.map_filter_simps)
  qed
qed (simp add: List.map_filter_simps)

lemma sort_key_filter_eq: "waiters q' = filter P (waiters q) \<Longrightarrow> ranked_waiters now q' = filter P (ranked_waiters now q)"
  by (simp add: ranked_waiters_sort filter_sort)

lemma session_get_update_other:
  "key_id k' \<noteq> key_id k \<Longrightarrow> session_get k' (session_update k f xs) = session_get k' xs"
  by (induction xs) (auto simp: session_get_def session_update_def)

lemma session_get_remove_other:
  "key_id k' \<noteq> key_id k \<Longrightarrow> session_get k' (session_remove k xs) = session_get k' xs"
  by (induction xs) (auto simp: session_get_def session_remove_def)

lemma waiting_order_key_inj:
  "queue_shape q \<Longrightarrow> k \<in> set (uq_waiting_order q) \<Longrightarrow> k' \<in> set (uq_waiting_order q) \<Longrightarrow> key_id k' = key_id k \<Longrightarrow> k' = k"
  using shapeD(3) [of q] shape_key_inj [of q k k'] by force

lemma grant_key_waiters:
  assumes q: "queue_shape q" and k: "k \<in> set (uq_waiting_order q)"
  shows "waiters (grant_key now k q) = filter (\<lambda>x. fst x \<noteq> k) (waiters q)"
proof -
  have "waiting_session (grant_key now k q) k' = waiting_session q k'" if "k' \<in> set (uq_waiting_order q)" "k' \<noteq> k" for k'
  proof -
    have "key_id k' \<noteq> key_id k" using waiting_order_key_inj [OF q k that(1)] that(2) by blast
    then show ?thesis by (simp add: waiting_session_def grant_key_def session_get_update_other)
  qed
  then show ?thesis
    unfolding waiters_def using retain_other_shape [OF q k] waiting_session_fst
    by (simp add: grant_key_def) (rule map_filter_filter, auto)
qed

lemma map_replace_other: "a \<notin> set xs \<Longrightarrow> map (\<lambda>x. if x = a then b else x) xs = xs"
  by (induction xs) auto

lemma filter_other: "a \<notin> set xs \<Longrightarrow> filter (\<lambda>x. x \<noteq> a) xs = xs"
  by (induction xs) auto

lemma fst_inj: "distinct (map session_peer xs) \<Longrightarrow> inj_on fst (set xs)"
  using same_peer [of xs] unfolding session_peer_def by (intro inj_onI) metis

lemma grant_key_shape:
  assumes q: "queue_shape q" and x: "(k, s) \<in> set (uq_sessions q)" "se_phase s = Waiting"
  shows "queue_shape (grant_key now k q)"
    and "uq_sessions (grant_key now k q) = map (\<lambda>x. if x = (k, s) then (k, grant_session now s) else x) (uq_sessions q)"
    and "active_session_count (grant_key now k q) = active_session_count q + 1"
proof -
  have k: "k \<in> set (uq_waiting_order q)" using shapeD(3) [OF q] x by (force simp: is_waiting_def)
  have ne: "grant_session now s \<noteq> s" using x(2) grant_session_simps(1) [of now s] by force
  show ses: "uq_sessions (grant_key now k q) =
      map (\<lambda>x. if x = (k, s) then (k, grant_session now s) else x) (uq_sessions q)"
    using session_update_at [OF shapeD(1) [OF q] x(1)] by (simp add: grant_key_def)
  have "map session_peer (uq_sessions (grant_key now k q)) = map session_peer (uq_sessions q)"
    by (simp add: ses session_peer_def)
  moreover have "{x \<in> set (uq_sessions (grant_key now k q)). is_waiting x} =
      {x \<in> set (uq_sessions q). is_waiting x} - {(k, s)}"
    unfolding ses using ne by (auto simp: is_waiting_def split: if_splits)
  moreover have "fst ` ({x \<in> set (uq_sessions q). is_waiting x} - {(k, s)}) =
      fst ` {x \<in> set (uq_sessions q). is_waiting x} - {k}"
    using inj_on_image_set_diff [OF fst_inj [OF shapeD(1) [OF q]], of "{x \<in> set (uq_sessions q). is_waiting x}" "{(k, s)}"] x(1)
    by auto
  ultimately show "queue_shape (grant_key now k q)"
    using shapeD [OF q] unfolding queue_shape_def by (simp add: grant_key_def retain_other_shape [OF q k] set_diff_eq)
  have "distinct (uq_sessions q)" using shapeD(1) [OF q] by (simp add: distinct_map)
  moreover from split_list [OF x(1)] obtain ys zs where "uq_sessions q = ys @ (k, s) # zs" by blast
  ultimately show "active_session_count (grant_key now k q) = active_session_count q + 1"
    using x(2) unfolding active_session_count_def ses
    by (simp add: map_replace_other is_active_def)
qed

lemma grant_first:
  assumes q: "queue_shape q" and r: "ranked_waiters now q = (k, s) # rest"
  shows "ranked_waiters now (grant_key now k q) = rest" "(k, s) \<in> set (uq_sessions q)" "se_phase s = Waiting"
    "length (uq_waiting_order (grant_key now k q)) < length (uq_waiting_order q)"
proof -
  have ks: "(k, s) \<in> {x \<in> set (uq_sessions q). is_waiting x}" using set_ranked [OF q, of now] r by auto
  then show "(k, s) \<in> set (uq_sessions q)" "se_phase s = Waiting" by (auto simp: is_waiting_def)
  have k: "k \<in> set (uq_waiting_order q)" using shapeD(3) [OF q] ks by force
  from distinct_ranked [OF q, of now] have "\<forall>x \<in> set rest. fst x \<noteq> k" unfolding r by auto
  then show "ranked_waiters now (grant_key now k q) = rest"
    using sort_key_filter_eq [OF grant_key_waiters [OF q k], of now now] r by (simp add: filter_id_conv)
  show "length (uq_waiting_order (grant_key now k q)) < length (uq_waiting_order q)"
    using retain_other_less [OF k] by (simp add: grant_key_def)
qed

lemma promote_induct [consumes 1, case_names step]:
  assumes "queue_shape q"
    and step: "\<And>q. queue_shape q \<Longrightarrow>
      (\<And>k s rest. active_session_count q < uc_active_slots (uq_config q) \<Longrightarrow>
         ranked_waiters now q = (k, s) # rest \<Longrightarrow> P (grant_key now k q)) \<Longrightarrow> P q"
  shows "P q"
  using assms(1)
proof (induction "length (uq_waiting_order q)" arbitrary: q rule: less_induct)
  case less
  show ?case
  proof (rule step [OF less.prems])
    fix k s rest
    assume "ranked_waiters now q = (k, s) # rest"
    note first = grant_first [OF less.prems this]
    show "P (grant_key now k q)"
      using first(4) grant_key_shape(1) [OF less.prems first(2,3)] by (rule less.hyps)
  qed
qed

lemma promote_ok:
  assumes "queue_shape q" "active_session_count q \<le> uc_active_slots (uq_config q)"
  shows "queue_shape (promote_waiters now q) \<and> uq_config (promote_waiters now q) = uq_config q \<and>
    uq_next_sequence (promote_waiters now q) = uq_next_sequence q \<and>
    active_session_count (promote_waiters now q) \<le> uc_active_slots (uq_config q) \<and>
    length (uq_waiting_order (promote_waiters now q)) \<le> length (uq_waiting_order q) \<and>
    (uq_waiting_order (promote_waiters now q) \<noteq> [] \<longrightarrow>
       active_session_count (promote_waiters now q) = uc_active_slots (uq_config q))"
  using assms
proof (induction rule: promote_induct [where now = now])
  case (step q)
  show ?case
  proof (cases "active_session_count q < uc_active_slots (uq_config q)")
    case False
    then have "promote_waiters now q = q" by (subst promote_unfold) simp
    with False step(1,3) show ?thesis by simp
  next
    case less: True
    show ?thesis
    proof (cases "ranked_waiters now q")
      case Nil
      then have "promote_waiters now q = q" by (subst promote_unfold) simp
      moreover have "set (uq_waiting_order q) = {}"
        unfolding shapeD(3) [OF step(1)] set_ranked [OF step(1), of now, symmetric] Nil by simp
      ultimately show ?thesis using step(1,3) by simp
    next
      case (Cons x rest)
      obtain k s where x: "x = (k, s)" by (cases x)
      note first = grant_first [OF step(1) Cons [unfolded x]]
      have p: "promote_waiters now q = promote_waiters now (grant_key now k q)"
        using less Cons x by (subst promote_unfold) simp
      show ?thesis
        unfolding p using step(2) [OF less Cons [unfolded x]] less first(4) grant_key_shape(3) [OF step(1) first(2,3), of now]
        by simp
    qed
  qed
qed

lemma promote_sessions:
  assumes "queue_shape q"
  shows "\<exists>n. uq_sessions (promote_waiters now q) =
    map (\<lambda>x. if x \<in> set (take n (ranked_waiters now q)) then (fst x, grant_session now (snd x)) else x) (uq_sessions q)"
  using assms
proof (induction rule: promote_induct [where now = now])
  case (step q)
  show ?case
  proof (cases "active_session_count q < uc_active_slots (uq_config q) \<and> ranked_waiters now q \<noteq> []")
    case False
    then have "promote_waiters now q = q" by (subst promote_unfold) auto
    then show ?thesis by (intro exI [of _ 0]) simp
  next
    case True
    then obtain k s rest where r: "ranked_waiters now q = (k, s) # rest" by (cases "ranked_waiters now q") auto
    note first = grant_first [OF step(1) r]
    have p: "promote_waiters now q = promote_waiters now (grant_key now k q)"
      using True r by (subst promote_unfold) simp
    obtain n where n: "uq_sessions (promote_waiters now q) =
        map (\<lambda>x. if x \<in> set (take n rest) then (fst x, grant_session now (snd x)) else x)
          (uq_sessions (grant_key now k q))"
      using step(2) [OF _ r] True unfolding p first(1) by blast
    have "(k, grant_session now s) \<notin> set rest"
      using ranked_is_waiting [OF step(1), of "(k, grant_session now s)" now] by (auto simp: r is_waiting_def)
    then have "(k, grant_session now s) \<notin> set (take n rest)" by (meson in_set_takeD)
    then show ?thesis
      unfolding n grant_key_shape(2) [OF step(1) first(2,3)] r by (intro exI [of _ "Suc n"]) auto
  qed
qed

subsection \<open>Removal\<close>

definition keep :: "(session_key \<times> session_entry \<Rightarrow> bool) \<Rightarrow> upload_queue \<Rightarrow> upload_queue" where
  "keep P q =
     q\<lparr>uq_sessions := filter P (uq_sessions q),
       uq_waiting_order := filter (\<lambda>k. \<exists>x \<in> set (uq_sessions q). fst x = k \<and> P x) (uq_waiting_order q)\<rparr>"

lemma keep_simps [simp]:
  "uq_sessions (keep P q) = filter P (uq_sessions q)" "uq_config (keep P q) = uq_config q"
  "uq_next_sequence (keep P q) = uq_next_sequence q"
  by (simp_all add: keep_def)

lemma keep_keep: "keep P (keep Q q) = keep (\<lambda>x. P x \<and> Q x) q"
proof -
  let ?S = "uq_sessions q"
  have "filter (\<lambda>k. \<exists>x \<in> set (filter Q ?S). fst x = k \<and> P x) (filter (\<lambda>k. \<exists>x \<in> set ?S. fst x = k \<and> Q x) ks) =
      filter (\<lambda>k. \<exists>x \<in> set ?S. fst x = k \<and> P x \<and> Q x) ks" for ks
    unfolding filter_filter by (rule filter_cong) (rule refl, unfold set_filter, blast)
  moreover have "filter P (filter Q ?S) = filter (\<lambda>x. P x \<and> Q x) ?S"
    unfolding filter_filter by (simp only: conj_commute)
  ultimately show ?thesis by (simp add: keep_def)
qed

lemma keep_cong: "(\<And>x. x \<in> set (uq_sessions q) \<Longrightarrow> P x = Q x) \<Longrightarrow> keep P q = keep Q q"
proof -
  assume "\<And>x. x \<in> set (uq_sessions q) \<Longrightarrow> P x = Q x"
  then have "filter P (uq_sessions q) = filter Q (uq_sessions q)"
    "(\<lambda>k. \<exists>x \<in> set (uq_sessions q). fst x = k \<and> P x) = (\<lambda>k. \<exists>x \<in> set (uq_sessions q). fst x = k \<and> Q x)"
    by (auto intro: filter_cong)
  then show ?thesis unfolding keep_def by (simp only:)
qed

lemma shape_fst: "queue_shape q \<Longrightarrow> x \<in> set (uq_sessions q) \<Longrightarrow> y \<in> set (uq_sessions q) \<Longrightarrow> fst x = fst y \<Longrightarrow> x = y"
  using fst_inj [OF shapeD(1)] by (blast dest: inj_onD)

lemma keep_waiting:
  assumes "queue_shape q"
  shows "set (uq_waiting_order (keep P q)) = fst ` {x \<in> set (uq_sessions q). is_waiting x \<and> P x}"
proof -
  have "k \<in> fst ` {x \<in> set (uq_sessions q). is_waiting x} \<and> (\<exists>x \<in> set (uq_sessions q). fst x = k \<and> P x) \<longleftrightarrow>
      (\<exists>x \<in> set (uq_sessions q). is_waiting x \<and> P x \<and> k = fst x)" for k
    using shape_fst [OF assms] by blast
  then show ?thesis unfolding keep_def by (auto simp: shapeD(3) [OF assms])
qed

lemma keep_shape: "queue_shape q \<Longrightarrow> queue_shape (keep P q)"
  using keep_waiting [of q P] shapeD(1,2) [of q] unfolding queue_shape_def
  by (simp add: distinct_map_filter) (auto simp: keep_def)

lemma keep_waiters:
  assumes q: "queue_shape q"
  shows "waiters (keep P q) = filter P (waiters q)"
proof -
  let ?R = "\<lambda>k. \<exists>x \<in> set (uq_sessions q). fst x = k \<and> P x"
  have same: "waiting_session (keep P q) k = waiting_session q k" if k: "k \<in> set (uq_waiting_order q)" "?R k" for k
  proof -
    obtain s where s: "(k, s) \<in> set (uq_sessions q)" "P (k, s)" using k(2) by force
    have "waiting_session q k = Some (k, s)" using waiting_session_shape [OF q k(1)] s by simp
    moreover have "k \<in> set (uq_waiting_order (keep P q))" using k by (simp add: keep_def)
    then have "waiting_session (keep P q) k = Some (k, s)"
      using waiting_session_shape [OF keep_shape [OF q], of k P s] s by simp
    ultimately show ?thesis by simp
  qed
  have "uq_waiting_order (keep P q) = filter ?R (uq_waiting_order q)" by (simp add: keep_def)
  then have "waiters (keep P q) = filter (\<lambda>x. ?R (fst x)) (waiters q)"
    unfolding waiters_def using map_filter_filter [OF waiting_session_fst same] by simp
  also have "\<dots> = filter P (waiters q)"
  proof (rule filter_cong)
    fix x assume "x \<in> set (waiters q)"
    then have x: "x \<in> set (uq_sessions q)" using set_waiters [OF q] by simp
    show "?R (fst x) = P x" using shape_fst [OF q _ x] x by blast
  qed simp
  finally show ?thesis .
qed

lemma keep_active: "active_session_count (keep P q) \<le> active_session_count q"
  by (simp add: active_session_count_def count_if_filter_le)

lemma keep_length: "length (uq_waiting_order (keep P q)) \<le> length (uq_waiting_order q)"
  by (simp add: keep_def)

lemma remove_waiting_keep:
  assumes q: "queue_shape q" and x: "(k, s) \<in> set (uq_sessions q)"
  shows "remove_waiting_key k q = keep (\<lambda>y. fst y \<noteq> k) q"
proof -
  have eq: "key_id (fst y) = key_id k \<longleftrightarrow> fst y = k" if "y \<in> set (uq_sessions q)" for y
    using same_peer [OF shapeD(1) [OF q] that x] key_id_peer [of y "(k, s)"] by auto
  have "session_remove k (uq_sessions q) = filter (\<lambda>y. fst y \<noteq> k) (uq_sessions q)"
    unfolding session_remove_def using eq by (intro filter_cong) auto
  moreover have "retain_other k (uq_waiting_order q) =
      filter (\<lambda>k'. \<exists>y \<in> set (uq_sessions q). fst y = k' \<and> fst y \<noteq> k) (uq_waiting_order q)"
    unfolding retain_other_def using eq shapeD(3) [OF q] by (intro filter_cong) auto
  ultimately show ?thesis by (simp add: remove_waiting_key_def keep_def)
qed

lemma fold_remove_keep:
  assumes "queue_shape q" "distinct ks" "set ks \<subseteq> fst ` set (uq_sessions q)"
  shows "fold remove_waiting_key ks q = keep (\<lambda>y. fst y \<notin> set ks) q"
  using assms
proof (induction ks arbitrary: q)
  case Nil
  have "filter (\<lambda>k. \<exists>x \<in> set (uq_sessions q). fst x = k) (uq_waiting_order q) = uq_waiting_order q"
    using shapeD(3) [OF Nil(1)] by (intro filter_True) force
  then show ?case by (simp add: keep_def)
next
  case (Cons k ks)
  then obtain s where s: "(k, s) \<in> set (uq_sessions q)" by auto
  have "fold remove_waiting_key (k # ks) q = fold remove_waiting_key ks (keep (\<lambda>y. fst y \<noteq> k) q)"
    using remove_waiting_keep [OF Cons.prems(1) s] by simp
  also have "\<dots> = keep (\<lambda>y. fst y \<notin> set ks) (keep (\<lambda>y. fst y \<noteq> k) q)"
    using Cons.prems by (intro Cons.IH keep_shape) (auto, force)
  also have "\<dots> = keep (\<lambda>y. fst y \<notin> set (k # ks)) q"
    unfolding keep_keep by (rule keep_cong) auto
  finally show ?case .
qed

lemma reap_keep:
  assumes q: "queue_shape q"
  shows "reap_expired_sessions now q = promote_waiters now (keep (\<lambda>x. \<not> session_expired (uq_config q) now (snd x)) q)"
proof -
  let ?ex = "filter (\<lambda>(_, s). session_expired (uq_config q) now s) (uq_sessions q)"
  have "distinct (map fst (uq_sessions q))"
    using fst_inj [OF shapeD(1) [OF q]] shapeD(1) [OF q] by (simp add: distinct_map)
  then have "fold remove_waiting_key (map fst ?ex) q = keep (\<lambda>y. fst y \<notin> set (map fst ?ex)) q"
    by (intro fold_remove_keep [OF q]) (auto simp: distinct_map_filter)
  also have "\<dots> = keep (\<lambda>x. \<not> session_expired (uq_config q) now (snd x)) q"
    by (rule keep_cong) (auto dest: shape_fst [OF q] simp: image_iff)
  finally show ?thesis by (simp add: reap_expired_sessions_def Let_def)
qed

subsection \<open>The invariant\<close>

text \<open>The bounds, without and with the rule that a slot is not left idle.\<close>

definition queue_bounds :: "upload_queue \<Rightarrow> bool" where
  "queue_bounds q \<longleftrightarrow> queue_shape q \<and> active_session_count q \<le> uc_active_slots (uq_config q) \<and>
     length (uq_waiting_order q) \<le> uc_waiting_capacity (uq_config q)"

definition slots_ok :: "upload_queue \<Rightarrow> bool" where
  "slots_ok q \<longleftrightarrow> queue_bounds q \<and>
     (uq_waiting_order q \<noteq> [] \<longrightarrow> active_session_count q = uc_active_slots (uq_config q))"

lemma slots_okD:
  assumes "slots_ok q"
  shows "queue_shape q" "active_session_count q \<le> uc_active_slots (uq_config q)"
    "length (uq_waiting_order q) \<le> uc_waiting_capacity (uq_config q)"
    "uq_waiting_order q \<noteq> [] \<Longrightarrow> active_session_count q = uc_active_slots (uq_config q)"
  using assms by (auto simp: slots_ok_def queue_bounds_def)

lemma promote_slots_ok:
  "queue_bounds q \<Longrightarrow> slots_ok (promote_waiters now q) \<and> uq_config (promote_waiters now q) = uq_config q \<and>
     uq_next_sequence (promote_waiters now q) = uq_next_sequence q"
  using promote_ok [of q now] by (auto simp: slots_ok_def queue_bounds_def)

lemma keep_bounds: "queue_bounds q \<Longrightarrow> queue_bounds (keep P q)"
  using keep_shape [of q P] keep_active [of P q] keep_length [of P q] by (auto simp: queue_bounds_def)

lemma reap_ok:
  assumes "queue_bounds q"
  shows "slots_ok (reap_expired_sessions now q)" "uq_config (reap_expired_sessions now q) = uq_config q"
    "uq_next_sequence (reap_expired_sessions now q) = uq_next_sequence q"
  using assms promote_slots_ok [OF keep_bounds [OF assms], of now "\<lambda>x. \<not> session_expired (uq_config q) now (snd x)"]
  by (auto simp: reap_keep queue_bounds_def)

lemma promote_idle: "slots_ok q \<Longrightarrow> promote_waiters now q = q"
proof -
  assume q: "slots_ok q"
  show ?thesis
  proof (cases "uq_waiting_order q")
    case Nil
    then have "ranked_waiters now q = []" by (simp add: ranked_waiters_sort waiters_def List.map_filter_simps)
    then show ?thesis by (subst promote_unfold) simp
  next
    case Cons
    then show ?thesis using slots_okD(4) [OF q] by (subst promote_unfold) simp
  qed
qed

text \<open>Changing entries in place.\<close>

lemma count_if_map: "(\<And>x. x \<in> set xs \<Longrightarrow> p (f x) = p x) \<Longrightarrow> count_if p (map f xs) = count_if p xs"
  by (induction xs) auto

lemma is_active_iff: "is_active s \<longleftrightarrow> se_phase s \<noteq> Waiting"
  by (cases "se_phase s") (auto simp: is_active_def)

lemma active_alt: "active_session_count q = count_if (\<lambda>x. \<not> is_waiting x) (uq_sessions q)"
  unfolding active_session_count_def by (rule count_if_cong) (auto simp: is_active_iff is_waiting_def)

lemma map_sessions_ok:
  assumes "slots_ok q" "\<And>x. x \<in> set (uq_sessions q) \<Longrightarrow> fst (g x) = fst x \<and> is_waiting (g x) = is_waiting x"
  shows "slots_ok (q\<lparr>uq_sessions := map g (uq_sessions q)\<rparr>)"
proof -
  let ?q = "q\<lparr>uq_sessions := map g (uq_sessions q)\<rparr>"
  have same: "map (session_peer \<circ> g) (uq_sessions q) = map session_peer (uq_sessions q)"
    using assms(2) by (auto simp: session_peer_def)
  have "distinct (map (session_peer \<circ> g) (uq_sessions q))"
    unfolding same using shapeD(1) [OF slots_okD(1) [OF assms(1)]] .
  moreover have "fst ` {x \<in> set (uq_sessions ?q). is_waiting x} = fst ` {x \<in> set (uq_sessions q). is_waiting x}"
  proof -
    have w: "{x \<in> set (uq_sessions ?q). is_waiting x} = g ` {x \<in> set (uq_sessions q). is_waiting x}"
      using assms(2) by auto
    show ?thesis unfolding w image_image by (rule image_cong [OF refl]) (use assms(2) in auto)
  qed
  ultimately have "queue_shape ?q" using slots_okD(1) [OF assms(1)] by (simp add: queue_shape_def)
  moreover have "active_session_count ?q = active_session_count q"
    using assms(2) by (simp add: active_alt count_if_map)
  ultimately show ?thesis using assms(1) by (simp add: slots_ok_def queue_bounds_def)
qed

lemma session_update_ok:
  assumes q: "slots_ok q" and "session_get k (uq_sessions q) = Some s"
    and "se_phase (f s) = Waiting \<longleftrightarrow> se_phase s = Waiting"
  shows "slots_ok (q\<lparr>uq_sessions := session_update k f (uq_sessions q)\<rparr>)"
proof -
  obtain k' where k': "(k', s) \<in> set (uq_sessions q)" "key_id k' = key_id k"
    using assms(2) session_get_Some [OF shapeD(1) [OF slots_okD(1) [OF q]]] by blast
  have "session_update k f = session_update k' f" by (intro ext) (simp add: session_update_def k'(2))
  then have "session_update k f (uq_sessions q) = map (\<lambda>x. if x = (k', s) then (k', f s) else x) (uq_sessions q)"
    using session_update_at [OF shapeD(1) [OF slots_okD(1) [OF q]] k'(1)] by simp
  then show ?thesis using map_sessions_ok [OF q] assms(3) by (simp add: is_waiting_def)
qed

text \<open>Trimming removes waiters only.\<close>

lemma trim_keep:
  assumes "queue_shape q"
  shows "\<exists>P. trim_waiting_queue now q = keep P q \<and> (\<forall>x. \<not> is_waiting x \<longrightarrow> P x) \<and>
    length (uq_waiting_order (trim_waiting_queue now q)) \<le> uc_waiting_capacity (uq_config q)"
  using assms
proof (induction "length (uq_waiting_order q)" arbitrary: q rule: less_induct)
  case less
  have all: "keep (\<lambda>_. True) q = q" using fold_remove_keep [OF less.prems, of "[]"] by simp
  show ?case
  proof (cases "length (uq_waiting_order q) > uc_waiting_capacity (uq_config q)")
    case False
    then have "trim_waiting_queue now q = q" by (subst trim_waiting_queue.simps) simp
    then show ?thesis using False all by (intro exI [of _ "\<lambda>_. True"]) simp
  next
    case True
    have ne: "ranked_waiters now q \<noteq> []"
      using True ranked_length [OF less.prems, of now] by auto
    define x where "x = last (ranked_waiters now q)"
    have x: "is_waiting x" "x \<in> set (uq_sessions q)"
      using ranked_is_waiting [OF less.prems, of x now] ne unfolding x_def by auto
    have worst: "worst_waiting_key now q = Some (fst x)"
      using ne by (simp add: worst_waiting_key_def ranked_waiting_keys_def last_map x_def)
    let ?q = "keep (\<lambda>y. fst y \<noteq> fst x) q"
    have t: "trim_waiting_queue now q = trim_waiting_queue now ?q"
      using True worst remove_waiting_keep [OF less.prems, of "fst x" "snd x"] x(2)
      by (subst trim_waiting_queue.simps) simp
    have "fst x \<in> set (uq_waiting_order q)" using shapeD(3) [OF less.prems] x by auto
    then have "length (uq_waiting_order ?q) < length (uq_waiting_order q)"
      unfolding keep_def by (simp, intro length_filter_less [where x = "fst x"]) auto
    from less.hyps [OF this keep_shape [OF less.prems]] obtain P
      where P: "trim_waiting_queue now ?q = keep P ?q" "\<And>x. \<not> is_waiting x \<Longrightarrow> P x"
        "length (uq_waiting_order (trim_waiting_queue now ?q)) \<le> uc_waiting_capacity (uq_config q)" by auto
    let ?P = "\<lambda>y. P y \<and> (fst y \<noteq> fst x \<or> \<not> is_waiting y)"
    have "keep P ?q = keep ?P q"
      unfolding keep_keep by (rule keep_cong) (use shape_fst [OF less.prems _ x(2)] x(1) in auto)
    then show ?thesis using P t by (intro exI [of _ ?P]) auto
  qed
qed

lemma keep_waiting_active: "(\<And>x. \<not> is_waiting x \<Longrightarrow> P x) \<Longrightarrow> active_session_count (keep P q) = active_session_count q"
proof -
  assume P: "\<And>x. \<not> is_waiting x \<Longrightarrow> P x"
  have "count_if (\<lambda>x. \<not> is_waiting x) (filter P xs) = count_if (\<lambda>x. \<not> is_waiting x) xs" for xs
    using P by (induction xs) auto
  then show ?thesis by (simp add: active_alt)
qed

subsection \<open>Joining the queue\<close>

lemma find_session: "find (\<lambda>(k, _). peer_id (sk_peer k) = peer_id p) xs = Some x \<Longrightarrow>
    x \<in> set xs \<and> session_peer x = peer_id p"
  by (auto simp: session_peer_def dest!: find_SomeD)

lemma session_key_for_peer_Some:
  assumes "session_key_for_peer p q = Some k"
  obtains s where "(k, s) \<in> set (uq_sessions q)" "peer_id (sk_peer k) = peer_id p"
  using assms find_session [of p "uq_sessions q"] by (auto simp: session_key_for_peer_def session_peer_def)

lemma session_key_for_peer_None:
  "session_key_for_peer p q = None \<longleftrightarrow> peer_id p \<notin> session_peer ` set (uq_sessions q)"
  by (force simp: session_key_for_peer_def session_peer_def find_None_conv)

text \<open>A new session, before the queue is trimmed.\<close>

definition joined :: "session_key \<Rightarrow> u64 \<Rightarrow> nat \<Rightarrow> upload_queue \<Rightarrow> upload_queue" where
  "joined key connection_id now q =
     (let phase = (if active_session_count q < uc_active_slots (uq_config q) then Granted else Waiting) in
      q\<lparr>uq_sessions := uq_sessions q @ [(key, \<lparr> se_phase = phase, se_connection_id = connection_id,
            se_queued_at = now, se_last_activity = now, se_waiting_sequence = uq_next_sequence q \<rparr>)],
        uq_waiting_order := uq_waiting_order q @ (if phase = Waiting then [key] else []),
        uq_next_sequence := sat_add (uq_next_sequence q) 1\<rparr>)"

lemma admit_joined:
  assumes "session_key_for_peer (sk_peer key) q = None"
  shows "admit_session key connection_id now q = trim_waiting_queue now (joined key connection_id now q)"
proof -
  have "session_get key (uq_sessions q) = None"
    using assms unfolding session_key_for_peer_None session_get_None
    by (force simp: session_peer_def key_id_def)
  then show ?thesis
    by (cases q) (auto simp: admit_session_def joined_def take_waiting_sequence_def session_insert_def Let_def)
qed

lemma joined_ok:
  assumes q: "slots_ok q" and new: "session_key_for_peer (sk_peer key) q = None"
  shows "queue_shape (joined key connection_id now q)"
    and "active_session_count (joined key connection_id now q) \<le> uc_active_slots (uq_config q)"
    and "uq_waiting_order (joined key connection_id now q) \<noteq> [] \<Longrightarrow>
      active_session_count (joined key connection_id now q) = uc_active_slots (uq_config q)"
proof -
  let ?q = "joined key connection_id now q"
  have key: "key \<notin> set (uq_waiting_order q)"
    using new shapeD(3) [OF slots_okD(1) [OF q]] unfolding session_key_for_peer_None
    by (auto simp: session_peer_def)
  show "queue_shape ?q"
    using slots_okD(1) [OF q] new key unfolding session_key_for_peer_None queue_shape_def
    by (force simp: joined_def Let_def session_peer_def is_waiting_def)
  show "active_session_count ?q \<le> uc_active_slots (uq_config q)"
    using slots_okD(2) [OF q] by (auto simp: joined_def Let_def active_alt is_waiting_def)
  show "active_session_count ?q = uc_active_slots (uq_config q)" if "uq_waiting_order ?q \<noteq> []"
    using that slots_okD(2,4) [OF q] by (auto simp: joined_def Let_def active_alt is_waiting_def split: if_splits)
qed

lemma admit_ok:
  assumes q: "slots_ok q" and new: "session_key_for_peer (sk_peer key) q = None"
  shows "slots_ok (admit_session key connection_id now q)"
proof -
  let ?q = "joined key connection_id now q"
  note j = joined_ok [OF q new, of connection_id now]
  obtain P where P: "trim_waiting_queue now ?q = keep P ?q" "\<And>x. \<not> is_waiting x \<Longrightarrow> P x"
      "length (uq_waiting_order (trim_waiting_queue now ?q)) \<le> uc_waiting_capacity (uq_config ?q)"
    using trim_keep [OF j(1), of now] by blast
  have c: "uq_config ?q = uq_config q" by (simp add: joined_def Let_def)
  have act: "active_session_count (keep P ?q) = active_session_count ?q" by (rule keep_waiting_active) (rule P(2))
  have idle: "uq_waiting_order (keep P ?q) \<noteq> [] \<longrightarrow> active_session_count (keep P ?q) = uc_active_slots (uq_config q)"
  proof
    assume "uq_waiting_order (keep P ?q) \<noteq> []"
    then have "uq_waiting_order ?q \<noteq> []" using keep_length [of P ?q] by auto
    then show "active_session_count (keep P ?q) = uc_active_slots (uq_config q)" unfolding act by (rule j(3))
  qed
  have "queue_bounds (keep P ?q)"
    using P(3) j(2) keep_shape [OF j(1), of P] unfolding queue_bounds_def act P(1) keep_simps c by blast
  then show ?thesis unfolding admit_joined [OF new] P(1) slots_ok_def keep_simps c using idle by blast
qed

text \<open>A peer that connects again takes over its session.\<close>

lemma replace_waiting_map:
  "distinct ks \<Longrightarrow> (\<And>k. k \<in> set ks \<Longrightarrow> key_id k = key_id e \<longleftrightarrow> k = e) \<Longrightarrow>
     replace_waiting_key e key ks = map (\<lambda>k. if k = e then key else k) ks"
proof (induction ks)
  case (Cons a ks)
  have IH: "replace_waiting_key e key ks = map (\<lambda>k. if k = e then key else k) ks"
  proof (rule Cons.IH)
    show "distinct ks" using Cons.prems(1) by simp
    show "key_id k = key_id e \<longleftrightarrow> k = e" if "k \<in> set ks" for k
      by (rule Cons.prems(2)) (simp add: that)
  qed
  have a: "key_id a = key_id e \<longleftrightarrow> a = e" by (rule Cons.prems(2)) simp
  show ?case
  proof (cases "a = e")
    case True
    then have "e \<notin> set ks" using Cons.prems(1) by simp
    from map_replace_other [OF this, of key] show ?thesis unfolding True by simp
  next
    case False
    then show ?thesis unfolding replace_waiting_key.simps a IH by simp
  qed
qed simp

lemma rejoin_sessions:
  assumes q: "queue_shape q" and e: "(e, s) \<in> set (uq_sessions q)" "peer_id (sk_peer e) = peer_id (sk_peer key)"
  shows "uq_sessions (rejoin_session e key s connection_id now q) =
    filter (\<lambda>x. x \<noteq> (e, s)) (uq_sessions q) @ [(key, s\<lparr>se_connection_id := connection_id, se_last_activity := now\<rparr>)]"
proof -
  have one: "x = (e, s)" if "x \<in> set (uq_sessions q)" "session_peer x = peer_id (sk_peer e)" for x
    using same_peer [OF shapeD(1) [OF q] that(1) e(1)] that(2) by (simp add: session_peer_def)
  have "session_remove e (uq_sessions q) = filter (\<lambda>x. x \<noteq> (e, s)) (uq_sessions q)"
    unfolding session_remove_def
  proof (rule filter_cong [OF refl])
    fix x assume "x \<in> set (uq_sessions q)"
    from one [OF this] show "(case x of (k', _) \<Rightarrow> key_id k' \<noteq> key_id e) = (x \<noteq> (e, s))"
      by (cases x) (auto simp: session_peer_def key_id_def)
  qed
  moreover have "session_get key (filter (\<lambda>x. x \<noteq> (e, s)) (uq_sessions q)) = None"
    unfolding session_get_None
  proof
    fix x assume "x \<in> set (filter (\<lambda>x. x \<noteq> (e, s)) (uq_sessions q))"
    then show "key_id (fst x) \<noteq> key_id key" using one [of x] e(2) by (auto simp: session_peer_def key_id_def)
  qed
  ultimately show ?thesis by (simp add: rejoin_session_def session_insert_def)
qed

lemma rejoin_waiting:
  assumes q: "queue_shape q" and e: "(e, s) \<in> set (uq_sessions q)"
  shows "uq_waiting_order (rejoin_session e key s connection_id now q) =
    map (\<lambda>k. if k = e then key else k) (uq_waiting_order q)"
proof (cases "se_phase s = Waiting")
  case True
  have "key_id k = key_id e \<longleftrightarrow> k = e" if "k \<in> set (uq_waiting_order q)" for k
    using shape_key_inj [OF q that e] by auto
  then show ?thesis
    using True replace_waiting_map [OF shapeD(2) [OF q]] by (simp add: rejoin_session_def)
next
  case False
  then have "e \<notin> set (uq_waiting_order q)"
    using shape_fst [OF q e] shapeD(3) [OF q] by (auto simp: is_waiting_def)
  then show ?thesis using False by (simp add: rejoin_session_def map_replace_other)
qed

lemma rejoin_ok:
  assumes q: "slots_ok q" and e: "(e, s) \<in> set (uq_sessions q)" "peer_id (sk_peer e) = peer_id (sk_peer key)"
  shows "slots_ok (rejoin_session e key s connection_id now q)"
proof -
  let ?q = "rejoin_session e key s connection_id now q"
  let ?s = "s\<lparr>se_connection_id := connection_id, se_last_activity := now\<rparr>"
  note sh = slots_okD(1) [OF q]
  note ses = rejoin_sessions [OF sh e, of connection_id now] and wo = rejoin_waiting [OF sh e(1), of key connection_id now]
  have other: "session_peer x \<noteq> peer_id (sk_peer key)" if "x \<in> set (uq_sessions q)" "x \<noteq> (e, s)" for x
    using same_peer [OF shapeD(1) [OF sh] that(1) e(1)] that(2) e(2) by (auto simp: session_peer_def)
  have "distinct (map session_peer (uq_sessions ?q))"
  proof -
    have "session_peer (key, ?s) = peer_id (sk_peer key)" by (simp add: session_peer_def)
    then have "session_peer (key, ?s) \<notin> session_peer ` set (filter (\<lambda>x. x \<noteq> (e, s)) (uq_sessions q))"
      using other unfolding set_filter by force
    then show ?thesis unfolding ses using shapeD(1) [OF sh] by (simp add: distinct_map_filter)
  qed
  moreover have "key \<notin> set (uq_waiting_order q) - {e}"
  proof
    assume k: "key \<in> set (uq_waiting_order q) - {e}"
    then obtain s2 where "(key, s2) \<in> set (uq_sessions q)" using shapeD(3) [OF sh] by auto
    with k other [of "(key, s2)"] show False by (simp add: session_peer_def)
  qed
  then have "distinct (uq_waiting_order ?q)"
    unfolding wo distinct_map using shapeD(2) [OF sh] by (auto simp: inj_on_def split: if_splits)
  moreover have "set (uq_waiting_order ?q) = fst ` {x \<in> set (uq_sessions ?q). is_waiting x}"
  proof -
    define W where "W = {x \<in> set (uq_sessions q). is_waiting x} - {(e, s)}"
    define f where "f = (\<lambda>k. if k = e then key else k)"
    have f: "f e = key" "\<And>x. x \<in> W \<Longrightarrow> f (fst x) = fst x"
      using shape_fst [OF sh _ e(1)] by (auto simp: f_def W_def)
    then have fW: "f ` fst ` W = fst ` W" unfolding image_image by (intro image_cong) simp_all
    have new: "{x \<in> set (uq_sessions ?q). is_waiting x} = W \<union> (if se_phase s = Waiting then {(key, ?s)} else {})"
      unfolding ses by (auto simp: is_waiting_def W_def)
    have old: "{x \<in> set (uq_sessions q). is_waiting x} = W \<union> (if se_phase s = Waiting then {(e, s)} else {})"
      using e(1) by (auto simp: is_waiting_def W_def)
    show ?thesis
      unfolding wo f_def [symmetric] set_map shapeD(3) [OF sh] new old by (simp add: image_Un fW f(1))
  qed
  ultimately have "queue_shape ?q" by (simp add: queue_shape_def)
  moreover have "active_session_count ?q = active_session_count q"
  proof -
    obtain ys zs where yz: "uq_sessions q = ys @ (e, s) # zs" using split_list [OF e(1)] by blast
    have "distinct (uq_sessions q)" using shapeD(1) [OF sh] by (simp add: distinct_map)
    then have "filter (\<lambda>x. x \<noteq> (e, s)) (uq_sessions q) = ys @ zs"
      unfolding yz by (simp add: filter_other)
    then show ?thesis unfolding active_alt ses yz by (simp add: is_waiting_def)
  qed
  moreover have "length (uq_waiting_order ?q) = length (uq_waiting_order q)" unfolding wo by simp
  moreover have "uq_config ?q = uq_config q" by (simp add: rejoin_session_def)
  ultimately show ?thesis using q unfolding slots_ok_def queue_bounds_def by (metis length_0_conv)
qed

subsection \<open>Runs\<close>

text \<open>One operation at an instant, and the queues that operations at non-decreasing instants reach.\<close>

inductive upload_step :: "nat \<Rightarrow> upload_queue \<Rightarrow> upload_queue \<Rightarrow> bool" where
  step_begin: "begin_session key connection_id now q = Some (status, q') \<Longrightarrow> upload_step now q q'"
| step_poll: "poll_session handle now refresh q = (status, q') \<Longrightarrow> upload_step now q q'"
| step_note: "note_request_parts handle now q = (status, q') \<Longrightarrow> upload_step now q q'"
| step_release: "release_session handle now q = q' \<Longrightarrow> upload_step now q q'"

inductive upload_run :: "upload_queue_config \<Rightarrow> nat \<Rightarrow> upload_queue \<Rightarrow> bool" where
  run_new: "upload_run c now (upload_queue_new c)"
| run_step: "upload_run c t q \<Longrightarrow> t \<le> now \<Longrightarrow> upload_step now q q' \<Longrightarrow> upload_run c now q'"

lemma begin_session_total:
  assumes q: "slots_ok q"
  shows "\<exists>status q'. begin_session key connection_id now q = Some (status, q') \<and> slots_ok q' \<and> uq_config q' = uq_config q"
proof -
  have b: "queue_bounds q" using q by (simp add: slots_ok_def)
  let ?q = "reap_expired_sessions now q"
  note r = reap_ok [OF b, of now]
  show ?thesis
  proof (cases "session_key_for_peer (sk_peer key) ?q")
    case None
    have "uq_config (admit_session key connection_id now ?q) = uq_config q"
      using trim_keep [OF joined_ok(1) [OF r(1) None, of connection_id now], of now] r(2)
      unfolding admit_joined [OF None] by (auto simp: joined_def Let_def)
    then show ?thesis using admit_ok [OF r(1) None, of connection_id now] None by (simp add: begin_session_def Let_def)
  next
    case (Some e)
    from session_key_for_peer_Some [OF this] obtain s
      where e: "(e, s) \<in> set (uq_sessions ?q)" "peer_id (sk_peer e) = peer_id (sk_peer key)" .
    have "session_get e (uq_sessions ?q) = Some s"
      using session_get_in [OF shapeD(1) [OF slots_okD(1) [OF r(1)]] e(1)] .
    moreover have "uq_config (rejoin_session e key s connection_id now ?q) = uq_config q"
      using r(2) by (simp add: rejoin_session_def)
    ultimately show ?thesis
      using rejoin_ok [OF r(1) e, of connection_id now] Some by (simp add: begin_session_def Let_def)
  qed
qed

lemma poll_session_ok:
  assumes "slots_ok q"
  shows "slots_ok (snd (poll_session handle now refresh q))" "uq_config (snd (poll_session handle now refresh q)) = uq_config q"
proof -
  note r = reap_ok [of q now]
  have b: "queue_bounds q" using assms by (simp add: slots_ok_def)
  show "slots_ok (snd (poll_session handle now refresh q))"
    using r(1) [OF b] session_update_ok [OF r(1) [OF b], of "uh_key handle" _ "\<lambda>s. s\<lparr>se_last_activity := now\<rparr>"]
    by (auto simp: poll_session_def Let_def split: option.splits)
  show "uq_config (snd (poll_session handle now refresh q)) = uq_config q"
    using r(2) [OF b] by (auto simp: poll_session_def Let_def split: option.splits)
qed

lemma note_request_parts_ok:
  assumes "slots_ok q"
  shows "slots_ok (snd (note_request_parts handle now q))" "uq_config (snd (note_request_parts handle now q)) = uq_config q"
proof -
  note r = reap_ok [of q now]
  have b: "queue_bounds q" using assms by (simp add: slots_ok_def)
  show "slots_ok (snd (note_request_parts handle now q))"
    using r(1) [OF b] session_update_ok [OF r(1) [OF b], of "uh_key handle" _ "\<lambda>s. s\<lparr>se_last_activity := now\<rparr>"]
      session_update_ok [OF r(1) [OF b], of "uh_key handle" _ "\<lambda>s. s\<lparr>se_last_activity := now, se_phase := Uploading\<rparr>"]
    by (auto simp: note_request_parts_def Let_def is_active_iff split: option.splits)
  show "uq_config (snd (note_request_parts handle now q)) = uq_config q"
    using r(2) [OF b] by (auto simp: note_request_parts_def Let_def split: option.splits)
qed

lemma release_session_cases:
  assumes q: "slots_ok q"
  shows "release_session handle now q = q \<or> (\<exists>k. release_session handle now q = reap_expired_sessions now (keep (\<lambda>x. fst x \<noteq> k) q))"
proof (cases "session_get (uh_key handle) (uq_sessions q)")
  case None
  then show ?thesis by (simp add: release_session_def)
next
  case (Some s)
  then obtain k where k: "(k, s) \<in> set (uq_sessions q)" "key_id k = key_id (uh_key handle)"
    using session_get_Some [OF shapeD(1) [OF slots_okD(1) [OF q]]] by blast
  have same: "session_remove (uh_key handle) = session_remove k" "retain_other (uh_key handle) = retain_other k"
    by (intro ext, simp add: session_remove_def retain_other_def k(2))+
  have "retain_other k (uq_waiting_order q) = uq_waiting_order q" if "se_phase s \<noteq> Waiting"
  proof -
    have "k \<notin> set (uq_waiting_order q)"
      using that shape_fst [OF slots_okD(1) [OF q] k(1)] shapeD(3) [OF slots_okD(1) [OF q]] by (auto simp: is_waiting_def)
    then show ?thesis unfolding retain_other_def
      using shape_key_inj [OF slots_okD(1) [OF q] _ k(1)] by (intro filter_True) force
  qed
  then have "q\<lparr>uq_sessions := session_remove (uh_key handle) (uq_sessions q),
      uq_waiting_order := (if se_phase s = Waiting then retain_other (uh_key handle) (uq_waiting_order q) else uq_waiting_order q)\<rparr> =
      remove_waiting_key k q"
    by (simp add: same remove_waiting_key_def)
  then have "se_connection_id s = uh_connection_id handle \<Longrightarrow>
      release_session handle now q = promote_waiters now (reap_expired_sessions now (keep (\<lambda>x. fst x \<noteq> k) q))"
    using remove_waiting_keep [OF slots_okD(1) [OF q] k(1)] Some by (simp add: release_session_def Let_def)
  moreover have "promote_waiters now (reap_expired_sessions now (keep (\<lambda>x. fst x \<noteq> k) q)) =
      reap_expired_sessions now (keep (\<lambda>x. fst x \<noteq> k) q)"
    using q by (intro promote_idle reap_ok(1) keep_bounds) (simp add: slots_ok_def)
  ultimately show ?thesis using Some by (cases "se_connection_id s = uh_connection_id handle") (auto simp: release_session_def)
qed

lemma step_ok: "upload_step now q q' \<Longrightarrow> slots_ok q \<Longrightarrow> slots_ok q' \<and> uq_config q' = uq_config q"
proof (induction rule: upload_step.induct)
  case (step_begin key connection_id now q status q')
  then show ?case using begin_session_total [of q key connection_id now] by auto
next
  case (step_poll handle now refresh q status q')
  then show ?case using poll_session_ok [of q handle now refresh] by simp
next
  case (step_note handle now q status q')
  then show ?case using note_request_parts_ok [of q handle now] by simp
next
  case (step_release handle now q q')
  have "queue_bounds (keep P q)" for P using keep_bounds step_release(2) by (simp add: slots_ok_def)
  from reap_ok(1,2) [OF this] show ?case
    using release_session_cases [OF step_release(2), of handle now] step_release by auto
qed

lemma run_ok: "upload_run c t q \<Longrightarrow> slots_ok q \<and> uq_config q = c"
proof (induction rule: upload_run.induct)
  case (run_new c now)
  show ?case
    by (simp add: upload_queue_new_def slots_ok_def queue_bounds_def queue_shape_def active_session_count_def)
next
  case (run_step c t q now q')
  then show ?case using step_ok [of now q q'] by simp
qed

subsection \<open>Sessions over time\<close>

text \<open>
  A session is the same before and after an operation if it belongs to the same peer and has the
  same number; \<open>followed\<close>: apart from a new one, the sessions of a queue were there before, with the
  same number and time of arrival, and waiting or not as before.
\<close>

definition same_session :: "session_key \<times> session_entry \<Rightarrow> session_key \<times> session_entry \<Rightarrow> bool" where
  "same_session x y \<longleftrightarrow> session_peer x = session_peer y \<and>
     se_waiting_sequence (snd x) = se_waiting_sequence (snd y) \<and> se_queued_at (snd x) = se_queued_at (snd y)"

definition is_new :: "nat \<Rightarrow> u64 \<Rightarrow> session_key \<times> session_entry \<Rightarrow> bool" where
  "is_new now i x \<longleftrightarrow> se_waiting_sequence (snd x) = i \<and> se_queued_at (snd x) = now"

definition was_there :: "upload_queue \<Rightarrow> session_key \<times> session_entry \<Rightarrow> bool" where
  "was_there q y \<longleftrightarrow> (\<exists>x \<in> set (uq_sessions q). same_session x y \<and> is_waiting x = is_waiting y)"

definition followed :: "nat \<Rightarrow> upload_queue \<Rightarrow> upload_queue \<Rightarrow> bool" where
  "followed now q q' \<longleftrightarrow>
     (\<forall>y \<in> set (uq_sessions q'). was_there q y \<or>
        is_new now (uq_next_sequence q) y \<and> uq_next_sequence q' = sat_add (uq_next_sequence q) 1) \<and>
     (uq_next_sequence q' = uq_next_sequence q \<or> uq_next_sequence q' = sat_add (uq_next_sequence q) 1)"

lemma same_session_refl [simp]: "same_session x x"
  by (simp add: same_session_def)

lemma was_there_self: "x \<in> set (uq_sessions q) \<Longrightarrow> was_there q x"
  unfolding was_there_def by (rule bexI [of _ x]) simp_all

lemma was_thereI: "x \<in> set (uq_sessions q) \<Longrightarrow> same_session x y \<Longrightarrow> is_waiting x = is_waiting y \<Longrightarrow> was_there q y"
  by (auto simp: was_there_def)

lemma followed_map:
  assumes "\<And>x. x \<in> set (uq_sessions q) \<Longrightarrow> same_session x (g x) \<and> is_waiting x = is_waiting (g x)"
  shows "followed now q (q\<lparr>uq_sessions := map g (uq_sessions q)\<rparr>)"
proof -
  have "was_there q (g x)" if "x \<in> set (uq_sessions q)" for x
    using assms [OF that] was_thereI [OF that] by blast
  then show ?thesis by (simp add: followed_def)
qed

lemma followed_refl: "followed now q q"
  by (auto simp: followed_def was_there_self)

lemma followed_update:
  assumes q: "queue_shape q" and "session_get k (uq_sessions q) = Some s"
    and "se_phase (f s) = Waiting \<longleftrightarrow> se_phase s = Waiting" "se_waiting_sequence (f s) = se_waiting_sequence s"
      "se_queued_at (f s) = se_queued_at s"
  shows "followed now q (q\<lparr>uq_sessions := session_update k f (uq_sessions q)\<rparr>)"
proof -
  obtain k' where k': "(k', s) \<in> set (uq_sessions q)" "key_id k' = key_id k"
    using assms(2) session_get_Some [OF shapeD(1) [OF q]] by blast
  have "session_update k f = session_update k' f" by (intro ext) (simp add: session_update_def k'(2))
  then have "session_update k f (uq_sessions q) = map (\<lambda>x. if x = (k', s) then (k', f s) else x) (uq_sessions q)"
    using session_update_at [OF shapeD(1) [OF q] k'(1)] by simp
  then show ?thesis
    using assms(3-5) by (simp only:) (rule followed_map, auto simp: same_session_def session_peer_def is_waiting_def)
qed

lemma followed_rejoin:
  assumes q: "queue_shape q" and e: "(e, s) \<in> set (uq_sessions q)" "peer_id (sk_peer e) = peer_id (sk_peer key)"
  shows "followed now q (rejoin_session e key s connection_id now q)"
proof -
  let ?s = "s\<lparr>se_connection_id := connection_id, se_last_activity := now\<rparr>"
  have "was_there q (key, ?s)"
    using e by (intro was_thereI [of "(e, s)"]) (simp_all add: same_session_def session_peer_def is_waiting_def)
  moreover have "uq_next_sequence (rejoin_session e key s connection_id now q) = uq_next_sequence q"
    by (simp add: rejoin_session_def)
  ultimately show ?thesis
    unfolding followed_def rejoin_sessions [OF q e] by (auto simp: was_there_self)
qed

lemma followed_admit:
  assumes q: "slots_ok q" and new: "session_key_for_peer (sk_peer key) q = None"
  shows "followed now q (admit_session key connection_id now q)"
proof -
  let ?j = "joined key connection_id now q"
  obtain P where P: "trim_waiting_queue now ?j = keep P ?j"
    using trim_keep [OF joined_ok(1) [OF q new, of connection_id now], of now] by blast
  have "uq_next_sequence ?j = sat_add (uq_next_sequence q) 1" by (simp add: joined_def Let_def)
  moreover have "x \<in> set (uq_sessions q) \<or> is_new now (uq_next_sequence q) x" if "x \<in> set (uq_sessions ?j)" for x
    using that by (auto simp: joined_def Let_def is_new_def)
  ultimately show ?thesis
    unfolding followed_def admit_joined [OF new] P keep_simps set_filter using was_there_self [of _ q] by blast
qed

text \<open>Every operation reaps, after a removal at most, and then changes no session between waiting and served.\<close>

lemma step_reaps:
  assumes "upload_step now q q'" "slots_ok q"
  shows "\<exists>P. followed now (reap_expired_sessions now (keep P q)) q' \<or> q' = q"
  using assms
proof (induction rule: upload_step.induct)
  case (step_begin key connection_id now q status q')
  have b: "queue_bounds q" using step_begin(2) by (simp add: slots_ok_def)
  have k: "keep (\<lambda>_. True) q = q" using fold_remove_keep [OF slots_okD(1) [OF step_begin(2)], of "[]"] by simp
  let ?q = "reap_expired_sessions now q"
  note r = reap_ok(1) [OF b, of now]
  have "followed now ?q q'"
  proof (cases "session_key_for_peer (sk_peer key) ?q")
    case None
    then show ?thesis
      using followed_admit [OF r None, of now connection_id] step_begin(1) by (auto simp: begin_session_def Let_def)
  next
    case (Some e)
    from session_key_for_peer_Some [OF this] obtain s
      where e: "(e, s) \<in> set (uq_sessions ?q)" "peer_id (sk_peer e) = peer_id (sk_peer key)" .
    have "session_get e (uq_sessions ?q) = Some s"
      using session_get_in [OF shapeD(1) [OF slots_okD(1) [OF r]] e(1)] .
    then show ?thesis
      using followed_rejoin [OF slots_okD(1) [OF r] e, of now connection_id] step_begin(1) Some
      by (auto simp: begin_session_def Let_def)
  qed
  then show ?case using k by (intro exI [of _ "\<lambda>_. True"]) simp
next
  case (step_poll handle now refresh q status q')
  have b: "queue_bounds q" using step_poll(2) by (simp add: slots_ok_def)
  have k: "keep (\<lambda>_. True) q = q" using fold_remove_keep [OF slots_okD(1) [OF step_poll(2)], of "[]"] by simp
  have "followed now (reap_expired_sessions now q) q'"
    using step_poll(1) followed_refl followed_update [OF slots_okD(1) [OF reap_ok(1) [OF b, of now]], of "uh_key handle" _
      "\<lambda>s. s\<lparr>se_last_activity := now\<rparr>"]
    by (auto simp: poll_session_def Let_def split: option.splits if_splits)
  then show ?case using k by (intro exI [of _ "\<lambda>_. True"]) simp
next
  case (step_note handle now q status q')
  have b: "queue_bounds q" using step_note(2) by (simp add: slots_ok_def)
  have k: "keep (\<lambda>_. True) q = q" using fold_remove_keep [OF slots_okD(1) [OF step_note(2)], of "[]"] by simp
  note f = followed_update [OF slots_okD(1) [OF reap_ok(1) [OF b, of now]], of "uh_key handle"]
  have "followed now (reap_expired_sessions now q) q'"
    using step_note(1) followed_refl f [of _ "\<lambda>s. s\<lparr>se_last_activity := now\<rparr>"]
      f [of _ "\<lambda>s. s\<lparr>se_last_activity := now, se_phase := Uploading\<rparr>"]
    by (auto simp: note_request_parts_def Let_def is_active_iff split: option.splits if_splits)
  then show ?case using k by (intro exI [of _ "\<lambda>_. True"]) simp
next
  case (step_release handle now q q')
  then show ?case using release_session_cases [of q handle now] followed_refl [of now q'] by metis
qed

subsection \<open>The order of arrival\<close>

definition stamp :: "session_key \<times> session_entry \<Rightarrow> nat \<times> u64" where
  "stamp x = (se_queued_at (snd x), se_waiting_sequence (snd x))"

definition stamps :: "upload_queue \<Rightarrow> (nat \<times> u64) set" where
  "stamps q = stamp ` set (uq_sessions q)"

lemma stamp_same: "same_session x y \<Longrightarrow> stamp x = stamp y"
  by (simp add: same_session_def stamp_def)

lemma stamp_new: "is_new now i x \<longleftrightarrow> stamp x = (now, i)"
  by (auto simp: is_new_def stamp_def)

lemma stamp_grant [simp]: "stamp (k, grant_session now s) = stamp (k', s)"
  by (simp add: stamp_def)

definition arrivals_ok :: "nat \<Rightarrow> (nat \<times> u64) set \<Rightarrow> u64 \<Rightarrow> bool" where
  "arrivals_ok now S next_sequence \<longleftrightarrow>
     (\<forall>t i. (t, i) \<in> S \<longrightarrow> t \<le> now \<and> (i < next_sequence \<or> next_sequence = - 1)) \<and>
     (\<forall>t i t' i'. (t, i) \<in> S \<longrightarrow> (t', i') \<in> S \<longrightarrow> i < i' \<longrightarrow> t \<le> t')"

lemma arrivals_mono: "arrivals_ok now S n \<Longrightarrow> T \<subseteq> S \<Longrightarrow> now \<le> now' \<Longrightarrow> arrivals_ok now' T n"
  unfolding arrivals_ok_def by (meson order_trans subsetD)

lemma sat_add_next: "i < n \<or> n = - 1 \<Longrightarrow> i < sat_add n 1 \<or> sat_add n 1 = - 1" for i n :: u64
  using unsigned_less [of n, where ?'a = nat]
  by (auto simp: word_less_nat_alt word_unat_eq_iff unat_sat_add unat_minus_one)

lemma next_sat_add: "n < sat_add n 1 \<or> sat_add n 1 = - 1" for n :: u64
  using unsigned_less [of n, where ?'a = nat]
  by (auto simp: word_less_nat_alt word_unat_eq_iff unat_sat_add unat_minus_one)

lemma arrivals_insert:
  assumes "arrivals_ok now S n"
  shows "arrivals_ok now (insert (now, n) S) (sat_add n 1)"
proof -
  have "i \<le> n" if "(t, i) \<in> S" for t i
  proof -
    have "i < n \<or> n = - 1" using assms that unfolding arrivals_ok_def by blast
    then show ?thesis by (auto simp: word_order.extremum)
  qed
  then have "\<not> n < i" if "(t, i) \<in> S" for t i using that by (meson leD)
  moreover have "i < sat_add n 1 \<or> sat_add n 1 = - 1" if "(t, i) \<in> S" for t i
    using assms that unfolding arrivals_ok_def by (intro sat_add_next) blast
  ultimately show ?thesis
    using assms next_sat_add [of n] unfolding arrivals_ok_def insert_iff prod.inject by (metis order_refl order_less_irrefl)
qed

lemma stamps_was_there: "was_there q y \<Longrightarrow> stamp y \<in> stamps q"
  unfolding was_there_def stamps_def by (metis imageI stamp_same)

lemma arrivals_followed:
  assumes "arrivals_ok now (stamps q) (uq_next_sequence q)" "followed now q q'"
  shows "arrivals_ok now (stamps q') (uq_next_sequence q')"
proof (cases "uq_next_sequence q' = sat_add (uq_next_sequence q) 1")
  case True
  have "stamps q' \<subseteq> insert (now, uq_next_sequence q) (stamps q)"
    using assms(2) stamps_was_there [of q] unfolding followed_def stamps_def [of q'] stamp_new by blast
  then show ?thesis unfolding True using arrivals_mono [OF arrivals_insert [OF assms(1)]] by blast
next
  case False
  then have n: "uq_next_sequence q' = uq_next_sequence q" using assms(2) by (auto simp: followed_def)
  have "stamps q' \<subseteq> stamps q"
    using assms(2) False stamps_was_there [of q] unfolding followed_def stamps_def [of q'] by blast
  then show ?thesis unfolding n using arrivals_mono [OF assms(1)] by blast
qed

lemma stamps_reap:
  assumes "queue_bounds q"
  shows "stamps (reap_expired_sessions now (keep P q)) \<subseteq> stamps q"
    "uq_next_sequence (reap_expired_sessions now (keep P q)) = uq_next_sequence q"
proof -
  have k: "queue_bounds (keep P q)" using keep_bounds [OF assms] .
  let ?k = "keep (\<lambda>x. \<not> session_expired (uq_config q) now (snd x)) (keep P q)"
  have sh: "queue_shape (keep P q)" "queue_shape ?k" using k keep_shape by (auto simp: queue_bounds_def)
  have r: "reap_expired_sessions now (keep P q) = promote_waiters now ?k" using reap_keep [OF sh(1)] by simp
  obtain n where n: "uq_sessions (promote_waiters now ?k) =
      map (\<lambda>x. if x \<in> set (take n (ranked_waiters now ?k)) then (fst x, grant_session now (snd x)) else x) (uq_sessions ?k)"
    using promote_sessions [OF sh(2)] by blast
  have g: "stamp (if x \<in> A then (fst x, grant_session now (snd x)) else x) = stamp x" for x A
    by (simp add: stamp_def)
  have "stamps (promote_waiters now ?k) = stamps ?k" unfolding stamps_def n set_map image_image g ..
  then show "stamps (reap_expired_sessions now (keep P q)) \<subseteq> stamps q" unfolding r by (auto simp: stamps_def)
  show "uq_next_sequence (reap_expired_sessions now (keep P q)) = uq_next_sequence q"
    using reap_ok(3) [OF k] by simp
qed

lemma run_arrivals: "upload_run c t q \<Longrightarrow> arrivals_ok t (stamps q) (uq_next_sequence q)"
proof (induction rule: upload_run.induct)
  case (run_new c now)
  show ?case by (simp add: arrivals_ok_def stamps_def upload_queue_new_def)
next
  case (run_step c t q now q')
  have q: "slots_ok q" using run_ok [OF run_step(1)] by simp
  have now: "arrivals_ok now (stamps q) (uq_next_sequence q)"
    using arrivals_mono [OF run_step(4) subset_refl run_step(2)] .
  from step_reaps [OF run_step(3) q] obtain P
    where "followed now (reap_expired_sessions now (keep P q)) q' \<or> q' = q" by blast
  then show ?case
  proof
    assume f: "followed now (reap_expired_sessions now (keep P q)) q'"
    have "queue_bounds q" using q by (simp add: slots_ok_def)
    note s = stamps_reap [OF this, of now P]
    show ?thesis using arrivals_followed [OF _ f] arrivals_mono [OF now s(1) order_refl] s(2) by simp
  qed (simp add: now)
qed

subsection \<open>Serving in order\<close>

lemma sorted_take_before:
  assumes "sorted (map key xs)" "y \<in> set (take n xs)" "x \<in> set xs" "key x < key y"
  shows "x \<in> set (take n xs)"
proof -
  obtain j where j: "j < length xs" "j < n" "y = xs ! j" using assms(2) by (auto simp: in_set_conv_nth)
  obtain i where i: "i < length xs" "x = xs ! i" using assms(3) by (auto simp: in_set_conv_nth)
  have "\<not> j \<le> i"
    using sorted_nth_mono [OF assms(1), of j i] i j assms(4) by auto
  then show ?thesis using i j by (auto simp: in_set_conv_nth intro!: exI [of _ i])
qed

lemma last_max:
  assumes "sorted (map key xs)" "x \<in> set xs" "\<And>y. y \<in> set xs \<Longrightarrow> y \<noteq> x \<Longrightarrow> key y < key x"
  shows "last xs = x"
proof (rule ccontr)
  assume ne: "last xs \<noteq> x"
  have xs: "xs \<noteq> []" using assms(2) by auto
  obtain i where i: "i < length xs" "x = xs ! i" using assms(2) by (auto simp: in_set_conv_nth)
  have "key x \<le> key (last xs)"
    using sorted_nth_mono [OF assms(1), of i "length xs - 1"] i xs by (simp add: last_conv_nth)
  then show False using assms(3) [OF last_in_set [OF xs] ne] by simp
qed

lemma reap_order:
  assumes q: "queue_bounds q" and x: "x \<in> set (uq_sessions q)" "is_waiting x" and y: "y \<in> set (uq_sessions q)" "is_waiting y"
    and ahead: "rank_key now x < rank_key now y"
    and y': "y' \<in> set (uq_sessions (reap_expired_sessions now (keep P q)))" "session_peer y' = session_peer y" "\<not> is_waiting y'"
    and x': "x' \<in> set (uq_sessions (reap_expired_sessions now (keep P q)))" "session_peer x' = session_peer x"
  shows "\<not> is_waiting x'"
proof -
  let ?k = "keep (\<lambda>x. \<not> session_expired (uq_config q) now (snd x)) (keep P q)"
  let ?g = "\<lambda>n x. if x \<in> set (take n (ranked_waiters now ?k)) then (fst x, grant_session now (snd x)) else x"
  have sq: "queue_shape q" "queue_shape (keep P q)" "queue_shape ?k" using q keep_shape by (auto simp: queue_bounds_def)
  obtain n where n: "uq_sessions (reap_expired_sessions now (keep P q)) = map (?g n) (uq_sessions ?k)"
    using reap_keep [OF sq(2), of now] promote_sessions [OF sq(3), of now] by auto
  have from_k: "\<exists>v. v \<in> set (uq_sessions ?k) \<and> u = ?g n v \<and> v = w"
    if u: "u \<in> set (uq_sessions (reap_expired_sessions now (keep P q)))" "session_peer u = session_peer w" "w \<in> set (uq_sessions q)" for u w
  proof -
    obtain v where v: "v \<in> set (uq_sessions ?k)" "u = ?g n v" using u(1) unfolding n set_map by blast
    have g: "session_peer (?g n v) = session_peer v" by (simp add: session_peer_def)
    have "v \<in> set (uq_sessions q)" using v(1) by simp
    from same_peer [OF shapeD(1) [OF sq(1)] this u(3)] have "v = w" using g u(2) unfolding v(2) by metis
    with v show ?thesis by blast
  qed
  have yk: "y \<in> set (uq_sessions ?k)" "y' = ?g n y" using from_k [OF y'(1,2) y(1)] by blast+
  have xk: "x \<in> set (uq_sessions ?k)" "x' = ?g n x" using from_k [OF x' x(1)] by blast+
  have yt: "y \<in> set (take n (ranked_waiters now ?k))"
  proof (rule ccontr)
    assume "y \<notin> set (take n (ranked_waiters now ?k))"
    then have "y' = y" using yk(2) by (simp only: if_False)
    then show False using y(2) y'(3) by simp
  qed
  have xr: "x \<in> set (ranked_waiters now ?k)" unfolding set_ranked [OF sq(3)] using xk(1) x(2) by blast
  have sorted: "sorted (map (rank_key now) (ranked_waiters now ?k))" unfolding ranked_waiters_sort by (rule sorted_sort_key)
  have "x \<in> set (take n (ranked_waiters now ?k))" using sorted_take_before [OF sorted yt xr ahead] .
  then have "x' = (fst x, grant_session now (snd x))" using xk(2) by (simp only: if_True)
  then show ?thesis by (simp add: is_waiting_def)
qed

lemma earlier_ranks_first:
  assumes "arrivals_ok t (stamps q) n" "x \<in> set (uq_sessions q)" "y \<in> set (uq_sessions q)"
    and "has_friend_slot (fst x) = has_friend_slot (fst y)"
    and "se_waiting_sequence (snd x) < se_waiting_sequence (snd y)"
  shows "rank_key now x < rank_key now y"
proof -
  have "stamp x \<in> stamps q" "stamp y \<in> stamps q" using assms(2,3) by (auto simp: stamps_def)
  then have "se_queued_at (snd x) \<le> se_queued_at (snd y)"
    using assms(1,5) unfolding arrivals_ok_def stamp_def by blast
  then have "(now - se_queued_at (snd y)) div 1000000000 \<le> (now - se_queued_at (snd x)) div 1000000000"
    by (intro div_le_mono) simp
  then have "waiting_score (fst y) (snd y) now \<le> waiting_score (fst x) (snd x) now"
    using assms(4) by (simp add: waiting_score_def file_priority_score_def DEFAULT_FILE_PRIORITY_SCORE_def)
  then show ?thesis using assms(5) by (auto simp: rank_key_def less_prod_def)
qed

text \<open>
  C23. The upload queue keeps its bounds. Whatever sessions begin, are polled, request parts and are
  released, at whatever instants: at most the configured number of peers have a slot and at most the
  configured number wait; nobody waits while a slot is free; a peer has one session; the waiting
  list holds exactly the sessions that wait; and beginning a session never panics.
\<close>

theorem upload_queue_bounds:
  assumes "upload_run c t q"
  shows "active_session_count q \<le> uc_active_slots c \<and> length (uq_waiting_order q) \<le> uc_waiting_capacity c \<and>
    (uq_waiting_order q \<noteq> [] \<longrightarrow> active_session_count q = uc_active_slots c) \<and>
    distinct (map (\<lambda>(k, s). peer_id (sk_peer k)) (uq_sessions q)) \<and>
    set (uq_waiting_order q) = {k. \<exists>s. (k, s) \<in> set (uq_sessions q) \<and> se_phase s = Waiting} \<and>
    begin_session key connection_id now q \<noteq> None"
proof -
  have q: "slots_ok q" "uq_config q = c" using run_ok [OF assms] by simp_all
  have same: "(\<lambda>(k, s). peer_id (sk_peer k)) = session_peer"
    by (intro ext) (simp add: session_peer_def case_prod_beta)
  have "fst ` {x \<in> set (uq_sessions q). is_waiting x} = {k. \<exists>s. (k, s) \<in> set (uq_sessions q) \<and> se_phase s = Waiting}"
    by (force simp: is_waiting_def)
  then show ?thesis
    unfolding same
    using slots_okD [OF q(1)] shapeD [OF slots_okD(1) [OF q(1)]] begin_session_total [OF q(1), of key connection_id now] q(2)
    by auto
qed

text \<open>
  C24. First come, first served. Of two waiting sessions, both with or both without a friend slot,
  the one that came later does not get a slot before the other: when an operation gives it one, the
  earlier session no longer waits, it has a slot as well or has ended.
\<close>

theorem first_come_first_served:
  assumes "upload_run c t q" "t \<le> now" "upload_step now q q'" "uq_next_sequence q \<noteq> - 1"
    and "x \<in> set (uq_sessions q)" "is_waiting x" "y \<in> set (uq_sessions q)" "is_waiting y"
    and "has_friend_slot (fst x) = has_friend_slot (fst y)"
    and "se_waiting_sequence (snd x) < se_waiting_sequence (snd y)"
    and "y' \<in> set (uq_sessions q')" "same_session y y'" "\<not> is_waiting y'"
    and "x' \<in> set (uq_sessions q')" "same_session x x'"
  shows "\<not> is_waiting x'"
proof -
  have q: "slots_ok q" using run_ok [OF assms(1)] by simp
  then have b: "queue_bounds q" by (simp add: slots_ok_def)
  note arr = run_arrivals [OF assms(1)]
  have ahead: "rank_key now x < rank_key now y" using earlier_ranks_first [OF arr] assms by blast
  have old: "\<not> is_new now (uq_next_sequence q) v'" if "v \<in> set (uq_sessions q)" "same_session v v'" for v v'
  proof -
    have "stamp v \<in> stamps q" using that(1) by (simp add: stamps_def)
    then show ?thesis
      using arr assms(4) stamp_same [OF that(2)] unfolding arrivals_ok_def stamp_new by fastforce
  qed
  from step_reaps [OF assms(3) q] obtain P
    where "followed now (reap_expired_sessions now (keep P q)) q' \<or> q' = q" by blast
  then show ?thesis
  proof
    assume f: "followed now (reap_expired_sessions now (keep P q)) q'"
    note next_same = stamps_reap(2) [OF b, of now P]
    have "was_there (reap_expired_sessions now (keep P q)) y'" "was_there (reap_expired_sessions now (keep P q)) x'"
      using f assms(11,14) old [OF assms(7,12)] old [OF assms(5,15)] unfolding followed_def next_same by blast+
    then show ?thesis
      using reap_order [OF b assms(5-8) ahead] assms(12,13,15) unfolding was_there_def same_session_def by metis
  next
    assume "q' = q"
    then have "y' = y"
      using same_peer [OF shapeD(1) [OF slots_okD(1) [OF q]]] assms(7,11,12) by (simp add: same_session_def)
    then show ?thesis using assms(8,13) by simp
  qed
qed

text \<open>A newcomer that has to wait, and its removal.\<close>

definition newcomer :: "u64 \<Rightarrow> nat \<Rightarrow> u64 \<Rightarrow> session_entry" where
  "newcomer connection_id now i = \<lparr> se_phase = Waiting, se_connection_id = connection_id, se_queued_at = now,
     se_last_activity = now, se_waiting_sequence = i \<rparr>"

lemma joined_newcomer:
  assumes "active_session_count q = uc_active_slots (uq_config q)"
  shows "uq_sessions (joined key connection_id now q) = uq_sessions q @ [(key, newcomer connection_id now (uq_next_sequence q))]"
    "uq_waiting_order (joined key connection_id now q) = uq_waiting_order q @ [key]"
    "uq_config (joined key connection_id now q) = uq_config q"
    "uq_next_sequence (joined key connection_id now q) = sat_add (uq_next_sequence q) 1"
  using assms by (simp_all add: joined_def newcomer_def)

lemma new_peer_key:
  assumes "session_key_for_peer (sk_peer key) q = None" "x \<in> set (uq_sessions q)"
  shows "key_id (fst x) \<noteq> key_id key"
  using assms unfolding session_key_for_peer_None by (force simp: session_peer_def key_id_def)

lemma remove_newcomer:
  assumes q: "slots_ok q" and new: "session_key_for_peer (sk_peer key) q = None"
    and full: "active_session_count q = uc_active_slots (uq_config q)"
  shows "remove_waiting_key key (joined key connection_id now q) = q\<lparr>uq_next_sequence := sat_add (uq_next_sequence q) 1\<rparr>"
proof -
  have "filter (\<lambda>(k', _). key_id k' \<noteq> key_id key) (uq_sessions q) = uq_sessions q"
    using new_peer_key [OF new] by (intro filter_True) (auto simp: case_prod_beta)
  moreover have "filter (\<lambda>k. key_id k \<noteq> key_id key) (uq_waiting_order q) = uq_waiting_order q"
  proof (rule filter_True, rule ballI)
    fix k assume "k \<in> set (uq_waiting_order q)"
    then obtain x where "x \<in> set (uq_sessions q)" "fst x = k" using shapeD(3) [OF slots_okD(1) [OF q]] by auto
    then show "key_id k \<noteq> key_id key" using new_peer_key [OF new] by blast
  qed
  ultimately show ?thesis
    unfolding remove_waiting_key_def session_remove_def retain_other_def joined_newcomer(1,2) [OF full]
    using full by (simp add: joined_def)
qed

lemma newcomer_worst:
  assumes q: "slots_ok q" and new: "session_key_for_peer (sk_peer key) q = None"
    and full: "active_session_count q = uc_active_slots (uq_config q)"
    and last: "\<And>x. x \<in> set (uq_sessions q) \<Longrightarrow> rank_key now x < rank_key now (key, newcomer connection_id now (uq_next_sequence q))"
  shows "worst_waiting_key now (joined key connection_id now q) = Some key"
proof -
  let ?j = "joined key connection_id now q" and ?e = "(key, newcomer connection_id now (uq_next_sequence q))"
  note sh = joined_ok(1) [OF q new, of connection_id now]
  have r: "set (ranked_waiters now ?j) = {x \<in> insert ?e (set (uq_sessions q)). is_waiting x}"
    unfolding set_ranked [OF sh] joined_newcomer(1) [OF full] by simp
  have "last (ranked_waiters now ?j) = ?e"
  proof (rule last_max)
    show "sorted (map (rank_key now) (ranked_waiters now ?j))" by (simp add: ranked_waiters_sort)
    show "?e \<in> set (ranked_waiters now ?j)" unfolding r by (simp add: newcomer_def is_waiting_def)
    show "rank_key now y < rank_key now ?e" if "y \<in> set (ranked_waiters now ?j)" "y \<noteq> ?e" for y
      using that last unfolding r by blast
  qed
  moreover have "ranked_waiters now ?j \<noteq> []" using r by (force simp: newcomer_def is_waiting_def)
  ultimately show ?thesis by (simp add: worst_waiting_key_def ranked_waiting_keys_def last_map)
qed

lemma stranger_ranks_last:
  assumes "arrivals_ok now (stamps q) i" "i \<noteq> - 1" "x \<in> set (uq_sessions q)" "\<not> has_friend_slot key"
  shows "rank_key now x < rank_key now (key, newcomer connection_id now i)"
proof -
  have "stamp x \<in> stamps q" using assms(3) by (simp add: stamps_def)
  then have "se_waiting_sequence (snd x) < i" using assms(1,2) unfolding arrivals_ok_def stamp_def by blast
  moreover have "0 \<le> waiting_score (fst x) (snd x) now"
    by (simp add: waiting_score_def file_priority_score_def DEFAULT_FILE_PRIORITY_SCORE_def friend_slot_score_def FRIEND_SLOT_SCORE_BONUS_def)
  moreover have "waiting_score key (newcomer connection_id now i) now = 0"
    using assms(4) by (simp add: waiting_score_def friend_slot_score_def newcomer_def)
  ultimately show ?thesis by (auto simp: rank_key_def less_prod_def newcomer_def)
qed

text \<open>
  C25. A full queue refuses newcomers. If the waiting list is full after the expired sessions were
  removed and all slots are taken, a peer without a session and without a friend slot is turned away
  with the status stale, and the sessions and the waiting list are left as they were.
\<close>

theorem full_queue_refuses:
  assumes "upload_run c t q" "t \<le> now" "uq_next_sequence q \<noteq> - 1"
    and "q1 = reap_expired_sessions now q" "length (uq_waiting_order q1) = uc_waiting_capacity c"
    and "active_session_count q1 = uc_active_slots c"
    and "peer_id (sk_peer key) \<notin> (\<lambda>(k, s). peer_id (sk_peer k)) ` set (uq_sessions q1)" "\<not> has_friend_slot key"
  shows "begin_session key connection_id now q =
    Some (StaleSession, q1\<lparr>uq_next_sequence := sat_add (uq_next_sequence q) 1\<rparr>)"
proof -
  have q: "slots_ok q" "uq_config q = c" using run_ok [OF assms(1)] by simp_all
  then have b: "queue_bounds q" by (simp add: slots_ok_def)
  have q1: "slots_ok q1" "uq_config q1 = c" "uq_next_sequence q1 = uq_next_sequence q"
    using reap_ok [OF b, of now] q(2) assms(4) by simp_all
  have k: "keep (\<lambda>_. True) q = q" using fold_remove_keep [OF slots_okD(1) [OF q(1)], of "[]"] by simp
  have arr: "arrivals_ok now (stamps q1) (uq_next_sequence q1)"
    using arrivals_mono [OF run_arrivals [OF assms(1)] stamps_reap(1) [OF b, of now "\<lambda>_. True", unfolded k] assms(2)]
      assms(4) q1(3) by simp
  have "(\<lambda>(k, s). peer_id (sk_peer k)) = session_peer" by (intro ext) (simp add: session_peer_def case_prod_beta)
  then have new: "session_key_for_peer (sk_peer key) q1 = None"
    using assms(7) unfolding session_key_for_peer_None by simp
  have full: "active_session_count q1 = uc_active_slots (uq_config q1)" using assms(6) q1(2) by simp
  let ?j = "joined key connection_id now q1" and ?q = "q1\<lparr>uq_next_sequence := sat_add (uq_next_sequence q) 1\<rparr>"
  have "worst_waiting_key now ?j = Some key"
    using newcomer_worst [OF q1(1) new full] stranger_ranks_last [OF arr] assms(3,8) q1(3) by simp
  moreover have "remove_waiting_key key ?j = ?q" using remove_newcomer [OF q1(1) new full] q1(3) by simp
  moreover have "trim_waiting_queue now ?q = ?q" using assms(5) q1(2) by (subst trim_waiting_queue.simps) simp
  ultimately have "trim_waiting_queue now ?j = ?q"
    using joined_newcomer(2,3) [OF full] assms(5) q1(2) by (subst trim_waiting_queue.simps) simp
  moreover have "session_get key (uq_sessions q1) = None"
    unfolding session_get_None using new_peer_key [OF new] by blast
  ultimately show ?thesis
    using new assms(4) by (simp add: begin_session_def Let_def admit_joined status_for_key_def)
qed

subsection \<open>A queue of four peers\<close>

definition demo_limits :: upload_queue_config where
  "demo_limits = \<lparr> uc_active_slots = 2, uc_waiting_capacity = 2, uc_waiting_timeout = 100,
     uc_granted_timeout = 30, uc_upload_timeout = 90 \<rparr>"

definition waiter_key :: "u16 \<Rightarrow> session_key" where
  "waiter_key port = \<lparr> sk_peer = \<lparr> up_ip = V4 (Ipv4 1 2 3 4), up_tcp_port = port, up_user_hash = None,
     up_client_id = None, up_friend_slot = False \<rparr>, sk_file_hash = [] \<rparr>"

definition demo_begin :: "u16 \<Rightarrow> upload_queue \<Rightarrow> upload_queue" where
  "demo_begin port q = snd (the (begin_session (waiter_key port) 1 0 q))"

definition demo_queue :: upload_queue where
  "demo_queue = demo_begin 4 (demo_begin 3 (demo_begin 2 (demo_begin 1 (upload_queue_new demo_limits))))"

lemma demo_begin_run: "upload_run c 0 q \<Longrightarrow> upload_run c 0 (demo_begin port q)"
proof -
  assume run: "upload_run c 0 q"
  obtain status q' where q': "begin_session (waiter_key port) 1 0 q = Some (status, q')"
    using begin_session_total run_ok [OF run] by blast
  show ?thesis
    using run_step [OF run le_refl step_begin [OF q']] by (simp add: demo_begin_def q')
qed

lemma demo_run: "upload_run demo_limits 0 demo_queue"
  unfolding demo_queue_def by (intro demo_begin_run run_new)

definition waiter_entry :: "session_phase \<Rightarrow> nat \<Rightarrow> u64 \<Rightarrow> session_entry" where
  "waiter_entry phase seen i = \<lparr> se_phase = phase, se_connection_id = 1, se_queued_at = 0, se_last_activity = seen,
     se_waiting_sequence = i \<rparr>"

lemma begin_fresh:
  assumes q: "slots_ok q" and "session_key_for_peer (sk_peer key) q = None"
    and "\<forall>x \<in> set (uq_sessions q). \<not> session_expired (uq_config q) now (snd x)"
    and "length (uq_waiting_order q) < uc_waiting_capacity (uq_config q)"
  shows "map_option snd (begin_session key i now q) = Some (joined key i now q)"
proof -
  have "reap_expired_sessions now q = q"
    using assms(3) promote_idle [OF q, of now] by (simp add: reap_expired_sessions_def filter_False case_prod_beta)
  moreover have "trim_waiting_queue now (joined key i now q) = joined key i now q"
    using assms(4) by (subst trim_waiting_queue.simps) (simp add: joined_def Let_def)
  ultimately show ?thesis using assms(2) by (simp add: begin_session_def admit_joined Let_def)
qed

lemma demo_begin_eq:
  assumes "upload_run demo_limits 0 q" "session_key_for_peer (sk_peer (waiter_key port)) q = None"
    and "\<forall>x \<in> set (uq_sessions q). se_last_activity (snd x) = 0" "length (uq_waiting_order q) < 2"
  shows "demo_begin port q = joined (waiter_key port) 1 0 q"
proof -
  have q: "slots_ok q" "uq_config q = demo_limits" using run_ok [OF assms(1)] by simp_all
  have "map_option snd (begin_session (waiter_key port) 1 0 q) = Some (joined (waiter_key port) 1 0 q)"
    using assms q by (intro begin_fresh) (auto simp: session_expired_def demo_limits_def)
  then show ?thesis by (auto simp: demo_begin_def)
qed

lemma waiter_key_port [simp]: "peer_id (sk_peer (waiter_key a)) = peer_id (sk_peer (waiter_key b)) \<longleftrightarrow> a = b"
    "key_id (waiter_key a) = key_id (waiter_key b) \<longleftrightarrow> a = b" "waiter_key a = waiter_key b \<longleftrightarrow> a = b" "\<not> has_friend_slot (waiter_key a)"
  by (auto simp: waiter_key_def peer_id_def key_id_def has_friend_slot_def)

lemma demo_queue_eq:
  "demo_queue = \<lparr> uq_config = demo_limits, uq_sessions = [(waiter_key 1, waiter_entry Granted 0 1), (waiter_key 2, waiter_entry Granted 0 2),
     (waiter_key 3, waiter_entry Waiting 0 3), (waiter_key 4, waiter_entry Waiting 0 4)],
     uq_waiting_order = [waiter_key 3, waiter_key 4], uq_next_sequence = 5 \<rparr>"
proof -
  have slots: "uc_active_slots demo_limits = 2" by (simp add: demo_limits_def)
  note ev = session_key_for_peer_def joined_def Let_def active_session_count_def is_active_def slots waiter_entry_def sat_add_def
  note run = demo_begin_run [of demo_limits] run_new [of demo_limits 0]
  have 1: "demo_begin 1 (upload_queue_new demo_limits) = \<lparr> uq_config = demo_limits, uq_sessions = [(waiter_key 1, waiter_entry Granted 0 1)],
      uq_waiting_order = [], uq_next_sequence = 2 \<rparr>"
    by (subst demo_begin_eq, intro run) (simp_all add: upload_queue_new_def ev)
  have 2: "demo_begin 2 (demo_begin 1 (upload_queue_new demo_limits)) = \<lparr> uq_config = demo_limits,
      uq_sessions = [(waiter_key 1, waiter_entry Granted 0 1), (waiter_key 2, waiter_entry Granted 0 2)],
      uq_waiting_order = [], uq_next_sequence = 3 \<rparr>"
    by (subst demo_begin_eq, intro run) (simp_all add: 1 ev)
  have 3: "demo_begin 3 (demo_begin 2 (demo_begin 1 (upload_queue_new demo_limits))) = \<lparr> uq_config = demo_limits,
      uq_sessions = [(waiter_key 1, waiter_entry Granted 0 1), (waiter_key 2, waiter_entry Granted 0 2), (waiter_key 3, waiter_entry Waiting 0 3)],
      uq_waiting_order = [waiter_key 3], uq_next_sequence = 4 \<rparr>"
    by (subst demo_begin_eq, intro run) (simp_all add: 2 ev)
  show ?thesis
    unfolding demo_queue_def by (subst demo_begin_eq, intro run) (simp_all add: 3 ev)
qed

lemma demo_reaped:
  "reap_expired_sessions 50 demo_queue = \<lparr> uq_config = demo_limits,
     uq_sessions = [(waiter_key 3, waiter_entry Granted 50 3), (waiter_key 4, waiter_entry Granted 50 4)],
     uq_waiting_order = [], uq_next_sequence = 5 \<rparr>"
proof -
  note ev = session_expired_def phase_timeout_def demo_limits_def waiter_entry_def remove_waiting_key_def session_remove_def retain_other_def
    ranked_waiters_def waiting_session_def session_get_def List.map_filter_simps sort_by_def compare_waiters_def waiting_score_def
    then_with_def compare_def active_session_count_def is_active_def grant_key_def session_update_def grant_session_def
  have s: "reap_expired_sessions 50 demo_queue = promote_waiters 50 \<lparr> uq_config = demo_limits,
      uq_sessions = [(waiter_key 3, waiter_entry Waiting 0 3), (waiter_key 4, waiter_entry Waiting 0 4)],
      uq_waiting_order = [waiter_key 3, waiter_key 4], uq_next_sequence = 5 \<rparr>"
    by (simp add: reap_expired_sessions_def demo_queue_eq ev)
  show ?thesis
    unfolding s by (subst promote_unfold, simp add: ev, subst promote_unfold, simp add: ev, subst promote_unfold, simp add: ev)
qed

theorem upload_queue_bounds_witness:
  "upload_run demo_limits 0 demo_queue \<and> uq_waiting_order demo_queue = [waiter_key 3, waiter_key 4] \<and>
   active_session_count demo_queue = 2 \<and> begin_session (waiter_key 5) 1 0 demo_queue \<noteq> None"
  using upload_queue_bounds [OF demo_run, of "waiter_key 5" 1 0] demo_run
  by (simp add: demo_queue_eq demo_limits_def)

theorem first_come_first_served_witness:
  "\<exists>q'. upload_step 50 demo_queue q' \<and> (waiter_key 4, waiter_entry Granted 50 4) \<in> set (uq_sessions q') \<and>
     (waiter_key 3, waiter_entry Granted 50 3) \<in> set (uq_sessions q') \<and> \<not> is_waiting (waiter_key 3, waiter_entry Granted 50 3)"
proof -
  let ?h = "\<lparr> uh_key = waiter_key 9, uh_connection_id = 1 \<rparr>" and ?q = "reap_expired_sessions 50 demo_queue"
  have "poll_session ?h 50 False demo_queue = (StaleSession, ?q)"
    by (simp add: poll_session_def demo_reaped session_get_def)
  then have step: "upload_step 50 demo_queue ?q" by (rule step_poll)
  have "\<not> is_waiting (waiter_key 3, waiter_entry Granted 50 3)"
  proof (rule first_come_first_served [OF demo_run _ step])
    show "(waiter_key 3, waiter_entry Waiting 0 3) \<in> set (uq_sessions demo_queue)"
      "(waiter_key 4, waiter_entry Waiting 0 4) \<in> set (uq_sessions demo_queue)" by (simp_all add: demo_queue_eq)
    show "(waiter_key 4, waiter_entry Granted 50 4) \<in> set (uq_sessions ?q)"
      "(waiter_key 3, waiter_entry Granted 50 3) \<in> set (uq_sessions ?q)" by (simp_all add: demo_reaped)
  qed (simp_all add: demo_queue_eq is_waiting_def waiter_entry_def same_session_def session_peer_def)
  with step show ?thesis by (intro exI [of _ ?q]) (simp add: demo_reaped)
qed

theorem full_queue_refuses_witness:
  "\<exists>q'. begin_session (waiter_key 5) 1 0 demo_queue = Some (StaleSession, q') \<and> uq_sessions q' = uq_sessions demo_queue"
proof -
  have r: "reap_expired_sessions 0 demo_queue = demo_queue"
    using promote_idle [of demo_queue 0] run_ok [OF demo_run]
    by (simp add: reap_expired_sessions_def session_expired_def demo_queue_eq)
  have "begin_session (waiter_key 5) 1 0 demo_queue =
      Some (StaleSession, demo_queue\<lparr>uq_next_sequence := sat_add (uq_next_sequence demo_queue) 1\<rparr>)"
    by (rule full_queue_refuses [OF demo_run])
      (simp_all add: r, simp_all add: demo_queue_eq demo_limits_def active_session_count_def is_active_def waiter_entry_def)
  then show ?thesis by simp
qed

end
