(* ===== verification/Ed2k_Hashset.thy ===== *)
theory Ed2k_Hashset
  imports Agent_Publish
begin

text \<open>
  The two digests of a shared file, from \<open>ed2k_transfer/hashset.rs\<close>: the MD4 hashset of its parts
  and the AICH tree of SHA-1 hashes over its blocks.

  \<^item> MD4 and SHA-1 are arguments; a hasher that is fed piece by piece is the digest of what it was fed.
    An array of twenty bytes is a list of bytes.
  \<^item> An open file is the list of the bytes behind its cursor; \<open>read_exact\<close> fails on a short file.
  \<^item> Sizes and offsets (\<open>u64\<close>) are natural numbers: every sum and product below is bounded by the file
    size or one part more. The counts that are cut to 16 bits are cut here as well.
\<close>

definition ED2K_PART_SIZE :: nat where "ED2K_PART_SIZE = 9728000"
definition ED2K_EMBLOCK_SIZE :: nat where "ED2K_EMBLOCK_SIZE = 184320"

text \<open>The errors, by what the messages say; \<open>HashTextPanic\<close> is the panic of \<open>Ed2kHash::from_str\<close>.\<close>

datatype transfer_error =
    InvalidFileHash | HashTextPanic | HashsetMismatch | ZeroSizedFile | OpenFailed | ShortRead
  | InvalidAichHash | InvalidAichLength | NoAichRoot | AichCountMismatch | MissingAichHash | AichRootMismatch

type_synonym sha1_fun = "bytes \<Rightarrow> bytes"

definition read_exact_from :: "nat \<Rightarrow> bytes \<Rightarrow> transfer_error + (bytes \<times> bytes)" where
  "read_exact_from n s = (if n \<le> length s then Inr (take n s, drop n s) else Inl ShortRead)"

definition chunk_count_for_size :: "nat \<Rightarrow> nat \<Rightarrow> nat" where
  "chunk_count_for_size sz chunk_size = sz div chunk_size + (if sz mod chunk_size = 0 then 0 else 1)"

definition u16_capped :: "nat \<Rightarrow> nat" where
  "u16_capped n = (if n < 65536 then n else 65535)"

subsection \<open>The MD4 hashset\<close>

definition expected_md4_hash_count :: "nat \<Rightarrow> nat" where
  "expected_md4_hash_count file_size =
     (if file_size = 0 then 0
      else let whole_parts = file_size div ED2K_PART_SIZE in
        u16_capped (whole_parts + (if whole_parts > 0 then 1 else 0)))"

definition parse_file_hash :: "rstring \<Rightarrow> transfer_error + ed2k_hash" where
  "parse_file_hash s =
     (case ed2k_from_str s of None \<Rightarrow> Inl HashTextPanic | Some (Inl _) \<Rightarrow> Inl InvalidFileHash | Some (Inr h) \<Rightarrow> Inr h)"

definition validate_md4_hashset :: "digest_fun \<Rightarrow> rstring \<Rightarrow> u8x16 list \<Rightarrow> transfer_error + unit" where
  "validate_md4_hashset md4 file_hash md4_hashset =
     bind_res (parse_file_hash file_hash) (\<lambda>expected.
       if md4_hashset = [] then Inr ()
       else if md4 (concat (map list16 md4_hashset)) \<noteq> ed2k_array expected then Inl HashsetMismatch
       else Inr ())"

text \<open>The hasher is fed with buffers of 64 KiB.\<close>

function read_buffers :: "nat \<Rightarrow> bytes \<Rightarrow> bytes \<Rightarrow> transfer_error + (bytes \<times> bytes)" where
  "read_buffers remaining hashed file =
     (if remaining = 0 then Inr (hashed, file)
      else let chunk_len = min remaining 65536 in
        bind_res (read_exact_from chunk_len file) (\<lambda>(buffer, file).
          read_buffers (remaining - chunk_len) (hashed @ buffer) file))"
  by pat_completeness auto
termination
  by (relation "measure (\<lambda>(remaining, _). remaining)") auto

declare read_buffers.simps [simp del]

definition read_md4_digest_from_reader :: "digest_fun \<Rightarrow> nat \<Rightarrow> bytes \<Rightarrow> transfer_error + (u8x16 \<times> bytes)" where
  "read_md4_digest_from_reader md4 sz file =
     bind_res (read_buffers sz [] file) (\<lambda>(hashed, file). Inr (md4 hashed, file))"

function md4_part_hashes :: "digest_fun \<Rightarrow> nat \<Rightarrow> bytes \<Rightarrow> u8x16 list \<Rightarrow> transfer_error + (u8x16 list \<times> bytes)" where
  "md4_part_hashes md4 remaining file part_hashes =
     (if remaining = 0 then Inr (part_hashes, file)
      else let part_size = min remaining ED2K_PART_SIZE in
        bind_res (read_md4_digest_from_reader md4 part_size file) (\<lambda>(h, file).
          md4_part_hashes md4 (remaining - part_size) file (part_hashes @ [h])))"
  by pat_completeness auto
termination
  by (relation "measure (\<lambda>(_, remaining, _). remaining)") (auto simp: ED2K_PART_SIZE_def)

declare md4_part_hashes.simps [simp del]

definition build_md4_hashset_from_payload ::
  "digest_fun \<Rightarrow> bytes option \<Rightarrow> nat \<Rightarrow> transfer_error + (ed2k_hash \<times> u8x16 list)" where
  "build_md4_hashset_from_payload md4 payload file_size =
     (if file_size = 0 then Inl ZeroSizedFile
      else case payload of
          None \<Rightarrow> Inl OpenFailed
        | Some file \<Rightarrow>
            if file_size < ED2K_PART_SIZE then
              bind_res (read_md4_digest_from_reader md4 file_size file) (\<lambda>(digest, _). Inr (Ed2kHash digest, []))
            else
              bind_res (md4_part_hashes md4 file_size file []) (\<lambda>(part_hashes, file).
              bind_res
                (if file_size mod ED2K_PART_SIZE = 0 then
                   bind_res (read_md4_digest_from_reader md4 0 file) (\<lambda>(h, _). Inr (part_hashes @ [h]))
                 else Inr part_hashes) (\<lambda>part_hashes.
              Inr (Ed2kHash (md4 (concat (map list16 part_hashes))), part_hashes))))"

subsection \<open>The AICH tree\<close>

record aich_hashset =
  ai_master_hash :: bytes
  ai_part_hashes :: "bytes list"

definition sha1_pair :: "sha1_fun \<Rightarrow> bytes \<Rightarrow> bytes \<Rightarrow> bytes" where
  "sha1_pair sha1 left right = sha1 (left @ right)"

definition decode_aich_hash_hex :: "hex_ext \<Rightarrow> rstring \<Rightarrow> transfer_error + bytes" where
  "decode_aich_hash_hex H h =
     (case hex_decode H h of
        None \<Rightarrow> Inl InvalidAichHash
      | Some bs \<Rightarrow> if length bs = 20 then Inr bs else Inl InvalidAichLength)"

definition expected_aich_hash_count :: "nat \<Rightarrow> nat" where
  "expected_aich_hash_count file_size =
     (if file_size \<le> ED2K_PART_SIZE then 0 else u16_capped ((file_size + ED2K_PART_SIZE - 1) div ED2K_PART_SIZE))"

text \<open>The size of the left subtree: half of the chunks, on a left branch rounded up.\<close>

definition left_size :: "nat \<Rightarrow> nat \<Rightarrow> bool \<Rightarrow> nat" where
  "left_size chunk sz is_left_branch =
     ((chunk_count_for_size sz chunk + (if is_left_branch then 1 else 0)) div 2) * chunk"

lemma chunk_count_bounds:
  assumes "0 < chunk" "0 < sz"
  shows "(chunk_count_for_size sz chunk - 1) * chunk < sz" "sz \<le> chunk_count_for_size sz chunk * chunk"
    "0 < chunk_count_for_size sz chunk"
proof -
  define q r where "q = sz div chunk" and "r = sz mod chunk"
  have sz: "sz = q * chunk + r" "r < chunk" using assms by (simp_all add: q_def r_def)
  have n: "chunk_count_for_size sz chunk = q + (if r = 0 then 0 else 1)" by (simp add: chunk_count_for_size_def q_def r_def)
  show "(chunk_count_for_size sz chunk - 1) * chunk < sz"
    unfolding n using sz assms by (cases q) auto
  show "sz \<le> chunk_count_for_size sz chunk * chunk" "0 < chunk_count_for_size sz chunk"
    unfolding n using sz assms by (auto intro!: gr0I)
qed

lemma left_size_bounds:
  assumes "0 < chunk" "chunk < sz"
  shows "0 < left_size chunk sz b" "left_size chunk sz b < sz"
proof -
  let ?n = "chunk_count_for_size sz chunk"
  have n: "(?n - 1) * chunk < sz" "sz \<le> ?n * chunk" using chunk_count_bounds [of chunk sz] assms by simp_all
  have "2 \<le> ?n"
  proof (rule ccontr)
    assume "\<not> 2 \<le> ?n"
    then have "?n \<le> 1" by simp
    then have "?n * chunk \<le> chunk" using mult_le_mono1 [of ?n 1 chunk] by simp
    with n(2) assms(2) show False by simp
  qed
  then have half: "1 \<le> (?n + (if b then 1 else 0)) div 2" "(?n + (if b then 1 else 0)) div 2 \<le> ?n - 1" by auto
  show "0 < left_size chunk sz b" using half(1) assms(1) by (simp add: left_size_def)
  have "left_size chunk sz b \<le> (?n - 1) * chunk" unfolding left_size_def by (rule mult_le_mono1 [OF half(2)])
  with n(1) show "left_size chunk sz b < sz" by simp
qed

lemma part_size_pos: "0 < ED2K_PART_SIZE" "0 < ED2K_EMBLOCK_SIZE"
  by (simp_all add: ED2K_PART_SIZE_def ED2K_EMBLOCK_SIZE_def)

lemmas part_split = left_size_bounds [OF part_size_pos(1)] and block_split = left_size_bounds [OF part_size_pos(2)]

function build_part_root :: "sha1_fun \<Rightarrow> nat \<Rightarrow> nat \<Rightarrow> bool \<Rightarrow> bytes list \<Rightarrow> transfer_error + bytes" where
  "build_part_root sha1 start sz is_left_branch part_hashes =
     (if sz \<le> ED2K_PART_SIZE then
        (let part_index = start div ED2K_PART_SIZE in
         if part_index < length part_hashes then Inr (part_hashes ! part_index) else Inl MissingAichHash)
      else
        let ls = left_size ED2K_PART_SIZE sz is_left_branch in
        bind_res (build_part_root sha1 start ls True part_hashes) (\<lambda>left.
        bind_res (build_part_root sha1 (start + ls) (sz - ls) False part_hashes) (\<lambda>right.
        Inr (sha1_pair sha1 left right))))"
  by pat_completeness auto
termination
  by (relation "measure (\<lambda>(_, _, sz, _). sz)") (auto simp: part_split)

declare build_part_root.simps [simp del]

definition reconstruct_aich_root_from_part_hashes :: "sha1_fun \<Rightarrow> nat \<Rightarrow> bytes list \<Rightarrow> transfer_error + bytes" where
  "reconstruct_aich_root_from_part_hashes sha1 file_size part_hashes =
     build_part_root sha1 0 file_size True part_hashes"

definition validate_aich_hashset :: "sha1_fun \<Rightarrow> nat \<Rightarrow> aich_hashset \<Rightarrow> transfer_error + unit" where
  "validate_aich_hashset sha1 file_size hs =
     (let expected = expected_aich_hash_count file_size in
      if length (ai_part_hashes hs) \<noteq> expected then Inl AichCountMismatch
      else if expected = 0 then Inr ()
      else bind_res (reconstruct_aich_root_from_part_hashes sha1 file_size (ai_part_hashes hs)) (\<lambda>reconstructed.
        if reconstructed \<noteq> ai_master_hash hs then Inl AichRootMismatch else Inr ()))"

function read_aich_blocks :: "sha1_fun \<Rightarrow> nat \<Rightarrow> bytes \<Rightarrow> bytes list \<Rightarrow> transfer_error + (bytes list \<times> bytes)" where
  "read_aich_blocks sha1 remaining file block_hashes =
     (if remaining = 0 then Inr (block_hashes, file)
      else let block_len = min remaining ED2K_EMBLOCK_SIZE in
        bind_res (read_exact_from block_len file) (\<lambda>(buffer, file).
          read_aich_blocks sha1 (remaining - block_len) file (block_hashes @ [sha1 buffer])))"
  by pat_completeness auto
termination
  by (relation "measure (\<lambda>(_, remaining, _). remaining)") (auto simp: ED2K_EMBLOCK_SIZE_def)

declare read_aich_blocks.simps [simp del]

definition read_aich_block_hashes_from_reader :: "sha1_fun \<Rightarrow> nat \<Rightarrow> bytes \<Rightarrow> transfer_error + (bytes list \<times> bytes)" where
  "read_aich_block_hashes_from_reader sha1 sz file = read_aich_blocks sha1 sz file []"

function build_aich_block_tree_root :: "sha1_fun \<Rightarrow> nat \<Rightarrow> bool \<Rightarrow> bytes list \<Rightarrow> nat \<Rightarrow> transfer_error + bytes" where
  "build_aich_block_tree_root sha1 sz is_left_branch block_hashes block_offset =
     (if sz \<le> ED2K_EMBLOCK_SIZE then
        (if block_offset < length block_hashes then Inr (block_hashes ! block_offset) else Inl MissingAichHash)
      else
        let ls = left_size ED2K_EMBLOCK_SIZE sz is_left_branch in
        bind_res (build_aich_block_tree_root sha1 ls True block_hashes block_offset) (\<lambda>left_hash.
        let right_offset = block_offset + chunk_count_for_size ls ED2K_EMBLOCK_SIZE in
        bind_res (build_aich_block_tree_root sha1 (sz - ls) False block_hashes right_offset) (\<lambda>right_hash.
        Inr (sha1_pair sha1 left_hash right_hash))))"
  by pat_completeness auto
termination
  by (relation "measure (\<lambda>(_, sz, _). sz)") (auto simp: block_split)

declare build_aich_block_tree_root.simps [simp del]

definition build_aich_part_root_from_reader ::
  "sha1_fun \<Rightarrow> nat \<Rightarrow> bool \<Rightarrow> bytes \<Rightarrow> transfer_error + (bytes \<times> bytes)" where
  "build_aich_part_root_from_reader sha1 part_size is_left_branch file =
     bind_res (read_aich_block_hashes_from_reader sha1 part_size file) (\<lambda>(block_hashes, file).
     bind_res (build_aich_block_tree_root sha1 part_size is_left_branch block_hashes 0) (\<lambda>root.
     Inr (root, file)))"

function collect_aich_part_hashes_from_reader ::
  "sha1_fun \<Rightarrow> nat \<Rightarrow> bool \<Rightarrow> bytes \<Rightarrow> bytes list \<Rightarrow> transfer_error + (bytes list \<times> bytes)" where
  "collect_aich_part_hashes_from_reader sha1 sz is_left_branch file part_hashes =
     (if sz \<le> ED2K_PART_SIZE then
        bind_res (build_aich_part_root_from_reader sha1 sz is_left_branch file) (\<lambda>(root, file).
        Inr (part_hashes @ [root], file))
      else
        let ls = left_size ED2K_PART_SIZE sz is_left_branch in
        bind_res (collect_aich_part_hashes_from_reader sha1 ls True file part_hashes) (\<lambda>(part_hashes, file).
        collect_aich_part_hashes_from_reader sha1 (sz - ls) False file part_hashes))"
  by pat_completeness auto
termination
  by (relation "measure (\<lambda>(_, sz, _). sz)") (auto simp: part_split)

declare collect_aich_part_hashes_from_reader.simps [simp del]

definition build_aich_hashset_from_payload :: "sha1_fun \<Rightarrow> bytes option \<Rightarrow> nat \<Rightarrow> transfer_error + aich_hashset" where
  "build_aich_hashset_from_payload sha1 payload file_size =
     (if file_size = 0 then Inl ZeroSizedFile
      else case payload of
          None \<Rightarrow> Inl OpenFailed
        | Some file \<Rightarrow>
            if file_size \<le> ED2K_PART_SIZE then
              bind_res (build_aich_part_root_from_reader sha1 file_size True file) (\<lambda>(master_hash, _).
              Inr \<lparr> ai_master_hash = master_hash, ai_part_hashes = [] \<rparr>)
            else
              bind_res (collect_aich_part_hashes_from_reader sha1 file_size True file []) (\<lambda>(part_hashes, _).
              bind_res (reconstruct_aich_root_from_part_hashes sha1 file_size part_hashes) (\<lambda>master_hash.
              Inr \<lparr> ai_master_hash = master_hash, ai_part_hashes = part_hashes \<rparr>)))"

subsection \<open>The hashset in the manifest\<close>

text \<open>The part of \<open>Ed2kResumeManifest\<close> that this file reads and writes.\<close>

record manifest_aich =
  mf_file_size :: nat
  mf_aich_hashset_acquired :: bool
  mf_aich_root :: "rstring option"
  mf_aich_hashset :: "rstring list"

fun decode_part_hashes :: "hex_ext \<Rightarrow> rstring list \<Rightarrow> transfer_error + bytes list" where
  "decode_part_hashes H [] = Inr []"
| "decode_part_hashes H (h # hs) =
     bind_res (decode_aich_hash_hex H h) (\<lambda>x. bind_res (decode_part_hashes H hs) (\<lambda>xs. Inr (x # xs)))"

definition decode_manifest_aich_hashset :: "sha1_fun \<Rightarrow> hex_ext \<Rightarrow> manifest_aich \<Rightarrow> transfer_error + aich_hashset" where
  "decode_manifest_aich_hashset sha1 H manifest =
     (case mf_aich_root manifest of
        None \<Rightarrow> Inl NoAichRoot
      | Some root \<Rightarrow>
          bind_res (decode_aich_hash_hex H root) (\<lambda>master_hash.
          bind_res (decode_part_hashes H (mf_aich_hashset manifest)) (\<lambda>part_hashes.
          let hs = \<lparr> ai_master_hash = master_hash, ai_part_hashes = part_hashes \<rparr> in
          if mf_aich_hashset_acquired manifest
          then bind_res (validate_aich_hashset sha1 (mf_file_size manifest) hs) (\<lambda>_. Inr hs)
          else Inr hs)))"

definition refresh_completed_manifest_aich_hashset ::
  "sha1_fun \<Rightarrow> hex_ext \<Rightarrow> bytes option \<Rightarrow> manifest_aich \<Rightarrow> transfer_error + manifest_aich" where
  "refresh_completed_manifest_aich_hashset sha1 H payload manifest =
     (if mf_aich_root manifest \<noteq> None then Inr manifest
      else
        bind_res (build_aich_hashset_from_payload sha1 payload (mf_file_size manifest)) (\<lambda>hs.
        Inr (manifest\<lparr>mf_aich_root := Some (hex_encode H (ai_master_hash hs)),
          mf_aich_hashset := map (hex_encode H) (ai_part_hashes hs), mf_aich_hashset_acquired := True\<rparr>)))"

end
