(* ===== verification/Ed2k_Hashset_Props.thy ===== *)
theory Ed2k_Hashset_Props
  imports Ed2k_Hashset Snoop_Queue_Props
begin

text \<open>
  What the hash functions compute: the AICH code, which streams the file and rebuilds the root from
  the hashes of the parts, is equal to a tree built over the content; the hashset that the MD4 code
  builds is one that it accepts.
\<close>

subsection \<open>Trees over content\<close>

lemma right_size_less: "0 < chunk \<Longrightarrow> \<not> n \<le> chunk \<Longrightarrow> n - left_size chunk n b < n"
  using left_size_bounds [of chunk n b] by simp

text \<open>
  The reference: content of at most a chunk is a leaf, a longer one is split at the size of the left
  subtree. A leaf may depend on the branch it hangs on.
\<close>

function merkle :: "sha1_fun \<Rightarrow> nat \<Rightarrow> (bool \<Rightarrow> bytes \<Rightarrow> bytes) \<Rightarrow> bool \<Rightarrow> bytes \<Rightarrow> bytes" where
  "merkle sha1 chunk leaf b data =
     (if chunk = 0 \<or> length data \<le> chunk then leaf b data
      else let ls = left_size chunk (length data) b in
        sha1 (merkle sha1 chunk leaf True (take ls data) @ merkle sha1 chunk leaf False (drop ls data)))"
  by pat_completeness auto
termination
  by (relation "measure (\<lambda>(_, _, _, _, data). length data)") (auto simp: left_size_bounds right_size_less)

declare merkle.simps [simp del]

function leaves :: "nat \<Rightarrow> (bool \<Rightarrow> bytes \<Rightarrow> bytes) \<Rightarrow> bool \<Rightarrow> bytes \<Rightarrow> bytes list" where
  "leaves chunk leaf b data =
     (if chunk = 0 \<or> length data \<le> chunk then [leaf b data]
      else let ls = left_size chunk (length data) b in
        leaves chunk leaf True (take ls data) @ leaves chunk leaf False (drop ls data))"
  by pat_completeness auto
termination
  by (relation "measure (\<lambda>(_, _, _, data). length data)") (auto simp: left_size_bounds right_size_less)

declare leaves.simps [simp del]

definition block_root :: "sha1_fun \<Rightarrow> bool \<Rightarrow> bytes \<Rightarrow> bytes" where
  "block_root sha1 b part = merkle sha1 ED2K_EMBLOCK_SIZE (\<lambda>_ block. sha1 block) b part"

definition aich_root :: "sha1_fun \<Rightarrow> bytes \<Rightarrow> bytes" where
  "aich_root sha1 fl = merkle sha1 ED2K_PART_SIZE (block_root sha1) True fl"

subsection \<open>Counting chunks\<close>

lemma chunk_count_mult: "0 < c \<Longrightarrow> chunk_count_for_size (k * c) c = k"
  by (simp add: chunk_count_for_size_def)

lemma chunk_count_rest:
  assumes "0 < c" "k * c \<le> n"
  shows "chunk_count_for_size (n - k * c) c = chunk_count_for_size n c - k" "k \<le> chunk_count_for_size n c"
proof -
  obtain m where m: "n = m + k * c" using assms(2) by (metis add.commute le_iff_add)
  show "chunk_count_for_size (n - k * c) c = chunk_count_for_size n c - k" "k \<le> chunk_count_for_size n c"
    using assms(1) by (auto simp: m chunk_count_for_size_def)
qed

lemma chunk_count_small: "0 < n \<Longrightarrow> n \<le> c \<Longrightarrow> chunk_count_for_size n c = 1"
  by (cases "n = c") (auto simp: chunk_count_for_size_def)

lemma left_size_mult: "\<exists>k. left_size c n b = k * c"
  by (auto simp: left_size_def)

lemma length_leaves: "0 < c \<Longrightarrow> data \<noteq> [] \<Longrightarrow> length (leaves c leaf b data) = chunk_count_for_size (length data) c"
proof (induction c leaf b data rule: leaves.induct)
  case (1 c leaf b data)
  show ?case
  proof (cases "length data \<le> c")
    case True
    then show ?thesis using 1(4) by (subst leaves.simps) (simp add: chunk_count_small)
  next
    case False
    let ?ls = "left_size c (length data) b"
    obtain k where k: "?ls = k * c" using left_size_mult by blast
    have ls: "0 < ?ls" "?ls < length data" using left_size_bounds [OF 1(3)] False by simp_all
    have "take ?ls data \<noteq> []" "drop ?ls data \<noteq> []" using ls by auto
    then have "length (leaves c leaf True (take ?ls data)) = chunk_count_for_size ?ls c"
        "length (leaves c leaf False (drop ?ls data)) = chunk_count_for_size (length data - ?ls) c"
      using 1(1,2) [OF _ refl 1(3)] False 1(3) ls(2) by simp_all
    then show ?thesis
      using False 1(3) chunk_count_mult [OF 1(3), of k] chunk_count_rest [OF 1(3), of k "length data"] ls(2)
      by (subst leaves.simps) (simp add: Let_def k)
  qed
qed

text \<open>What both functions that rebuild a root from a list of hashes need of the list.\<close>

definition hashes_at :: "bytes list \<Rightarrow> nat \<Rightarrow> bytes list \<Rightarrow> bool" where
  "hashes_at hs i xs \<longleftrightarrow> (\<exists>ys zs. hs = ys @ xs @ zs \<and> length ys = i)"

lemma hashes_at_split: "hashes_at hs i (xs @ ys) \<Longrightarrow> hashes_at hs i xs \<and> hashes_at hs (i + length xs) ys"
  unfolding hashes_at_def by (metis append.assoc length_append)

lemma hashes_at_one: "hashes_at hs i [x] \<Longrightarrow> i < length hs \<and> hs ! i = x"
  by (auto simp: hashes_at_def nth_append)

lemma part_root_of_leaves:
  assumes "data \<noteq> []" "hashes_at hs k (leaves ED2K_PART_SIZE leaf b data)"
  shows "build_part_root sha1 (k * ED2K_PART_SIZE) (length data) b hs = Inr (merkle sha1 ED2K_PART_SIZE leaf b data)"
  using assms
proof (induction "length data" arbitrary: data k b rule: less_induct)
  case less
  let ?P = ED2K_PART_SIZE
  show ?case
  proof (cases "length data \<le> ?P")
    case True
    then have "hashes_at hs k [leaf b data]" using less.prems(2) by (simp add: leaves.simps [of ?P])
    from hashes_at_one [OF this] show ?thesis
      using True part_size_pos by (subst build_part_root.simps, subst merkle.simps) simp
  next
    case False
    let ?ls = "left_size ?P (length data) b"
    obtain m where m: "?ls = m * ?P" using left_size_mult by blast
    have ls: "0 < ?ls" "?ls < length data" using part_split False by simp_all
    have ne: "take ?ls data \<noteq> []" "drop ?ls data \<noteq> []" using ls by auto
    have "leaves ?P leaf b data = leaves ?P leaf True (take ?ls data) @ leaves ?P leaf False (drop ?ls data)"
      using False part_size_pos by (subst leaves.simps) (simp add: Let_def)
    moreover have "length (leaves ?P leaf True (take ?ls data)) = m"
      using length_leaves [OF part_size_pos(1) ne(1)] ls chunk_count_mult [OF part_size_pos(1)] m by simp
    ultimately have at: "hashes_at hs k (leaves ?P leaf True (take ?ls data))" "hashes_at hs (k + m) (leaves ?P leaf False (drop ?ls data))"
      using hashes_at_split less.prems(2) by metis+
    have "build_part_root sha1 (k * ?P) ?ls True hs = Inr (merkle sha1 ?P leaf True (take ?ls data))"
      using less.hyps [OF _ ne(1) at(1)] ls by simp
    moreover have "build_part_root sha1 (k * ?P + ?ls) (length data - ?ls) False hs = Inr (merkle sha1 ?P leaf False (drop ?ls data))"
    proof -
      have "length (drop ?ls data) < length data" using ls by simp
      from less.hyps [OF this ne(2) at(2)] show ?thesis by (simp add: add_mult_distrib m)
    qed
    ultimately show ?thesis
      using False part_size_pos by (subst build_part_root.simps, subst merkle.simps) (simp add: Let_def sha1_pair_def)
  qed
qed

lemma block_root_of_leaves:
  assumes "data \<noteq> []" "hashes_at hs k (leaves ED2K_EMBLOCK_SIZE leaf b data)"
  shows "build_aich_block_tree_root sha1 (length data) b hs k = Inr (merkle sha1 ED2K_EMBLOCK_SIZE leaf b data)"
  using assms
proof (induction "length data" arbitrary: data k b rule: less_induct)
  case less
  let ?P = ED2K_EMBLOCK_SIZE
  show ?case
  proof (cases "length data \<le> ?P")
    case True
    then have "hashes_at hs k [leaf b data]" using less.prems(2) by (simp add: leaves.simps [of ?P])
    from hashes_at_one [OF this] show ?thesis
      using True part_size_pos by (subst build_aich_block_tree_root.simps, subst merkle.simps) simp
  next
    case False
    let ?ls = "left_size ?P (length data) b"
    obtain m where m: "?ls = m * ?P" using left_size_mult by blast
    have ls: "0 < ?ls" "?ls < length data" using block_split False by simp_all
    have ne: "take ?ls data \<noteq> []" "drop ?ls data \<noteq> []" using ls by auto
    have "leaves ?P leaf b data = leaves ?P leaf True (take ?ls data) @ leaves ?P leaf False (drop ?ls data)"
      using False part_size_pos by (subst leaves.simps) (simp add: Let_def)
    moreover have n: "length (leaves ?P leaf True (take ?ls data)) = chunk_count_for_size ?ls ?P"
      using length_leaves [OF part_size_pos(2) ne(1)] ls by simp
    ultimately have at: "hashes_at hs k (leaves ?P leaf True (take ?ls data))"
        "hashes_at hs (k + chunk_count_for_size ?ls ?P) (leaves ?P leaf False (drop ?ls data))"
      using hashes_at_split less.prems(2) by metis+
    have short: "length (drop ?ls data) < length data" "length (take ?ls data) < length data" using ls by simp_all
    show ?thesis
      using False part_size_pos less.hyps [OF short(2) ne(1) at(1)] less.hyps [OF short(1) ne(2) at(2)] ls
      by (subst build_aich_block_tree_root.simps, subst merkle.simps) (simp add: Let_def sha1_pair_def)
  qed
qed

subsection \<open>Reading\<close>

lemma take_drop_min: "take (min n c) xs @ take (n - min n c) (drop (min n c) xs) = take n xs"
  by (metis le_add_diff_inverse min.cobounded1 take_add)

lemma read_buffers_eq:
  "read_buffers n hashed fl = (if n \<le> length fl then Inr (hashed @ take n fl, drop n fl) else Inl ShortRead)"
proof (induction n arbitrary: hashed fl rule: less_induct)
  case (less n)
  show ?case
  proof (cases "n = 0")
    case False
    let ?c = "min n 65536"
    have "n - ?c < n" using False by simp
    note IH = less.IH [OF this, of "hashed @ take ?c fl" "drop ?c fl"]
    show ?thesis
    proof (cases "?c \<le> length fl")
      case True
      then have "read_buffers n hashed fl = read_buffers (n - ?c) (hashed @ take ?c fl) (drop ?c fl)"
        using False by (subst read_buffers.simps) (simp add: read_exact_from_def Let_def)
      moreover have "n - ?c \<le> length (drop ?c fl) \<longleftrightarrow> n \<le> length fl" using True by auto
      ultimately show ?thesis unfolding IH append_assoc take_drop_min by simp
    next
      case short: False
      then show ?thesis using False by (subst read_buffers.simps) (simp add: read_exact_from_def Let_def)
    qed
  qed (simp add: read_buffers.simps)
qed

lemma read_md4_eq:
  "read_md4_digest_from_reader md4 n fl = (if n \<le> length fl then Inr (md4 (take n fl), drop n fl) else Inl ShortRead)"
  by (simp add: read_md4_digest_from_reader_def read_buffers_eq)

text \<open>The chunks of a content.\<close>

function chunks :: "nat \<Rightarrow> bytes \<Rightarrow> bytes list" where
  "chunks c xs = (if c = 0 \<or> xs = [] then [] else take c xs # chunks c (drop c xs))"
  by pat_completeness auto
termination
  by (relation "measure (\<lambda>(_, xs). length xs)") auto

declare chunks.simps [simp del]

lemma chunks_Nil [simp]: "chunks c [] = []"
  by (simp add: chunks.simps)

lemma chunks_append: "0 < c \<Longrightarrow> length xs = k * c \<Longrightarrow> chunks c (xs @ ys) = chunks c xs @ chunks c ys"
proof (induction k arbitrary: xs)
  case (Suc k)
  then have xs: "xs \<noteq> []" "c \<le> length xs" "length (drop c xs) = k * c" by auto
  then have "chunks c (xs @ ys) = take c xs # chunks c (drop c xs @ ys)"
    using Suc.prems(1) by (subst chunks.simps) simp
  moreover have "chunks c xs = take c xs # chunks c (drop c xs)"
    using Suc.prems(1) xs(1) by (subst chunks.simps) simp
  ultimately show ?case using Suc.IH [OF Suc.prems(1) xs(3)] by simp
qed simp

lemma leaves_chunks:
  "0 < c \<Longrightarrow> data \<noteq> [] \<Longrightarrow> leaves c (\<lambda>_. f) b data = map f (chunks c data)"
proof (induction "length data" arbitrary: data b rule: less_induct)
  case less
  show ?case
  proof (cases "length data \<le> c")
    case True
    then show ?thesis using less.prems by (subst leaves.simps, subst chunks.simps) simp
  next
    case False
    let ?ls = "left_size c (length data) b"
    obtain k where k: "?ls = k * c" using left_size_mult by blast
    have ls: "0 < ?ls" "?ls < length data" using left_size_bounds [OF less.prems(1)] False by simp_all
    have ne: "take ?ls data \<noteq> []" "drop ?ls data \<noteq> []" using ls by auto
    have "chunks c data = chunks c (take ?ls data) @ chunks c (drop ?ls data)"
      using chunks_append [OF less.prems(1), of "take ?ls data" k "drop ?ls data"] ls k by simp
    then show ?thesis
      using False less.prems(1) less.hyps [OF _ less.prems(1) ne(1)] less.hyps [OF _ less.prems(1) ne(2)] ls
      by (subst leaves.simps) (simp add: Let_def)
  qed
qed

lemma read_aich_blocks_eq:
  "read_aich_blocks sha1 n fl hs =
     (if n \<le> length fl then Inr (hs @ map sha1 (chunks ED2K_EMBLOCK_SIZE (take n fl)), drop n fl) else Inl ShortRead)"
proof (induction n arbitrary: fl hs rule: less_induct)
  case (less n)
  show ?case
  proof (cases "n = 0")
    case False
    let ?c = "min n ED2K_EMBLOCK_SIZE"
    have "n - ?c < n" using False part_size_pos by simp
    note IH = less.IH [OF this, of "drop ?c fl" "hs @ [sha1 (take ?c fl)]"]
    have ch: "chunks ED2K_EMBLOCK_SIZE (take n fl) =
        take ?c fl # chunks ED2K_EMBLOCK_SIZE (take (n - ?c) (drop ?c fl))" if "n \<le> length fl"
      using that False part_size_pos by (subst chunks.simps) (auto simp: drop_take min_def)
    show ?thesis
    proof (cases "?c \<le> length fl")
      case True
      then have "read_aich_blocks sha1 n fl hs = read_aich_blocks sha1 (n - ?c) (drop ?c fl) (hs @ [sha1 (take ?c fl)])"
        using False by (subst read_aich_blocks.simps) (simp add: read_exact_from_def Let_def)
      moreover have "n - ?c \<le> length (drop ?c fl) \<longleftrightarrow> n \<le> length fl" using True by auto
      ultimately show ?thesis unfolding IH using ch by simp
    next
      case short: False
      then show ?thesis using False by (subst read_aich_blocks.simps) (simp add: read_exact_from_def Let_def)
    qed
  qed (simp add: read_aich_blocks.simps)
qed

lemma part_root_eq:
  assumes "0 < n"
  shows "build_aich_part_root_from_reader sha1 n b fl =
    (if n \<le> length fl then Inr (block_root sha1 b (take n fl), drop n fl) else Inl ShortRead)"
proof -
  have "build_aich_block_tree_root sha1 n b (map sha1 (chunks ED2K_EMBLOCK_SIZE (take n fl))) 0 =
      Inr (block_root sha1 b (take n fl))" if "n \<le> length fl"
  proof -
    have ne: "take n fl \<noteq> []" using assms that by auto
    have "hashes_at (map sha1 (chunks ED2K_EMBLOCK_SIZE (take n fl))) 0
        (leaves ED2K_EMBLOCK_SIZE (\<lambda>_. sha1) b (take n fl))"
      unfolding leaves_chunks [OF part_size_pos(2) ne] by (auto simp: hashes_at_def)
    from block_root_of_leaves [OF ne this, of sha1] that show ?thesis by (simp add: block_root_def)
  qed
  then show ?thesis
    by (simp add: build_aich_part_root_from_reader_def read_aich_block_hashes_from_reader_def read_aich_blocks_eq)
qed

lemma collect_eq:
  "0 < n \<Longrightarrow> collect_aich_part_hashes_from_reader sha1 n b fl hs =
     (if n \<le> length fl then Inr (hs @ leaves ED2K_PART_SIZE (block_root sha1) b (take n fl), drop n fl)
      else Inl ShortRead)"
proof (induction n arbitrary: b fl hs rule: less_induct)
  case (less n)
  show ?case
  proof (cases "n \<le> ED2K_PART_SIZE")
    case True
    then show ?thesis
      using part_root_eq [OF less.prems] part_size_pos
      by (subst collect_aich_part_hashes_from_reader.simps, subst leaves.simps) simp
  next
    case False
    let ?ls = "left_size ED2K_PART_SIZE n b"
    have ls: "0 < ?ls" "?ls < n" using part_split False by simp_all
    have "n - ?ls < n" "0 < n - ?ls" using ls by simp_all
    note IH = less.IH [OF ls(2,1)] less.IH [OF this]
    have lv: "leaves ED2K_PART_SIZE (block_root sha1) b (take n fl) =
        leaves ED2K_PART_SIZE (block_root sha1) True (take ?ls fl) @
        leaves ED2K_PART_SIZE (block_root sha1) False (take (n - ?ls) (drop ?ls fl))" if "n \<le> length fl"
      using that False ls part_size_pos by (subst leaves.simps) (simp add: Let_def drop_take min_def)
    show ?thesis
    proof (cases "n \<le> length fl")
      case True
      then show ?thesis using False ls lv [OF True]
        by (subst collect_aich_part_hashes_from_reader.simps) (simp add: Let_def IH)
    next
      case short: False
      show ?thesis
      proof (cases "?ls \<le> length fl")
        case True
        then show ?thesis using short False ls
          by (subst collect_aich_part_hashes_from_reader.simps) (simp add: Let_def IH)
      next
        case ss: False
        then show ?thesis using short False
          by (subst collect_aich_part_hashes_from_reader.simps) (simp add: Let_def IH)
      qed
    qed
  qed
qed

lemma md4_part_hashes_eq:
  "md4_part_hashes md4 n fl hs =
     (if n \<le> length fl then Inr (hs @ map md4 (chunks ED2K_PART_SIZE (take n fl)), drop n fl) else Inl ShortRead)"
proof (induction n arbitrary: fl hs rule: less_induct)
  case (less n)
  show ?case
  proof (cases "n = 0")
    case False
    let ?c = "min n ED2K_PART_SIZE"
    have "n - ?c < n" using False part_size_pos by simp
    note IH = less.IH [OF this, of "drop ?c fl" "hs @ [md4 (take ?c fl)]"]
    have ch: "chunks ED2K_PART_SIZE (take n fl) =
        take ?c fl # chunks ED2K_PART_SIZE (take (n - ?c) (drop ?c fl))" if "n \<le> length fl"
      using that False part_size_pos by (subst chunks.simps) (auto simp: drop_take min_def)
    show ?thesis
    proof (cases "?c \<le> length fl")
      case True
      then have "md4_part_hashes md4 n fl hs = md4_part_hashes md4 (n - ?c) (drop ?c fl) (hs @ [md4 (take ?c fl)])"
        using False by (subst md4_part_hashes.simps) (simp add: read_md4_eq Let_def)
      moreover have "n - ?c \<le> length (drop ?c fl) \<longleftrightarrow> n \<le> length fl" using True by auto
      ultimately show ?thesis unfolding IH using ch by simp
    next
      case short: False
      then show ?thesis using False by (subst md4_part_hashes.simps) (simp add: read_md4_eq Let_def)
    qed
  qed (simp add: md4_part_hashes.simps)
qed

lemma length_chunks: "0 < c \<Longrightarrow> length (chunks c xs) = chunk_count_for_size (length xs) c"
  using leaves_chunks [of c xs id] length_leaves [of c xs "\<lambda>_. id"]
  by (cases "xs = []") (simp_all add: chunk_count_for_size_def)

lemma nth_chunks: "0 < c \<Longrightarrow> i < length (chunks c xs) \<Longrightarrow> chunks c xs ! i = take c (drop (i * c) xs)"
proof (induction i arbitrary: xs)
  case 0
  then show ?case by (subst chunks.simps) (auto simp: chunks.simps)
next
  case (Suc i)
  then have ne: "xs \<noteq> []" by auto
  then have "chunks c xs = take c xs # chunks c (drop c xs)" using Suc.prems(1) by (subst chunks.simps) simp
  then show ?case using Suc.IH [OF Suc.prems(1), of "drop c xs"] Suc.prems(2) by (simp add: add.commute)
qed

lemma div_ceil_chunk_count: "0 < c \<Longrightarrow> (n + c - 1) div c = chunk_count_for_size n c"
proof -
  assume c: "0 < c"
  define q r where "q = n div c" and "r = n mod c"
  have n: "n = q * c + r" "r < c" using c by (simp_all add: q_def r_def)
  have "(n + c - 1) div c = q + (r + c - 1) div c"
    using c unfolding n(1) by (metis Nat.add_diff_assoc add.assoc div_mult_self3 le_add2 less_eq_Suc_le not_less_zero gr_implies_not0 One_nat_def add.commute trans_le_add2)
  moreover have "(r + c - 1) div c = (if r = 0 then 0 else 1)"
    using c n(2) by (auto simp: div_nat_eqI)
  ultimately show ?thesis by (simp add: chunk_count_for_size_def q_def r_def)
qed

lemma chunk_count_le: "0 < c \<Longrightarrow> n \<le> k * c \<longleftrightarrow> chunk_count_for_size n c \<le> k"
proof -
  assume c: "0 < c"
  show ?thesis
  proof (cases "n = 0")
    case False
    then have b: "(chunk_count_for_size n c - 1) * c < n" "n \<le> chunk_count_for_size n c * c"
      using chunk_count_bounds [OF c, of n] by simp_all
    show ?thesis
    proof
      assume "n \<le> k * c"
      then have "(chunk_count_for_size n c - 1) * c < k * c" by (rule less_le_trans [OF b(1)])
      then have "chunk_count_for_size n c - 1 < k" by simp
      then show "chunk_count_for_size n c \<le> k" by arith
    next
      assume "chunk_count_for_size n c \<le> k"
      from mult_le_mono1 [OF this] show "n \<le> k * c" by (rule le_trans [OF b(2)])
    qed
  qed (simp add: chunk_count_for_size_def)
qed

lemma built_hashset:
  assumes "0 < n" "n \<le> length payload"
  shows "build_aich_hashset_from_payload sha1 (Some payload) n = Inr \<lparr> ai_master_hash = aich_root sha1 (take n payload),
    ai_part_hashes = (if n \<le> ED2K_PART_SIZE then [] else leaves ED2K_PART_SIZE (block_root sha1) True (take n payload)) \<rparr>"
proof (cases "n \<le> ED2K_PART_SIZE")
  case True
  moreover have "aich_root sha1 (take n payload) = block_root sha1 True (take n payload)"
    using True assms unfolding aich_root_def by (subst merkle.simps) simp
  ultimately show ?thesis
    using assms part_root_eq [OF assms(1)] by (simp add: build_aich_hashset_from_payload_def)
next
  case False
  let ?hs = "leaves ED2K_PART_SIZE (block_root sha1) True (take n payload)"
  have "take n payload \<noteq> []" using assms by auto
  moreover have "hashes_at ?hs 0 ?hs" unfolding hashes_at_def by (intro exI [of _ "[]"]) simp
  ultimately have "build_part_root sha1 (0 * ED2K_PART_SIZE) (length (take n payload)) True ?hs = Inr (aich_root sha1 (take n payload))"
    unfolding aich_root_def by (rule part_root_of_leaves)
  then have "reconstruct_aich_root_from_part_hashes sha1 n ?hs = Inr (aich_root sha1 (take n payload))"
    using assms(2) by (simp add: reconstruct_aich_root_from_part_hashes_def)
  then show ?thesis
    using False assms collect_eq [OF assms(1)] by (simp add: build_aich_hashset_from_payload_def)
qed

lemma short_file:
  assumes "0 < n" "length payload < n"
  shows "build_aich_hashset_from_payload sha1 (Some payload) n = Inl ShortRead"
  using part_root_eq [OF assms(1)] collect_eq [OF assms(1)] assms by (simp add: build_aich_hashset_from_payload_def)

lemma length_parts:
  assumes "0 < n" "n \<le> length payload"
  shows "length (leaves ED2K_PART_SIZE (block_root sha1) True (take n payload)) = chunk_count_for_size n ED2K_PART_SIZE"
proof -
  have "take n payload \<noteq> []" using assms by auto
  from length_leaves [OF part_size_pos(1) this] assms show ?thesis by simp
qed

lemma validate_built:
  assumes "0 < n" "n \<le> length payload" "build_aich_hashset_from_payload sha1 (Some payload) n = Inr hs"
  shows "validate_aich_hashset sha1 n hs = (if n \<le> 65535 * ED2K_PART_SIZE then Inr () else Inl AichCountMismatch)"
proof -
  let ?hs = "leaves ED2K_PART_SIZE (block_root sha1) True (take n payload)"
  have ne: "take n payload \<noteq> []" using assms by auto
  have "hashes_at ?hs 0 ?hs" unfolding hashes_at_def by (intro exI [of _ "[]"]) simp
  from part_root_of_leaves [OF ne this, of sha1] assms(2)
  have root: "reconstruct_aich_root_from_part_hashes sha1 n ?hs = Inr (aich_root sha1 (take n payload))"
    by (simp add: reconstruct_aich_root_from_part_hashes_def aich_root_def)
  have cap: "u16_capped m = m \<longleftrightarrow> m \<le> 65535" for m by (simp add: u16_capped_def)
  have count: "expected_aich_hash_count n = (if n \<le> ED2K_PART_SIZE then 0 else u16_capped (chunk_count_for_size n ED2K_PART_SIZE))"
    unfolding expected_aich_hash_count_def div_ceil_chunk_count [OF part_size_pos(1)] ..
  have hs: "hs = \<lparr> ai_master_hash = aich_root sha1 (take n payload), ai_part_hashes = (if n \<le> ED2K_PART_SIZE then [] else ?hs) \<rparr>"
    using assms(3) built_hashset [OF assms(1,2), of sha1] by simp
  show ?thesis
  proof (cases "n \<le> ED2K_PART_SIZE")
    case True
    then have "n \<le> 65535 * ED2K_PART_SIZE" by simp
    then show ?thesis using True by (simp add: hs validate_aich_hashset_def count)
  next
    case False
    have len: "length ?hs = chunk_count_for_size n ED2K_PART_SIZE" by (rule length_parts [OF assms(1,2)])
    have pos: "0 < chunk_count_for_size n ED2K_PART_SIZE" using chunk_count_bounds(3) [OF part_size_pos(1) assms(1)] .
    show ?thesis
    proof (cases "n \<le> 65535 * ED2K_PART_SIZE")
      case True
      then have "u16_capped (chunk_count_for_size n ED2K_PART_SIZE) = chunk_count_for_size n ED2K_PART_SIZE"
        unfolding cap using chunk_count_le [OF part_size_pos(1)] by blast
      then show ?thesis using True False len pos root by (simp add: hs validate_aich_hashset_def count)
    next
      case big: False
      then have "chunk_count_for_size n ED2K_PART_SIZE \<noteq> u16_capped (chunk_count_for_size n ED2K_PART_SIZE)"
        using cap chunk_count_le [OF part_size_pos(1)] by metis
      then show ?thesis using big False len by (simp add: hs validate_aich_hashset_def count)
    qed
  qed
qed

text \<open>
  C26. The AICH root is the tree over the content. For a non-empty file that is long enough, the code
  that streams it block by block, collects the hashes of the parts and rebuilds the root from them
  returns the root of the two-level hash tree over the content, and a hash for every part of a file
  of more than one part; the hashset it returns is accepted exactly if the file has at most 65535
  parts. A file that is too short is reported.
\<close>

theorem aich_root_is_tree:
  assumes "0 < n"
  shows "build_aich_hashset_from_payload sha1 (Some payload) n =
    (if length payload < n then Inl ShortRead
     else Inr \<lparr> ai_master_hash = aich_root sha1 (take n payload),
       ai_part_hashes = (if n \<le> ED2K_PART_SIZE then [] else leaves ED2K_PART_SIZE (block_root sha1) True (take n payload)) \<rparr>) \<and>
    (\<forall>hs. build_aich_hashset_from_payload sha1 (Some payload) n = Inr hs \<longrightarrow>
       length (ai_part_hashes hs) = (if n \<le> ED2K_PART_SIZE then 0 else chunk_count_for_size n ED2K_PART_SIZE) \<and>
       validate_aich_hashset sha1 n hs = (if n \<le> 65535 * ED2K_PART_SIZE then Inr () else Inl AichCountMismatch))"
proof (cases "length payload < n")
  case True
  then show ?thesis using short_file [OF assms True, of sha1] by simp
next
  case False
  then have le: "n \<le> length payload" by simp
  from validate_built [OF assms le, of sha1] show ?thesis
    using False length_parts [OF assms le, of sha1] unfolding built_hashset [OF assms le] by auto
qed

lemma decode_encoded: "hex_ok H \<Longrightarrow> length h = 20 \<Longrightarrow> decode_aich_hash_hex H (hex_encode H h) = Inr h"
  by (simp add: decode_aich_hash_hex_def hex_ok_def)

lemma decode_encoded_parts:
  "hex_ok H \<Longrightarrow> list_all (\<lambda>h. length h = 20) hs \<Longrightarrow> decode_part_hashes H (map (hex_encode H) hs) = Inr hs"
  by (induction hs) (simp_all add: decode_encoded)

lemma length_merkle:
  assumes "\<And>bs. length (sha1 bs) = 20" "\<And>b bs. length (leaf b bs) = 20"
  shows "length (merkle sha1 c leaf b data) = 20"
  using assms by (subst merkle.simps) (simp add: Let_def)

lemma length_leaf_hashes: "(\<And>b bs. length (leaf b bs) = 20) \<Longrightarrow> list_all (\<lambda>h. length h = 20) (leaves c leaf b data)"
  by (induction c leaf b data rule: leaves.induct) (subst leaves.simps, auto simp: Let_def)

text \<open>
  C28. What is stored with a completed file is read back. If no root was learned before, a completed
  file of at most 65535 parts gets the root and part hashes of its content, and reading them from
  the manifest returns them; for a larger file they are stored as well, and reading them fails. A
  root that was learned is kept.
\<close>

theorem aich_manifest_round_trip:
  assumes "hex_ok H" "\<And>bs. length (sha1 bs) = 20" "0 < mf_file_size m" "mf_file_size m \<le> length payload"
  shows "\<exists>m'. refresh_completed_manifest_aich_hashset sha1 H (Some payload) m = Inr m' \<and>
    (if mf_aich_root m \<noteq> None then m' = m
     else mf_file_size m' = mf_file_size m \<and> decode_manifest_aich_hashset sha1 H m' =
       (if mf_file_size m \<le> 65535 * ED2K_PART_SIZE
        then build_aich_hashset_from_payload sha1 (Some payload) (mf_file_size m) else Inl AichCountMismatch))"
proof -
  let ?n = "mf_file_size m"
  obtain hs where hs: "build_aich_hashset_from_payload sha1 (Some payload) ?n = Inr hs"
    using built_hashset [OF assms(3,4)] by blast
  have block: "length (block_root sha1 b bs) = 20" for b bs
    unfolding block_root_def using assms(2) by (intro length_merkle)
  have len: "length (ai_master_hash hs) = 20" "list_all (\<lambda>h. length h = 20) (ai_part_hashes hs)"
    using hs unfolding built_hashset [OF assms(3,4)] aich_root_def
    using length_merkle [of sha1 "block_root sha1"] length_leaf_hashes [of "block_root sha1"] assms(2) block by auto
  show ?thesis
    using validate_built [OF assms(3,4) hs] decode_encoded [OF assms(1) len(1)] decode_encoded_parts [OF assms(1) len(2)]
    by (cases "mf_aich_root m"; cases hs)
      (simp_all add: refresh_completed_manifest_aich_hashset_def decode_manifest_aich_hashset_def hs Let_def)
qed

text \<open>
  C27. The MD4 hashset that is built is one that is accepted. For a non-empty file that is long enough
  the file hash and the part hashes are built; a file of less than a part has its own digest as file
  hash and no part hashes; otherwise there is one digest per part, and for a whole number of parts
  one more, of nothing; and they reproduce the file hash. Their number is the expected one exactly if
  the file has less than 65535 whole parts: from there on the expected number is capped, so that the
  check on the number refuses the hashset just built.
\<close>

theorem md4_hashset_accepted:
  assumes "0 < n" "n \<le> length payload"
  shows "\<exists>h hs. build_md4_hashset_from_payload md4 (Some payload) n = Inr (h, hs) \<and>
    validate_md4_hashset md4 (ed2k_display h) hs = Inr () \<and>
    (if n < ED2K_PART_SIZE then hs = [] \<and> h = Ed2kHash (md4 (take n payload))
     else length hs = n div ED2K_PART_SIZE + 1 \<and>
       (\<forall>i < length hs. hs ! i = md4 (take ED2K_PART_SIZE (drop (i * ED2K_PART_SIZE) (take n payload))))) \<and>
    (length hs = expected_md4_hash_count n \<longleftrightarrow> n div ED2K_PART_SIZE < 65535)"
proof (cases "n < ED2K_PART_SIZE")
  case True
  then show ?thesis
    using assms by (simp add: build_md4_hashset_from_payload_def read_md4_eq validate_md4_hashset_def parse_file_hash_def
        ed2k_from_str_display expected_md4_hash_count_def u16_capped_def)
next
  case False
  let ?P = ED2K_PART_SIZE and ?xs = "take n payload"
  define hs where "hs = map md4 (chunks ?P ?xs) @ (if n mod ?P = 0 then [md4 []] else [])"
  have len: "length (chunks ?P ?xs) = chunk_count_for_size n ?P" using length_chunks [OF part_size_pos(1), of ?xs] assms by simp
  have q: "0 < n div ?P" using False part_size_pos by (simp add: div_greater_zero_iff)
  have built: "build_md4_hashset_from_payload md4 (Some payload) n = Inr (Ed2kHash (md4 (concat (map list16 hs))), hs)"
    using assms False by (simp add: build_md4_hashset_from_payload_def md4_part_hashes_eq read_md4_eq hs_def)
  have n: "length hs = n div ?P + 1" by (simp add: hs_def len chunk_count_for_size_def)
  have nth: "hs ! i = md4 (take ?P (drop (i * ?P) ?xs))" if "i < length hs" for i
  proof (cases "i < length (chunks ?P ?xs)")
    case True
    then show ?thesis using nth_chunks [OF part_size_pos(1) True] by (simp add: hs_def nth_append)
  next
    case last: False
    then have m: "n mod ?P = 0" "i = n div ?P" using that by (auto simp: hs_def len chunk_count_for_size_def split: if_splits)
    then have "i * ?P = n" by (metis mod_0_imp_dvd dvd_div_mult_self)
    then show ?thesis using last m(1) by (simp add: hs_def nth_append that len chunk_count_for_size_def m(2))
  qed
  have "validate_md4_hashset md4 (ed2k_display (Ed2kHash (md4 (concat (map list16 hs))))) hs = Inr ()"
    by (simp add: validate_md4_hashset_def parse_file_hash_def ed2k_from_str_display)
  moreover have "length hs = expected_md4_hash_count n \<longleftrightarrow> n div ?P < 65535"
    using q assms(1) by (auto simp: n expected_md4_hash_count_def u16_capped_def Let_def split: if_splits)
  ultimately show ?thesis using built n nth False by (intro exI [of _ "Ed2kHash (md4 (concat (map list16 hs)))"] exI [of _ hs]) simp
qed

subsection \<open>A file of three bytes\<close>

theorem aich_root_is_tree_witness:
  "build_aich_hashset_from_payload (\<lambda>bs. replicate 20 (of_nat (length bs))) (Some [7, 8, 9]) 3 =
     Inr \<lparr> ai_master_hash = replicate 20 3, ai_part_hashes = [] \<rparr>"
proof -
  have small: "\<not> ED2K_PART_SIZE < 3" "\<not> ED2K_EMBLOCK_SIZE < 3" by (simp_all add: ED2K_PART_SIZE_def ED2K_EMBLOCK_SIZE_def)
  have "aich_root (\<lambda>bs. replicate 20 (of_nat (length bs))) [7, 8, 9] = replicate 20 3"
    using small unfolding aich_root_def block_root_def by (subst merkle.simps, subst merkle.simps) simp
  then show ?thesis
    using aich_root_is_tree [of 3 "\<lambda>bs. replicate 20 (of_nat (length bs))" "[7, 8, 9]"] small by simp
qed

theorem md4_hashset_accepted_witness:
  "\<exists>h. build_md4_hashset_from_payload (\<lambda>bs. Arr16 (replicate 16 (of_nat (length bs)))) (Some [7, 8, 9]) 3 = Inr (h, []) \<and>
     validate_md4_hashset (\<lambda>bs. Arr16 (replicate 16 (of_nat (length bs)))) (ed2k_display h) [] = Inr () \<and>
     h = Ed2kHash (Arr16 (replicate 16 3)) \<and> expected_md4_hash_count 3 = 0"
  using md4_hashset_accepted [of 3 "[7, 8, 9]" "\<lambda>bs. Arr16 (replicate 16 (of_nat (length bs)))"]
  by (auto simp: ED2K_PART_SIZE_def)

theorem aich_manifest_round_trip_witness:
  "\<exists>m'. refresh_completed_manifest_aich_hashset (\<lambda>bs. replicate 20 (of_nat (length bs))) std_hex (Some [7, 8, 9])
       \<lparr> mf_file_size = 3, mf_aich_hashset_acquired = False, mf_aich_root = None, mf_aich_hashset = [] \<rparr> = Inr m' \<and>
     decode_manifest_aich_hashset (\<lambda>bs. replicate 20 (of_nat (length bs))) std_hex m' =
       build_aich_hashset_from_payload (\<lambda>bs. replicate 20 (of_nat (length bs))) (Some [7, 8, 9]) 3"
  using aich_manifest_round_trip [OF std_hex_ok, where ?sha1.0 = "\<lambda>bs. replicate 20 (of_nat (length bs))" and payload = "[7, 8, 9]"
    and m = "\<lparr> mf_file_size = 3, mf_aich_hashset_acquired = False, mf_aich_root = None, mf_aich_hashset = [] \<rparr>"]
  by (auto simp: ED2K_PART_SIZE_def)

end
