(* ===== verification/Spec2Isabelle.thy ===== *)
theory Spec2Isabelle
  imports Kad_Tracker_Props Kad_Unsolicited_Props Agent_Publish_Props Ed2k_Upload_Props Ed2k_Hashset_Props
begin

text \<open>
  Verification of p2p-overlord-agents, a Rust agent that takes part in the Kad network and the eD2k
  network of eMule. All paths below are relative to \<open>src/crates\<close>.

  \<^bold>\<open>The program.\<close> A datagram comes in through \<open>overlord-kad-net\<close>: it is decrypted
  (\<open>obfuscation\<close>), decoded by \<open>overlord-kad-proto\<close>, checked against the flood limits and matched with
  the outstanding requests (\<open>tracker.rs\<close>, \<open>rpc\<close>). A response wakes the request that waits for it;
  everything else goes to the agent (\<open>overlord-agent-emule\<close>), whose handler of unsolicited packets
  reads and changes the routing table (\<open>overlord-kad-routing\<close>), the local publish store
  (\<open>kad_store.rs\<close>), the queue of harvested searches (\<open>snoop_queue.rs\<close>) and the firewall state
  (\<open>kad_firewall.rs\<close>) and sends answers. The other direction is \<open>overlord-kad-dht\<close>: bootstrap,
  iterative lookups, searches and publishes on top of requests, which the agent's publishing side
  (\<open>agent/publish.rs\<close>, \<open>agent/publish_runtime.rs\<close>, \<open>agent/background_publish.rs\<close>) drives in batches. On
  the eD2k side, \<open>ed2k_transfer/hashset.rs\<close> computes and checks the digests of shared files and
  \<open>ed2k_transfer/upload_queue.rs\<close> decides which peers may download from the agent.

  \<^bold>\<open>How the code is modelled.\<close> Structures are records, enumerations datatypes, fixed-width integers
  words (\<open>+\<close> wraps, the saturating operations are written out), byte slices and strings lists of
  bytes. A method that changes its receiver takes and returns the state. A \<open>Result\<close> is a sum, \<open>Inl\<close>
  the error; \<open>None\<close> of an outer option is a panic. A hash map is an association list or a map, with
  the results shown not to depend on its order where the code iterates. Instants are natural numbers
  of nanoseconds, calendar times integers. What other tasks do between two awaits, which answers
  arrive in which order and what the clock shows are arguments of the definitions, so the theorems
  hold for every schedule. What the code does between two awaits is one step; so are registering and
  sending a request, reading the table size after the bootstrap lookup, and a write to a file, which
  is taken to succeed or to leave the file as it was. Expiry times of stored publishes are exact sums;
  the ranges of the calendar types are modelled in \<open>Snoop_Queue\<close>, where subtracting a configured time
  can panic. Code outside the repository is an argument as well: the integer codecs of
  \<open>binrw\<close>, the decoder of \<open>encoding_rs\<close> and the inflater of \<open>flate2\<close> (record \<open>ext\<close>, laws \<open>binrw_ok\<close> and
  \<open>encoding_ok\<close> in \<open>Wire\<close>), MD4, MD5 and SHA-1, the \<open>hex\<close> crate, \<open>to_lowercase\<close> and the alphanumeric
  test of Unicode, and the random generator.

  \<^bold>\<open>Theories.\<close>
  \<^item> \<open>Prelude\<close>, \<open>Rust_Std\<close>, \<open>Utf8\<close>, \<open>Hex_Text\<close>, \<open>Wire\<close>: lists, counters and results; saturating
    arithmetic, stable sorting, addresses; strings; \<open>Display\<close> and \<open>FromStr\<close> of identifiers
    (\<open>node_id.rs\<close>, \<open>hash.rs\<close>); byte readers and writers, with the locales \<open>codec\<close> (a reader that
    reads back what the writer wrote) and \<open>sound_reader\<close> (a reader whose results are well formed).
  \<^item> \<open>Node_Id\<close>: identifiers, chunks, XOR distance and order (\<open>overlord-kad-proto/src/node_id.rs\<close>).
  \<^item> \<open>Routing_Bin\<close>, \<open>Routing_Zone\<close>, \<open>Routing_Table\<close>: \<open>overlord-kad-routing/src\<close>, one theory per file. The
    locale \<open>contact_tree\<close> states what the table needs of its tree of zones.
  \<^item> \<open>Tag\<close>, \<open>Kad_Packet\<close>, \<open>Kad_Packet_Codec\<close>: tags, packet types, \<open>decode\<close> and \<open>encode\<close>
    (\<open>overlord-kad-proto/src/tag.rs\<close>, \<open>packet.rs\<close>, \<open>packet\<close>).
  \<^item> \<open>Kad_Obfuscation\<close>, \<open>Kad_Tracker\<close>, \<open>Kad_Rpc\<close> and their \<open>_Props\<close>: \<open>overlord-kad-net/src\<close>.
  \<^item> \<open>Kad_Search_Expr\<close>, \<open>Kad_Store\<close>, \<open>Kad_Store_Props\<close>, \<open>Kad_Store_Search\<close>: the expression language of
    keyword searches and the publish store (\<open>kad_search_expr.rs\<close>, \<open>kad_store.rs\<close>); the locale
    \<open>bounded_upsert\<close> is the contract of its three caches.
  \<^item> \<open>Snoop_Queue\<close>, \<open>Snoop_Queue_Props\<close>: \<open>snoop_queue.rs\<close> and \<open>agent/snoop.rs\<close>; the locale
    \<open>replay_picker\<close> covers the three kinds of replay.
  \<^item> \<open>Kad_Firewall\<close>, \<open>Kad_Firewall_Props\<close>: \<open>kad_firewall.rs\<close>.
  \<^item> \<open>Kad_Unsolicited\<close>, \<open>Kad_Unsolicited_Props\<close>: the handler of unsolicited packets
    (\<open>agent/kad_unsolicited.rs\<close>, \<open>agent/kad_runtime.rs\<close>, \<open>agent/passive_replay.rs\<close>), the composition of
    all of the above.
  \<^item> \<open>Kad_Traversal\<close>, \<open>Kad_Dht_Ops\<close>, \<open>Kad_Bootstrap\<close> and their \<open>_Props\<close>: \<open>overlord-kad-dht/src\<close>; the
    locale \<open>result_stream\<close> is the contract of the three result streams.
  \<^item> \<open>Agent_Publish\<close>, \<open>Agent_Publish_Props\<close>: the publishing side of the agent.
  \<^item> \<open>Ed2k_Upload_Queue\<close>, \<open>Ed2k_Upload_Props\<close>: \<open>ed2k_transfer/upload_queue.rs\<close>.
  \<^item> \<open>Ed2k_Hashset\<close>, \<open>Ed2k_Hashset_Props\<close>: \<open>ed2k_transfer/hashset.rs\<close>.

  \<^bold>\<open>What is shown.\<close> Every numbered property stands behind a text that states it.
  \<^item> Wire: an encoded packet decodes to the packet in its normal form, decoding only yields valid
    packets, encoding panics exactly on oversized ones; an obfuscated datagram is read by its receiver, and the verify
    keys of two peers that talk to each other agree.
  \<^item> Routing table: insertion always ends, keeps the invariant with exact counters and limits, and
    the table is a finite map of which \<open>get_closest\<close> returns the nearest entries in order.
  \<^item> Network boundary: only requested responses are delivered, each once, and an address gets less
    than twice the configured number of packets through in any window.
  \<^item> Handler: if the entries in the store can be written, it returns on every packet, keeps the
    invariants of all the components, and sends to the sender only; a lookup request that arrives encrypted is answered
    with the nearest contacts known.
  \<^item> Store: within its limits (the constants of the code plus one) and without duplicate keyword
    entries, and searches return unexpired entries that match. Harvested searches: replayed within a
    budget, and whenever there is work, as long as the configured times can be computed with.
  \<^item> Lookups: they end, ask every contact at most once, keep the influence of one response bounded
    and find the closest contact of a network in which everybody knows somebody closer. Searches
    report every result once; publishes go to the nearest contacts that are near enough, and their
    counters are exact.
  \<^item> Agent: a published source is found again, batches are counted once with the sums of their
    publishes, the seeds come up in turn, the user hash survives restarts; and the bootstrap loop ends
    with the first round that is answered, even with too few contacts.
  \<^item> Upload queue: bounds on slots and waiters, no idle slot, first come, first served.
  \<^item> Hashsets: the streamed AICH computation is a hash tree over the content, and the MD4 and AICH
    hashsets that are built are accepted, up to the 65535 parts that fit their counter.

  \<^bold>\<open>Bounds and fuel.\<close> \<open>zone_add\<close> has fuel \<open>ADD_FUEL\<close> = 256, because adding and splitting call each other;
  a path of the tree has at most 128 zones and each level costs at most two calls, and
  \<open>add_contact_total\<close> shows that it never runs out. \<open>lookup_loop\<close>, \<open>promote_waiters\<close> and
  \<open>trim_waiting_queue\<close> and the recursions over a file have termination proofs. The background loops run over a list of rounds, of any
  length; creating a user hash draws until a draw is usable and is a \<open>partial_function\<close>, shown to
  return if such a draw ever comes.

  \<^bold>\<open>Not modelled.\<close>
  \<^item> \<open>miniupnpc-sys\<close>, \<open>miniupnpc\<close>, \<open>overlord-agent-nat\<close>: calls into a C library and the network, with
    timeouts; what they decide depends on devices whose behaviour nothing in the repository states.
  \<^item> \<open>overlord-agent-common\<close> (\<open>client.rs\<close>, \<open>server.rs\<close>, \<open>service.rs\<close>), \<open>agent/service.rs\<close>,
    \<open>agent/control_runtime.rs\<close>: an HTTP client and server around the agent's state.
  \<^item> \<open>rate_limit.rs\<close>: a token bucket in floating point that only delays; the send functions are
    modelled without the delay. \<open>transport.rs\<close>, \<open>wire_dump.rs\<close>, \<open>logging.rs\<close>, \<open>activity.rs\<close>: sockets, log
    lines and a progress display that nothing reads back.
  \<^item> Background tasks other than publishing, the packet handler and bootstrap: timers around modelled
    operations. \<open>config.rs\<close>: parsing of the configuration file.
  \<^item> The workers of \<open>agent/passive_replay.rs\<close> that replay harvested searches, and their statistics; the
    transfer of the snoop queue to and from the coordinator in \<open>agent/snoop.rs\<close>; the files of
    \<open>agent/lifecycle.rs\<close> that keep the node identity, the indexer identity and the UDP key.
  \<^item> The rest of the eD2k side (\<open>ed2k_tcp\<close>, \<open>ed2k_server\<close>, the piece store in \<open>ed2k_transfer\<close>,
    \<open>agent/ed2k_download\<close>, \<open>agent/ed2k_search.rs\<close>) apart from the upload queue, the hashsets, the shared
    catalogue's hints and the connection options: not reached by this development.
  \<^item> \<open>overlord-tools\<close> and the tests.
\<close>

end
